(* ===== verification/Cdp_Prelude.thy ===== *)
theory Cdp_Prelude
  imports Main "HOL-Library.Word"
begin

text \<open>
  Shared vocabulary of the development: the machine integers and byte strings of the Rust
  sources, the parts of the standard library of Rust that several crates use (string
  splitting, trimming, prefixes, decimal and hexadecimal text), the loops that several crates
  repeat (a constant-time comparison, an order-preserving union), and the generic lemmas on
  them. A Rust string is UTF-8; it is modelled by its bytes, a HOL \<open>string\<close>, so \<open>length\<close> is
  Rust's \<open>len\<close>. A panic is the value \<open>Panic\<close>.
\<close>

unbundle bit_operations_syntax

named_theorems rust_simps \<open>evaluation rules of the standard library functions\<close>

type_synonym u8 = "8 word"
type_synonym u16 = "16 word"
type_synonym u32 = "32 word"
type_synonym u64 = "64 word"
type_synonym bytes = "u8 list"

datatype 'a outcome = Panic | Ret 'a

section \<open>Strings\<close>

definition as_bytes :: "string \<Rightarrow> bytes" where
  "as_bytes s = map of_char s"

fun split_on :: "char \<Rightarrow> string \<Rightarrow> string list" where
  "split_on d [] = [[]]"
| "split_on d (c # cs) =
     (if c = d then [] # split_on d cs
      else (case split_on d cs of [] \<Rightarrow> [[c]] | p # ps \<Rightarrow> (c # p) # ps))"

fun strip_prefix :: "string \<Rightarrow> string \<Rightarrow> string option" where
  "strip_prefix [] s = Some s"
| "strip_prefix (p # ps) [] = None"
| "strip_prefix (p # ps) (c # cs) = (if p = c then strip_prefix ps cs else None)"

fun join :: "string \<Rightarrow> string list \<Rightarrow> string" where
  "join sep [] = []"
| "join sep [x] = x"
| "join sep (x # y # ys) = x @ sep @ join sep (y # ys)"

fun str_contains :: "string \<Rightarrow> string \<Rightarrow> bool" where
  "str_contains [] pat = (pat = [])"
| "str_contains (c # cs) pat =
     (strip_prefix pat (c # cs) \<noteq> None \<or> str_contains cs pat)"

definition is_cont :: "char \<Rightarrow> bool" where
  "is_cont c \<longleftrightarrow> 128 \<le> (of_char c :: nat) \<and> (of_char c :: nat) < 192"

definition is_ascii :: "string \<Rightarrow> bool" where
  "is_ascii s \<longleftrightarrow> list_all (\<lambda>c. (of_char c :: nat) < 128) s"

definition char_count :: "string \<Rightarrow> nat" where
  "char_count s = length (filter (\<lambda>c. \<not> is_cont c) s)"

text \<open>
  The first \<open>n\<close> scalar values of a UTF-8 string: bytes are copied until the lead byte of
  scalar value \<open>n + 1\<close>.
\<close>

fun take_chars :: "nat \<Rightarrow> string \<Rightarrow> string" where
  "take_chars n [] = []"
| "take_chars n (c # cs) =
     (if is_cont c then c # take_chars n cs
      else (case n of 0 \<Rightarrow> [] | Suc m \<Rightarrow> c # take_chars m cs))"

text \<open>
  The UTF-8 encodings of the scalar values with the property \<open>White_Space\<close>, which
  \<open>str::trim\<close> removes: U+0009 to U+000D, U+0020, U+0085, U+00A0, U+1680, U+2000 to U+200A,
  U+2028, U+2029, U+202F, U+205F and U+3000.
\<close>

definition ws_encodings :: "string list" where
  "ws_encodings =
     [[CHR 0x09], [CHR 0x0A], [CHR 0x0B], [CHR 0x0C], [CHR 0x0D], [CHR 0x20],
      [CHR 0xC2, CHR 0x85], [CHR 0xC2, CHR 0xA0], [CHR 0xE1, CHR 0x9A, CHR 0x80],
      [CHR 0xE2, CHR 0x80, CHR 0x80], [CHR 0xE2, CHR 0x80, CHR 0x81],
      [CHR 0xE2, CHR 0x80, CHR 0x82], [CHR 0xE2, CHR 0x80, CHR 0x83],
      [CHR 0xE2, CHR 0x80, CHR 0x84], [CHR 0xE2, CHR 0x80, CHR 0x85],
      [CHR 0xE2, CHR 0x80, CHR 0x86], [CHR 0xE2, CHR 0x80, CHR 0x87],
      [CHR 0xE2, CHR 0x80, CHR 0x88], [CHR 0xE2, CHR 0x80, CHR 0x89],
      [CHR 0xE2, CHR 0x80, CHR 0x8A], [CHR 0xE2, CHR 0x80, CHR 0xA8],
      [CHR 0xE2, CHR 0x80, CHR 0xA9], [CHR 0xE2, CHR 0x80, CHR 0xAF],
      [CHR 0xE2, CHR 0x81, CHR 0x9F], [CHR 0xE3, CHR 0x80, CHR 0x80]]"

fun strip_first :: "string list \<Rightarrow> string \<Rightarrow> string option" where
  "strip_first [] s = None"
| "strip_first (p # ps) s =
     (case strip_prefix p s of Some t \<Rightarrow> Some t | None \<Rightarrow> strip_first ps s)"

fun trim_with :: "string list \<Rightarrow> nat \<Rightarrow> string \<Rightarrow> string" where
  "trim_with ps 0 s = s"
| "trim_with ps (Suc n) s = (case strip_first ps s of None \<Rightarrow> s | Some t \<Rightarrow> trim_with ps n t)"

definition trim_start :: "string \<Rightarrow> string" where
  "trim_start s = trim_with ws_encodings (length s) s"

definition trim_end :: "string \<Rightarrow> string" where
  "trim_end s = rev (trim_with (map rev ws_encodings) (length s) (rev s))"

definition trim :: "string \<Rightarrow> string" where
  "trim s = trim_end (trim_start s)"

definition ascii_lower :: "char \<Rightarrow> char" where
  "ascii_lower c =
     (if 65 \<le> (of_char c :: nat) \<and> (of_char c :: nat) \<le> 90
      then char_of ((of_char c :: nat) + 32) else c)"

definition eq_ignore_ascii_case :: "string \<Rightarrow> string \<Rightarrow> bool" where
  "eq_ignore_ascii_case a b \<longleftrightarrow> map ascii_lower a = map ascii_lower b"

section \<open>Decimal and hexadecimal text\<close>

definition digit_char :: "nat \<Rightarrow> char" where
  "digit_char d = (if d < 10 then char_of (48 + d) else char_of (87 + d))"

fun show_nat :: "nat \<Rightarrow> string" where
  "show_nat n = (if n < 10 then [digit_char n] else show_nat (n div 10) @ [digit_char (n mod 10)])"

declare show_nat.simps [simp del]

text \<open>
  \<open>str::parse\<close> for an unsigned type with the given maximum: one optional plus sign, at least one
  decimal digit and nothing else, and no overflow.
\<close>

definition dec_digit :: "char \<Rightarrow> nat option" where
  "dec_digit c =
     (let n = (of_char c :: nat) in if 48 \<le> n \<and> n \<le> 57 then Some (n - 48) else None)"

fun dec_value :: "nat \<Rightarrow> string \<Rightarrow> nat option" where
  "dec_value acc [] = Some acc"
| "dec_value acc (c # cs) =
     (case dec_digit c of None \<Rightarrow> None | Some d \<Rightarrow> dec_value (acc * 10 + d) cs)"

definition parse_uint :: "nat \<Rightarrow> string \<Rightarrow> nat option" where
  "parse_uint limit s =
     (let digits = (case s of [] \<Rightarrow> [] | c # cs \<Rightarrow> if c = CHR ''+'' then cs else s) in
      if digits = [] then None
      else (case dec_value 0 digits of
              None \<Rightarrow> None
            | Some n \<Rightarrow> if n \<le> limit then Some n else None))"

text \<open>\<open>str::split_whitespace\<close>; the first argument bounds the number of steps by the length.\<close>

fun ws_words :: "nat \<Rightarrow> string \<Rightarrow> string \<Rightarrow> string list" where
  "ws_words 0 word s = (if word = [] then [] else [word])"
| "ws_words (Suc n) word s =
     (case strip_first ws_encodings s of
        Some t \<Rightarrow> (if word = [] then [] else [word]) @ ws_words n [] t
      | None \<Rightarrow> (case s of
                   [] \<Rightarrow> if word = [] then [] else [word]
                 | c # cs \<Rightarrow> ws_words n (word @ [c]) cs))"

definition split_whitespace :: "string \<Rightarrow> string list" where
  "split_whitespace s = ws_words (length s) [] s"

definition hex_byte :: "u8 \<Rightarrow> string" where
  "hex_byte b = [digit_char (unat b div 16), digit_char (unat b mod 16)]"

definition hex_encode :: "bytes \<Rightarrow> string" where
  "hex_encode bs = concat (map hex_byte bs)"

definition hex_digit :: "char \<Rightarrow> nat option" where
  "hex_digit c =
     (let n = (of_char c :: nat) in
      if 48 \<le> n \<and> n \<le> 57 then Some (n - 48)
      else if 97 \<le> n \<and> n \<le> 102 then Some (n - 87)
      else if 65 \<le> n \<and> n \<le> 70 then Some (n - 55)
      else None)"

text \<open>
  \<open>u8::from_str_radix (s, 16)\<close> for a slice of two bytes. The standard library accepts one
  leading plus sign and rejects a minus sign on an unsigned type.
\<close>

definition u8_from_hex2 :: "char \<Rightarrow> char \<Rightarrow> u8 option" where
  "u8_from_hex2 a b =
     (if a = CHR ''+'' then map_option word_of_nat (hex_digit b)
      else (case (hex_digit a, hex_digit b) of
              (Some x, Some y) \<Rightarrow> Some (word_of_nat (16 * x + y))
            | _ \<Rightarrow> None))"

text \<open>
  The loop \<open>(0..len).step_by(2).map(|i| u8::from_str_radix(&s[i..i + 2], 16).ok()).collect()\<close>
  shared by the hexadecimal decoders. A slice whose end is not on a character boundary panics;
  the iterator stops at the first pair that does not parse.
\<close>

fun decode_pairs :: "string \<Rightarrow> bytes option outcome" where
  "decode_pairs [] = Ret (Some [])"
| "decode_pairs [a] = Ret None"
| "decode_pairs (a # b # rest) =
     (if rest \<noteq> [] \<and> is_cont (hd rest) then Panic
      else (case u8_from_hex2 a b of
              None \<Rightarrow> Ret None
            | Some x \<Rightarrow>
                (case decode_pairs rest of
                   Panic \<Rightarrow> Panic
                 | Ret None \<Rightarrow> Ret None
                 | Ret (Some xs) \<Rightarrow> Ret (Some (x # xs)))))"

section \<open>Loops shared by the crates\<close>

text \<open>The accumulator of the constant-time comparisons: \<open>diff |= x ^ y\<close> over two slices.\<close>

fun xor_diff :: "u8 \<Rightarrow> bytes \<Rightarrow> bytes \<Rightarrow> u8" where
  "xor_diff d (x # xs) (y # ys) = xor_diff (d OR (x XOR y)) xs ys"
| "xor_diff d _ _ = d"

text \<open>The loop \<open>for x in b { if !a.contains(x) { a.push(x) } }\<close>.\<close>

fun push_missing :: "'a list \<Rightarrow> 'a list \<Rightarrow> 'a list" where
  "push_missing acc [] = acc"
| "push_missing acc (x # xs) =
     push_missing (if x \<in> set acc then acc else acc @ [x]) xs"

text \<open>\<open>Iterator::find\<close> with a predicate that may panic.\<close>

fun find_outcome :: "('a \<Rightarrow> bool outcome) \<Rightarrow> 'a list \<Rightarrow> 'a option outcome" where
  "find_outcome p [] = Ret None"
| "find_outcome p (x # xs) =
     (case p x of
        Panic \<Rightarrow> Panic
      | Ret b \<Rightarrow> if b then Ret (Some x) else find_outcome p xs)"

section \<open>Lemmas on strings\<close>

lemma strip_prefix_Some: "strip_prefix p s = Some t \<longleftrightarrow> s = p @ t"
  by (induction p s rule: strip_prefix.induct) auto

lemma strip_prefix_None: "strip_prefix p s = None \<longleftrightarrow> (\<nexists>t. s = p @ t)"
  by (metis not_None_eq strip_prefix_Some)

lemma strip_prefix_append [simp]: "strip_prefix p (p @ t) = Some t"
  by (simp add: strip_prefix_Some)

lemma split_on_not_Nil [simp]: "split_on d s \<noteq> []"
  by (induction s) (auto split: list.splits)

lemma split_on_no_sep: "p \<in> set (split_on d s) \<Longrightarrow> d \<notin> set p"
  by (induction s arbitrary: p) (fastforce split: list.splits if_splits)+

lemma join_split_on: "join [d] (split_on d s) = s"
proof (induction s)
  case (Cons c cs)
  obtain p ps where sp: "split_on d cs = p # ps"
    by (cases "split_on d cs") auto
  with Cons show ?case by (cases ps) auto
qed simp

lemma split_on_no_sep_id: "d \<notin> set s \<Longrightarrow> split_on d s = [s]"
  by (induction s) auto

lemma split_on_append_sep:
  "d \<notin> set a \<Longrightarrow> split_on d (a @ d # b) = a # split_on d b"
  by (induction a) auto

lemma split_on_join:
  "names \<noteq> [] \<Longrightarrow> \<forall>name \<in> set names. d \<notin> set name \<Longrightarrow> split_on d (join [d] names) = names"
  by (induction names rule: induct_list012) (simp_all add: split_on_no_sep_id split_on_append_sep)

lemma is_cont_not_ascii: "is_ascii s \<Longrightarrow> c \<in> set s \<Longrightarrow> \<not> is_cont c"
  by (auto simp: is_ascii_def is_cont_def list_all_iff)

lemma is_ascii_Nil [simp]: "is_ascii []"
  by (simp add: is_ascii_def)

lemma is_ascii_Cons [simp]: "is_ascii (c # cs) \<longleftrightarrow> (of_char c :: nat) < 128 \<and> is_ascii cs"
  by (simp add: is_ascii_def)

lemma is_ascii_append [simp]: "is_ascii (a @ b) \<longleftrightarrow> is_ascii a \<and> is_ascii b"
  by (simp add: is_ascii_def)

lemma char_count_le_length: "char_count s \<le> length s"
  by (simp add: char_count_def)

lemma char_count_append [simp]: "char_count (a @ b) = char_count a + char_count b"
  by (simp add: char_count_def)

lemma char_count_take_chars: "char_count (take_chars n s) \<le> n"
  by (induction n s rule: take_chars.induct) (auto simp: char_count_def split: nat.splits)

lemma take_chars_prefix: "\<exists>t. s = take_chars n s @ t"
  by (induction n s rule: take_chars.induct) (auto split: nat.splits)

lemma eq_ignore_ascii_case_refl [simp]: "eq_ignore_ascii_case a a"
  by (simp add: eq_ignore_ascii_case_def)

section \<open>Lemmas on numerals and bytes\<close>

lemma of_char_char_of_small [simp]: "n < 256 \<Longrightarrow> (of_char (char_of n) :: nat) = n"
  by simp

lemma hex_digit_digit_char: "d < 16 \<Longrightarrow> hex_digit (digit_char d) = Some d"
  by (auto simp: hex_digit_def digit_char_def Let_def)

lemma digit_char_ascii: "d < 16 \<Longrightarrow> (of_char (digit_char d) :: nat) < 128"
  by (auto simp: digit_char_def)

lemma digit_char_not_plus: "d < 16 \<Longrightarrow> digit_char d \<noteq> CHR ''+''"
proof
  assume "d < 16" and "digit_char d = CHR ''+''"
  then have "(of_char (digit_char d) :: nat) = 43" by simp
  with \<open>d < 16\<close> show False by (auto simp: digit_char_def split: if_splits)
qed

lemma unat_u8_less: "unat (b :: u8) < 256"
  using unsigned_less [of b, where 'a = nat] by simp

lemma u8_nibbles:
  fixes b :: u8
  shows "unat b div 16 < 16" and "unat b mod 16 < 16"
  using unat_u8_less [of b] by auto

lemma u8_from_hex2_hex_byte:
  "u8_from_hex2 (digit_char (unat b div 16)) (digit_char (unat b mod 16)) = Some b"
  using u8_nibbles [of b]
  by (simp add: u8_from_hex2_def hex_digit_digit_char digit_char_not_plus)

lemma hex_encode_Nil [simp]: "hex_encode [] = []"
  by (simp add: hex_encode_def)

lemma hex_encode_Cons:
  "hex_encode (b # bs) = digit_char (unat b div 16) # digit_char (unat b mod 16) # hex_encode bs"
  by (simp add: hex_encode_def hex_byte_def)

lemma length_hex_encode [simp]: "length (hex_encode bs) = 2 * length bs"
  by (induction bs) (auto simp: hex_encode_Cons)

lemma hex_encode_ascii: "is_ascii (hex_encode bs)"
proof (induction bs)
  case (Cons b bs)
  then show ?case
    using u8_nibbles [of b] by (simp add: hex_encode_Cons digit_char_ascii)
qed simp

lemma decode_pairs_hex_encode: "decode_pairs (hex_encode bs) = Ret (Some bs)"
proof (induction bs)
  case (Cons b bs)
  have "\<not> (hex_encode bs \<noteq> [] \<and> is_cont (hd (hex_encode bs)))"
    using hex_encode_ascii [of bs] by (cases "hex_encode bs") (auto simp: is_cont_def)
  with Cons show ?case
    by (simp add: hex_encode_Cons u8_from_hex2_hex_byte)
qed simp

lemma hex_encode_inject: "hex_encode a = hex_encode b \<longleftrightarrow> a = b"
  by (metis decode_pairs_hex_encode option.inject outcome.inject)

lemma decode_pairs_ascii: "is_ascii s \<Longrightarrow> decode_pairs s \<noteq> Panic"
proof (induction s rule: decode_pairs.induct)
  case (3 a b rest)
  have "\<not> (rest \<noteq> [] \<and> is_cont (hd rest))"
    using "3.prems" by (cases rest) (auto simp: is_cont_def)
  moreover have "decode_pairs rest \<noteq> Panic" if "u8_from_hex2 a b = Some x" for x
    using 3 that calculation by simp
  ultimately show ?case
    by (cases "u8_from_hex2 a b") (auto split: option.splits outcome.splits)
qed auto

lemma decode_pairs_length: "decode_pairs s = Ret (Some bs) \<Longrightarrow> length s = 2 * length bs"
  by (induction s arbitrary: bs rule: decode_pairs.induct)
    (auto split: if_splits option.splits outcome.splits)

lemma digit_char_inject: "a < 16 \<Longrightarrow> b < 16 \<Longrightarrow> digit_char a = digit_char b \<longleftrightarrow> a = b"
  by (metis hex_digit_digit_char option.inject)

lemma show_nat_not_Nil [simp]: "show_nat n \<noteq> []"
  by (subst show_nat.simps) simp

lemma show_nat_inject: "show_nat m = show_nat n \<longleftrightarrow> m = n"
proof
  assume "show_nat m = show_nat n"
  then show "m = n"
  proof (induction m arbitrary: n rule: less_induct)
    case (less m)
    show ?case
    proof (cases "m < 10 \<or> n < 10")
      case True
      with less.prems show ?thesis
        by (subst (asm) (1 2) show_nat.simps)
          (auto simp: digit_char_inject show_nat_not_Nil [symmetric] split: if_splits)
    next
      case False
      with less.prems have
        *: "show_nat (m div 10) = show_nat (n div 10)" "digit_char (m mod 10) = digit_char (n mod 10)"
        by (subst (asm) (1 2) show_nat.simps, simp)+
      from *(1) False have "m div 10 = n div 10" by (intro less.IH) auto
      moreover from *(2) have "m mod 10 = n mod 10" by (simp add: digit_char_inject)
      ultimately show ?thesis by (metis mult_div_mod_eq)
    qed
  qed
qed simp

lemma digit_chars_plain:
  "d < 10 \<Longrightarrow> 48 \<le> (of_char (digit_char d) :: nat) \<and> (of_char (digit_char d) :: nat) < 58"
  by (simp add: digit_char_def)

lemma show_nat_plain: "c \<in> set (show_nat n) \<Longrightarrow> 48 \<le> (of_char c :: nat) \<and> (of_char c :: nat) < 58"
proof (induction n rule: show_nat.induct)
  case (1 n)
  then show ?case
    by (subst (asm) (2) show_nat.simps) (auto simp: digit_chars_plain split: if_splits)
qed

lemma trim_plain:
  assumes "s \<noteq> []" "\<And>c. c \<in> set s \<Longrightarrow> 48 \<le> (of_char c :: nat) \<and> (of_char c :: nat) < 58"
  shows "trim s = s"
proof -
  have no: "strip_prefix p t = None"
    if p: "p \<in> set ws_encodings \<union> rev ` set ws_encodings" "t \<noteq> []" "set t \<subseteq> set s" for p t
  proof -
    obtain c t' where t: "t = c # t'" using p(2) by (cases t) auto
    then have "48 \<le> (of_char c :: nat) \<and> (of_char c :: nat) < 58" using p(3) assms(2) by simp
    then show ?thesis using p(1) t by (auto simp: ws_encodings_def)
  qed
  have first: "strip_first ps t = None"
    if "set ps \<subseteq> set ws_encodings \<union> rev ` set ws_encodings" "t \<noteq> []" "set t \<subseteq> set s" for ps t
    using that by (induction ps) (auto simp: no)
  have with_: "trim_with ps n t = t"
    if "set ps \<subseteq> set ws_encodings \<union> rev ` set ws_encodings" "t \<noteq> []" "set t \<subseteq> set s" for ps n t
    using first [OF that] by (cases n) simp_all
  have "trim_start s = s" unfolding trim_start_def using assms(1) by (intro with_) auto
  moreover have "trim_with (map rev ws_encodings) (length s) (rev s) = rev s"
    using assms(1) by (intro with_) auto
  ultimately show ?thesis by (simp add: trim_def trim_end_def)
qed

lemma dec_digit_digit_char: "d < 10 \<Longrightarrow> dec_digit (digit_char d) = Some d"
  by (simp add: dec_digit_def digit_char_def)

lemma dec_value_append:
  "dec_value acc (xs @ ys) = (case dec_value acc xs of None \<Rightarrow> None | Some n \<Rightarrow> dec_value n ys)"
  by (induction acc xs rule: dec_value.induct) (auto split: option.splits)

lemma dec_value_show_nat: "dec_value 0 (show_nat n) = Some n"
proof (induction n rule: show_nat.induct)
  case (1 n)
  then show ?case
    by (subst show_nat.simps) (auto simp: dec_value_append dec_digit_digit_char)
qed

lemma show_nat_hd: "hd (show_nat n) \<noteq> CHR ''+''"
proof (induction n rule: show_nat.induct)
  case (1 n)
  show ?case
  proof (cases "n < 10")
    case True
    then show ?thesis by (subst show_nat.simps) (simp add: digit_char_not_plus)
  next
    case False
    with 1 show ?thesis by (subst show_nat.simps) simp
  qed
qed

lemma parse_uint_show_nat: "parse_uint limit (show_nat n) = (if n \<le> limit then Some n else None)"
proof -
  obtain c cs where s: "show_nat n = c # cs" by (cases "show_nat n") auto
  with show_nat_hd [of n] have "c \<noteq> CHR ''+''" by simp
  with s dec_value_show_nat [of n] show ?thesis by (simp add: parse_uint_def)
qed

section \<open>Lemmas on the shared loops\<close>

lemma xor_diff_OR: "xor_diff d xs ys = d OR xor_diff 0 xs ys"
proof (induction xs arbitrary: d ys)
  case (Cons x xs)
  show ?case
  proof (cases ys)
    case (Cons y ys')
    have "xor_diff (d OR (x XOR y)) xs ys' = d OR ((x XOR y) OR xor_diff 0 xs ys')"
      by (subst Cons.IH) (simp add: or.assoc)
    moreover have "xor_diff (x XOR y) xs ys' = (x XOR y) OR xor_diff 0 xs ys'"
      by (rule Cons.IH)
    ultimately show ?thesis by (simp add: Cons)
  qed simp
qed simp

lemma or_u8_eq_0: "(a :: u8) OR b = 0 \<longleftrightarrow> a = 0 \<and> b = 0"
  by (fact or_eq_0_iff)

lemma xor_u8_eq_0: "(a :: u8) XOR b = 0 \<longleftrightarrow> a = b"
  by (metis bit.xor_cancel_right bit.xor_left_self xor.assoc xor_self_eq)

lemma xor_diff_zero_iff:
  "length xs = length ys \<Longrightarrow> xor_diff 0 xs ys = 0 \<longleftrightarrow> xs = ys"
proof (induction xs ys rule: list_induct2)
  case (Cons x xs y ys)
  then show ?case
    by (simp add: xor_diff_OR [of "x XOR y"] or_u8_eq_0 xor_u8_eq_0)
qed simp

lemma set_push_missing [simp]: "set (push_missing a b) = set a \<union> set b"
  by (induction a b rule: push_missing.induct) auto

lemma distinct_push_missing: "distinct a \<Longrightarrow> distinct (push_missing a b)"
  by (induction a b rule: push_missing.induct) auto

lemma push_missing_prefix: "\<exists>c. push_missing a b = a @ c"
proof (induction a b rule: push_missing.induct)
  case (2 acc x xs)
  then show ?case by (auto split: if_splits)
qed simp

lemma push_missing_eq_Nil [simp]: "push_missing a b = [] \<longleftrightarrow> a = [] \<and> b = []"
  by (metis set_push_missing Un_empty set_empty)

lemma find_outcome_total:
  assumes "\<And>x. x \<in> set xs \<Longrightarrow> p x = Ret (q x)"
  shows "find_outcome p xs = Ret (List.find q xs)"
  using assms by (induction xs) auto

lemma find_outcome_Some:
  "find_outcome p xs = Ret (Some x) \<Longrightarrow> x \<in> set xs \<and> p x = Ret True"
  by (induction xs) (auto split: outcome.splits if_splits)

section \<open>An interface for constant-time comparisons\<close>

text \<open>
  Three crates compare secrets with a loop of their own. A caller relies on the answer being
  equality on the lengths the comparison is made for.
\<close>

locale secret_eq =
  fixes eq :: "bytes \<Rightarrow> bytes \<Rightarrow> bool" and len_ok :: "nat \<Rightarrow> bool"
  assumes eq_iff: "len_ok (length a) \<Longrightarrow> eq a b \<longleftrightarrow> a = b"
begin

lemma eq_refl: "len_ok (length a) \<Longrightarrow> eq a a"
  by (simp add: eq_iff)

lemma eq_flip_byte:
  "len_ok (length a) \<Longrightarrow> i < length a \<Longrightarrow> x \<noteq> a ! i \<Longrightarrow> \<not> eq a (a[i := x])"
  by (metis eq_iff nth_list_update_eq)

end

end
