(* ===== verification/Cdp_Policy_Types.thy ===== *)
theory Cdp_Policy_Types
  imports Cdp_Prelude
begin

text \<open>
  The data of the policy crate: \<open>crates/cdp-policy/src/types.rs\<close>, the policy-file structures
  of \<open>parser.rs\<close> and \<open>error.rs\<close>. Structures are records with the fields of the source in
  their order (prefixed by the structure, since field names are global in HOL), \<open>Option\<close> is
  \<open>option\<close>, \<open>u32\<close> and \<open>u64\<close> are words. The field \<open>ai_binary_path\<close> holds the lossy text of
  the path, the only form of it that the crates read. A message text in an error is
  represented by a constructor for its format string applied to the interpolated values.
\<close>

section \<open>Agents, scopes and constraints\<close>

record agent_info =
  ai_uid :: u32
  ai_pid :: u32
  ai_binary_path :: string
  ai_binary_hash :: bytes
  ai_start_time :: u64
  ai_fingerprint_hash :: bytes
  ai_agent_id :: "string option"
  ai_agent_version :: "string option"

record body_constraints =
  bc_forbidden_fields :: "string list"
  bc_max_size_bytes :: "u64 option"
  bc_allowed_content_types :: "string list"

record network_constraints =
  nc_follow_redirects :: bool
  nc_dns_resolution :: string
  nc_allowed_ip_ranges :: "string list"

definition network_constraints_default :: network_constraints where
  "network_constraints_default =
     \<lparr>nc_follow_redirects = False, nc_dns_resolution = ''pinned'', nc_allowed_ip_ranges = []\<rparr>"

record scope =
  scope_hosts :: "string list"
  scope_methods :: "string list"
  scope_paths :: "string list"
  scope_forbidden_paths :: "string list"
  scope_ttl_seconds :: "u64 option"
  scope_max_requests :: "u64 option"
  scope_body_constraints :: "body_constraints option"
  scope_network :: "network_constraints option"

definition scope_default :: scope where
  "scope_default =
     \<lparr>scope_hosts = [], scope_methods = [], scope_paths = [], scope_forbidden_paths = [],
      scope_ttl_seconds = None, scope_max_requests = None, scope_body_constraints = None,
      scope_network = None\<rparr>"

record policy_constraints =
  pc_max_ttl_seconds :: "u64 option"
  pc_max_requests_per_lease :: "u64 option"
  pc_max_renewals :: "u32 option"
  pc_max_cumulative_ttl_seconds :: "u64 option"
  pc_renewable :: bool
  pc_delegation_allowed :: bool
  pc_delegation_max_depth :: "u32 option"
  pc_delegation_require_approval :: bool

definition policy_constraints_default :: policy_constraints where
  "policy_constraints_default =
     \<lparr>pc_max_ttl_seconds = None, pc_max_requests_per_lease = None, pc_max_renewals = None,
      pc_max_cumulative_ttl_seconds = None, pc_renewable = True, pc_delegation_allowed = False,
      pc_delegation_max_depth = None, pc_delegation_require_approval = False\<rparr>"

datatype policy_decision =
    AutoApprove (granted_scope: scope) (policy_name: string) (constraints: policy_constraints)
  | RequiresApproval (granted_scope: scope) (policy_name: string) (constraints: policy_constraints)
  | Denied string

record approval_config =
  ac_gui_command :: string
  ac_timeout_seconds :: u64
  ac_show_binary_hash :: bool
  ac_label_reason_untrusted :: bool
  ac_max_reason_length :: nat

datatype approval_result = AllowOnce | AllowTimed u64 | Deny

section \<open>Policy files\<close>

record policy_match =
  pm_agent_binary_hash :: "string option"
  pm_agent_binary_path :: "string option"
  pm_agent_id :: "string option"
  pm_credential_ref :: string

record policy_allow =
  al_hosts :: "string list"
  al_methods :: "string list"
  al_paths :: "string list"
  al_forbidden_paths :: "string list"
  al_max_ttl_seconds :: "u64 option"
  al_max_requests_per_lease :: "u64 option"
  al_max_renewals :: "u32 option"
  al_max_cumulative_ttl_seconds :: "u64 option"
  al_renewable :: bool
  al_body_constraints :: "body_constraints option"
  al_network :: "network_constraints option"

definition default_renewable :: bool where
  "default_renewable = True"

record policy_approval =
  pa_mode :: string

definition default_approval_mode :: string where
  "default_approval_mode = ''prompt''"

definition policy_approval_default :: policy_approval where
  "policy_approval_default = \<lparr>pa_mode = default_approval_mode\<rparr>"

record policy_delegation =
  pd_allowed :: bool
  pd_max_depth :: "u32 option"
  pd_require_approval_for_delegate :: bool

record policy_entry =
  pe_name :: string
  pe_description :: string
  pe_match_block :: policy_match
  pe_allow :: policy_allow
  pe_approval :: policy_approval
  pe_delegation :: policy_delegation

section \<open>Errors\<close>

datatype validation_reason =
    Name_Empty
  | Name_Too_Long
  | Credential_Ref_Empty
  | Unknown_Mode string
  | Auto_Without_Hash
  | Renewals_Exceed_Maximum u32
  | Cumulative_Ttl_Exceeds_Maximum u64

datatype parse_reason =
    Missing_Sha256_Prefix string
  | Not_Hexadecimal string
  | Not_32_Bytes nat
  | Failed_To_Read string
  | Bad_Toml string

datatype policy_error =
    Parse string parse_reason
  | Validation string validation_reason
  | DirectoryNotFound string
  | ApprovalTimeout u64
  | ApprovalCommand string
  | Watcher string
  | Io string
  | GlobPattern string

section \<open>Interfaces of the narrowing operations\<close>

text \<open>
  The policy crate and the lease crate each have a function that combines two optional limits
  and one that combines two optional body constraints. The contract they share is stated
  here: the combination admits exactly what both sides admit.
\<close>

definition within :: "u64 option \<Rightarrow> u64 \<Rightarrow> bool" where
  "within limit x = (case limit of None \<Rightarrow> True | Some m \<Rightarrow> x \<le> m)"

lemma within_mono: "within l x \<Longrightarrow> y \<le> x \<Longrightarrow> within l y"
  by (auto simp: within_def split: option.splits)

locale limit_meet =
  fixes meet :: "u64 option \<Rightarrow> u64 option \<Rightarrow> u64 option"
  assumes within_meet: "within (meet a b) x \<longleftrightarrow> within a x \<and> within b x"
    and meet_absent: "meet a b = None \<longleftrightarrow> a = None \<and> b = None"
begin

lemma meet_le: "meet a b = Some m \<Longrightarrow> within a m \<and> within b m"
  using within_meet [of a b m] by (simp add: within_def)

lemma meet_mono: "within (meet a b) x \<Longrightarrow> y \<le> x \<Longrightarrow> within a y \<and> within b y"
  by (metis within_meet within_mono)

end

definition body_forbidden :: "body_constraints option \<Rightarrow> string set" where
  "body_forbidden c = (case c of None \<Rightarrow> {} | Some b \<Rightarrow> set (bc_forbidden_fields b))"

definition body_size_ok :: "body_constraints option \<Rightarrow> u64 \<Rightarrow> bool" where
  "body_size_ok c n = (case c of None \<Rightarrow> True | Some b \<Rightarrow> within (bc_max_size_bytes b) n)"

definition body_admits :: "body_constraints option \<Rightarrow> u64 \<Rightarrow> string set \<Rightarrow> bool" where
  "body_admits c n ks \<longleftrightarrow> body_size_ok c n \<and> ks \<inter> body_forbidden c = {}"

locale constraint_merge =
  fixes merge :: "body_constraints option \<Rightarrow> body_constraints option \<Rightarrow> body_constraints option"
  assumes forbidden_merge: "body_forbidden (merge a b) = body_forbidden a \<union> body_forbidden b"
    and size_merge: "body_size_ok (merge a b) n \<longleftrightarrow> body_size_ok a n \<and> body_size_ok b n"
begin

lemma admits_merge:
  "body_admits (merge a b) n ks \<longleftrightarrow> body_admits a n ks \<and> body_admits b n ks"
  by (auto simp: body_admits_def forbidden_merge size_merge)

end

end
