(* ===== verification/Cdp_Policy_Parser.thy ===== *)
theory Cdp_Policy_Parser
  imports Cdp_Policy_Types "HOL-Library.List_Lexorder" "HOL-Library.Char_ord"
    "HOL-Library.Multiset"
begin

text \<open>
  Policy files (\<open>crates/cdp-policy/src/parser.rs\<close>): decoding of binary hashes, validation of
  an entry and loading of a directory. The file system is the record \<open>policy_fs\<close> and the TOML
  deserialiser the argument \<open>toml\<close>; both are outside the repository. The lemmas characterise
  validation exactly, show that loading returns validated entries only and in an order that
  does not depend on how the directory is enumerated, and that hash decoding inverts the
  hexadecimal encoder.
\<close>

section \<open>Binary hashes\<close>

definition decode_hex :: "string \<Rightarrow> bytes option outcome" where
  "decode_hex s = (if length s mod 2 \<noteq> 0 then Ret None else decode_pairs s)"

definition parse_binary_hash :: "string \<Rightarrow> (policy_error + bytes) outcome" where
  "parse_binary_hash raw =
     (case strip_prefix ''sha256:'' raw of
        None \<Rightarrow> Ret (Inl (Parse ''<none>'' (Missing_Sha256_Prefix raw)))
      | Some hex_str \<Rightarrow>
          (case decode_hex hex_str of
             Panic \<Rightarrow> Panic
           | Ret None \<Rightarrow> Ret (Inl (Parse ''<none>'' (Not_Hexadecimal hex_str)))
           | Ret (Some bs) \<Rightarrow>
               if length bs = 32 then Ret (Inr bs)
               else Ret (Inl (Parse ''<none>'' (Not_32_Bytes (length hex_str div 2))))))"

section \<open>Validation\<close>

text \<open>The condition \<open>if let Some(x) = limit && x > bound\<close>.\<close>

definition exceeds :: "'a :: linorder option \<Rightarrow> 'a \<Rightarrow> bool" where
  "exceeds limit bound = (case limit of None \<Rightarrow> False | Some x \<Rightarrow> bound < x)"

definition validate_policy :: "policy_entry \<Rightarrow> policy_error + unit" where
  "validate_policy entry =
     (let fail = (\<lambda>r. Inl (Validation (pe_name entry) r));
          mode = pa_mode (pe_approval entry);
          renewals = al_max_renewals (pe_allow entry);
          cumulative = al_max_cumulative_ttl_seconds (pe_allow entry) in
      if trim (pe_name entry) = [] then fail Name_Empty
      else if 128 < length (pe_name entry) then fail Name_Too_Long
      else if trim (pm_credential_ref (pe_match_block entry)) = [] then fail Credential_Ref_Empty
      else if mode \<noteq> ''auto'' \<and> mode \<noteq> ''prompt'' then fail (Unknown_Mode mode)
      else if mode = ''auto'' \<and> pm_agent_binary_hash (pe_match_block entry) = None
        then fail Auto_Without_Hash
      else if exceeds renewals 3 then fail (Renewals_Exceed_Maximum (the renewals))
      else if exceeds cumulative 14400 then fail (Cumulative_Ttl_Exceeds_Maximum (the cumulative))
      else Inr ())"

section \<open>Loading a directory\<close>

text \<open>
  A directory listing gives one element per entry, \<open>None\<close> where reading the entry failed;
  \<open>Inl\<close> carries an operating-system error text.
\<close>

record policy_fs =
  fs_exists :: "string \<Rightarrow> bool"
  fs_is_dir :: "string \<Rightarrow> bool"
  fs_read_dir :: "string \<Rightarrow> string + string option list"
  fs_read_to_string :: "string \<Rightarrow> string \<Rightarrow> string + string"

definition path_extension :: "string \<Rightarrow> string option" where
  "path_extension name =
     (case dropWhile (\<lambda>c. c \<noteq> CHR ''.'') (rev name) of
        [] \<Rightarrow> None
      | _ # before \<Rightarrow>
          if before = [] then None
          else Some (rev (takeWhile (\<lambda>c. c \<noteq> CHR ''.'') (rev name))))"

definition toml_names :: "string option list \<Rightarrow> string list" where
  "toml_names listing =
     sort (filter (\<lambda>name. path_extension name = Some ''toml'') (List.map_filter id listing))"

fun push_validated :: "policy_entry list \<Rightarrow> policy_entry list \<Rightarrow> policy_error + policy_entry list" where
  "push_validated entries [] = Inr entries"
| "push_validated entries (e # es) =
     (case validate_policy e of
        Inl err \<Rightarrow> Inl err
      | Inr _ \<Rightarrow> push_validated (entries @ [e]) es)"

fun load_files ::
  "policy_fs \<Rightarrow> (string \<Rightarrow> string + policy_entry list) \<Rightarrow> string \<Rightarrow> policy_entry list
   \<Rightarrow> string list \<Rightarrow> policy_error + policy_entry list" where
  "load_files fs toml dir entries [] = Inr entries"
| "load_files fs toml dir entries (name # names) =
     (case fs_read_to_string fs dir name of
        Inl e \<Rightarrow> Inl (Parse name (Failed_To_Read e))
      | Inr content \<Rightarrow>
          (case toml content of
             Inl e \<Rightarrow> Inl (Parse name (Bad_Toml e))
           | Inr policies \<Rightarrow>
               (case push_validated entries policies of
                  Inl err \<Rightarrow> Inl err
                | Inr entries' \<Rightarrow> load_files fs toml dir entries' names)))"

definition load_policies_from_dir ::
  "policy_fs \<Rightarrow> (string \<Rightarrow> string + policy_entry list) \<Rightarrow> string
   \<Rightarrow> policy_error + policy_entry list" where
  "load_policies_from_dir fs toml dir =
     (if \<not> fs_exists fs dir then Inl (DirectoryNotFound dir)
      else if \<not> fs_is_dir fs dir then Inl (DirectoryNotFound dir)
      else (case fs_read_dir fs dir of
              Inl e \<Rightarrow> Inl (Io e)
            | Inr listing \<Rightarrow> load_files fs toml dir [] (toml_names listing)))"

section \<open>An interface for hexadecimal decoders\<close>

text \<open>
  Two crates decode hexadecimal text with their own functions. What their callers rely on is
  that the decoder inverts \<open>hex_encode\<close> and cannot panic on ASCII text.
\<close>

locale hex_codec =
  fixes dec :: "string \<Rightarrow> bytes option outcome"
  assumes dec_encode: "dec (hex_encode bs) = Ret (Some bs)"
    and dec_ascii: "is_ascii s \<Longrightarrow> dec s \<noteq> Panic"
begin

lemma dec_encode_eq_iff: "dec (hex_encode a) = dec (hex_encode b) \<longleftrightarrow> a = b"
  by (simp add: dec_encode)

lemma dec_ascii_cases:
  assumes "is_ascii s"
  obtains "dec s = Ret None" | bs where "dec s = Ret (Some bs)"
  using dec_ascii [OF assms] by (cases "dec s") (auto dest: option.exhaust_sel)

end

interpretation policy_hex: hex_codec decode_hex
proof
  show "decode_hex (hex_encode bs) = Ret (Some bs)" for bs
    by (simp add: decode_hex_def decode_pairs_hex_encode)
  show "is_ascii s \<Longrightarrow> decode_hex s \<noteq> Panic" for s
    by (simp add: decode_hex_def decode_pairs_ascii)
qed

section \<open>Lemmas\<close>

lemma parse_binary_hash_ascii: "is_ascii raw \<Longrightarrow> parse_binary_hash raw \<noteq> Panic"
proof (cases "strip_prefix ''sha256:'' raw")
  case (Some hex_str)
  assume "is_ascii raw"
  with Some have "is_ascii hex_str" by (simp add: strip_prefix_Some)
  then show ?thesis
    using Some
    by (cases rule: policy_hex.dec_ascii_cases) (simp_all add: parse_binary_hash_def)
qed (simp add: parse_binary_hash_def)

lemma parse_binary_hash_encode:
  "length bs = 32 \<Longrightarrow> parse_binary_hash (''sha256:'' @ hex_encode bs) = Ret (Inr bs)"
  by (simp add: parse_binary_hash_def policy_hex.dec_encode del: append_Cons)

lemma parse_binary_hash_length: "parse_binary_hash raw = Ret (Inr bs) \<Longrightarrow> length bs = 32"
  by (auto simp: parse_binary_hash_def split: option.splits outcome.splits if_splits)

lemma push_validated_Inr:
  "push_validated entries es = Inr out \<Longrightarrow>
   out = entries @ es \<and> (\<forall>e \<in> set es. validate_policy e = Inr ())"
  by (induction entries es arbitrary: out rule: push_validated.induct)
    (auto split: sum.splits)

lemma load_files_validated:
  assumes "load_files fs toml dir entries names = Inr out"
    and "\<forall>e \<in> set entries. validate_policy e = Inr ()"
  shows "\<forall>e \<in> set out. validate_policy e = Inr ()"
  using assms
proof (induction fs toml dir entries names rule: load_files.induct)
  case (2 fs toml dir entries name names)
  from "2.prems"(1) obtain content policies entries' where
    step: "fs_read_to_string fs dir name = Inr content" "toml content = Inr policies"
      "push_validated entries policies = Inr entries'"
      "load_files fs toml dir entries' names = Inr out"
    by (auto split: sum.splits)
  from push_validated_Inr [OF step(3)] "2.prems"(2)
  have "\<forall>e \<in> set entries'. validate_policy e = Inr ()" by auto
  with "2.IH" [OF step(1-3)] step(4) show ?case by simp
qed simp

lemma toml_names_perm: "mset l1 = mset l2 \<Longrightarrow> toml_names l1 = toml_names l2"
proof -
  assume "mset l1 = mset l2"
  then have "mset (filter (\<lambda>n. path_extension n = Some ''toml'') (List.map_filter id l1)) =
      mset (filter (\<lambda>n. path_extension n = Some ''toml'') (List.map_filter id l2))"
    by (simp add: List.map_filter_def mset_filter mset_map)
  then show ?thesis
    unfolding toml_names_def by (intro properties_for_sort) simp_all
qed

lemma load_files_read_dir:
  "load_files (fs\<lparr>fs_read_dir := f\<rparr>) toml dir entries names = load_files fs toml dir entries names"
  by (induction fs toml dir entries names rule: load_files.induct) (auto split: sum.splits)

section \<open>Properties\<close>

text \<open>
  A policy entry passes validation exactly when its name is not blank and at most 128 bytes
  long, its credential reference is not blank, its approval mode is auto or prompt, an auto
  entry names a binary hash, and its renewal and cumulative lifetime limits do not exceed the
  protocol maxima of 3 renewals and 14400 seconds.
\<close>

theorem validate_policy_iff:
  "validate_policy entry = Inr () \<longleftrightarrow>
     trim (pe_name entry) \<noteq> [] \<and> length (pe_name entry) \<le> 128 \<and>
     trim (pm_credential_ref (pe_match_block entry)) \<noteq> [] \<and>
     pa_mode (pe_approval entry) \<in> {''auto'', ''prompt''} \<and>
     \<not> (pa_mode (pe_approval entry) = ''auto'' \<and>
         pm_agent_binary_hash (pe_match_block entry) = None) \<and>
     \<not> exceeds (al_max_renewals (pe_allow entry)) 3 \<and>
     \<not> exceeds (al_max_cumulative_ttl_seconds (pe_allow entry)) 14400"
  by (auto simp: validate_policy_def Let_def)

text \<open>
  C38. Loading a policy directory returns only entries that pass validation, and the outcome,
  error or entries in order, does not depend on the order in which the operating system
  enumerates the directory.
\<close>

theorem load_policies_validated_and_deterministic:
  assumes "fs_read_dir fs dir = Inr listing"
    and "mset listing' = mset listing"
  shows "(\<forall>entries. load_policies_from_dir fs toml dir = Inr entries \<longrightarrow>
        (\<forall>e \<in> set entries. validate_policy e = Inr ())) \<and>
      load_policies_from_dir (fs\<lparr>fs_read_dir := (\<lambda>_. Inr listing')\<rparr>) toml dir =
      load_policies_from_dir fs toml dir"
proof
  show "\<forall>entries. load_policies_from_dir fs toml dir = Inr entries \<longrightarrow>
      (\<forall>e \<in> set entries. validate_policy e = Inr ())"
    using assms(1) load_files_validated [of fs toml dir "[]"]
    by (auto simp: load_policies_from_dir_def split: if_splits)
  show "load_policies_from_dir (fs\<lparr>fs_read_dir := (\<lambda>_. Inr listing')\<rparr>) toml dir =
      load_policies_from_dir fs toml dir"
    using assms toml_names_perm [OF assms(2)]
    by (simp add: load_policies_from_dir_def load_files_read_dir)
qed

text \<open>
  Decoding inverts encoding: the text of a 32-byte hash, the prefix and 64 lower-case
  hexadecimal digits, parses back to the same bytes.
\<close>

theorem parse_binary_hash_roundtrip:
  assumes "length bs = 32"
  shows "parse_binary_hash (''sha256:'' @ hex_encode bs) = Ret (Inr bs)"
  using assms by (rule parse_binary_hash_encode)

section \<open>Witnesses\<close>

definition sample_entry :: policy_entry where
  "sample_entry =
     \<lparr>pe_name = ''p'', pe_description = [],
      pe_match_block = \<lparr>pm_agent_binary_hash = None, pm_agent_binary_path = None,
        pm_agent_id = Some ''a'', pm_credential_ref = ''*''\<rparr>,
      pe_allow = \<lparr>al_hosts = [''h''], al_methods = [''GET''], al_paths = [], al_forbidden_paths = [],
        al_max_ttl_seconds = None, al_max_requests_per_lease = None, al_max_renewals = None,
        al_max_cumulative_ttl_seconds = None, al_renewable = True, al_body_constraints = None,
        al_network = None\<rparr>,
      pe_approval = \<lparr>pa_mode = ''prompt''\<rparr>,
      pe_delegation = \<lparr>pd_allowed = False, pd_max_depth = None,
        pd_require_approval_for_delegate = False\<rparr>\<rparr>"

definition sample_fs :: policy_fs where
  "sample_fs =
     \<lparr>fs_exists = (\<lambda>_. True), fs_is_dir = (\<lambda>_. True),
      fs_read_dir = (\<lambda>_. Inr [Some ''b.toml'', None, Some ''a.toml'']),
      fs_read_to_string = (\<lambda>_ name. Inr name)\<rparr>"

lemma sample_entry_valid: "validate_policy sample_entry = Inr ()"
  by code_simp

lemma sample_load:
  "load_policies_from_dir sample_fs (\<lambda>_. Inr [sample_entry]) ''d'' = Inr [sample_entry, sample_entry]"
  by code_simp

theorem load_policies_validated_and_deterministic_witness:
  "load_policies_from_dir sample_fs (\<lambda>_. Inr [sample_entry]) ''d'' = Inr [sample_entry, sample_entry] \<and>
   load_policies_from_dir
     (sample_fs\<lparr>fs_read_dir := (\<lambda>_. Inr [None, Some ''a.toml'', Some ''b.toml''])\<rparr>)
     (\<lambda>_. Inr [sample_entry]) ''d'' = Inr [sample_entry, sample_entry]"
proof -
  have "fs_read_dir sample_fs ''d'' = Inr [Some ''b.toml'', None, Some ''a.toml'']"
    by (simp add: sample_fs_def)
  moreover have "mset [None, Some ''a.toml'', Some ''b.toml''] =
      mset [Some ''b.toml'', None, Some ''a.toml'']"
    by simp
  ultimately show ?thesis
    using load_policies_validated_and_deterministic [of sample_fs "''d''" _ _ "\<lambda>_. Inr [sample_entry]"]
      sample_load by simp
qed

theorem parse_binary_hash_roundtrip_witness:
  "parse_binary_hash (''sha256:'' @ hex_encode (replicate 31 0 @ [255])) =
     Ret (Inr (replicate 31 0 @ [255]))"
  by (rule parse_binary_hash_roundtrip) simp

end
