(* ===== verification/Cdp_Glob.thy ===== *)
theory Cdp_Glob
  imports Cdp_Prelude
begin

text \<open>
  Path globs of the policy crate (\<open>crates/cdp-policy/src/glob.rs\<close>). \<open>matches_segs\<close> is the
  work-list search of the source, with its stack (top first) and its visited set; the measure
  of \<open>match_loop\<close> is the number of unvisited positions, then the height of the stack. The
  search is proved equal to a declarative reading of patterns: a path matches when it splits
  into consecutive groups of segments, one group for each pattern segment.
\<close>

section \<open>The matcher\<close>

definition segments :: "string \<Rightarrow> string list" where
  "segments s = filter (\<lambda>seg. seg \<noteq> []) (split_on (CHR ''/'') s)"

text \<open>
  The \<open>match\<close> on one position: \<open>None\<close> is \<open>return true\<close>, \<open>Some new\<close> are the positions
  pushed, the last one pushed first.
\<close>

definition explore :: "string list \<Rightarrow> string list \<Rightarrow> nat \<times> nat \<Rightarrow> (nat \<times> nat) list option" where
  "explore path pat = (\<lambda>(pi, qi).
     if \<not> pi < length path \<and> \<not> qi < length pat then None
     else if \<not> qi < length pat then Some []
     else if \<not> pi < length path then
       (if list_all (\<lambda>s. s = ''**'') (drop qi pat) then None else Some [])
     else if pat ! qi = ''**'' then Some [(Suc pi, qi), (pi, Suc qi)]
     else if pat ! qi = ''*'' then Some [(Suc pi, Suc qi)]
     else if pat ! qi = path ! pi then Some [(Suc pi, Suc qi)]
     else Some [])"

function match_loop ::
  "string list \<Rightarrow> string list \<Rightarrow> (nat \<times> nat) list \<Rightarrow> (nat \<times> nat) set \<Rightarrow> bool" where
  "match_loop path pat [] visited = False"
| "match_loop path pat (x # stack) visited =
     (if x \<in> visited then match_loop path pat stack visited
      else (case explore path pat x of
              None \<Rightarrow> True
            | Some new \<Rightarrow> match_loop path pat (new @ stack) (insert x visited)))"
  by pat_completeness auto

definition unvisited :: "string list \<Rightarrow> string list \<Rightarrow> (nat \<times> nat) set \<Rightarrow> nat" where
  "unvisited path pat visited = card ({0..<length path} \<times> {0..<length pat} - visited)"

lemma unvisited_insert_le: "unvisited path pat (insert x visited) \<le> unvisited path pat visited"
  unfolding unvisited_def by (rule card_mono) (simp, blast)

lemma unvisited_insert_less:
  assumes "pi < length path" "qi < length pat" "(pi, qi) \<notin> visited"
  shows "unvisited path pat (insert (pi, qi) visited) < unvisited path pat visited"
  unfolding unvisited_def
proof (rule psubset_card_mono)
  have "(pi, qi) \<in> {0..<length path} \<times> {0..<length pat} - visited"
    using assms by simp
  then show "{0..<length path} \<times> {0..<length pat} - insert (pi, qi) visited
      \<subset> {0..<length path} \<times> {0..<length pat} - visited"
    by blast
qed simp

lemma explore_decreases:
  assumes "x \<notin> visited" and "explore path pat x = Some new"
  shows "unvisited path pat (insert x visited) < unvisited path pat visited \<or>
    unvisited path pat (insert x visited) = unvisited path pat visited \<and> new = []"
proof (cases "new = []")
  case True
  then show ?thesis using unvisited_insert_le [of path pat x visited] by auto
next
  case False
  obtain pi qi where x: "x = (pi, qi)" by (cases x)
  with False assms(2) have "pi < length path" "qi < length pat"
    by (auto simp: explore_def split: if_splits)
  with assms(1) show ?thesis by (simp add: x unvisited_insert_less)
qed

termination match_loop
  by (relation "measures [\<lambda>(path, pat, stack, visited). unvisited path pat visited,
                          \<lambda>(path, pat, stack, visited). length stack]")
    (auto dest: explore_decreases)

declare match_loop.simps(2) [simp del]

definition matches_segs :: "string list \<Rightarrow> string list \<Rightarrow> bool" where
  "matches_segs path pat = match_loop path pat [(0, 0)] {}"

definition path_matches_glob :: "string \<Rightarrow> string \<Rightarrow> bool" where
  "path_matches_glob path pattern = matches_segs (segments path) (segments pattern)"

definition any_glob_matches :: "string \<Rightarrow> string list \<Rightarrow> bool" where
  "any_glob_matches path patterns = list_ex (\<lambda>p. path_matches_glob path p) patterns"

section \<open>What a pattern denotes\<close>

definition seg_group :: "string \<Rightarrow> string list \<Rightarrow> bool" where
  "seg_group q g \<longleftrightarrow> q = ''**'' \<or> (\<exists>s. g = [s] \<and> (q = ''*'' \<or> q = s))"

definition glob_denotes :: "string list \<Rightarrow> string list \<Rightarrow> bool" where
  "glob_denotes path pat \<longleftrightarrow> (\<exists>groups. path = concat groups \<and> list_all2 seg_group pat groups)"

text \<open>The same language by recursion, the form the search is compared with.\<close>

fun glob_rec :: "string list \<Rightarrow> string list \<Rightarrow> bool" where
  "glob_rec [] [] = True"
| "glob_rec (s # ss) [] = False"
| "glob_rec [] (q # qs) = (q = ''**'' \<and> glob_rec [] qs)"
| "glob_rec (s # ss) (q # qs) =
     (if q = ''**'' then glob_rec (s # ss) qs \<or> glob_rec ss (q # qs)
      else (q = ''*'' \<or> q = s) \<and> glob_rec ss qs)"

lemma glob_rec_Nil: "glob_rec [] qs \<longleftrightarrow> list_all (\<lambda>s. s = ''**'') qs"
  by (induction qs) auto

lemma glob_denotes_Nil_right: "glob_denotes path [] \<longleftrightarrow> path = []"
  by (auto simp: glob_denotes_def)

lemma glob_denotes_Cons:
  "glob_denotes path (q # qs) \<longleftrightarrow> (\<exists>g rest. path = g @ rest \<and> seg_group q g \<and> glob_denotes rest qs)"
proof
  assume "glob_denotes path (q # qs)"
  then obtain g gs where "path = concat (g # gs)" "seg_group q g" "list_all2 seg_group qs gs"
    unfolding glob_denotes_def list_all2_Cons1 by blast
  then show "\<exists>g rest. path = g @ rest \<and> seg_group q g \<and> glob_denotes rest qs"
    unfolding glob_denotes_def by fastforce
next
  assume "\<exists>g rest. path = g @ rest \<and> seg_group q g \<and> glob_denotes rest qs"
  then obtain g gs where "path = concat (g # gs)" "list_all2 seg_group (q # qs) (g # gs)"
    unfolding glob_denotes_def by fastforce
  then show "glob_denotes path (q # qs)"
    unfolding glob_denotes_def by blast
qed

lemma glob_denotes_star2:
  "glob_denotes (s # ss) (''**'' # qs) \<longleftrightarrow>
     glob_denotes (s # ss) qs \<or> glob_denotes ss (''**'' # qs)"
  by (auto simp: glob_denotes_Cons seg_group_def Cons_eq_append_conv)

lemma glob_denotes_one:
  "q \<noteq> ''**'' \<Longrightarrow>
   glob_denotes (s # ss) (q # qs) \<longleftrightarrow> (q = ''*'' \<or> q = s) \<and> glob_denotes ss qs"
proof -
  assume "q \<noteq> ''**''"
  then have "glob_denotes (s # ss) (q # qs) \<longleftrightarrow>
      (\<exists>t rest. s # ss = [t] @ rest \<and> (q = ''*'' \<or> q = t) \<and> glob_denotes rest qs)"
    unfolding glob_denotes_Cons seg_group_def by blast
  then show ?thesis by simp
qed

lemma glob_rec_denotes: "glob_rec path pat \<longleftrightarrow> glob_denotes path pat"
proof (induction path pat rule: glob_rec.induct)
  case (3 q qs)
  then show ?case
    by (cases "q = ''**''") (auto simp: glob_denotes_Cons seg_group_def)
next
  case (4 s ss q qs)
  show ?case
  proof (cases "q = ''**''")
    case True
    with 4 show ?thesis by (simp add: glob_denotes_star2)
  next
    case False
    with 4 show ?thesis by (simp add: glob_denotes_one)
  qed
qed (auto simp: glob_denotes_Nil_right glob_denotes_def)

section \<open>Correctness of the search\<close>

definition good :: "string list \<Rightarrow> string list \<Rightarrow> nat \<times> nat \<Rightarrow> bool" where
  "good path pat = (\<lambda>(pi, qi). glob_rec (drop pi path) (drop qi pat))"

definition rank :: "string list \<Rightarrow> string list \<Rightarrow> nat \<times> nat \<Rightarrow> nat" where
  "rank path pat = (\<lambda>(pi, qi). (length path - pi) + (length pat - qi))"

text \<open>
  Every visited position that can still lead to a match has a position of smaller rank on the
  stack that can: the reason why skipping visited positions loses no match.
\<close>

definition covered ::
  "string list \<Rightarrow> string list \<Rightarrow> (nat \<times> nat) list \<Rightarrow> (nat \<times> nat) set \<Rightarrow> bool" where
  "covered path pat stack visited \<longleftrightarrow>
     (\<forall>v \<in> visited. good path pat v \<longrightarrow>
        (\<exists>s \<in> set stack. good path pat s \<and> rank path pat s < rank path pat v))"

lemma covered_replace:
  assumes cov: "covered path pat (x # stack) visited"
    and x: "good path pat x \<Longrightarrow>
      \<exists>s \<in> set new. good path pat s \<and> rank path pat s < rank path pat x"
  shows "covered path pat (new @ stack) (insert x visited)"
  unfolding covered_def
proof (intro ballI impI)
  fix v
  assume v: "v \<in> insert x visited" and gv: "good path pat v"
  show "\<exists>s \<in> set (new @ stack). good path pat s \<and> rank path pat s < rank path pat v"
  proof (cases "v = x")
    case True
    with gv x show ?thesis by auto
  next
    case False
    with v gv cov obtain s where
      s: "s \<in> set (x # stack)" "good path pat s" "rank path pat s < rank path pat v"
      unfolding covered_def by blast
    show ?thesis
    proof (cases "s = x")
      case True
      with s x show ?thesis by (metis Un_iff less_trans set_append)
    next
      case False
      with s show ?thesis by auto
    qed
  qed
qed

lemma covered_pop:
  assumes "covered path pat (x # stack) visited" and "x \<in> visited"
  shows "covered path pat stack visited"
    and "good path pat x \<Longrightarrow> \<exists>s \<in> set stack. good path pat s"
proof -
  have small: "\<exists>s \<in> set stack. good path pat s \<and> rank path pat s < rank path pat x"
    if "good path pat x"
  proof -
    from assms that obtain s where
      "s \<in> set (x # stack)" "good path pat s" "rank path pat s < rank path pat x"
      unfolding covered_def by blast
    then show ?thesis by (metis less_irrefl set_ConsD)
  qed
  then show "good path pat x \<Longrightarrow> \<exists>s \<in> set stack. good path pat s" by blast
  from covered_replace [OF assms(1), of stack] small assms(2)
  show "covered path pat stack visited"
    by (simp add: covered_def insert_absorb)
qed

lemma good_explore:
  "good path pat x \<longleftrightarrow>
     (case explore path pat x of None \<Rightarrow> True | Some new \<Rightarrow> \<exists>s \<in> set new. good path pat s)"
proof -
  obtain pi qi where x: "x = (pi, qi)" by (cases x)
  show ?thesis
  proof (cases "pi < length path \<and> qi < length pat")
    case True
    then have "drop pi path = path ! pi # drop (Suc pi) path"
      "drop qi pat = pat ! qi # drop (Suc qi) pat"
      by (simp_all add: Cons_nth_drop_Suc)
    with True show ?thesis by (auto simp: x good_def explore_def)
  next
    case False
    then show ?thesis
      by (cases "pi < length path")
        (auto simp: x good_def explore_def glob_rec_Nil Cons_nth_drop_Suc [symmetric])
  qed
qed

lemma rank_explore:
  "explore path pat x = Some new \<Longrightarrow> s \<in> set new \<Longrightarrow> rank path pat s < rank path pat x"
  by (cases x) (auto simp: explore_def rank_def split: if_splits)

lemma match_loop_correct:
  "covered path pat stack visited \<Longrightarrow>
   match_loop path pat stack visited \<longleftrightarrow> (\<exists>s \<in> set stack. good path pat s)"
proof (induction path pat stack visited rule: match_loop.induct)
  case (2 path pat x stack visited)
  show ?case
  proof (cases "x \<in> visited")
    case True
    then show ?thesis
      using "2.IH"(1) covered_pop [OF "2.prems" True] by (auto simp: match_loop.simps(2))
  next
    case False
    show ?thesis
    proof (cases "explore path pat x")
      case None
      then show ?thesis using False good_explore [of path pat x] by (simp add: match_loop.simps(2))
    next
      case (Some new)
      have "covered path pat (new @ stack) (insert x visited)"
        using good_explore [of path pat x] rank_explore [OF Some] Some
        by (intro covered_replace [OF "2.prems"]) auto
      then show ?thesis
        using "2.IH"(2) [OF False Some] False Some good_explore [of path pat x]
        by (simp add: match_loop.simps(2) bex_Un)
    qed
  qed
qed simp

lemma matches_segs_denotes: "matches_segs path pat \<longleftrightarrow> glob_denotes path pat"
  by (simp add: matches_segs_def match_loop_correct covered_def good_def glob_rec_denotes)

lemma matches_segs_rec [rust_simps]: "matches_segs path pat = glob_rec path pat"
  by (simp add: matches_segs_denotes glob_rec_denotes)

lemma any_glob_matches_iff:
  "any_glob_matches path patterns \<longleftrightarrow> (\<exists>p \<in> set patterns. path_matches_glob path p)"
  by (simp add: any_glob_matches_def list_ex_iff)

lemma any_glob_matches_append:
  "any_glob_matches path (ps @ qs) \<longleftrightarrow> any_glob_matches path ps \<or> any_glob_matches path qs"
  by (simp add: any_glob_matches_def)

lemma any_glob_matches_mono:
  "set ps \<subseteq> set qs \<Longrightarrow> any_glob_matches path ps \<Longrightarrow> any_glob_matches path qs"
  by (auto simp: any_glob_matches_iff)

section \<open>Properties\<close>

text \<open>
  C22. The work-list search with its visited set decides exactly the declarative meaning of a
  glob, for every path and every pattern: after normalisation the path splits into consecutive
  groups of segments, a double star taking any group, a single star any one segment and a
  literal the equal segment. The search terminates on every input.
\<close>

theorem path_matches_glob_correct:
  "path_matches_glob path pattern \<longleftrightarrow> glob_denotes (segments path) (segments pattern)"
  by (simp add: path_matches_glob_def matches_segs_denotes)

end
