(* ===== verification/Cdp_Policy_Eval.thy ===== *)
theory Cdp_Policy_Eval
  imports Cdp_Policy_Parser Cdp_Glob
begin

text \<open>
  The policy evaluator (\<open>crates/cdp-policy/src/evaluator.rs\<close>): the three passes over the
  policies, the intersection of the requested scope with the scope of the matching entry, and
  the construction of the decision. \<open>evaluate\<close> has type \<open>outcome\<close> because decoding the hash of
  an entry can panic. The lemmas relate the passes to the first entry of the best tier, and
  the intersection to what the proxy later admits.
\<close>

section \<open>Comparison and matching\<close>

definition constant_time_eq :: "bytes \<Rightarrow> bytes \<Rightarrow> bool" where
  "constant_time_eq a b = (if length a \<noteq> length b then False else xor_diff 0 a b = 0)"

interpretation policy_eq: secret_eq constant_time_eq "\<lambda>_. True"
  by unfold_locales (auto simp: constant_time_eq_def xor_diff_zero_iff)

definition credential_ref_matches :: "string \<Rightarrow> string \<Rightarrow> bool" where
  "credential_ref_matches policy_ref requested_ref \<longleftrightarrow>
     policy_ref = ''*'' \<or> policy_ref = requested_ref"

record policy_evaluator =
  ev_policies :: "policy_entry list"

definition evaluator_new :: "policy_entry list \<Rightarrow> policy_evaluator" where
  "evaluator_new policies = \<lparr>ev_policies = policies\<rparr>"

definition reload :: "policy_evaluator \<Rightarrow> policy_entry list \<Rightarrow> policy_evaluator" where
  "reload self policies = self\<lparr>ev_policies := policies\<rparr>"

definition policy_count :: "policy_evaluator \<Rightarrow> nat" where
  "policy_count self = length (ev_policies self)"

definition hash_matches :: "agent_info \<Rightarrow> string \<Rightarrow> policy_entry \<Rightarrow> bool outcome" where
  "hash_matches agent credential_ref entry =
     (if \<not> credential_ref_matches (pm_credential_ref (pe_match_block entry)) credential_ref
      then Ret False
      else (case pm_agent_binary_hash (pe_match_block entry) of
              None \<Rightarrow> Ret False
            | Some raw_hash \<Rightarrow>
                (case parse_binary_hash raw_hash of
                   Panic \<Rightarrow> Panic
                 | Ret (Inl _) \<Rightarrow> Ret False
                 | Ret (Inr policy_hash) \<Rightarrow>
                     Ret (constant_time_eq policy_hash (ai_binary_hash agent)))))"

definition find_by_binary_hash ::
  "policy_evaluator \<Rightarrow> agent_info \<Rightarrow> string \<Rightarrow> policy_entry option outcome" where
  "find_by_binary_hash self agent credential_ref =
     find_outcome (hash_matches agent credential_ref) (ev_policies self)"

definition find_by_binary_path ::
  "policy_evaluator \<Rightarrow> agent_info \<Rightarrow> string \<Rightarrow> policy_entry option" where
  "find_by_binary_path self agent credential_ref =
     List.find (\<lambda>entry.
       if \<not> credential_ref_matches (pm_credential_ref (pe_match_block entry)) credential_ref
       then False
       else (case pm_agent_binary_path (pe_match_block entry) of
               None \<Rightarrow> False
             | Some policy_path \<Rightarrow> policy_path = ai_binary_path agent))
     (ev_policies self)"

definition find_by_agent_id ::
  "policy_evaluator \<Rightarrow> agent_info \<Rightarrow> string \<Rightarrow> policy_entry option" where
  "find_by_agent_id self agent credential_ref =
     List.find (\<lambda>entry.
       if \<not> credential_ref_matches (pm_credential_ref (pe_match_block entry)) credential_ref
       then False
       else (case (pm_agent_id (pe_match_block entry), ai_agent_id agent) of
               (Some policy_id, Some agent_id) \<Rightarrow> policy_id = agent_id
             | _ \<Rightarrow> False))
     (ev_policies self)"

section \<open>Scope intersection\<close>

definition min_option :: "u64 option \<Rightarrow> u64 option \<Rightarrow> u64 option" where
  "min_option a b =
     (case (a, b) of
        (Some x, Some y) \<Rightarrow> Some (min x y)
      | (Some x, None) \<Rightarrow> Some x
      | (None, Some x) \<Rightarrow> Some x
      | (None, None) \<Rightarrow> None)"

interpretation policy_limit: limit_meet min_option
  by unfold_locales (auto simp: within_def min_option_def split: option.splits)

definition merge_body_constraints ::
  "body_constraints option \<Rightarrow> body_constraints option \<Rightarrow> body_constraints option" where
  "merge_body_constraints requested policy =
     (case (requested, policy) of
        (None, None) \<Rightarrow> None
      | (Some r, None) \<Rightarrow> Some r
      | (None, Some p) \<Rightarrow> Some p
      | (Some r, Some p) \<Rightarrow>
          Some \<lparr>bc_forbidden_fields = push_missing (bc_forbidden_fields r) (bc_forbidden_fields p),
                bc_max_size_bytes =
                  (case (bc_max_size_bytes r, bc_max_size_bytes p) of
                     (Some a, Some b) \<Rightarrow> Some (min a b)
                   | (Some x, None) \<Rightarrow> Some x
                   | (None, Some x) \<Rightarrow> Some x
                   | (None, None) \<Rightarrow> None),
                bc_allowed_content_types =
                  (if bc_allowed_content_types p \<noteq> [] then bc_allowed_content_types p
                   else bc_allowed_content_types r)\<rparr>)"

interpretation policy_body: constraint_merge merge_body_constraints
  by unfold_locales
    (auto simp: merge_body_constraints_def body_forbidden_def body_size_ok_def within_def
      split: option.splits)

text \<open>
  The three-way choice made for hosts and for methods: no restriction by the policy, none by
  the agent, or the common elements, of which there must be one.
\<close>

definition narrow_list :: "string list \<Rightarrow> string list \<Rightarrow> string list option" where
  "narrow_list requested allowed =
     (if allowed = [] then Some requested
      else if requested = [] then Some allowed
      else (let intersection = filter (\<lambda>h. h \<in> set allowed) requested in
            if intersection = [] then None else Some intersection))"

definition intersect_scope :: "scope \<Rightarrow> policy_allow \<Rightarrow> scope option" where
  "intersect_scope requested allowed =
     (case narrow_list (scope_hosts requested) (al_hosts allowed) of
        None \<Rightarrow> None
      | Some granted_hosts \<Rightarrow>
        (case narrow_list (scope_methods requested) (al_methods allowed) of
           None \<Rightarrow> None
         | Some granted_methods \<Rightarrow>
             (let matching_paths =
                    (if al_paths allowed = [] then scope_paths requested
                     else filter (\<lambda>p. any_glob_matches p (al_paths allowed)) (scope_paths requested));
                  all_forbidden =
                    push_missing (al_forbidden_paths allowed) (scope_forbidden_paths requested);
                  granted_paths =
                    (if all_forbidden \<noteq> []
                     then filter (\<lambda>p. \<not> any_glob_matches p all_forbidden) matching_paths
                     else matching_paths) in
              Some \<lparr>scope_hosts = granted_hosts,
                    scope_methods = granted_methods,
                    scope_paths = granted_paths,
                    scope_forbidden_paths = all_forbidden,
                    scope_ttl_seconds =
                      min_option (scope_ttl_seconds requested) (al_max_ttl_seconds allowed),
                    scope_max_requests =
                      min_option (scope_max_requests requested) (al_max_requests_per_lease allowed),
                    scope_body_constraints =
                      merge_body_constraints (scope_body_constraints requested)
                        (al_body_constraints allowed),
                    scope_network =
                      (case al_network allowed of
                         Some n \<Rightarrow> Some n | None \<Rightarrow> scope_network requested)\<rparr>)))"

section \<open>Decisions\<close>

definition build_constraints :: "policy_allow \<Rightarrow> policy_delegation \<Rightarrow> policy_constraints" where
  "build_constraints allow delegation =
     \<lparr>pc_max_ttl_seconds = al_max_ttl_seconds allow,
      pc_max_requests_per_lease = al_max_requests_per_lease allow,
      pc_max_renewals = al_max_renewals allow,
      pc_max_cumulative_ttl_seconds = al_max_cumulative_ttl_seconds allow,
      pc_renewable = al_renewable allow,
      pc_delegation_allowed = pd_allowed delegation,
      pc_delegation_max_depth = pd_max_depth delegation,
      pc_delegation_require_approval = pd_require_approval_for_delegate delegation\<rparr>"

definition build_decision :: "policy_entry \<Rightarrow> scope \<Rightarrow> policy_decision" where
  "build_decision entry requested_scope =
     (case intersect_scope requested_scope (pe_allow entry) of
        None \<Rightarrow> Denied ''scope intersection is empty''
      | Some granted \<Rightarrow>
          (let constraints = build_constraints (pe_allow entry) (pe_delegation entry) in
           if pa_mode (pe_approval entry) = ''auto''
           then AutoApprove granted (pe_name entry) constraints
           else RequiresApproval granted (pe_name entry) constraints))"

definition evaluate ::
  "policy_evaluator \<Rightarrow> agent_info \<Rightarrow> string \<Rightarrow> scope \<Rightarrow> policy_decision outcome" where
  "evaluate self agent credential_ref requested_scope =
     (case find_by_binary_hash self agent credential_ref of
        Panic \<Rightarrow> Panic
      | Ret (Some entry) \<Rightarrow> Ret (build_decision entry requested_scope)
      | Ret None \<Rightarrow>
          (case find_by_binary_path self agent credential_ref of
             Some entry \<Rightarrow> Ret (build_decision entry requested_scope)
           | None \<Rightarrow>
               (case find_by_agent_id self agent credential_ref of
                  Some entry \<Rightarrow> Ret (build_decision entry requested_scope)
                | None \<Rightarrow> Ret (Denied ''no matching policy''))))"

section \<open>Tiers\<close>

text \<open>
  The specification of matching: an entry matches a request at the hash tier, the path tier or
  the identifier tier. \<open>best_tier\<close> is the strongest tier at which it matches, 4 for none.
\<close>

definition hash_tier :: "agent_info \<Rightarrow> string \<Rightarrow> policy_entry \<Rightarrow> bool" where
  "hash_tier agent cred e \<longleftrightarrow>
     credential_ref_matches (pm_credential_ref (pe_match_block e)) cred \<and>
     (\<exists>raw. pm_agent_binary_hash (pe_match_block e) = Some raw \<and>
        parse_binary_hash raw = Ret (Inr (ai_binary_hash agent)))"

definition path_tier :: "agent_info \<Rightarrow> string \<Rightarrow> policy_entry \<Rightarrow> bool" where
  "path_tier agent cred e \<longleftrightarrow>
     credential_ref_matches (pm_credential_ref (pe_match_block e)) cred \<and>
     pm_agent_binary_path (pe_match_block e) = Some (ai_binary_path agent)"

definition id_tier :: "agent_info \<Rightarrow> string \<Rightarrow> policy_entry \<Rightarrow> bool" where
  "id_tier agent cred e \<longleftrightarrow>
     credential_ref_matches (pm_credential_ref (pe_match_block e)) cred \<and>
     pm_agent_id (pe_match_block e) \<noteq> None \<and> pm_agent_id (pe_match_block e) = ai_agent_id agent"

definition best_tier :: "agent_info \<Rightarrow> string \<Rightarrow> policy_entry \<Rightarrow> nat" where
  "best_tier agent cred e =
     (if hash_tier agent cred e then 1 else if path_tier agent cred e then 2
      else if id_tier agent cred e then 3 else 4)"

definition hashes_decodable :: "policy_entry list \<Rightarrow> bool" where
  "hashes_decodable ps \<longleftrightarrow>
     (\<forall>e \<in> set ps. \<forall>raw. pm_agent_binary_hash (pe_match_block e) = Some raw \<longrightarrow>
        parse_binary_hash raw \<noteq> Panic)"

definition first_with :: "('a \<Rightarrow> bool) \<Rightarrow> 'a list \<Rightarrow> nat \<Rightarrow> bool" where
  "first_with P xs i \<longleftrightarrow> i < length xs \<and> P (xs ! i) \<and> (\<forall>j < i. \<not> P (xs ! j))"

lemma find_first_with: "List.find P xs = Some x \<longleftrightarrow> (\<exists>i. first_with P xs i \<and> x = xs ! i)"
  by (auto simp: find_Some_iff first_with_def)

lemma hash_matches_tier:
  assumes "hashes_decodable ps" "e \<in> set ps"
  shows "hash_matches agent cred e = Ret (hash_tier agent cred e)"
proof -
  have "parse_binary_hash raw \<noteq> Panic"
    if "pm_agent_binary_hash (pe_match_block e) = Some raw" for raw
    using assms that by (auto simp: hashes_decodable_def)
  then show ?thesis
    by (auto simp: hash_matches_def hash_tier_def policy_eq.eq_iff
        split: option.splits outcome.splits sum.splits)
qed

lemma find_by_binary_hash_tier:
  "hashes_decodable (ev_policies self) \<Longrightarrow>
   find_by_binary_hash self agent cred = Ret (List.find (hash_tier agent cred) (ev_policies self))"
  unfolding find_by_binary_hash_def by (intro find_outcome_total hash_matches_tier)

lemma find_by_binary_path_tier:
  "find_by_binary_path self agent cred = List.find (path_tier agent cred) (ev_policies self)"
  unfolding find_by_binary_path_def
  by (rule arg_cong [where f = "\<lambda>P. List.find P (ev_policies self)"], rule ext)
    (auto simp: path_tier_def split: option.splits)

lemma find_by_agent_id_tier:
  "find_by_agent_id self agent cred = List.find (id_tier agent cred) (ev_policies self)"
  unfolding find_by_agent_id_def
  by (rule arg_cong [where f = "\<lambda>P. List.find P (ev_policies self)"], rule ext)
    (auto simp: id_tier_def split: option.splits)

lemmas find_by_tiers =
  find_by_binary_hash_tier find_by_binary_path_tier find_by_agent_id_tier

text \<open>The entry that wins: least best tier, then least position.\<close>

definition wins :: "agent_info \<Rightarrow> string \<Rightarrow> policy_entry list \<Rightarrow> nat \<Rightarrow> bool" where
  "wins agent cred ps i \<longleftrightarrow>
     i < length ps \<and> best_tier agent cred (ps ! i) < 4 \<and>
     (\<forall>j < length ps. best_tier agent cred (ps ! i) < best_tier agent cred (ps ! j) \<or>
        best_tier agent cred (ps ! i) = best_tier agent cred (ps ! j) \<and> i \<le> j)"

lemma wins_unique: "wins agent cred ps i \<Longrightarrow> wins agent cred ps j \<Longrightarrow> i = j"
proof -
  assume i: "wins agent cred ps i" and j: "wins agent cred ps j"
  let ?t = "\<lambda>k. best_tier agent cred (ps ! k)"
  from i j have "?t i < ?t j \<or> ?t i = ?t j \<and> i \<le> j" "?t j < ?t i \<or> ?t j = ?t i \<and> j \<le> i"
    unfolding wins_def by blast+
  then show "i = j" by linarith
qed

lemma winsI:
  assumes "first_with P ps i"
    and "best_tier agent cred (ps ! i) = t" and "t < 4"
    and "\<And>e. e \<in> set ps \<Longrightarrow> t \<le> best_tier agent cred e"
    and "\<And>e. e \<in> set ps \<Longrightarrow> best_tier agent cred e = t \<Longrightarrow> P e"
  shows "wins agent cred ps i"
  unfolding wins_def
proof (intro conjI allI impI)
  fix j
  assume j: "j < length ps"
  then have mem: "ps ! j \<in> set ps" by simp
  show "best_tier agent cred (ps ! i) < best_tier agent cred (ps ! j) \<or>
      best_tier agent cred (ps ! i) = best_tier agent cred (ps ! j) \<and> i \<le> j"
  proof (cases "best_tier agent cred (ps ! j) = t")
    case True
    with assms(5) [OF mem] have "P (ps ! j)" by simp
    with assms(1) have "i \<le> j" unfolding first_with_def by (meson not_le)
    with True assms(2) show ?thesis by simp
  next
    case False
    with assms(4) [OF mem] assms(2) show ?thesis by simp
  qed
qed (use assms in \<open>auto simp: first_with_def\<close>)

lemma evaluate_cases:
  assumes "hashes_decodable (ev_policies self)"
  shows "(\<exists>i. wins agent cred (ev_policies self) i \<and>
      evaluate self agent cred req = Ret (build_decision (ev_policies self ! i) req)) \<or>
    (\<forall>e \<in> set (ev_policies self). best_tier agent cred e = 4) \<and>
      evaluate self agent cred req = Ret (Denied ''no matching policy'')"
proof -
  let ?ps = "ev_policies self"
  let ?F = "\<lambda>P. List.find P ?ps"
  consider (hash) e where "?F (hash_tier agent cred) = Some e"
    | (path) e where "?F (hash_tier agent cred) = None" "?F (path_tier agent cred) = Some e"
    | (ident) e where "?F (hash_tier agent cred) = None" "?F (path_tier agent cred) = None"
        "?F (id_tier agent cred) = Some e"
    | (none) "?F (hash_tier agent cred) = None" "?F (path_tier agent cred) = None"
        "?F (id_tier agent cred) = None"
    by (metis option.exhaust)
  then show ?thesis
  proof cases
    case hash
    then obtain i where i: "first_with (hash_tier agent cred) ?ps i" "e = ?ps ! i"
      by (auto simp: find_first_with)
    then have "wins agent cred ?ps i"
      by (intro winsI [of "hash_tier agent cred" _ _ _ _ 1])
        (auto simp: best_tier_def first_with_def split: if_splits)
    with hash i assms show ?thesis by (auto simp: evaluate_def find_by_tiers)
  next
    case path
    then obtain i where i: "first_with (path_tier agent cred) ?ps i" "e = ?ps ! i"
      by (auto simp: find_first_with)
    with path have "wins agent cred ?ps i"
      by (intro winsI [of "path_tier agent cred" _ _ _ _ 2])
        (auto simp: best_tier_def first_with_def find_None_iff split: if_splits)
    with path i assms show ?thesis by (auto simp: evaluate_def find_by_tiers)
  next
    case ident
    then obtain i where i: "first_with (id_tier agent cred) ?ps i" "e = ?ps ! i"
      by (auto simp: find_first_with)
    with ident have "wins agent cred ?ps i"
      by (intro winsI [of "id_tier agent cred" _ _ _ _ 3])
        (auto simp: best_tier_def first_with_def find_None_iff split: if_splits)
    with ident i assms show ?thesis by (auto simp: evaluate_def find_by_tiers)
  next
    case none
    then have "\<forall>e \<in> set ?ps. best_tier agent cred e = 4"
      by (auto simp: best_tier_def find_None_iff)
    moreover from none assms
    have "evaluate self agent cred req = Ret (Denied ''no matching policy'')"
      by (simp add: evaluate_def find_by_tiers)
    ultimately show ?thesis by simp
  qed
qed

section \<open>What a scope admits\<close>

text \<open>An empty list of hosts or methods is no restriction, as the proxy reads it.\<close>

definition open_list :: "string list \<Rightarrow> string \<Rightarrow> bool" where
  "open_list xs x \<longleftrightarrow> xs = [] \<or> x \<in> set xs"

lemma narrow_list_Some:
  "narrow_list r a = Some g \<Longrightarrow> open_list g x \<longleftrightarrow> open_list r x \<and> open_list a x"
  by (auto simp: narrow_list_def open_list_def Let_def filter_empty_conv split: if_splits)

lemma narrow_list_None:
  "narrow_list r a = None \<longleftrightarrow> r \<noteq> [] \<and> a \<noteq> [] \<and> set r \<inter> set a = {}"
  by (auto simp: narrow_list_def Let_def filter_empty_conv)

lemma intersect_scope_None:
  "intersect_scope r a = None \<longleftrightarrow>
     narrow_list (scope_hosts r) (al_hosts a) = None \<or>
     narrow_list (scope_methods r) (al_methods a) = None"
  by (auto simp: intersect_scope_def Let_def split: option.splits)

lemma intersect_scope_parts:
  assumes "intersect_scope r a = Some g"
  shows "narrow_list (scope_hosts r) (al_hosts a) = Some (scope_hosts g)"
    and "narrow_list (scope_methods r) (al_methods a) = Some (scope_methods g)"
    and "set (scope_forbidden_paths g) =
      set (al_forbidden_paths a) \<union> set (scope_forbidden_paths r)"
    and "scope_paths g = filter (\<lambda>p. (al_paths a = [] \<or> any_glob_matches p (al_paths a)) \<and>
      \<not> any_glob_matches p (scope_forbidden_paths g)) (scope_paths r)"
    and "scope_ttl_seconds g = min_option (scope_ttl_seconds r) (al_max_ttl_seconds a)"
    and "scope_max_requests g = min_option (scope_max_requests r) (al_max_requests_per_lease a)"
    and "scope_body_constraints g =
      merge_body_constraints (scope_body_constraints r) (al_body_constraints a)"
  using assms
  by (auto simp: intersect_scope_def Let_def any_glob_matches_def conj_commute
      split: option.splits if_splits)

section \<open>Properties\<close>

text \<open>
  C11. When no stored hash text makes the decoder panic, evaluation returns the decision built
  from the winning entry, the one with the strongest tier (binary hash, then binary path, then
  agent identifier) and the smallest position within it; that decision may itself be a denial,
  when the scopes have nothing in common. It denies for want of a matching policy exactly when no
  entry matches at any tier.
\<close>

theorem evaluate_priority:
  assumes "hashes_decodable (ev_policies self)"
  shows "evaluate self agent cred req = Ret d \<longleftrightarrow>
    (\<exists>i. wins agent cred (ev_policies self) i \<and>
       d = build_decision (ev_policies self ! i) req) \<or>
    (\<forall>e \<in> set (ev_policies self). best_tier agent cred e = 4) \<and>
       d = Denied ''no matching policy''"
  using evaluate_cases [OF assms, of agent cred req]
proof (elim disjE exE conjE)
  fix i
  assume i: "wins agent cred (ev_policies self) i"
    and ev: "evaluate self agent cred req = Ret (build_decision (ev_policies self ! i) req)"
  from i have "ev_policies self ! i \<in> set (ev_policies self)"
    and "best_tier agent cred (ev_policies self ! i) \<noteq> 4"
    by (auto simp: wins_def)
  with i ev show ?thesis by (auto dest: wins_unique)
next
  assume "\<forall>e \<in> set (ev_policies self). best_tier agent cred e = 4"
    and "evaluate self agent cred req = Ret (Denied ''no matching policy'')"
  then show ?thesis by (auto simp: wins_def)
qed

lemma build_decision_AutoApprove:
  "build_decision e req = AutoApprove g n c \<longleftrightarrow>
     pa_mode (pe_approval e) = ''auto'' \<and> intersect_scope req (pe_allow e) = Some g \<and>
     n = pe_name e \<and> c = build_constraints (pe_allow e) (pe_delegation e)"
  by (auto simp: build_decision_def Let_def split: option.splits if_splits)

lemma auto_entry_hash_only_tier:
  assumes "best_tier agent cred e < 4"
    and "pm_agent_binary_path (pe_match_block e) = None" "pm_agent_id (pe_match_block e) = None"
  shows "hash_tier agent cred e"
  using assms by (auto simp: best_tier_def path_tier_def id_tier_def split: if_splits)

text \<open>
  C12. When every automatic entry identifies agents by binary hash only, an automatic approval
  is given only to an agent whose binary hash is the decoded hash of an automatic entry for
  that credential, with the name and limits of that entry and the scope of its intersection.
\<close>

theorem evaluate_auto_approve_sound:
  assumes "hashes_decodable (ev_policies self)"
    and "\<forall>e \<in> set (ev_policies self). pa_mode (pe_approval e) = ''auto'' \<longrightarrow>
      pm_agent_binary_path (pe_match_block e) = None \<and> pm_agent_id (pe_match_block e) = None"
    and "evaluate self agent cred req = Ret (AutoApprove g n c)"
  shows "\<exists>e \<in> set (ev_policies self).
    pa_mode (pe_approval e) = ''auto'' \<and> hash_tier agent cred e \<and>
    intersect_scope req (pe_allow e) = Some g \<and> n = pe_name e \<and>
    c = build_constraints (pe_allow e) (pe_delegation e)"
proof -
  from evaluate_cases [OF assms(1), of agent cred req] assms(3) obtain i where
    i: "wins agent cred (ev_policies self) i"
    and d: "build_decision (ev_policies self ! i) req = AutoApprove g n c"
    by auto
  let ?e = "ev_policies self ! i"
  from i have mem: "?e \<in> set (ev_policies self)" and "best_tier agent cred ?e < 4"
    by (auto simp: wins_def)
  with assms(2) d have "hash_tier agent cred ?e"
    by (simp add: build_decision_AutoApprove auto_entry_hash_only_tier)
  with mem d show ?thesis by (auto simp: build_decision_AutoApprove)
qed

text \<open>
  C13. Intersection is exact on hosts and methods (the granted list admits what both lists
  admit, an empty list admitting everything), grants only requested paths that the policy
  allows and nobody forbids, keeps every forbidden pattern of both sides, and bounds lifetime,
  number of requests and body by both sides.
\<close>

theorem intersect_scope_exact:
  assumes "intersect_scope r a = Some g"
  shows "(\<forall>h. open_list (scope_hosts g) h \<longleftrightarrow>
        open_list (scope_hosts r) h \<and> open_list (al_hosts a) h) \<and>
    (\<forall>m. open_list (scope_methods g) m \<longleftrightarrow>
        open_list (scope_methods r) m \<and> open_list (al_methods a) m) \<and>
    set (scope_paths g) = {p \<in> set (scope_paths r).
        (al_paths a = [] \<or> any_glob_matches p (al_paths a)) \<and>
        \<not> any_glob_matches p (al_forbidden_paths a) \<and>
        \<not> any_glob_matches p (scope_forbidden_paths r)} \<and>
    set (scope_forbidden_paths g) = set (al_forbidden_paths a) \<union> set (scope_forbidden_paths r) \<and>
    (\<forall>t. within (scope_ttl_seconds g) t \<longleftrightarrow>
        within (scope_ttl_seconds r) t \<and> within (al_max_ttl_seconds a) t) \<and>
    (\<forall>n. within (scope_max_requests g) n \<longleftrightarrow>
        within (scope_max_requests r) n \<and> within (al_max_requests_per_lease a) n) \<and>
    (\<forall>n ks. body_admits (scope_body_constraints g) n ks \<longleftrightarrow>
        body_admits (scope_body_constraints r) n ks \<and> body_admits (al_body_constraints a) n ks)"
proof -
  note parts = intersect_scope_parts [OF assms]
  have "any_glob_matches p (scope_forbidden_paths g) \<longleftrightarrow>
      any_glob_matches p (al_forbidden_paths a) \<or> any_glob_matches p (scope_forbidden_paths r)" for p
    unfolding any_glob_matches_def list_ex_iff parts(3) by blast
  then have paths: "set (scope_paths g) = {p \<in> set (scope_paths r).
      (al_paths a = [] \<or> any_glob_matches p (al_paths a)) \<and>
      \<not> any_glob_matches p (al_forbidden_paths a) \<and>
      \<not> any_glob_matches p (scope_forbidden_paths r)}"
    using parts(4) by auto
  show ?thesis
    using narrow_list_Some [OF parts(1)] narrow_list_Some [OF parts(2)] paths parts(3)
    by (simp add: parts(5-7) policy_limit.within_meet policy_body.admits_merge)
qed

text \<open>
  The scope is refused exactly when the hosts, or the methods, are restricted by both sides
  and the two lists have no element in common; every other request is granted some scope.
\<close>

theorem intersect_scope_refused_iff:
  "intersect_scope r a = None \<longleftrightarrow>
     scope_hosts r \<noteq> [] \<and> al_hosts a \<noteq> [] \<and> set (scope_hosts r) \<inter> set (al_hosts a) = {} \<or>
     scope_methods r \<noteq> [] \<and> al_methods a \<noteq> [] \<and> set (scope_methods r) \<inter> set (al_methods a) = {}"
  by (simp add: intersect_scope_None narrow_list_None)

section \<open>Witnesses and counterexamples\<close>

definition sample_agent :: agent_info where
  "sample_agent =
     \<lparr>ai_uid = 1000, ai_pid = 7, ai_binary_path = ''/bin/a'', ai_binary_hash = replicate 32 1,
      ai_start_time = 5, ai_fingerprint_hash = replicate 32 2, ai_agent_id = Some ''a'',
      ai_agent_version = None\<rparr>"

definition sample_auto_entry :: "bytes \<Rightarrow> string option \<Rightarrow> policy_entry" where
  "sample_auto_entry h aid =
     sample_entry\<lparr>pe_match_block := \<lparr>pm_agent_binary_hash = Some (''sha256:'' @ hex_encode h),
         pm_agent_binary_path = None, pm_agent_id = aid, pm_credential_ref = ''*''\<rparr>,
       pe_approval := \<lparr>pa_mode = ''auto''\<rparr>\<rparr>"

definition sample_granted :: scope where
  "sample_granted = scope_default\<lparr>scope_hosts := [''h''], scope_methods := [''GET'']\<rparr>"

definition sample_evaluator :: "bytes \<Rightarrow> string option \<Rightarrow> policy_evaluator" where
  "sample_evaluator h aid = evaluator_new [sample_auto_entry h aid]"

lemma sample_decodable:
  "length h = 32 \<Longrightarrow> hashes_decodable (ev_policies (sample_evaluator h aid))"
  using parse_binary_hash_encode [of h]
  by (simp add: hashes_decodable_def sample_evaluator_def evaluator_new_def sample_auto_entry_def)

lemma sample_evaluate:
  "evaluate (sample_evaluator (replicate 32 1) None) sample_agent ''c'' scope_default =
     Ret (AutoApprove sample_granted ''p'' policy_constraints_default)"
  by code_simp

theorem evaluate_priority_witness:
  "\<exists>i. wins sample_agent ''c'' (ev_policies (sample_evaluator (replicate 32 1) None)) i \<and>
     AutoApprove sample_granted ''p'' policy_constraints_default =
     build_decision (ev_policies (sample_evaluator (replicate 32 1) None) ! i) scope_default"
  using evaluate_priority [OF sample_decodable [of "replicate 32 1" None],
      of sample_agent "''c''" scope_default "AutoApprove sample_granted ''p'' policy_constraints_default"]
    sample_evaluate by simp

theorem evaluate_auto_approve_sound_witness:
  "\<exists>e \<in> set (ev_policies (sample_evaluator (replicate 32 1) None)).
     pa_mode (pe_approval e) = ''auto'' \<and> hash_tier sample_agent ''c'' e \<and>
     intersect_scope scope_default (pe_allow e) = Some sample_granted \<and> ''p'' = pe_name e \<and>
     policy_constraints_default = build_constraints (pe_allow e) (pe_delegation e)"
  by (rule evaluate_auto_approve_sound [OF sample_decodable _ sample_evaluate])
    (simp_all add: sample_evaluator_def evaluator_new_def sample_auto_entry_def)

theorem intersect_scope_exact_witness:
  "(\<forall>h. open_list (scope_hosts sample_granted) h \<longleftrightarrow>
      open_list (scope_hosts scope_default) h \<and> open_list (al_hosts (pe_allow sample_entry)) h) \<and>
   intersect_scope scope_default (pe_allow sample_entry) = Some sample_granted"
proof -
  have "intersect_scope scope_default (pe_allow sample_entry) = Some sample_granted"
    by code_simp
  then show ?thesis using intersect_scope_exact by blast
qed

text \<open>
  The hash of an automatic entry is not required of the agent when the entry also names an
  agent identifier: a validated automatic entry approves an agent that reports the identifier
  and whose binary hash differs from the hash of the entry, because the third pass looks at the
  identifier alone.
\<close>

theorem auto_approve_without_hash_match:
  "validate_policy (sample_auto_entry (replicate 32 9) (Some ''a'')) = Inr () \<and>
   parse_binary_hash (''sha256:'' @ hex_encode (replicate 32 9)) = Ret (Inr (replicate 32 9)) \<and>
   ai_binary_hash sample_agent \<noteq> replicate 32 9 \<and>
   evaluate (sample_evaluator (replicate 32 9) (Some ''a'')) sample_agent ''c'' scope_default =
     Ret (AutoApprove sample_granted ''p'' policy_constraints_default)"
proof (intro conjI)
  show "parse_binary_hash (''sha256:'' @ hex_encode (replicate 32 9)) = Ret (Inr (replicate 32 9))"
    by (rule parse_binary_hash_encode) simp
qed code_simp+

text \<open>
  Validation does not look at the text of the hash: an entry whose hash text has a
  two-byte character across a pair boundary passes validation, and evaluating any request for
  its credential panics.
\<close>

theorem evaluate_panics_on_validated_entry:
  "\<exists>e. validate_policy e = Inr () \<and>
     (\<forall>agent cred req. evaluate (evaluator_new [e]) agent cred req = Panic)"
proof -
  let ?e = "sample_entry\<lparr>pe_match_block := \<lparr>pm_agent_binary_hash =
    Some (''sha256:a'' @ [CHR 0xC3, CHR 0xA9] @ ''a''),
    pm_agent_binary_path = None, pm_agent_id = None, pm_credential_ref = ''*''\<rparr>\<rparr>"
  have "validate_policy ?e = Inr ()" by code_simp
  moreover have "parse_binary_hash (''sha256:a'' @ [CHR 0xC3, CHR 0xA9] @ ''a'') = Panic"
    by code_simp
  then have "evaluate (evaluator_new [?e]) agent cred req = Panic" for agent cred req
    by (simp add: evaluate_def find_by_binary_hash_def evaluator_new_def hash_matches_def
        credential_ref_matches_def)
  ultimately show ?thesis by blast
qed

end
