(* ===== verification/Cdp_Policy_Approval.thy ===== *)
theory Cdp_Policy_Approval
  imports Cdp_Policy_Eval
begin

text \<open>
  User approval and the policy engine (\<open>crates/cdp-policy/src/approval.rs\<close> and \<open>lib.rs\<close>). The
  programs that show the dialog, \<open>which\<close>, the clock of the timeout and the file system are
  arguments. The lemmas show what an approval means, that no text of an agent leaves the string
  literal of the generated AppleScript, and how long the displayed reason can be.
\<close>

section \<open>The message\<close>

fun summarise_paths :: "string list \<Rightarrow> string" where
  "summarise_paths paths =
     (if length paths \<le> 3 then join '', '' paths
      else join '', '' (take 3 paths) @ '', +'' @ show_nat (length paths - 3) @ '' more'')"

definition format_scope_summary :: "scope \<Rightarrow> string" where
  "format_scope_summary sc =
     (let parts = (if scope_methods sc \<noteq> [] then [join '', '' (scope_methods sc)] else []);
          parts = (case scope_hosts sc of
                     [] \<Rightarrow> parts
                   | h # _ \<Rightarrow> (if parts \<noteq> [] then parts @ [''to''] else parts) @ [h]);
          parts = (if scope_paths sc \<noteq> [] then parts @ [summarise_paths (scope_paths sc)] else parts) in
      join '' '' parts)"

definition format_duration_parts :: "scope \<Rightarrow> string" where
  "format_duration_parts sc =
     join '', ''
       ((case scope_ttl_seconds sc of None \<Rightarrow> [] | Some ttl \<Rightarrow> [show_nat (unat ttl) @ ''s'']) @
        (case scope_max_requests sc of
           None \<Rightarrow> []
         | Some max_req \<Rightarrow> [''max '' @ show_nat (unat max_req) @ '' requests'']))"

definition truncate_reason :: "string \<Rightarrow> nat \<Rightarrow> string" where
  "truncate_reason reason max_len =
     (if max_len = 0 then []
      else if char_count reason \<le> max_len then reason
      else take_chars (max_len - 3) reason @ ''...'')"

definition format_approval_message ::
  "agent_info \<Rightarrow> string \<Rightarrow> scope \<Rightarrow> string \<Rightarrow> approval_config \<Rightarrow> string" where
  "format_approval_message agent credential_ref sc reason config =
     (let ls = [''Agent:       '' @ ai_binary_path agent @ '' (PID '' @ show_nat (unat (ai_pid agent)) @ '')''];
          ls = (if ac_show_binary_hash config
                then ls @ [''Binary Hash: sha256:'' @ take 16 (hex_encode (ai_binary_hash agent)) @ ''...'']
                else ls);
          ls = ls @ [''Credential:  '' @ credential_ref];
          scope_summary = format_scope_summary sc;
          ls = (if scope_summary \<noteq> [] then ls @ [''Scope:       '' @ scope_summary] else ls);
          duration_parts = format_duration_parts sc;
          ls = (if duration_parts \<noteq> [] then ls @ [''Duration:    '' @ duration_parts] else ls);
          truncated_reason = truncate_reason reason (ac_max_reason_length config);
          reason_label = (if ac_label_reason_untrusted config
                          then ''--- Agent-provided reason (UNVERIFIED) ---''
                          else ''--- Agent-provided reason ---'') in
      join [CHR 0x0A] (ls @ [[], reason_label, truncated_reason]))"

section \<open>The dialog programs\<close>

text \<open>
  \<open>gui_spawn\<close> runs a program on arguments: \<open>Inl\<close> when it cannot be started, otherwise what
  reading its output gives and what waiting for it gives, where the exit code is \<open>None\<close> after a
  signal. \<open>gr_elapsed\<close> tells whether the time limit expires before the program ends; a backend
  that is still pending then has the result \<open>None\<close>.
\<close>

record gui_run =
  gr_stdout :: "string + string"
  gr_wait :: "string + int option"
  gr_elapsed :: bool

record gui_env =
  gui_which :: "string \<Rightarrow> bool"
  gui_spawn :: "string \<Rightarrow> string list \<Rightarrow> string + gui_run"

definition detect_gui_command :: "gui_env \<Rightarrow> string option" where
  "detect_gui_command env = List.find (gui_which env) [''kdialog'', ''zenity'', ''osascript'']"

definition run_kdialog :: "gui_env \<Rightarrow> string \<Rightarrow> string \<Rightarrow> (policy_error + approval_result) option" where
  "run_kdialog env gui_cmd message =
     (case gui_spawn env gui_cmd
             [''--warningyesnocancel'', message, ''--title'', ''CDP Credential Request''] of
        Inl e \<Rightarrow> Some (Inl (ApprovalCommand (''failed to spawn kdialog: '' @ e)))
      | Inr child \<Rightarrow>
          if gr_elapsed child then None else Some
          (case gr_wait child of
             Inl e \<Rightarrow> Inl (ApprovalCommand (''kdialog wait failed: '' @ e))
           | Inr (Some code) \<Rightarrow>
               if code = 0 then Inr AllowOnce
               else if code = 1 then Inr Deny
               else if code = 2 then Inr (AllowTimed 600)
               else Inl (ApprovalCommand ''kdialog exited with unexpected code'')
           | Inr None \<Rightarrow> Inl (ApprovalCommand ''kdialog terminated by signal'')))"

definition run_zenity :: "gui_env \<Rightarrow> string \<Rightarrow> string \<Rightarrow> (policy_error + approval_result) option" where
  "run_zenity env gui_cmd message =
     (case gui_spawn env gui_cmd
             [''--question'', ''--no-markup'', ''--title=CDP Credential Request'', ''--text='' @ message,
              ''--ok-label=Allow Once'', ''--cancel-label=Deny'', ''--extra-button=Allow 10min''] of
        Inl e \<Rightarrow> Some (Inl (ApprovalCommand (''failed to spawn zenity: '' @ e)))
      | Inr child \<Rightarrow>
          if gr_elapsed child then None else Some
          (case gr_stdout child of
             Inl e \<Rightarrow> Inl (ApprovalCommand (''zenity stdout read error: '' @ e))
           | Inr stdout_text \<Rightarrow>
               (case gr_wait child of
                  Inl e \<Rightarrow> Inl (ApprovalCommand (''zenity wait failed: '' @ e))
                | Inr status \<Rightarrow>
                    if status = Some 0 then Inr AllowOnce
                    else if str_contains stdout_text ''Allow 10min'' then Inr (AllowTimed 600)
                    else Inr Deny)))"

definition replace_char :: "char \<Rightarrow> string \<Rightarrow> string \<Rightarrow> string" where
  "replace_char c r s = concat (map (\<lambda>x. if x = c then r else [x]) s)"

definition osascript_escape :: "string \<Rightarrow> string" where
  "osascript_escape message =
     replace_char (CHR 0x22) [CHR 0x5C, CHR 0x22] (replace_char (CHR 0x5C) [CHR 0x5C, CHR 0x5C] message)"

definition osascript_tail :: string where
  "osascript_tail =
     [CHR 0x22] @ '' buttons {'' @ [CHR 0x22] @ ''Deny'' @ [CHR 0x22] @ '', '' @ [CHR 0x22] @ ''Allow 10min''
     @ [CHR 0x22] @ '', '' @ [CHR 0x22] @ ''Allow Once'' @ [CHR 0x22] @ ''} default button '' @ [CHR 0x22]
     @ ''Allow Once'' @ [CHR 0x22] @ '' with icon caution''"

definition osascript_script :: "string \<Rightarrow> string" where
  "osascript_script message =
     ''display dialog '' @ [CHR 0x22] @ osascript_escape message @ osascript_tail"

definition run_osascript :: "gui_env \<Rightarrow> string \<Rightarrow> string \<Rightarrow> (policy_error + approval_result) option" where
  "run_osascript env gui_cmd message =
     (case gui_spawn env gui_cmd [''-e'', osascript_script message] of
        Inl e \<Rightarrow> Some (Inl (ApprovalCommand (''failed to spawn osascript: '' @ e)))
      | Inr child \<Rightarrow>
          if gr_elapsed child then None else Some
          (case gr_stdout child of
             Inl e \<Rightarrow> Inl (ApprovalCommand (''osascript stdout read error: '' @ e))
           | Inr stdout_text \<Rightarrow>
               (case gr_wait child of
                  Inl e \<Rightarrow> Inl (ApprovalCommand (''osascript wait failed: '' @ e))
                | Inr _ \<Rightarrow>
                    if str_contains stdout_text ''Allow Once'' then Inr AllowOnce
                    else if str_contains stdout_text ''Allow 10min'' then Inr (AllowTimed 600)
                    else Inr Deny)))"

text \<open>\<open>Path::file_name\<close>: the last component, unless it is the parent directory or missing.\<close>

definition file_name :: "string \<Rightarrow> string option" where
  "file_name p =
     (let cs = filter (\<lambda>c. c \<noteq> [] \<and> c \<noteq> ''.'') (split_on (CHR ''/'') p) in
      if cs = [] \<or> last cs = ''..'' then None else Some (last cs))"

definition run_gui_approval ::
  "gui_env \<Rightarrow> string \<Rightarrow> string \<Rightarrow> u64 \<Rightarrow> policy_error + approval_result" where
  "run_gui_approval env gui_cmd message timeout_secs =
     (let base = (case file_name gui_cmd of Some n \<Rightarrow> n | None \<Rightarrow> gui_cmd);
          fut = (if base = ''kdialog'' then run_kdialog env gui_cmd message
                 else if base = ''zenity'' then run_zenity env gui_cmd message
                 else if base = ''osascript'' then run_osascript env gui_cmd message
                 else Some (Inl (ApprovalCommand (''unsupported GUI command: '' @ base)))) in
      case fut of Some result \<Rightarrow> result | None \<Rightarrow> Inl (ApprovalTimeout timeout_secs))"

definition prompt_user ::
  "gui_env \<Rightarrow> agent_info \<Rightarrow> string \<Rightarrow> scope \<Rightarrow> string \<Rightarrow> approval_config \<Rightarrow> policy_error + approval_result" where
  "prompt_user env agent credential_ref sc reason config =
     (let message = format_approval_message agent credential_ref sc reason config in
      case (if ac_gui_command config \<noteq> [] then Some (ac_gui_command config) else detect_gui_command env) of
        None \<Rightarrow> Inl (ApprovalCommand ''no GUI approval tool found'')
      | Some gui_cmd \<Rightarrow> run_gui_approval env gui_cmd message (ac_timeout_seconds config))"

section \<open>The engine\<close>

record policy_engine =
  eng_evaluator :: policy_evaluator
  eng_policy_dir :: string
  eng_approval_config :: approval_config

text \<open>\<open>create_dir\<close> creates a missing directory: \<open>Inl\<close> on failure, the file system afterwards otherwise.\<close>

definition engine_new ::
  "policy_fs \<Rightarrow> (string \<Rightarrow> string + policy_fs) \<Rightarrow> (string \<Rightarrow> string + policy_entry list) \<Rightarrow> string
   \<Rightarrow> approval_config \<Rightarrow> policy_error + policy_engine" where
  "engine_new fs create_dir toml policy_dir config =
     (case (if fs_exists fs policy_dir then Inr fs else create_dir policy_dir) of
        Inl e \<Rightarrow> Inl (Io (''failed to create policy dir '' @ policy_dir @ '': '' @ e))
      | Inr fs \<Rightarrow>
          (case load_policies_from_dir fs toml policy_dir of
             Inl e \<Rightarrow> Inl e
           | Inr policies \<Rightarrow>
               Inr \<lparr>eng_evaluator = evaluator_new policies, eng_policy_dir = policy_dir,
                    eng_approval_config = config\<rparr>))"

definition engine_evaluate :: "policy_engine \<Rightarrow> agent_info \<Rightarrow> string \<Rightarrow> scope \<Rightarrow> policy_decision outcome" where
  "engine_evaluate self agent credential_ref requested_scope =
     evaluate (eng_evaluator self) agent credential_ref requested_scope"

definition evaluate_with_approval ::
  "gui_env \<Rightarrow> policy_engine \<Rightarrow> agent_info \<Rightarrow> string \<Rightarrow> scope \<Rightarrow> string
   \<Rightarrow> (policy_error + policy_decision) outcome" where
  "evaluate_with_approval env self agent credential_ref requested_scope reason =
     (case engine_evaluate self agent credential_ref requested_scope of
        Panic \<Rightarrow> Panic
      | Ret (RequiresApproval granted name cons) \<Rightarrow>
          (case prompt_user env agent credential_ref granted reason (eng_approval_config self) of
             Inl e \<Rightarrow> Ret (Inl e)
           | Inr AllowOnce \<Rightarrow> Ret (Inr (AutoApprove granted name cons))
           | Inr (AllowTimed _) \<Rightarrow> Ret (Inr (AutoApprove granted name cons))
           | Inr Deny \<Rightarrow> Ret (Inr (Denied ''user denied the request'')))
      | Ret decision \<Rightarrow> Ret (Inr decision))"

text \<open>The watcher task applies the policy sets it receives, in order.\<close>

definition watcher_apply :: "policy_engine \<Rightarrow> policy_entry list list \<Rightarrow> policy_engine" where
  "watcher_apply self received =
     fold (\<lambda>new_policies self. self\<lparr>eng_evaluator := reload (eng_evaluator self) new_policies\<rparr>) received self"

definition engine_policy_count :: "policy_engine \<Rightarrow> nat" where
  "engine_policy_count self = policy_count (eng_evaluator self)"

section \<open>Lemmas\<close>

text \<open>
  How AppleScript reads a string literal after the opening quote: up to the next quote, where a
  backslash may protect a backslash or a quote.
\<close>

fun read_literal :: "string \<Rightarrow> (string \<times> string) option" where
  "read_literal [] = None"
| "read_literal (c # cs) =
     (if c = CHR 0x22 then Some ([], cs)
      else if c = CHR 0x5C
      then (case cs of
              [] \<Rightarrow> None
            | d # ds \<Rightarrow>
                if d = CHR 0x22 \<or> d = CHR 0x5C
                then map_option (\<lambda>(s, rest). (d # s, rest)) (read_literal ds) else None)
      else map_option (\<lambda>(s, rest). (c # s, rest)) (read_literal cs))"

lemma osascript_escape_simps [simp]:
  "osascript_escape [] = []"
  "osascript_escape (c # cs) =
     (if c = CHR 0x22 \<or> c = CHR 0x5C then [CHR 0x5C, c] else [c]) @ osascript_escape cs"
  by (simp_all add: osascript_escape_def replace_char_def)

lemma read_literal_escape: "read_literal (osascript_escape m @ CHR 0x22 # rest) = Some (m, rest)"
  by (induction m) auto

lemma char_count_take_chars_eq: "n \<le> char_count s \<Longrightarrow> char_count (take_chars n s) = n"
  by (induction n s rule: take_chars.induct) (auto simp: char_count_def split: nat.splits)

section \<open>Properties\<close>

text \<open>
  C36. The approval dialog on macOS is safe against injection: read as AppleScript, the literal of
  the generated script is exactly the message, whatever an agent puts into it, and what follows
  the literal does not depend on the message.
\<close>

theorem osascript_no_injection:
  "read_literal (drop (length (''display dialog '' @ [CHR 0x22])) (osascript_script message)) =
     Some (message, tl osascript_tail)"
proof -
  have tail: "osascript_tail = CHR 0x22 # tl osascript_tail" by (simp add: osascript_tail_def)
  have script: "osascript_script message =
      (''display dialog '' @ [CHR 0x22]) @ (osascript_escape message @ CHR 0x22 # tl osascript_tail)"
    unfolding osascript_script_def tail [symmetric] by (simp only: append_assoc)
  have skip: "drop (length a) (a @ b) = b" for a b :: string by simp
  show ?thesis unfolding script skip by (rule read_literal_escape)
qed

text \<open>
  The displayed reason has at most the configured number of characters, except that a limit
  of one or two still shows the three dots.
\<close>

theorem truncate_reason_length:
  "char_count (truncate_reason reason n) =
     (if n = 0 then 0 else if char_count reason \<le> n then char_count reason else max n 3)"
proof -
  have "char_count ''...'' = 3" by code_simp
  moreover have "char_count (take_chars (n - 3) reason) = n - 3" if "\<not> char_count reason \<le> n"
    using that by (intro char_count_take_chars_eq) simp
  ultimately show ?thesis by (auto simp: truncate_reason_def char_count_def [of "[]"])
qed

text \<open>
  An approval has a ground: when the engine approves, the evaluator approved automatically, or
  it asked for approval of the same scope, name and constraints and the dialog answered that the
  request is allowed. The engine never passes an open approval on, and a refusal of the evaluator
  is final.
\<close>

theorem evaluate_with_approval_sound:
  assumes "evaluate_with_approval env self agent cref requested reason = Ret r"
  shows "(\<forall>g n c. r = Inr (AutoApprove g n c) \<longrightarrow>
      evaluate (eng_evaluator self) agent cref requested = Ret (AutoApprove g n c) \<or>
      evaluate (eng_evaluator self) agent cref requested = Ret (RequiresApproval g n c) \<and>
      (\<exists>a. prompt_user env agent cref g reason (eng_approval_config self) = Inr a \<and> a \<noteq> Deny)) \<and>
    (\<forall>g n c. r \<noteq> Inr (RequiresApproval g n c)) \<and>
    (\<forall>d. evaluate (eng_evaluator self) agent cref requested = Ret (Denied d) \<longrightarrow> r = Inr (Denied d))"
  using assms
  by (auto simp: evaluate_with_approval_def engine_evaluate_def
      split: outcome.splits policy_decision.splits sum.splits approval_result.splits)

text \<open>
  The third button of the KDE dialog approves: when kdialog ends with exit code 2, which is
  what cancelling or closing the dialog gives, an open approval is granted, with the same scope
  and constraints as an approval for one use; the duration of the answer is not used.
\<close>

theorem kdialog_cancel_approves:
  assumes "evaluate (eng_evaluator self) agent cref requested = Ret (RequiresApproval g n c)"
    and "ac_gui_command (eng_approval_config self) = ''kdialog''"
    and "\<And>args. gui_spawn env ''kdialog'' args = Inr \<lparr>gr_stdout = Inr [], gr_wait = Inr (Some 2), gr_elapsed = False\<rparr>"
  shows "evaluate_with_approval env self agent cref requested reason = Ret (Inr (AutoApprove g n c))"
proof -
  have "file_name ''kdialog'' = Some ''kdialog''" by code_simp
  then have "prompt_user env agent cref g reason (eng_approval_config self) = Inr (AllowTimed 600)"
    by (simp add: prompt_user_def run_gui_approval_def run_kdialog_def assms(2,3) Let_def)
  then show ?thesis by (simp add: evaluate_with_approval_def engine_evaluate_def assms(1))
qed

section \<open>Witnesses\<close>

definition sample_engine :: policy_engine where
  "sample_engine =
     \<lparr>eng_evaluator = evaluator_new [sample_entry], eng_policy_dir = ''d'',
      eng_approval_config = \<lparr>ac_gui_command = ''kdialog'', ac_timeout_seconds = 60,
        ac_show_binary_hash = True, ac_label_reason_untrusted = True, ac_max_reason_length = 200\<rparr>\<rparr>"

definition sample_gui :: gui_env where
  "sample_gui =
     \<lparr>gui_which = (\<lambda>_. True),
      gui_spawn = (\<lambda>_ _. Inr \<lparr>gr_stdout = Inr [], gr_wait = Inr (Some 2), gr_elapsed = False\<rparr>)\<rparr>"

lemma sample_engine_evaluate:
  "evaluate (eng_evaluator sample_engine) sample_agent ''c'' scope_default =
     Ret (RequiresApproval sample_granted ''p'' policy_constraints_default)"
  by code_simp

theorem kdialog_cancel_approves_witness:
  "evaluate_with_approval sample_gui sample_engine sample_agent ''c'' scope_default ''r'' =
     Ret (Inr (AutoApprove sample_granted ''p'' policy_constraints_default))"
  by (rule kdialog_cancel_approves [OF sample_engine_evaluate]) (simp_all add: sample_engine_def sample_gui_def)

lemma sample_prompt:
  "prompt_user sample_gui sample_agent ''c'' sample_granted ''r'' (eng_approval_config sample_engine) =
     Inr (AllowTimed 600)"
proof -
  have "file_name ''kdialog'' = Some ''kdialog''" by code_simp
  then show ?thesis
    by (simp add: prompt_user_def run_gui_approval_def run_kdialog_def sample_engine_def sample_gui_def Let_def)
qed

theorem evaluate_with_approval_sound_witness:
  "\<exists>a. prompt_user sample_gui sample_agent ''c'' sample_granted ''r'' (eng_approval_config sample_engine) = Inr a \<and>
     a \<noteq> Deny"
proof -
  have "evaluate_with_approval sample_gui sample_engine sample_agent ''c'' scope_default ''r'' =
      Ret (Inr (AutoApprove sample_granted ''p'' policy_constraints_default))"
    by (simp add: evaluate_with_approval_def engine_evaluate_def sample_engine_evaluate sample_prompt)
  from evaluate_with_approval_sound [OF this] show ?thesis by (simp add: sample_engine_evaluate)
qed

end
