(* ===== verification/Cdp_Crypto.thy ===== *)
theory Cdp_Crypto
  imports Cdp_Policy_Parser
begin

text \<open>
  The crypto crate (\<open>crates/cdp-crypto/src\<close>): the framing of the authenticated messages,
  session and lease tokens, the derivation of credential keys, sealed blobs and the pool that
  holds them. The primitives (HMAC-SHA256, HKDF, ChaCha20-Poly1305) come from other crates and
  are arguments. The lemmas show that framed messages determine their parts, so a token binds
  every field it is computed from, and that session and lease tokens live in disjoint domains.
\<close>

section \<open>Length-prefixed framing\<close>

text \<open>The \<open>n\<close> low bytes of \<open>v\<close>, most significant first: \<open>to_be_bytes\<close>.\<close>

fun be_bytes :: "nat \<Rightarrow> nat \<Rightarrow> bytes" where
  "be_bytes 0 v = []"
| "be_bytes (Suc n) v = word_of_nat (v div 256 ^ n) # be_bytes n v"

definition length_prefixed :: "nat \<Rightarrow> bytes \<Rightarrow> bytes" where
  "length_prefixed n part = be_bytes n (length part) @ part"

lemma length_be_bytes [simp]: "length (be_bytes n v) = n"
  by (induction n) auto

lemma be_bytes_value:
  "foldl (\<lambda>a b. a * 256 + unat b) acc (be_bytes n v) = acc * 256 ^ n + v mod 256 ^ n"
proof (induction n arbitrary: acc)
  case (Suc n)
  have "v mod 256 ^ Suc n = 256 ^ n * (v div 256 ^ n mod 256) + v mod 256 ^ n"
    using mod_mult2_eq [of v "256 ^ n" 256] by (simp add: mult.commute)
  moreover have "foldl (\<lambda>a b. a * 256 + unat b) acc (be_bytes (Suc n) v) =
      (acc * 256 + v div 256 ^ n mod 256) * 256 ^ n + v mod 256 ^ n"
    by (simp add: Suc unat_of_nat)
  ultimately show ?case by (simp add: add_mult_distrib)
qed simp

lemma be_bytes_inject:
  "v < 256 ^ n \<Longrightarrow> w < 256 ^ n \<Longrightarrow> be_bytes n v = be_bytes n w \<longleftrightarrow> v = w"
proof
  assume less: "v < 256 ^ n" "w < 256 ^ n" and eq: "be_bytes n v = be_bytes n w"
  have "v mod 256 ^ n = foldl (\<lambda>a b. a * 256 + unat b) 0 (be_bytes n v)"
    by (simp only: be_bytes_value mult_zero_left add_0)
  also have "\<dots> = w mod 256 ^ n"
    by (simp only: eq be_bytes_value mult_zero_left add_0)
  finally show "v = w" using less by (simp only: mod_less)
qed (rule arg_cong)

text \<open>
  What the users of a framing rely on: a frame can be read off the front of a message, as long
  as the framed part is of a length the prefix can hold.
\<close>

locale framing =
  fixes frame :: "bytes \<Rightarrow> bytes" and fits :: "bytes \<Rightarrow> bool"
  assumes frame_front:
    "fits a \<Longrightarrow> fits b \<Longrightarrow> frame a @ x = frame b @ y \<Longrightarrow> a = b \<and> x = y"
begin

lemma frames_inject:
  assumes "list_all fits as" "list_all fits bs" "length as = length bs"
  shows "concat (map frame as) @ x = concat (map frame bs) @ y \<longleftrightarrow> as = bs \<and> x = y"
  using assms(3,1,2)
proof (induction as bs rule: list_induct2)
  case (Cons a as b bs)
  then show ?case
    by (auto dest: frame_front [of a b])
qed simp

lemma frames_eq_iff:
  assumes "list_all fits as" "list_all fits bs" "length as = length bs"
  shows "concat (map frame as) = concat (map frame bs) \<longleftrightarrow> as = bs"
  using frames_inject [OF assms, of "[]" "[]"] by simp

end

lemma length_prefixed_front:
  assumes "length a < 256 ^ n" "length b < 256 ^ n"
    and "length_prefixed n a @ x = length_prefixed n b @ y"
  shows "a = b \<and> x = y"
proof -
  from assms(3) have "be_bytes n (length a) = be_bytes n (length b) \<and> a @ x = b @ y"
    by (simp add: length_prefixed_def)
  then show ?thesis using be_bytes_inject [OF assms(1,2)] append_eq_append_conv by blast
qed

interpretation frame8: framing "length_prefixed 8" "\<lambda>p. length p < 2 ^ 64"
  by unfold_locales (rule length_prefixed_front [where n = 8], simp_all)

interpretation frame4: framing "length_prefixed 4" "\<lambda>p. length p < 2 ^ 32"
  by unfold_locales (rule length_prefixed_front [where n = 4], simp_all)

section \<open>Tokens\<close>

type_synonym hmac_fun = "bytes \<Rightarrow> bytes \<Rightarrow> bytes"

definition compute_hmac_bytes :: "hmac_fun \<Rightarrow> bytes \<Rightarrow> bytes \<Rightarrow> bytes list \<Rightarrow> bytes" where
  "compute_hmac_bytes hmac key domain parts =
     hmac key (domain @ concat (map (length_prefixed 8) parts))"

definition hex_to_bytes :: "string \<Rightarrow> bytes option outcome" where
  "hex_to_bytes hex = (if length hex mod 2 \<noteq> 0 then Ret None else decode_pairs hex)"

interpretation token_hex: hex_codec hex_to_bytes
proof
  show "hex_to_bytes (hex_encode bs) = Ret (Some bs)" for bs
    by (simp add: hex_to_bytes_def decode_pairs_hex_encode)
  show "is_ascii s \<Longrightarrow> hex_to_bytes s \<noteq> Panic" for s
    by (simp add: hex_to_bytes_def decode_pairs_ascii)
qed

definition SESSION_DOMAIN :: bytes where
  "SESSION_DOMAIN = as_bytes (''cdp-session-v1'' @ [CHR 0x00])"

definition LEASE_DOMAIN :: bytes where
  "LEASE_DOMAIN = as_bytes (''cdp-lease-v1'' @ [CHR 0x00])"

definition generate_session_token :: "hmac_fun \<Rightarrow> bytes \<Rightarrow> bytes \<Rightarrow> bytes \<Rightarrow> string" where
  "generate_session_token hmac gate_key fingerprint connection_id =
     hex_encode (compute_hmac_bytes hmac gate_key SESSION_DOMAIN [fingerprint, connection_id])"

definition verify_session_token ::
  "hmac_fun \<Rightarrow> bytes \<Rightarrow> bytes \<Rightarrow> bytes \<Rightarrow> string \<Rightarrow> bool outcome" where
  "verify_session_token hmac gate_key fingerprint connection_id token =
     (case hex_to_bytes token of
        Panic \<Rightarrow> Panic
      | Ret None \<Rightarrow> Ret False
      | Ret (Some token_bytes) \<Rightarrow>
          Ret (hmac gate_key
                 (SESSION_DOMAIN @ be_bytes 8 (length fingerprint) @ fingerprint
                  @ be_bytes 8 (length connection_id) @ connection_id) = token_bytes))"

definition generate_lease_token ::
  "hmac_fun \<Rightarrow> bytes \<Rightarrow> string \<Rightarrow> bytes \<Rightarrow> bytes \<Rightarrow> string" where
  "generate_lease_token hmac gate_key lease_id fingerprint cb_nonce =
     hex_encode
       (compute_hmac_bytes hmac gate_key LEASE_DOMAIN [as_bytes lease_id, fingerprint, cb_nonce])"

definition verify_lease_token ::
  "hmac_fun \<Rightarrow> bytes \<Rightarrow> string \<Rightarrow> bytes \<Rightarrow> bytes \<Rightarrow> string \<Rightarrow> bool outcome" where
  "verify_lease_token hmac gate_key lease_id fingerprint cb_nonce token =
     (case hex_to_bytes token of
        Panic \<Rightarrow> Panic
      | Ret None \<Rightarrow> Ret False
      | Ret (Some token_bytes) \<Rightarrow>
          Ret (hmac gate_key
                 (LEASE_DOMAIN @ be_bytes 8 (length lease_id) @ as_bytes lease_id
                  @ be_bytes 8 (length fingerprint) @ fingerprint
                  @ be_bytes 8 (length cb_nonce) @ cb_nonce) = token_bytes))"

section \<open>Key derivation, sealed blobs and the pool\<close>

datatype crypto_error =
    Encryption string
  | Decryption
  | KeyDerivation string
  | HmacVerification
  | SystemCall string
  | InvalidTokenFormat

definition derivation_info :: "string \<Rightarrow> string \<Rightarrow> bytes" where
  "derivation_info credential_ref lease_id =
     be_bytes 4 (length credential_ref) @ as_bytes credential_ref
     @ be_bytes 4 (length lease_id) @ as_bytes lease_id"

text \<open>\<open>hkdf salt master info\<close> is the expansion to 32 bytes, or the error text.\<close>

definition derive_credential_key ::
  "(bytes \<Rightarrow> bytes \<Rightarrow> bytes \<Rightarrow> string + bytes) \<Rightarrow> bytes \<Rightarrow> bytes \<Rightarrow> string \<Rightarrow> string
   \<Rightarrow> crypto_error + bytes" where
  "derive_credential_key hkdf master salt credential_ref lease_id =
     (case hkdf salt master (derivation_info credential_ref lease_id) of
        Inl e \<Rightarrow> Inl (KeyDerivation e)
      | Inr okm \<Rightarrow> Inr okm)"

record encrypted_blob =
  eb_nonce :: bytes
  eb_ciphertext :: bytes

text \<open>\<open>seal key nonce plaintext\<close> and \<open>unseal key nonce ciphertext\<close> are the AEAD; the nonce is drawn by the caller's generator.\<close>

definition encrypt ::
  "(bytes \<Rightarrow> bytes \<Rightarrow> bytes \<Rightarrow> string + bytes) \<Rightarrow> bytes \<Rightarrow> bytes \<Rightarrow> bytes
   \<Rightarrow> crypto_error + encrypted_blob" where
  "encrypt seal nonce key plaintext =
     (case seal key nonce plaintext of
        Inl e \<Rightarrow> Inl (Encryption e)
      | Inr ciphertext \<Rightarrow> Inr \<lparr>eb_nonce = nonce, eb_ciphertext = ciphertext\<rparr>)"

definition decrypt ::
  "(bytes \<Rightarrow> bytes \<Rightarrow> bytes \<Rightarrow> bytes option) \<Rightarrow> bytes \<Rightarrow> encrypted_blob \<Rightarrow> crypto_error + bytes" where
  "decrypt unseal key blob =
     (case unseal key (eb_nonce blob) (eb_ciphertext blob) of
        None \<Rightarrow> Inl Decryption
      | Some plaintext \<Rightarrow> Inr plaintext)"

record secure_pool =
  sp_inner :: "string \<rightharpoonup> encrypted_blob"

definition pool_new :: secure_pool where
  "pool_new = \<lparr>sp_inner = Map.empty\<rparr>"

definition pool_insert :: "secure_pool \<Rightarrow> string \<Rightarrow> encrypted_blob \<Rightarrow> secure_pool" where
  "pool_insert self key blob = self\<lparr>sp_inner := (sp_inner self)(key \<mapsto> blob)\<rparr>"

definition pool_get :: "secure_pool \<Rightarrow> string \<Rightarrow> encrypted_blob option" where
  "pool_get self key = sp_inner self key"

definition pool_remove :: "secure_pool \<Rightarrow> string \<Rightarrow> secure_pool \<times> encrypted_blob option" where
  "pool_remove self key =
     (self\<lparr>sp_inner := (sp_inner self)(key := None)\<rparr>, sp_inner self key)"

section \<open>Lemmas\<close>

lemma length_as_bytes [simp]: "length (as_bytes s) = length s"
  by (simp add: as_bytes_def)

lemma as_bytes_inject [simp]: "as_bytes s = as_bytes t \<longleftrightarrow> s = t"
proof -
  have "inj (of_char :: char \<Rightarrow> u8)"
  proof (rule injI)
    fix c d :: char
    assume "(of_char c :: u8) = of_char d"
    then have "unat (of_nat (of_char c) :: u8) = unat (of_nat (of_char d) :: u8)"
      by (simp add: of_nat_of_char)
    then have "(of_char c :: nat) mod 256 = of_char d mod 256" by (simp add: unat_of_nat)
    then show "c = d" by simp
  qed
  then show ?thesis by (simp add: as_bytes_def inj_map_eq_map)
qed

text \<open>The messages under the tokens.\<close>

definition session_message :: "bytes \<Rightarrow> bytes \<Rightarrow> bytes" where
  "session_message fp cid = SESSION_DOMAIN @ concat (map (length_prefixed 8) [fp, cid])"

definition lease_message :: "string \<Rightarrow> bytes \<Rightarrow> bytes \<Rightarrow> bytes" where
  "lease_message lid fp nonce =
     LEASE_DOMAIN @ concat (map (length_prefixed 8) [as_bytes lid, fp, nonce])"

lemma domains_apart: "SESSION_DOMAIN @ x \<noteq> LEASE_DOMAIN @ y"
  by (simp add: SESSION_DOMAIN_def LEASE_DOMAIN_def as_bytes_def)

lemma session_message_eq_iff:
  assumes "length fp < 2 ^ 64" "length cid < 2 ^ 64" "length fp' < 2 ^ 64" "length cid' < 2 ^ 64"
  shows "session_message fp cid = session_message fp' cid' \<longleftrightarrow> fp = fp' \<and> cid = cid'"
  using assms frame8.frames_eq_iff [of "[fp, cid]" "[fp', cid']"] by (simp add: session_message_def)

lemma lease_message_eq_iff:
  assumes "length lid < 2 ^ 64" "length fp < 2 ^ 64" "length n < 2 ^ 64"
    and "length lid' < 2 ^ 64" "length fp' < 2 ^ 64" "length n' < 2 ^ 64"
  shows "lease_message lid fp n = lease_message lid' fp' n' \<longleftrightarrow> lid = lid' \<and> fp = fp' \<and> n = n'"
  using assms frame8.frames_eq_iff [of "[as_bytes lid, fp, n]" "[as_bytes lid', fp', n']"]
  by (simp add: lease_message_def)

lemma generate_session_token_message:
  "generate_session_token hmac k fp cid = hex_encode (hmac k (session_message fp cid))"
  by (simp add: generate_session_token_def compute_hmac_bytes_def session_message_def)

lemma generate_lease_token_message:
  "generate_lease_token hmac k lid fp n = hex_encode (hmac k (lease_message lid fp n))"
  by (simp add: generate_lease_token_def compute_hmac_bytes_def lease_message_def)

lemma verify_session_token_encode:
  "verify_session_token hmac k fp cid (hex_encode t) = Ret (hmac k (session_message fp cid) = t)"
  by (simp add: verify_session_token_def token_hex.dec_encode session_message_def length_prefixed_def)

lemma verify_lease_token_encode:
  "verify_lease_token hmac k lid fp n (hex_encode t) = Ret (hmac k (lease_message lid fp n) = t)"
  by (simp add: verify_lease_token_def token_hex.dec_encode lease_message_def length_prefixed_def)

lemmas token_messages =
  generate_session_token_message generate_lease_token_message
  verify_session_token_encode verify_lease_token_encode

lemma verify_lease_token_generated:
  "verify_lease_token hmac k lid fp n (generate_lease_token hmac k lid fp n) = Ret True"
  by (simp add: token_messages)

lemma derivation_info_eq_iff:
  assumes "length c < 2 ^ 32" "length l < 2 ^ 32" "length c' < 2 ^ 32" "length l' < 2 ^ 32"
  shows "derivation_info c l = derivation_info c' l' \<longleftrightarrow> c = c' \<and> l = l'"
  using assms frame4.frames_eq_iff [of "[as_bytes c, as_bytes l]" "[as_bytes c', as_bytes l']"]
  by (simp add: derivation_info_def length_prefixed_def)

section \<open>Properties\<close>

text \<open>
  C25. A lease token binds its fields: the token generated for one lease identifier,
  fingerprint and nonce verifies for another triple exactly when the MAC agrees on the two
  messages, the messages are equal only for equal triples, and no session token is computed
  from a message of a lease token. So a token accepted for other fields is a MAC collision.
\<close>

theorem lease_token_binds:
  assumes "length lid < 2 ^ 64" "length fp < 2 ^ 64" "length n < 2 ^ 64"
    and "length lid' < 2 ^ 64" "length fp' < 2 ^ 64" "length n' < 2 ^ 64"
  shows "verify_lease_token hmac k lid fp n (generate_lease_token hmac k lid' fp' n') =
      Ret (hmac k (lease_message lid fp n) = hmac k (lease_message lid' fp' n')) \<and>
    (lease_message lid fp n = lease_message lid' fp' n' \<longleftrightarrow> lid = lid' \<and> fp = fp' \<and> n = n') \<and>
    verify_lease_token hmac k lid fp n (generate_session_token hmac k fp' n') =
      Ret (hmac k (lease_message lid fp n) = hmac k (session_message fp' n')) \<and>
    lease_message lid fp n \<noteq> session_message fp' n'"
proof -
  have "lease_message lid fp n \<noteq> session_message fp' n'"
    using domains_apart [symmetric] by (simp add: lease_message_def session_message_def)
  then show ?thesis using lease_message_eq_iff [OF assms] by (simp add: token_messages)
qed

theorem lease_token_binds_witness:
  "verify_lease_token (\<lambda>k m. m) [] ''l'' [1] [2]
     (generate_lease_token (\<lambda>k m. m) [] ''l'' [1, 2] []) = Ret False"
  using lease_token_binds [of "''l''" "[1]" "[2]" "''l''" "[1, 2]" "[]" "\<lambda>k m. m" "[]"] by simp

end
