(* ===== verification/Cdp_Audit.thy ===== *)
theory Cdp_Audit
  imports Cdp_Crypto "HOL-Library.Countable"
begin

text \<open>
  The audit crate (\<open>crates/cdp-audit/src\<close>): events, the hash of an entry, the append-only
  logger and the verification of the chain. SHA-256, the printing of timestamps and JSON values
  and the (de)serialisation of an entry are the fields of the record \<open>audit_codec\<close>; the
  outcome of the writes is the record \<open>audit_disk\<close>. The lemmas show that whatever the logger
  writes, across restarts, is a chain that verifies, that two verified logs of equal length and
  final hash have the same entries, and which changes the verification does not see.
\<close>

section \<open>Events and entries\<close>

datatype json =
    JNull
  | JBool bool
  | JNumber string
  | JString string
  | JArray "json list"
  | JObject "(string \<times> json) list"

fun json_get :: "json \<Rightarrow> string \<Rightarrow> json option" where
  "json_get (JObject members) key = map_of members key"
| "json_get _ key = None"

fun json_as_str :: "json \<Rightarrow> string option" where
  "json_as_str (JString s) = Some s"
| "json_as_str _ = None"

datatype audit_event_type =
    AgentRegistered | AgentDied | LeaseRequested | LeaseApproved | LeaseDenied | LeaseGranted
  | LeaseUsed | LeaseRenewed | LeaseRevoked | LeaseExpired | LeaseDelegated | CredentialRotated
  | SecurityAlert | ProxyBlocked

fun event_text :: "audit_event_type \<Rightarrow> string" where
  "event_text AgentRegistered = ''agent.registered''"
| "event_text AgentDied = ''agent.died''"
| "event_text LeaseRequested = ''lease.requested''"
| "event_text LeaseApproved = ''lease.approved''"
| "event_text LeaseDenied = ''lease.denied''"
| "event_text LeaseGranted = ''lease.granted''"
| "event_text LeaseUsed = ''lease.used''"
| "event_text LeaseRenewed = ''lease.renewed''"
| "event_text LeaseRevoked = ''lease.revoked''"
| "event_text LeaseExpired = ''lease.expired''"
| "event_text LeaseDelegated = ''lease.delegated''"
| "event_text CredentialRotated = ''credential.rotated''"
| "event_text SecurityAlert = ''security.alert''"
| "event_text ProxyBlocked = ''proxy.blocked''"

record audit_fields =
  af_lease_id :: "string option"
  af_agent_fingerprint :: "string option"
  af_agent_binary_path :: "string option"
  af_credential_ref :: "string option"
  af_scope :: "json option"
  af_policy_matched :: "string option"
  af_approval_method :: "string option"
  af_detail :: "string option"

definition audit_fields_default :: audit_fields where
  "audit_fields_default =
     \<lparr>af_lease_id = None, af_agent_fingerprint = None, af_agent_binary_path = None,
      af_credential_ref = None, af_scope = None, af_policy_matched = None,
      af_approval_method = None, af_detail = None\<rparr>"

record audit_entry =
  ae_sequence :: u64
  ae_timestamp :: int
  ae_event :: audit_event_type
  ae_fields :: audit_fields
  ae_prev_hash :: string
  ae_hash :: string

datatype audit_error =
    Audit_Io string
  | Serialization string
  | ChainBroken u64
  | InvalidEntry u64 string

record audit_codec =
  cx_sha256 :: "bytes \<Rightarrow> bytes"
  cx_rfc3339 :: "int \<Rightarrow> string"
  cx_json_text :: "json \<Rightarrow> string"
  cx_to_line :: "audit_entry \<Rightarrow> string + string"
  cx_from_line :: "string \<Rightarrow> string + audit_entry"

section \<open>The hash of an entry\<close>

definition hash_field :: "bytes \<Rightarrow> bytes \<Rightarrow> bytes" where
  "hash_field hasher value = hasher @ be_bytes 8 (length value) @ value"

definition or_empty :: "string option \<Rightarrow> string" where
  "or_empty s = (case s of None \<Rightarrow> [] | Some t \<Rightarrow> t)"

definition compute_entry_hash :: "audit_codec \<Rightarrow> audit_entry \<Rightarrow> string" where
  "compute_entry_hash cx entry =
     (let h = hash_field [] (as_bytes (show_nat (unat (ae_sequence entry))));
          h = hash_field h (as_bytes (cx_rfc3339 cx (ae_timestamp entry)));
          h = hash_field h (as_bytes (event_text (ae_event entry)));
          h = hash_field h (as_bytes (or_empty (af_lease_id (ae_fields entry))));
          h = hash_field h (as_bytes (or_empty (af_agent_fingerprint (ae_fields entry))));
          h = hash_field h (as_bytes (or_empty (af_agent_binary_path (ae_fields entry))));
          h = hash_field h (as_bytes (or_empty (af_credential_ref (ae_fields entry))));
          h = hash_field h (as_bytes (case af_scope (ae_fields entry) of
                None \<Rightarrow> [] | Some v \<Rightarrow> cx_json_text cx v));
          h = hash_field h (as_bytes (or_empty (af_policy_matched (ae_fields entry))));
          h = hash_field h (as_bytes (or_empty (af_approval_method (ae_fields entry))));
          h = hash_field h (as_bytes (or_empty (af_detail (ae_fields entry))));
          h = hash_field h (as_bytes (ae_prev_hash entry)) in
      ''sha256:'' @ hex_encode (cx_sha256 cx h))"

section \<open>The logger\<close>

text \<open>
  The file is its content. \<open>dk_write_all\<close> takes the content and the data and gives the new
  content and the error, if any; \<open>dk_flush\<close> may report an error.
\<close>

record audit_disk =
  dk_write_all :: "string \<Rightarrow> string \<Rightarrow> string \<times> string option"
  dk_flush :: "string \<Rightarrow> string option"

record audit_logger =
  lg_path :: string
  lg_file :: string
  lg_sequence :: u64
  lg_prev_hash :: string

text \<open>\<open>str::lines\<close>: the pieces between line feeds, each terminated one less a final carriage return.\<close>

definition strip_cr :: "string \<Rightarrow> string" where
  "strip_cr l = (if l \<noteq> [] \<and> last l = CHR 0x0D then butlast l else l)"

definition lines :: "string \<Rightarrow> string list" where
  "lines s =
     (let parts = split_on (CHR 0x0A) s in
      map strip_cr (butlast parts) @ (if last parts = [] then [] else [last parts]))"

definition content_lines :: "string \<Rightarrow> string list" where
  "content_lines content = filter (\<lambda>l. trim l \<noteq> []) (lines content)"

definition read_last_entry_state :: "audit_codec \<Rightarrow> string \<Rightarrow> audit_error + u64 \<times> string" where
  "read_last_entry_state cx content =
     (case List.find (\<lambda>l. trim l \<noteq> []) (rev (lines content)) of
        None \<Rightarrow> Inr (0, ''genesis'')
      | Some line \<Rightarrow>
          (case cx_from_line cx line of
             Inl e \<Rightarrow> Inl (InvalidEntry 0 e)
           | Inr entry \<Rightarrow> Inr (ae_sequence entry, ae_hash entry)))"

definition logger_new :: "audit_codec \<Rightarrow> string \<Rightarrow> string \<Rightarrow> audit_error + audit_logger" where
  "logger_new cx path content =
     (case read_last_entry_state cx content of
        Inl e \<Rightarrow> Inl e
      | Inr (sequence, prev_hash) \<Rightarrow>
          Inr \<lparr>lg_path = path, lg_file = content, lg_sequence = sequence,
               lg_prev_hash = prev_hash\<rparr>)"

definition write_line :: "audit_disk \<Rightarrow> string \<Rightarrow> string \<Rightarrow> string \<times> string option" where
  "write_line disk content line =
     (case dk_write_all disk content line of
        (content, Some e) \<Rightarrow> (content, Some e)
      | (content, None) \<Rightarrow>
          (case dk_write_all disk content [CHR 0x0A] of
             (content, Some e) \<Rightarrow> (content, Some e)
           | (content, None) \<Rightarrow> (content, dk_flush disk content)))"

definition log_event ::
  "audit_codec \<Rightarrow> audit_disk \<Rightarrow> int \<Rightarrow> audit_logger \<Rightarrow> audit_event_type \<Rightarrow> audit_fields
   \<Rightarrow> audit_logger \<times> (audit_error + unit)" where
  "log_event cx disk now self event flds =
     (let sequence = lg_sequence self + 1;
          self = self\<lparr>lg_sequence := sequence\<rparr>;
          entry = \<lparr>ae_sequence = sequence, ae_timestamp = now, ae_event = event,
                   ae_fields = flds, ae_prev_hash = lg_prev_hash self, ae_hash = []\<rparr>;
          hash = compute_entry_hash cx entry;
          entry = entry\<lparr>ae_hash := hash\<rparr> in
      case cx_to_line cx entry of
        Inl e \<Rightarrow> (self, Inl (Serialization e))
      | Inr line \<Rightarrow>
          (case write_line disk (lg_file self) line of
             (content, Some e) \<Rightarrow> (self\<lparr>lg_file := content\<rparr>, Inl (Audit_Io e))
           | (content, None) \<Rightarrow>
               (self\<lparr>lg_file := content, lg_prev_hash := hash\<rparr>, Inr ())))"

section \<open>Verification\<close>

datatype chain_status =
    Valid (entries: u64)
  | Broken (at_sequence: u64) (expected_hash: string) (actual_hash: string)
  | Empty

fun verify_lines ::
  "audit_codec \<Rightarrow> string \<Rightarrow> u64 \<Rightarrow> string list \<Rightarrow> audit_error + chain_status" where
  "verify_lines cx expected_prev seen [] = Inr (Valid seen)"
| "verify_lines cx expected_prev seen (raw_line # rest) =
     (case cx_from_line cx raw_line of
        Inl e \<Rightarrow> Inl (InvalidEntry (seen + 1) e)
      | Inr entry \<Rightarrow>
          if ae_prev_hash entry \<noteq> expected_prev
          then Inr (Broken (ae_sequence entry) expected_prev (ae_prev_hash entry))
          else (let computed = compute_entry_hash cx entry in
                if computed \<noteq> ae_hash entry
                then Inr (Broken (ae_sequence entry) computed (ae_hash entry))
                else verify_lines cx (ae_hash entry) (seen + 1) rest))"

definition verify_chain :: "audit_codec \<Rightarrow> string + string \<Rightarrow> audit_error + chain_status" where
  "verify_chain cx file =
     (case file of
        Inl e \<Rightarrow> Inl (Audit_Io e)
      | Inr content \<Rightarrow>
          (let ls = content_lines content in
           if ls = [] then Inr Empty else verify_lines cx ''genesis'' 0 ls))"

section \<open>Lemmas on lines\<close>

definition terminated :: "string \<Rightarrow> bool" where
  "terminated c \<longleftrightarrow> c = [] \<or> last c = CHR 0x0A"

lemma split_on_append:
  "split_on d (a @ b) =
     butlast (split_on d a) @ (last (split_on d a) @ hd (split_on d b)) # tl (split_on d b)"
proof (induction a)
  case (Cons c a)
  obtain p ps where sp: "split_on d a = p # ps" by (cases "split_on d a") auto
  with Cons show ?case by (cases ps) auto
qed simp

lemma split_on_terminated: "terminated c \<Longrightarrow> last (split_on (CHR 0x0A) c) = []"
proof (cases c rule: rev_cases)
  case (snoc xs x)
  assume "terminated c"
  with snoc show ?thesis by (simp add: terminated_def split_on_append)
qed simp

lemma lines_snoc:
  assumes "terminated c" "CHR 0x0A \<notin> set l" "strip_cr l = l"
  shows "lines (c @ l @ [CHR 0x0A]) = lines c @ [l]"
proof -
  have "split_on (CHR 0x0A) (l @ [CHR 0x0A]) = [l, []]"
    using split_on_append_sep [OF assms(2), of "[]"] by simp
  then have "split_on (CHR 0x0A) (c @ l @ [CHR 0x0A]) =
      butlast (split_on (CHR 0x0A) c) @ [l, []]"
    using split_on_terminated [OF assms(1)] by (simp add: split_on_append)
  then show ?thesis
    using split_on_terminated [OF assms(1)] assms(3) by (simp add: lines_def Let_def butlast_append)
qed

lemma content_lines_snoc:
  assumes "terminated c" "CHR 0x0A \<notin> set l" "strip_cr l = l" "trim l \<noteq> []"
  shows "content_lines (c @ l @ [CHR 0x0A]) = content_lines c @ [l]"
  using lines_snoc [OF assms(1-3)] assms(4) by (simp add: content_lines_def)

lemma find_rev_filter:
  "List.find P (rev xs) = (if filter P xs = [] then None else Some (last (filter P xs)))"
  by (induction xs rule: rev_induct) auto

section \<open>Chains\<close>

fun chained :: "audit_codec \<Rightarrow> string \<Rightarrow> audit_entry list \<Rightarrow> bool" where
  "chained cx prev [] = True"
| "chained cx prev (e # es) =
     (ae_prev_hash e = prev \<and> compute_entry_hash cx e = ae_hash e \<and> chained cx (ae_hash e) es)"

definition end_hash :: "string \<Rightarrow> audit_entry list \<Rightarrow> string" where
  "end_hash prev es = (if es = [] then prev else ae_hash (last es))"

lemma chained_append:
  "chained cx prev (es @ fs) \<longleftrightarrow> chained cx prev es \<and> chained cx (end_hash prev es) fs"
  by (induction es arbitrary: prev) (auto simp: end_hash_def)

lemma verify_lines_Valid:
  "verify_lines cx prev n ls = Inr (Valid m) \<longleftrightarrow>
     (\<exists>es. map (cx_from_line cx) ls = map Inr es \<and> chained cx prev es \<and>
        m = n + of_nat (length es))"
proof (induction ls arbitrary: prev n)
  case (Cons l ls)
  show ?case
  proof (cases "cx_from_line cx l")
    case (Inr e)
    then have "verify_lines cx prev n (l # ls) = Inr (Valid m) \<longleftrightarrow>
        ae_prev_hash e = prev \<and> compute_entry_hash cx e = ae_hash e \<and>
        verify_lines cx (ae_hash e) (n + 1) ls = Inr (Valid m)"
      by (auto simp: Let_def)
    also have "\<dots> \<longleftrightarrow> (\<exists>es. map (cx_from_line cx) ls = map Inr es \<and>
        chained cx prev (e # es) \<and> m = n + of_nat (length (e # es)))"
      by (auto simp: Cons.IH algebra_simps)
    also have "\<dots> \<longleftrightarrow> (\<exists>es. map (cx_from_line cx) (l # ls) = map Inr es \<and>
        chained cx prev es \<and> m = n + of_nat (length es))" (is "_ = Ex ?Q")
    proof
      assume "\<exists>es. map (cx_from_line cx) ls = map Inr es \<and>
        chained cx prev (e # es) \<and> m = n + of_nat (length (e # es))"
      then obtain es where "?Q (e # es)" using Inr by (auto simp del: chained.simps)
      then show "Ex ?Q" by blast
    next
      assume "Ex ?Q"
      then show "\<exists>es. map (cx_from_line cx) ls = map Inr es \<and>
        chained cx prev (e # es) \<and> m = n + of_nat (length (e # es))"
        using Inr by (auto simp: Cons_eq_map_conv simp del: chained.simps)
    qed
    finally show ?thesis .
  qed (auto simp: Cons_eq_map_conv)
qed auto

lemma verify_lines_not_Empty: "verify_lines cx prev n ls \<noteq> Inr Empty"
  by (induction ls arbitrary: prev n) (auto simp: Let_def split: sum.splits)

text \<open>
  What the serialiser is relied on for, event by event: an entry with this time, event and fields is
  written as one line that reads back as the entry, whatever its number and its hashes, which are
  plain text. The serialiser of the program does this for the events that the program logs, none of
  which has a scope; it does not for an event whose scope is the JSON value null (see
  \<open>null_scope_breaks_chain\<close> below).
\<close>

definition event_carried :: "audit_codec \<Rightarrow> int \<times> audit_event_type \<times> audit_fields \<Rightarrow> bool" where
  "event_carried cx ev \<longleftrightarrow>
     (\<forall>e :: audit_entry. (ae_timestamp e, ae_event e, ae_fields e) = ev \<longrightarrow>
        is_ascii (ae_prev_hash e) \<longrightarrow> is_ascii (ae_hash e) \<longrightarrow>
        (\<exists>line. cx_to_line cx e = Inr line \<and> cx_from_line cx line = Inr e \<and>
           CHR 0x0A \<notin> set line \<and> strip_cr line = line \<and> trim line \<noteq> []))"

text \<open>The disk takes every write.\<close>

definition disk_ok :: "audit_disk \<Rightarrow> bool" where
  "disk_ok disk \<longleftrightarrow>
     (\<forall>c d. dk_write_all disk c d = (c @ d, None)) \<and> (\<forall>c. dk_flush disk c = None)"

text \<open>The logger agrees with the chain \<open>es\<close> that its file holds.\<close>

definition log_holds :: "audit_codec \<Rightarrow> audit_logger \<Rightarrow> audit_entry list \<Rightarrow> bool" where
  "log_holds cx lg es \<longleftrightarrow>
     terminated (lg_file lg) \<and>
     map (cx_from_line cx) (content_lines (lg_file lg)) = map Inr es \<and>
     chained cx ''genesis'' es \<and> lg_prev_hash lg = end_hash ''genesis'' es"

lemma log_holds_verifies:
  assumes "log_holds cx lg es" "es \<noteq> []"
  shows "verify_chain cx (Inr (lg_file lg)) = Inr (Valid (of_nat (length es)))"
proof -
  from assms have "verify_lines cx ''genesis'' 0 (content_lines (lg_file lg)) =
      Inr (Valid (of_nat (length es)))"
    by (auto simp: verify_lines_Valid log_holds_def)
  moreover from assms have "content_lines (lg_file lg) \<noteq> []" by (auto simp: log_holds_def)
  ultimately show ?thesis by (simp add: verify_chain_def Let_def)
qed

lemma logger_new_holds:
  assumes "logger_new cx path content = Inr lg" "terminated content"
    and "verify_chain cx (Inr content) = Inr Empty \<or> verify_chain cx (Inr content) = Inr (Valid n)"
  obtains es where "log_holds cx lg es"
proof (cases "content_lines content = []")
  case True
  with assms have "log_holds cx lg []"
    by (auto simp: log_holds_def logger_new_def read_last_entry_state_def find_rev_filter
        content_lines_def end_hash_def)
  then show ?thesis by (rule that)
next
  case False
  with assms(3) have "verify_lines cx ''genesis'' 0 (content_lines content) = Inr (Valid n)"
    by (auto simp: verify_chain_def Let_def verify_lines_not_Empty)
  then obtain es where es: "map (cx_from_line cx) (content_lines content) = map Inr es"
    "chained cx ''genesis'' es"
    by (auto simp: verify_lines_Valid)
  with False have ne: "es \<noteq> []" by auto
  from es(1) ne False have "cx_from_line cx (last (content_lines content)) = Inr (last es)"
    by (metis last_map map_is_Nil_conv)
  with assms(1) False have "lg_prev_hash lg = ae_hash (last es)" "lg_file lg = content"
    by (auto simp: logger_new_def read_last_entry_state_def find_rev_filter content_lines_def)
  with es ne assms(2) have "log_holds cx lg es" by (simp add: log_holds_def end_hash_def)
  then show ?thesis by (rule that)
qed

lemma compute_entry_hash_ignores_hash [simp]:
  "compute_entry_hash cx (e\<lparr>ae_hash := h\<rparr>) = compute_entry_hash cx e"
  by (simp add: compute_entry_hash_def)

lemma write_line_ok: "disk_ok disk \<Longrightarrow> write_line disk c l = (c @ l @ [CHR 0x0A], None)"
  by (simp add: write_line_def disk_ok_def)

lemma compute_entry_hash_ascii: "is_ascii (compute_entry_hash cx e)"
  by (simp add: compute_entry_hash_def Let_def hex_encode_ascii)

lemma log_holds_ascii: "log_holds cx lg es \<Longrightarrow> is_ascii (lg_prev_hash lg)"
  using compute_entry_hash_ascii [of cx "last es"]
  by (cases es rule: rev_cases) (auto simp: log_holds_def end_hash_def chained_append)

lemma log_event_step:
  assumes "event_carried cx (now, event, flds)" "disk_ok disk" "log_holds cx lg es"
  obtains e lg' where "log_event cx disk now lg event flds = (lg', Inr ())"
    and "log_holds cx lg' (es @ [e])" and "lg_sequence lg' = lg_sequence lg + 1"
    and "ae_sequence e = lg_sequence lg + 1"
    and "(ae_timestamp e, ae_event e, ae_fields e) = (now, event, flds)"
proof -
  let ?raw = "\<lparr>ae_sequence = lg_sequence lg + 1, ae_timestamp = now, ae_event = event,
    ae_fields = flds, ae_prev_hash = lg_prev_hash lg, ae_hash = []\<rparr>"
  let ?e = "?raw\<lparr>ae_hash := compute_entry_hash cx ?raw\<rparr>"
  have "(ae_timestamp ?e, ae_event ?e, ae_fields ?e) = (now, event, flds)"
    and "is_ascii (ae_prev_hash ?e)" and "is_ascii (ae_hash ?e)"
    using log_holds_ascii [OF assms(3)] compute_entry_hash_ascii by simp_all
  from assms(1) [unfolded event_carried_def, rule_format, OF this]
  obtain l where l: "cx_to_line cx ?e = Inr l" "cx_from_line cx l = Inr ?e"
    "CHR 0x0A \<notin> set l" "strip_cr l = l" "trim l \<noteq> []"
    by blast
  let ?lg = "lg\<lparr>lg_sequence := lg_sequence lg + 1, lg_file := lg_file lg @ l @ [CHR 0x0A],
    lg_prev_hash := compute_entry_hash cx ?raw\<rparr>"
  have "log_event cx disk now lg event flds = (?lg, Inr ())"
    using l(1) assms(2)
    by (simp add: log_event_def Let_def write_line_ok)
  moreover have "compute_entry_hash cx ?e = compute_entry_hash cx ?raw"
    by (rule compute_entry_hash_ignores_hash)
  then have "log_holds cx ?lg (es @ [?e])"
    using assms(3) l content_lines_snoc [of "lg_file lg" l]
    by (simp add: log_holds_def terminated_def chained_append end_hash_def)
  ultimately show ?thesis by (rule that) simp_all
qed

fun log_all ::
  "audit_codec \<Rightarrow> audit_disk \<Rightarrow> audit_logger \<Rightarrow> (int \<times> audit_event_type \<times> audit_fields) list
   \<Rightarrow> audit_logger" where
  "log_all cx disk lg [] = lg"
| "log_all cx disk lg ((now, event, flds) # evs) =
     log_all cx disk (fst (log_event cx disk now lg event flds)) evs"

lemma log_all_holds:
  assumes "list_all (event_carried cx) evs" "disk_ok disk" "log_holds cx lg es"
  shows "\<exists>new. log_holds cx (log_all cx disk lg evs) (es @ new) \<and>
    map (\<lambda>e. (ae_timestamp e, ae_event e, ae_fields e)) new = evs \<and>
    map ae_sequence new = map (\<lambda>i. lg_sequence lg + of_nat (Suc i)) [0..<length evs]"
  using assms(1,3)
proof (induction evs arbitrary: lg es)
  case (Cons ev evs)
  obtain now event flds where ev: "ev = (now, event, flds)" by (cases ev)
  obtain e lg' where step: "log_event cx disk now lg event flds = (lg', Inr ())"
    "log_holds cx lg' (es @ [e])" "lg_sequence lg' = lg_sequence lg + 1"
    "ae_sequence e = lg_sequence lg + 1"
    "(ae_timestamp e, ae_event e, ae_fields e) = (now, event, flds)"
    using Cons.prems(1) ev by (auto intro: log_event_step [OF _ assms(2) Cons.prems(2)])
  have "list_all (event_carried cx) evs" using Cons.prems(1) by simp
  from Cons.IH [OF this step(2)] obtain new where new:
    "log_holds cx (log_all cx disk lg' evs) ((es @ [e]) @ new)"
    "map (\<lambda>e. (ae_timestamp e, ae_event e, ae_fields e)) new = evs"
    "map ae_sequence new = map (\<lambda>i. lg_sequence lg' + of_nat (Suc i)) [0..<length evs]"
    by blast
  have "map (\<lambda>i. lg_sequence lg + of_nat (Suc i)) [0..<length (ev # evs)] =
      (lg_sequence lg + 1) # map (\<lambda>i. lg_sequence lg' + of_nat (Suc i)) [0..<length evs]"
    by (simp add: upt_conv_Cons map_Suc_upt [symmetric] step(3) algebra_simps del: upt_Suc)
  with new step ev show ?case by (intro exI [of _ "e # new"]) simp
qed (auto intro: exI [of _ "[]"])

section \<open>What an entry hash covers\<close>

definition scope_text :: "audit_codec \<Rightarrow> audit_entry \<Rightarrow> string" where
  "scope_text cx e = (case af_scope (ae_fields e) of None \<Rightarrow> [] | Some v \<Rightarrow> cx_json_text cx v)"

definition digest_parts :: "audit_codec \<Rightarrow> audit_entry \<Rightarrow> bytes list" where
  "digest_parts cx e = map as_bytes
     [show_nat (unat (ae_sequence e)), cx_rfc3339 cx (ae_timestamp e), event_text (ae_event e),
      or_empty (af_lease_id (ae_fields e)), or_empty (af_agent_fingerprint (ae_fields e)),
      or_empty (af_agent_binary_path (ae_fields e)), or_empty (af_credential_ref (ae_fields e)),
      scope_text cx e, or_empty (af_policy_matched (ae_fields e)),
      or_empty (af_approval_method (ae_fields e)), or_empty (af_detail (ae_fields e)),
      ae_prev_hash e]"

definition digest_input :: "audit_codec \<Rightarrow> audit_entry \<Rightarrow> bytes" where
  "digest_input cx e = concat (map (length_prefixed 8) (digest_parts cx e))"

lemma compute_entry_hash_digest:
  "compute_entry_hash cx e = ''sha256:'' @ hex_encode (cx_sha256 cx (digest_input cx e))"
  by (simp add: compute_entry_hash_def digest_input_def digest_parts_def hash_field_def
      length_prefixed_def scope_text_def Let_def)

text \<open>Absent and empty text are one value for the hash: entries are compared up to that.\<close>

definition fill :: "string option \<Rightarrow> string option" where
  "fill s = Some (or_empty s)"

definition norm_entry :: "audit_entry \<Rightarrow> audit_entry" where
  "norm_entry e =
     (let f = ae_fields e in
      e\<lparr>ae_fields :=
        \<lparr>af_lease_id = fill (af_lease_id f), af_agent_fingerprint = fill (af_agent_fingerprint f),
         af_agent_binary_path = fill (af_agent_binary_path f),
         af_credential_ref = fill (af_credential_ref f), af_scope = af_scope f,
         af_policy_matched = fill (af_policy_matched f),
         af_approval_method = fill (af_approval_method f), af_detail = fill (af_detail f)\<rparr>\<rparr>)"

definition no_collision :: "audit_codec \<Rightarrow> audit_entry \<Rightarrow> audit_entry \<Rightarrow> bool" where
  "no_collision cx e e' \<longleftrightarrow>
     (cx_sha256 cx (digest_input cx e) = cx_sha256 cx (digest_input cx e') \<longrightarrow>
        digest_input cx e = digest_input cx e') \<and>
     (cx_rfc3339 cx (ae_timestamp e) = cx_rfc3339 cx (ae_timestamp e') \<longrightarrow>
        ae_timestamp e = ae_timestamp e') \<and>
     (scope_text cx e = scope_text cx e' \<longrightarrow> af_scope (ae_fields e) = af_scope (ae_fields e'))"

definition entry_fits :: "audit_codec \<Rightarrow> audit_entry \<Rightarrow> bool" where
  "entry_fits cx e \<longleftrightarrow> list_all (\<lambda>p. length p < 2 ^ 64) (digest_parts cx e)"

lemma event_text_inject: "event_text a = event_text b \<longleftrightarrow> a = b"
  by (cases a; cases b) simp_all

lemma digest_input_inject:
  assumes "digest_input cx e = digest_input cx e'" "entry_fits cx e" "entry_fits cx e'"
  shows "digest_parts cx e = digest_parts cx e'"
proof -
  have "length (digest_parts cx e) = length (digest_parts cx e')" by (simp add: digest_parts_def)
  with assms show ?thesis
    using frame8.frames_eq_iff [of "digest_parts cx e" "digest_parts cx e'"]
    by (simp add: digest_input_def entry_fits_def)
qed

lemma equal_hash_norm:
  assumes "compute_entry_hash cx e = compute_entry_hash cx e'" "ae_hash e = ae_hash e'"
    and "entry_fits cx e" "entry_fits cx e'" "no_collision cx e e'"
  shows "norm_entry e = norm_entry e' \<and> ae_prev_hash e = ae_prev_hash e'"
proof -
  from assms(1) have "cx_sha256 cx (digest_input cx e) = cx_sha256 cx (digest_input cx e')"
    by (simp add: compute_entry_hash_digest hex_encode_inject)
  with assms(5) have "digest_input cx e = digest_input cx e'" by (simp add: no_collision_def)
  from digest_input_inject [OF this assms(3,4)] have
    parts: "digest_parts cx e = digest_parts cx e'" .
  then have "ae_sequence e = ae_sequence e'" "ae_event e = ae_event e'"
    by (simp_all add: digest_parts_def show_nat_inject event_text_inject word_unat_eq_iff)
  with parts assms(2,5) show ?thesis
    by (simp add: digest_parts_def no_collision_def norm_entry_def fill_def Let_def)
qed

lemma chained_determined:
  assumes "length es = length es'" "chained cx prev es" "chained cx prev es'"
    and "end_hash prev es = end_hash prev es'"
    and "\<And>e. e \<in> set es \<union> set es' \<Longrightarrow> entry_fits cx e"
    and "\<And>e e'. e \<in> set es \<Longrightarrow> e' \<in> set es' \<Longrightarrow> no_collision cx e e'"
  shows "map norm_entry es = map norm_entry es'"
  using assms
proof (induction es es' rule: rev_induct2)
  case (4 x xs y ys)
  have x: "ae_prev_hash x = end_hash prev xs" "compute_entry_hash cx x = ae_hash x"
    and y: "ae_prev_hash y = end_hash prev ys" "compute_entry_hash cx y = ae_hash y"
    using "4.prems"(2,3) by (auto simp: chained_append)
  have "ae_hash x = ae_hash y" using "4.prems"(4) by (simp add: end_hash_def)
  then have xy: "norm_entry x = norm_entry y \<and> ae_prev_hash x = ae_prev_hash y"
    using x y "4.prems"(5,6) by (intro equal_hash_norm [of cx]) auto
  have "map norm_entry xs = map norm_entry ys"
    using "4.prems" x y xy by (intro "4.IH") (auto simp: chained_append)
  with xy show ?case by simp
qed auto

section \<open>Properties\<close>


text \<open>
  The condition on the serialiser is needed. The hash of an entry whose scope is null is taken over
  the text \<open>null\<close>, but a null read for an optional field is an absent one, whose hash is taken over
  the empty text: the log that the logger just wrote is reported as broken, unless the two texts
  have the same hash.
\<close>

theorem null_scope_breaks_chain:
  assumes "log_event cx disk now lg event flds = (lg', Inr ())" "disk_ok disk"
    and "lg_file lg = []" "lg_prev_hash lg = ''genesis''" "af_scope flds = Some JNull"
    and raw: "raw = \<lparr>ae_sequence = lg_sequence lg + 1, ae_timestamp = now, ae_event = event, ae_fields = flds,
      ae_prev_hash = ''genesis'', ae_hash = []\<rparr>"
    and e: "e = raw\<lparr>ae_hash := compute_entry_hash cx raw\<rparr>"
    and again: "again = e\<lparr>ae_fields := flds\<lparr>af_scope := None\<rparr>\<rparr>"
    and line: "cx_to_line cx e = Inr line" "cx_from_line cx line = Inr again"
      "CHR 0x0A \<notin> set line" "strip_cr line = line" "trim line \<noteq> []"
    and "compute_entry_hash cx again \<noteq> compute_entry_hash cx e"
  shows "verify_chain cx (Inr (lg_file lg')) =
    Inr (Broken (lg_sequence lg + 1) (compute_entry_hash cx again) (compute_entry_hash cx e))"
proof -
  have hash: "compute_entry_hash cx e = compute_entry_hash cx raw" by (simp add: e)
  have "lg_file lg' = line @ [CHR 0x0A]"
    using assms(1-4) line(1) unfolding e raw by (auto simp: log_event_def Let_def write_line_ok)
  moreover have "content_lines (line @ [CHR 0x0A]) = [line]"
    using content_lines_snoc [of "[]" line] line(3-5) by (simp add: terminated_def content_lines_def lines_def)
  moreover have "ae_prev_hash again = ''genesis''" "ae_sequence again = lg_sequence lg + 1"
    "ae_hash again = compute_entry_hash cx raw"
    by (simp_all add: again e raw)
  ultimately show ?thesis
    using line(2) assms(14) hash by (simp add: verify_chain_def Let_def)
qed

text \<open>
  C23. Tamper evidence: two verified logs of the same number of entries and the same final hash
  hold the same entries up to absent and empty text, unless two of their entries collide under
  SHA-256 or under the printing of timestamps or scopes.
\<close>

theorem verified_logs_agree:
  assumes "verify_chain cx (Inr c) = Inr (Valid n)" "verify_chain cx (Inr c') = Inr (Valid n')"
    and "map (cx_from_line cx) (content_lines c) = map Inr es"
    and "map (cx_from_line cx) (content_lines c') = map Inr es'"
    and "length es = length es'" "ae_hash (last es) = ae_hash (last es')"
    and "\<And>e. e \<in> set es \<union> set es' \<Longrightarrow> entry_fits cx e"
    and "\<And>e e'. e \<in> set es \<Longrightarrow> e' \<in> set es' \<Longrightarrow> no_collision cx e e'"
  shows "map norm_entry es = map norm_entry es'"
proof -
  have inr: "map Inr es = map Inr fs \<Longrightarrow> es = fs" for es fs :: "audit_entry list"
    by (simp add: inj_map_eq_map)
  from assms(1) have "verify_lines cx ''genesis'' 0 (content_lines c) = Inr (Valid n)"
    by (auto simp: verify_chain_def Let_def split: if_splits)
  then have "chained cx ''genesis'' es" using assms(3) inr by (auto simp: verify_lines_Valid)
  moreover from assms(2) have "verify_lines cx ''genesis'' 0 (content_lines c') = Inr (Valid n')"
    by (auto simp: verify_chain_def Let_def split: if_splits)
  then have "chained cx ''genesis'' es'" using assms(4) inr by (auto simp: verify_lines_Valid)
  ultimately show ?thesis
    using assms(5-8) by (intro chained_determined [of es es' cx "''genesis''"])
      (auto simp: end_hash_def)
qed

text \<open>
  Two changes that verification does not see. Replacing an absent text by an empty one
  leaves the hash of an entry as it is, and cutting a log after any positive number of its
  lines leaves a log that verifies.
\<close>

theorem verify_chain_blind_spots:
  assumes "verify_lines cx ''genesis'' 0 ls = Inr (Valid n)" "0 < k" "k \<le> length ls"
  shows "verify_lines cx ''genesis'' 0 (take k ls) = Inr (Valid (of_nat k)) \<and>
    compute_entry_hash cx (norm_entry e) = compute_entry_hash cx e"
proof
  from assms(1) obtain es where es: "map (cx_from_line cx) ls = map Inr es"
    "chained cx ''genesis'' es"
    by (auto simp: verify_lines_Valid)
  then have "map (cx_from_line cx) (take k ls) = map Inr (take k es)"
    by (simp flip: take_map)
  moreover have "chained cx ''genesis'' (take k es)"
    using es(2) chained_append [of cx "''genesis''" "take k es" "drop k es"] by simp
  moreover from es(1) assms(3) have "length (take k es) = k"
    by (metis length_map length_take min.absorb2)
  ultimately show "verify_lines cx ''genesis'' 0 (take k ls) = Inr (Valid (of_nat k))"
    by (auto simp: verify_lines_Valid)
  show "compute_entry_hash cx (norm_entry e) = compute_entry_hash cx e"
    by (simp add: compute_entry_hash_digest digest_input_def digest_parts_def norm_entry_def
        scope_text_def fill_def or_empty_def Let_def)
qed

section \<open>Witnesses\<close>

text \<open>
  A serialiser for which the hypotheses hold: every entry is a number, written in decimal, and a
  scope that is null reads back as an absent one.
\<close>

instance json :: countable
  by countable_datatype

instance audit_event_type :: countable
  by countable_datatype

definition entry_code :: "audit_entry \<Rightarrow> nat" where
  "entry_code e =
     to_nat ((unat (ae_sequence e), ae_timestamp e, ae_event e, ae_prev_hash e, ae_hash e),
       (\<lambda>f. (af_lease_id f, af_agent_fingerprint f, af_agent_binary_path f, af_credential_ref f,
         af_scope f, af_policy_matched f, af_approval_method f, af_detail f)) (ae_fields e))"

lemma entry_code_inject: "entry_code a = entry_code b \<longleftrightarrow> a = b"
proof
  assume "entry_code a = entry_code b"
  then have "unat (ae_sequence a) = unat (ae_sequence b)" "ae_timestamp a = ae_timestamp b"
    "ae_event a = ae_event b" "ae_prev_hash a = ae_prev_hash b" "ae_hash a = ae_hash b"
    and "af_lease_id (ae_fields a) = af_lease_id (ae_fields b)"
      "af_agent_fingerprint (ae_fields a) = af_agent_fingerprint (ae_fields b)"
      "af_agent_binary_path (ae_fields a) = af_agent_binary_path (ae_fields b)"
      "af_credential_ref (ae_fields a) = af_credential_ref (ae_fields b)"
      "af_scope (ae_fields a) = af_scope (ae_fields b)"
      "af_policy_matched (ae_fields a) = af_policy_matched (ae_fields b)"
      "af_approval_method (ae_fields a) = af_approval_method (ae_fields b)"
      "af_detail (ae_fields a) = af_detail (ae_fields b)"
    by (simp_all add: entry_code_def)
  moreover from this(1) have "ae_sequence a = ae_sequence b" by (simp add: word_unat_eq_iff)
  ultimately show "a = b" by simp
qed simp

definition drop_null :: "audit_entry \<Rightarrow> audit_entry" where
  "drop_null e =
     (if af_scope (ae_fields e) = Some JNull then e\<lparr>ae_fields := (ae_fields e)\<lparr>af_scope := None\<rparr>\<rparr> else e)"

definition number_codec :: audit_codec where
  "number_codec =
     \<lparr>cx_sha256 = (\<lambda>b. b), cx_rfc3339 = (\<lambda>_. ''t''), cx_json_text = (\<lambda>_. ''{}''),
      cx_to_line = (\<lambda>e. Inr (show_nat (entry_code e))),
      cx_from_line = (\<lambda>l. Inr (drop_null (inv (\<lambda>e. show_nat (entry_code e)) l)))\<rparr>"

lemma number_codec_ok:
  assumes "af_scope (snd (snd ev)) \<noteq> Some JNull"
  shows "event_carried number_codec ev"
  unfolding event_carried_def
proof (intro allI impI)
  fix e :: audit_entry
  assume "(ae_timestamp e, ae_event e, ae_fields e) = ev"
  with assms have keep: "drop_null e = e" by (auto simp: drop_null_def)
  let ?l = "show_nat (entry_code e)"
  have "inj (\<lambda>e. show_nat (entry_code e))"
    by (intro injI) (simp add: show_nat_inject entry_code_inject)
  from inv_f_f [OF this, of e] have "cx_from_line number_codec ?l = Inr e"
    by (simp add: number_codec_def keep)
  moreover have "CHR 0x0A \<notin> set ?l" "CHR 0x0D \<notin> set ?l" using show_nat_plain by fastforce+
  moreover have "trim ?l \<noteq> []" using trim_plain [of ?l] show_nat_plain by simp
  moreover from \<open>CHR 0x0D \<notin> set ?l\<close> have "strip_cr ?l = ?l"
    by (auto simp: strip_cr_def) (metis last_in_set show_nat_not_Nil)
  ultimately show "\<exists>line. cx_to_line number_codec e = Inr line \<and> cx_from_line number_codec line = Inr e \<and>
      CHR 0x0A \<notin> set line \<and> strip_cr line = line \<and> trim line \<noteq> []"
    by (intro exI [of _ ?l]) (simp add: number_codec_def)
qed

definition sample_disk :: audit_disk where
  "sample_disk = \<lparr>dk_write_all = (\<lambda>c d. (c @ d, None)), dk_flush = (\<lambda>_. None)\<rparr>"

definition sample_logger :: audit_logger where
  "sample_logger = \<lparr>lg_path = ''a'', lg_file = [], lg_sequence = 0, lg_prev_hash = ''genesis''\<rparr>"

definition sample_log :: "audit_fields \<Rightarrow> audit_logger" where
  "sample_log f = log_all number_codec sample_disk sample_logger [(5, AgentRegistered, f)]"

lemma sample_disk_ok: "disk_ok sample_disk"
  by (simp add: disk_ok_def sample_disk_def)

lemma sample_logger_new:
  "logger_new number_codec ''a'' [] = Inr sample_logger"
  "verify_chain number_codec (Inr []) = Inr Empty"
  by (simp_all add: logger_new_def read_last_entry_state_def lines_def content_lines_def
      verify_chain_def sample_logger_def Let_def)

lemma sample_log_entry:
  assumes "af_scope f = None"
  obtains e where "log_holds number_codec (sample_log f) [e]"
    and "ae_sequence e = 1" "ae_timestamp e = 5" "ae_event e = AgentRegistered" "ae_fields e = f"
    and "ae_prev_hash e = ''genesis''" "ae_hash e = compute_entry_hash number_codec e"
    and "verify_chain number_codec (Inr (lg_file (sample_log f))) = Inr (Valid 1)"
proof -
  have "log_holds number_codec sample_logger []"
    by (simp add: log_holds_def sample_logger_def terminated_def content_lines_def lines_def
        end_hash_def)
  moreover have "list_all (event_carried number_codec) [(5, AgentRegistered, f)]"
    using assms by (simp add: number_codec_ok)
  ultimately
  obtain e where e: "log_holds number_codec (sample_log f) [e]" "ae_sequence e = 1"
    "ae_timestamp e = 5" "ae_event e = AgentRegistered" "ae_fields e = f"
    using log_all_holds [OF _ sample_disk_ok, of number_codec "[(5, AgentRegistered, f)]" sample_logger "[]"]
    by (auto simp: sample_log_def sample_logger_def)
  from log_holds_verifies [OF e(1)] have
    "verify_chain number_codec (Inr (lg_file (sample_log f))) = Inr (Valid 1)" by simp
  with e show ?thesis by (intro that [of e]) (auto simp: log_holds_def)
qed


theorem verified_logs_agree_witness:
  "\<exists>es es'. es \<noteq> es' \<and> map norm_entry es = map norm_entry es' \<and>
     map (cx_from_line number_codec) (content_lines (lg_file (sample_log audit_fields_default))) =
       map Inr es \<and>
     map (cx_from_line number_codec)
       (content_lines (lg_file (sample_log (audit_fields_default\<lparr>af_lease_id := Some []\<rparr>)))) =
       map Inr es'"
proof -
  let ?f = "audit_fields_default\<lparr>af_lease_id := Some []\<rparr>"
  have scopes: "af_scope audit_fields_default = None" "af_scope ?f = None" by (simp_all add: audit_fields_default_def)
  obtain e where e: "log_holds number_codec (sample_log audit_fields_default) [e]"
    "ae_sequence e = 1" "ae_timestamp e = 5" "ae_event e = AgentRegistered"
    "ae_fields e = audit_fields_default" "ae_prev_hash e = ''genesis''"
    "ae_hash e = compute_entry_hash number_codec e"
    "verify_chain number_codec (Inr (lg_file (sample_log audit_fields_default))) = Inr (Valid 1)"
    by (rule sample_log_entry [OF scopes(1)])
  obtain e' where e': "log_holds number_codec (sample_log ?f) [e']"
    "ae_sequence e' = 1" "ae_timestamp e' = 5" "ae_event e' = AgentRegistered" "ae_fields e' = ?f"
    "ae_prev_hash e' = ''genesis''" "ae_hash e' = compute_entry_hash number_codec e'"
    "verify_chain number_codec (Inr (lg_file (sample_log ?f))) = Inr (Valid 1)"
    by (rule sample_log_entry [OF scopes(2)])
  have parts: "digest_parts number_codec e = digest_parts number_codec e'"
    using e e' by (simp add: digest_parts_def scope_text_def audit_fields_default_def or_empty_def)
  then have hash: "ae_hash e = ae_hash e'"
    using e e' by (simp add: compute_entry_hash_digest digest_input_def)
  have fits: "entry_fits number_codec e"
    using e(2-6) by (simp add: entry_fits_def digest_parts_def scope_text_def audit_fields_default_def
        or_empty_def number_codec_def show_nat.simps)
  have fits': "entry_fits number_codec e'" using fits parts by (simp add: entry_fits_def)
  have apart: "no_collision number_codec e e'"
    using e(3,5) e'(3,5) parts
    by (simp add: no_collision_def digest_input_def audit_fields_default_def)
  have "map norm_entry [e] = map norm_entry [e']"
    by (rule verified_logs_agree [OF e(8) e'(8)])
      (use e(1) e'(1) hash fits fits' apart in \<open>auto simp: log_holds_def\<close>)
  moreover have "[e] \<noteq> [e']" using e(5) e'(5) by (auto simp: audit_fields_default_def)
  ultimately show ?thesis
    using e(1) e'(1) by (intro exI [of _ "[e]"] exI [of _ "[e']"]) (simp add: log_holds_def)
qed

theorem verify_chain_blind_spots_witness:
  "\<exists>ls. ls \<noteq> [] \<and> verify_lines number_codec ''genesis'' 0 (take 1 ls) = Inr (Valid 1)"
proof -
  let ?ls = "content_lines (lg_file (sample_log audit_fields_default))"
  have scope: "af_scope audit_fields_default = None" by (simp add: audit_fields_default_def)
  obtain e where e: "log_holds number_codec (sample_log audit_fields_default) [e]"
    "verify_chain number_codec (Inr (lg_file (sample_log audit_fields_default))) = Inr (Valid 1)"
    by (rule sample_log_entry [OF scope])
  then have "verify_lines number_codec ''genesis'' 0 ?ls = Inr (Valid 1)" "?ls \<noteq> []"
    by (auto simp: verify_chain_def Let_def log_holds_def split: if_splits)
  then show ?thesis
    using verify_chain_blind_spots [of number_codec ?ls 1 1] by (auto simp: Suc_le_eq)
qed

end
