(* ===== verification/Cdp_Lease_Types.thy ===== *)
theory Cdp_Lease_Types
  imports Cdp_Policy_Eval Cdp_Audit
begin

text \<open>
  The data of the lease crate (\<open>crates/cdp-lease/src\<close>: \<open>types.rs\<close>, \<open>channel_bind.rs\<close>,
  \<open>dns_pin.rs\<close> and the error type of \<open>lib.rs\<close>): leases and their status, the scope operations
  used for delegation, channel binding and DNS pinning. A time is a number of nanoseconds since
  the epoch; each reading of the clock is an argument. Random bytes, the resolver and the
  arithmetic of the \<open>chrono\<close> crate are arguments too.
\<close>

section \<open>Leases\<close>

datatype ip_addr = V4 u32 | V6 "128 word"

definition lease_id_generate :: "bytes \<Rightarrow> string" where
  "lease_id_generate random = hex_encode random"

datatype lease_status = Active | Expired | Revoked (revoked_reason: string)

record lease =
  l_lease_id :: string
  l_credential_ref :: string
  l_policy_name :: string
  l_approval_method :: string
  l_agent_fingerprint_hash :: bytes
  l_agent_binary_path :: string
  l_agent_uid :: u32
  l_agent_pid :: u32
  l_granted_scope :: scope
  l_lease_token :: string
  l_channel_binding_nonce :: bytes
  l_dns_pinned_ips :: "string \<rightharpoonup> ip_addr list"
  l_status :: lease_status
  l_created_at :: int
  l_expires_at :: int
  l_ttl_seconds :: u64
  l_cumulative_ttl_seconds :: u64
  l_max_requests :: "u64 option"
  l_requests_used :: u64
  l_renewals_used :: u32
  l_max_renewals :: u32
  l_max_cumulative_ttl_seconds :: u64
  l_renewable :: bool
  l_parent_lease_id :: "string option"
  l_child_lease_ids :: "string list"
  l_delegation_depth :: u32
  l_delegation_allowed :: bool
  l_delegation_max_depth :: "u32 option"
  l_follow_redirects :: bool

datatype lease_error =
    NotFound string
  | LeaseError_Expired string
  | LeaseError_Revoked string
  | MaxRenewalsExceeded u32
  | MaxCumulativeTtlExceeded u64
  | MaxRequestsExceeded u64
  | DelegationDepthExceeded u32
  | DelegationNotAllowed
  | ScopeNotSubset
  | TtlExceedsParent
  | TargetAgentNotAlive
  | DnsResolution (dns_host: string) (dns_reason: string)
  | AgentNotAlive
  | NotRenewable
  | NotActive
  | LeaseError_Crypto crypto_error

text \<open>
  The part of \<open>chrono\<close> the crate calls: adding a signed number of seconds to a time, which
  panics when the duration or the result is out of range, and the whole seconds of a duration.
\<close>

record chrono =
  ch_add_seconds :: "int \<Rightarrow> int \<Rightarrow> int outcome"
  ch_num_seconds :: "int \<Rightarrow> int"

definition nanos :: int where
  "nanos = 1000000000"

definition chrono_ok :: "chrono \<Rightarrow> bool" where
  "chrono_ok ch \<longleftrightarrow>
     (\<forall>t s t'. ch_add_seconds ch t s = Ret t' \<longrightarrow> t' = t + s * nanos \<and> \<bar>s\<bar> \<le> 2 ^ 63 div 1000) \<and>
     (\<forall>d. 0 \<le> d \<longrightarrow> ch_num_seconds ch d = d div nanos) \<and>
     (\<forall>d. d < 0 \<longrightarrow> ch_num_seconds ch d \<le> 0)"

definition is_expired :: "int \<Rightarrow> lease \<Rightarrow> bool" where
  "is_expired now self \<longleftrightarrow> l_expires_at self < now"

definition is_active :: "int \<Rightarrow> lease \<Rightarrow> bool" where
  "is_active now self \<longleftrightarrow> l_status self = Active \<and> \<not> is_expired now self"

definition remaining_ttl_seconds :: "chrono \<Rightarrow> int \<Rightarrow> lease \<Rightarrow> int" where
  "remaining_ttl_seconds ch now self = ch_num_seconds ch (l_expires_at self - now)"

section \<open>Scope operations\<close>

definition intersect_vecs :: "string list \<Rightarrow> string list \<Rightarrow> string list" where
  "intersect_vecs a b = filter (\<lambda>x. x \<in> set b) a"

definition lease_min_option :: "u64 option \<Rightarrow> u64 option \<Rightarrow> u64 option" where
  "lease_min_option a b =
     (case (a, b) of
        (Some x, Some y) \<Rightarrow> Some (min x y)
      | (Some x, None) \<Rightarrow> Some x
      | (None, Some y) \<Rightarrow> Some y
      | (None, None) \<Rightarrow> None)"

interpretation lease_limit: limit_meet lease_min_option
  by unfold_locales (auto simp: within_def lease_min_option_def split: option.splits)

definition lease_merge_body_constraints ::
  "body_constraints option \<Rightarrow> body_constraints option \<Rightarrow> body_constraints option" where
  "lease_merge_body_constraints a b =
     (case (a, b) of
        (None, None) \<Rightarrow> None
      | (Some left, None) \<Rightarrow> Some left
      | (None, Some right) \<Rightarrow> Some right
      | (Some left, Some right) \<Rightarrow>
          Some \<lparr>bc_forbidden_fields = push_missing (bc_forbidden_fields left) (bc_forbidden_fields right),
                bc_max_size_bytes = lease_min_option (bc_max_size_bytes left) (bc_max_size_bytes right),
                bc_allowed_content_types =
                  (if bc_allowed_content_types left = [] then bc_allowed_content_types right
                   else if bc_allowed_content_types right = [] then bc_allowed_content_types left
                   else intersect_vecs (bc_allowed_content_types left) (bc_allowed_content_types right))\<rparr>)"

interpretation lease_body: constraint_merge lease_merge_body_constraints
  by unfold_locales
    (auto simp: lease_merge_body_constraints_def body_forbidden_def body_size_ok_def
      lease_limit.within_meet split: option.splits)

definition intersect_scopes :: "scope \<Rightarrow> scope \<Rightarrow> scope" where
  "intersect_scopes requested granted =
     \<lparr>scope_hosts = intersect_vecs (scope_hosts requested) (scope_hosts granted),
      scope_methods = intersect_vecs (scope_methods requested) (scope_methods granted),
      scope_paths = intersect_vecs (scope_paths requested) (scope_paths granted),
      scope_forbidden_paths =
        push_missing (scope_forbidden_paths requested) (scope_forbidden_paths granted),
      scope_ttl_seconds =
        lease_min_option (scope_ttl_seconds requested) (scope_ttl_seconds granted),
      scope_max_requests =
        lease_min_option (scope_max_requests requested) (scope_max_requests granted),
      scope_body_constraints =
        lease_merge_body_constraints (scope_body_constraints requested)
          (scope_body_constraints granted),
      scope_network = scope_network granted\<rparr>"

text \<open>The condition \<open>if let (Some(c), Some(p)) = (child, parent) && c > p\<close>.\<close>

definition both_exceed :: "u64 option \<Rightarrow> u64 option \<Rightarrow> bool" where
  "both_exceed child parent =
     (case (child, parent) of (Some c, Some p) \<Rightarrow> p < c | _ \<Rightarrow> False)"

definition is_scope_subset :: "scope \<Rightarrow> scope \<Rightarrow> bool" where
  "is_scope_subset child parent =
     (if \<not> list_all (\<lambda>h. h \<in> set (scope_hosts parent)) (scope_hosts child) then False
      else if \<not> list_all (\<lambda>m. m \<in> set (scope_methods parent)) (scope_methods child) then False
      else if \<not> list_all (\<lambda>p. p \<in> set (scope_paths parent)) (scope_paths child) then False
      else if \<not> list_all (\<lambda>fp. fp \<in> set (scope_forbidden_paths child))
                 (scope_forbidden_paths parent) then False
      else if both_exceed (scope_ttl_seconds child) (scope_ttl_seconds parent) then False
      else if both_exceed (scope_max_requests child) (scope_max_requests parent) then False
      else True)"

section \<open>Channel binding and DNS pinning\<close>

definition verify_binding :: "bytes \<Rightarrow> bytes \<Rightarrow> bool" where
  "verify_binding expected received =
     (if length received \<noteq> 32 then False else xor_diff 0 expected received = 0)"

interpretation binding_eq: secret_eq verify_binding "\<lambda>n. n = 32"
  by unfold_locales (auto simp: verify_binding_def xor_diff_zero_iff)

type_synonym resolver = "string \<Rightarrow> string + ip_addr list"

fun pin_hosts ::
  "resolver \<Rightarrow> (string \<rightharpoonup> ip_addr list) \<Rightarrow> string list \<Rightarrow> lease_error + (string \<rightharpoonup> ip_addr list)" where
  "pin_hosts lookup_host pinned [] = Inr pinned"
| "pin_hosts lookup_host pinned (host # hosts) =
     (case lookup_host (host @ '':0'') of
        Inl e \<Rightarrow> Inl (DnsResolution host e)
      | Inr ips \<Rightarrow>
          if ips = [] then Inl (DnsResolution host ''no addresses returned'')
          else pin_hosts lookup_host (pinned(host \<mapsto> ips)) hosts)"

definition pin_dns :: "resolver \<Rightarrow> string list \<Rightarrow> lease_error + (string \<rightharpoonup> ip_addr list)" where
  "pin_dns lookup_host hosts = pin_hosts lookup_host Map.empty hosts"

definition verify_dns :: "(string \<rightharpoonup> ip_addr list) \<Rightarrow> string \<Rightarrow> ip_addr \<Rightarrow> bool" where
  "verify_dns pinned host resolved_ip =
     (case pinned host of Some ips \<Rightarrow> resolved_ip \<in> set ips | None \<Rightarrow> False)"

section \<open>Lemmas\<close>

lemma is_scope_subset_iff:
  "is_scope_subset c p \<longleftrightarrow>
     set (scope_hosts c) \<subseteq> set (scope_hosts p) \<and> set (scope_methods c) \<subseteq> set (scope_methods p) \<and>
     set (scope_paths c) \<subseteq> set (scope_paths p) \<and>
     set (scope_forbidden_paths p) \<subseteq> set (scope_forbidden_paths c) \<and>
     \<not> both_exceed (scope_ttl_seconds c) (scope_ttl_seconds p) \<and>
     \<not> both_exceed (scope_max_requests c) (scope_max_requests p)"
  by (auto simp: is_scope_subset_def list_all_iff subset_iff)

lemma not_every_string: "\<exists>s :: string. s \<notin> set b"
proof -
  have "infinite (UNIV :: string set)" by (simp add: infinite_UNIV_listI)
  then show ?thesis by (metis List.finite_set UNIV_eq_I)
qed

lemma is_scope_subset_refl: "is_scope_subset s s"
  by (auto simp: is_scope_subset_iff both_exceed_def split: option.splits)

lemma pin_hosts_Inr:
  "pin_hosts lookup pinned hosts = Inr m \<Longrightarrow>
   m h = (if h \<in> set hosts then Some (projr (lookup (h @ '':0''))) else pinned h) \<and>
   (h \<in> set hosts \<longrightarrow> (\<exists>ips. lookup (h @ '':0'') = Inr ips \<and> ips \<noteq> []))"
proof (induction lookup pinned hosts arbitrary: m rule: pin_hosts.induct)
  case (2 lookup pinned host hosts)
  from "2.prems" obtain ips where ips: "lookup (host @ '':0'') = Inr ips" "ips \<noteq> []"
    "pin_hosts lookup (pinned(host \<mapsto> ips)) hosts = Inr m"
    by (auto split: sum.splits if_splits)
  from "2.IH" [OF ips(1,2,3)] ips show ?case by auto
qed simp

section \<open>Properties\<close>

text \<open>
  Pinning either fails or pins every requested host, and nothing else, to a non-empty list
  of addresses the resolver gave; a pinned map then accepts exactly those addresses for those
  hosts.
\<close>

theorem pin_dns_complete:
  assumes "pin_dns lookup hosts = Inr pinned"
  shows "dom pinned = set hosts \<and>
    (\<forall>h ip. verify_dns pinned h ip \<longleftrightarrow>
       h \<in> set hosts \<and> (\<exists>ips. lookup (h @ '':0'') = Inr ips \<and> ip \<in> set ips)) \<and>
    (\<forall>h. h \<in> set hosts \<longrightarrow> (\<exists>ip. verify_dns pinned h ip))"
proof -
  note parts = pin_hosts_Inr [OF assms [unfolded pin_dns_def]]
  have dom: "dom pinned = set hosts"
    using parts by (auto simp: dom_def split: if_splits)
  have ver: "verify_dns pinned h ip \<longleftrightarrow>
      h \<in> set hosts \<and> (\<exists>ips. lookup (h @ '':0'') = Inr ips \<and> ip \<in> set ips)" for h ip
    using parts [of h] by (auto simp: verify_dns_def split: if_splits)
  moreover have "\<exists>ip. verify_dns pinned h ip" if "h \<in> set hosts" for h
  proof -
    from parts [of h] that obtain ips where "lookup (h @ '':0'') = Inr ips" "ips \<noteq> []" by blast
    then show ?thesis using ver [of h "hd ips"] that by auto
  qed
  ultimately show ?thesis using dom by blast
qed

theorem pin_dns_complete_witness:
  "\<exists>pinned. pin_dns (\<lambda>_. Inr [V4 1]) [''h''] = Inr pinned \<and> dom pinned = {''h''} \<and>
     \<not> verify_dns pinned ''h'' (V4 2)"
proof -
  have "pin_dns (\<lambda>_. Inr [V4 1]) [''h''] = Inr [''h'' \<mapsto> [V4 1]]" by (simp add: pin_dns_def)
  from pin_dns_complete [OF this] this show ?thesis by auto
qed

text \<open>
  What the subset check of delegation guarantees. On hosts, methods and paths, lists that
  the proxy reads as unrestricted when empty, an accepted child admits no more than its parent
  exactly when it does not leave a list empty that the parent restricts; forbidden paths are
  inherited, and the lifetime and request limits shrink whenever both sides state one.
\<close>

theorem is_scope_subset_guarantee:
  assumes "is_scope_subset c p"
  shows "((\<forall>h. open_list (scope_hosts c) h \<longrightarrow> open_list (scope_hosts p) h) \<longleftrightarrow>
        (scope_hosts c = [] \<longrightarrow> scope_hosts p = [])) \<and>
    ((\<forall>m. open_list (scope_methods c) m \<longrightarrow> open_list (scope_methods p) m) \<longleftrightarrow>
        (scope_methods c = [] \<longrightarrow> scope_methods p = [])) \<and>
    ((\<forall>x. open_list (scope_paths c) x \<longrightarrow> open_list (scope_paths p) x) \<longleftrightarrow>
        (scope_paths c = [] \<longrightarrow> scope_paths p = [])) \<and>
    set (scope_forbidden_paths p) \<subseteq> set (scope_forbidden_paths c) \<and>
    (\<forall>x y. scope_ttl_seconds c = Some x \<longrightarrow> scope_ttl_seconds p = Some y \<longrightarrow> x \<le> y) \<and>
    (\<forall>x y. scope_max_requests c = Some x \<longrightarrow> scope_max_requests p = Some y \<longrightarrow> x \<le> y)"
proof -
  have lists: "(\<forall>h. open_list a h \<longrightarrow> open_list b h) \<longleftrightarrow> (a = [] \<longrightarrow> b = [])"
    if "set a \<subseteq> set b" for a b
    using that not_every_string [of b] by (auto simp: open_list_def)
  from assms show ?thesis
    by (auto simp: is_scope_subset_iff lists both_exceed_def)
qed

theorem is_scope_subset_guarantee_witness:
  "is_scope_subset scope_default (scope_default\<lparr>scope_hosts := [''h'']\<rparr>) \<and>
   \<not> (\<forall>h. open_list (scope_hosts scope_default) h \<longrightarrow>
        open_list (scope_hosts (scope_default\<lparr>scope_hosts := [''h'']\<rparr>)) h)"
proof -
  have "is_scope_subset scope_default (scope_default\<lparr>scope_hosts := [''h'']\<rparr>)" by code_simp
  from is_scope_subset_guarantee [OF this] this show ?thesis by (simp add: scope_default_def)
qed

end
