(* ===== verification/Cdp_Lease_Manager.thy ===== *)
theory Cdp_Lease_Manager
  imports Cdp_Lease_Types
begin

text \<open>
  The lease manager (\<open>crates/cdp-lease/src\<close>: \<open>manager.rs\<close>, \<open>delegation.rs\<close> and the handler of
  \<open>liveness.rs\<close>). The state holds the two maps of the source, the gate key and the audit
  channel. An operation takes the state and returns it with its result; a panic of the time
  arithmetic is \<open>Panic\<close>, and the loop that collects descendants, which has no bound of its own,
  returns \<open>None\<close> when it does not end.
\<close>

section \<open>State\<close>

text \<open>
  The audit channel: absent, or the events sent so far and whether the receiver is gone.
\<close>

record audit_channel =
  tx_sent :: "(audit_event_type \<times> audit_fields) list"
  tx_closed :: bool

record lease_manager =
  lm_leases :: "string \<rightharpoonup> lease"
  lm_agent_leases :: "bytes \<rightharpoonup> string list"
  lm_gate_key :: bytes
  lm_audit_tx :: "audit_channel option"

definition manager_new :: "bytes \<Rightarrow> audit_channel option \<Rightarrow> lease_manager" where
  "manager_new gate_key audit_tx =
     \<lparr>lm_leases = Map.empty, lm_agent_leases = Map.empty, lm_gate_key = gate_key,
      lm_audit_tx = audit_tx\<rparr>"

definition emit_audit ::
  "audit_event_type \<Rightarrow> audit_fields \<Rightarrow> lease_manager \<Rightarrow> lease_manager" where
  "emit_audit event flds self =
     (case lm_audit_tx self of
        None \<Rightarrow> self
      | Some tx \<Rightarrow>
          if tx_closed tx then self
          else self\<lparr>lm_audit_tx := Some (tx\<lparr>tx_sent := tx_sent tx @ [(event, flds)]\<rparr>)\<rparr>)"

text \<open>The two locked sections that add a lease: the store, then the index.\<close>

definition insert_lease :: "string \<Rightarrow> lease \<Rightarrow> lease_manager \<Rightarrow> lease_manager" where
  "insert_lease lease_id l self = self\<lparr>lm_leases := (lm_leases self)(lease_id \<mapsto> l)\<rparr>"

definition index_lease :: "bytes \<Rightarrow> string \<Rightarrow> lease_manager \<Rightarrow> lease_manager" where
  "index_lease fingerprint lease_id self =
     self\<lparr>lm_agent_leases := (lm_agent_leases self)(fingerprint \<mapsto>
       (case lm_agent_leases self fingerprint of None \<Rightarrow> [] | Some ids \<Rightarrow> ids) @ [lease_id])\<rparr>"

definition set_status :: "string \<Rightarrow> lease_status \<Rightarrow> lease_manager \<Rightarrow> lease_manager" where
  "set_status lease_id st self =
     (case lm_leases self lease_id of
        None \<Rightarrow> self
      | Some l \<Rightarrow> insert_lease lease_id (l\<lparr>l_status := st\<rparr>) self)"

definition remove_from_agent_index ::
  "(bytes \<rightharpoonup> string list) \<Rightarrow> bytes \<Rightarrow> string \<Rightarrow> (bytes \<rightharpoonup> string list)" where
  "remove_from_agent_index agent_leases fingerprint lease_id =
     (case agent_leases fingerprint of
        None \<Rightarrow> agent_leases
      | Some ids \<Rightarrow>
          (let ids = filter (\<lambda>i. i \<noteq> lease_id) ids in
           if ids = [] then agent_leases(fingerprint := None)
           else agent_leases(fingerprint \<mapsto> ids)))"

section \<open>Creation\<close>

text \<open>
  What an operation draws from outside: the resolver, random bytes for the identifier and the
  nonce, the keyed hash and \<open>chrono\<close>.
\<close>

record lease_env =
  env_lookup_host :: resolver
  env_id_random :: bytes
  env_nonce :: bytes
  env_hmac :: hmac_fun
  env_chrono :: chrono

definition unwrap_or :: "'a option \<Rightarrow> 'a \<Rightarrow> 'a" where
  "unwrap_or x d = (case x of None \<Rightarrow> d | Some y \<Rightarrow> y)"

definition or_option :: "'a option \<Rightarrow> 'a option \<Rightarrow> 'a option" where
  "or_option x y = (case x of None \<Rightarrow> y | Some z \<Rightarrow> Some z)"

definition new_root_lease ::
  "lease_env \<Rightarrow> int \<Rightarrow> bytes \<Rightarrow> agent_info \<Rightarrow> string \<Rightarrow> scope \<Rightarrow> policy_constraints \<Rightarrow> string \<Rightarrow> string
   \<Rightarrow> (lease_error + lease) outcome" where
  "new_root_lease env now gate_key agent credential_ref granted pcons pname
     approval_method =
     (let lease_id = lease_id_generate (env_id_random env);
          cb_nonce = env_nonce env in
      case pin_dns (env_lookup_host env) (scope_hosts granted) of
        Inl e \<Rightarrow> Ret (Inl e)
      | Inr dns_pinned_ips \<Rightarrow>
          (let ttl_seconds =
                 unwrap_or (or_option (scope_ttl_seconds granted) (pc_max_ttl_seconds pcons)) 3600;
               lease_token =
                 generate_lease_token (env_hmac env) gate_key lease_id (ai_fingerprint_hash agent)
                   cb_nonce in
           case ch_add_seconds (env_chrono env) now (sint ttl_seconds) of
             Panic \<Rightarrow> Panic
           | Ret expires_at \<Rightarrow>
               Ret (Inr
                 \<lparr>l_lease_id = lease_id, l_credential_ref = credential_ref,
                  l_policy_name = pname, l_approval_method = approval_method,
                  l_agent_fingerprint_hash = ai_fingerprint_hash agent,
                  l_agent_binary_path = ai_binary_path agent,
                  l_agent_uid = ai_uid agent, l_agent_pid = ai_pid agent,
                  l_granted_scope = granted, l_lease_token = lease_token,
                  l_channel_binding_nonce = cb_nonce, l_dns_pinned_ips = dns_pinned_ips,
                  l_status = Active, l_created_at = now, l_expires_at = expires_at,
                  l_ttl_seconds = ttl_seconds, l_cumulative_ttl_seconds = ttl_seconds,
                  l_max_requests =
                    or_option (scope_max_requests granted) (pc_max_requests_per_lease pcons),
                  l_requests_used = 0, l_renewals_used = 0,
                  l_max_renewals = unwrap_or (pc_max_renewals pcons) 3,
                  l_max_cumulative_ttl_seconds =
                    unwrap_or (pc_max_cumulative_ttl_seconds pcons) 14400,
                  l_renewable = pc_renewable pcons, l_parent_lease_id = None,
                  l_child_lease_ids = [], l_delegation_depth = 0,
                  l_delegation_allowed = pc_delegation_allowed pcons,
                  l_delegation_max_depth = pc_delegation_max_depth pcons,
                  l_follow_redirects =
                    (case scope_network granted of
                       None \<Rightarrow> False | Some n \<Rightarrow> nc_follow_redirects n)\<rparr>)))"

definition granted_fields :: "lease \<Rightarrow> audit_fields" where
  "granted_fields l = audit_fields_default
     \<lparr>af_lease_id := Some (l_lease_id l),
      af_agent_fingerprint := Some (hex_encode (l_agent_fingerprint_hash l)),
      af_agent_binary_path := Some (l_agent_binary_path l),
      af_credential_ref := Some (l_credential_ref l),
      af_policy_matched := Some (l_policy_name l),
      af_approval_method := Some (l_approval_method l)\<rparr>"

definition create_lease ::
  "lease_env \<Rightarrow> int \<Rightarrow> lease_manager \<Rightarrow> agent_info \<Rightarrow> string \<Rightarrow> scope \<Rightarrow> policy_constraints
   \<Rightarrow> string \<Rightarrow> string \<Rightarrow> (lease_manager \<times> (lease_error + lease)) outcome" where
  "create_lease env now self agent credential_ref granted pcons pname approval_method =
     (case new_root_lease env now (lm_gate_key self) agent credential_ref granted pcons
             pname approval_method of
        Panic \<Rightarrow> Panic
      | Ret (Inl e) \<Rightarrow> Ret (self, Inl e)
      | Ret (Inr l) \<Rightarrow>
          (let self = insert_lease (l_lease_id l) l self;
               self = index_lease (ai_fingerprint_hash agent) (l_lease_id l) self;
               self = emit_audit LeaseGranted (granted_fields l) self in
           Ret (self, Inr l)))"

section \<open>Renewal, use and lookup\<close>

definition renew_lease ::
  "chrono \<Rightarrow> int \<Rightarrow> lease_manager \<Rightarrow> string \<Rightarrow> u64 \<Rightarrow> (lease_manager \<times> (lease_error + unit)) outcome" where
  "renew_lease ch now self lease_id extend_seconds =
     (case lm_leases self lease_id of
        None \<Rightarrow> Ret (self, Inl (NotFound lease_id))
      | Some l \<Rightarrow>
          if l_status l \<noteq> Active then Ret (self, Inl NotActive)
          else if is_expired now l then Ret (self, Inl (LeaseError_Expired lease_id))
          else if \<not> l_renewable l then Ret (self, Inl NotRenewable)
          else if l_max_renewals l \<le> l_renewals_used l
            then Ret (self, Inl (MaxRenewalsExceeded (l_max_renewals l)))
          else if l_max_cumulative_ttl_seconds l < l_cumulative_ttl_seconds l + extend_seconds
            then Ret (self, Inl (MaxCumulativeTtlExceeded (l_max_cumulative_ttl_seconds l)))
          else (case ch_add_seconds ch (l_expires_at l) (sint extend_seconds) of
                  Panic \<Rightarrow> Panic
                | Ret expires_at \<Rightarrow>
                    (let l' = l\<lparr>l_expires_at := expires_at,
                               l_cumulative_ttl_seconds := l_cumulative_ttl_seconds l + extend_seconds,
                               l_renewals_used := l_renewals_used l + 1\<rparr>;
                         self = insert_lease lease_id l' self;
                         self = emit_audit LeaseRenewed
                           (audit_fields_default
                              \<lparr>af_lease_id := Some lease_id,
                               af_agent_fingerprint := Some (hex_encode (l_agent_fingerprint_hash l)),
                               af_credential_ref := Some (l_credential_ref l),
                               af_detail := Some (''extended by '' @ show_nat (unat extend_seconds) @ ''s'')\<rparr>)
                           self in
                     Ret (self, Inr ()))))"

definition use_lease ::
  "int \<Rightarrow> lease_manager \<Rightarrow> string \<Rightarrow> lease_manager \<times> (lease_error + lease)" where
  "use_lease now self lease_id =
     (case lm_leases self lease_id of
        None \<Rightarrow> (self, Inl (NotFound lease_id))
      | Some l \<Rightarrow>
          if l_status l \<noteq> Active then (self, Inl NotActive)
          else if is_expired now l then (self, Inl (LeaseError_Expired lease_id))
          else if (case l_max_requests l of
                  Some m \<Rightarrow> m \<le> l_requests_used l
                | None \<Rightarrow> False)
            then (self, Inl (MaxRequestsExceeded (the (l_max_requests l))))
          else (let snapshot = l\<lparr>l_requests_used := l_requests_used l + 1\<rparr>;
                    self = insert_lease lease_id snapshot self;
                    self = emit_audit LeaseUsed
                      (audit_fields_default
                         \<lparr>af_lease_id := Some lease_id,
                          af_agent_fingerprint := Some (hex_encode (l_agent_fingerprint_hash snapshot)),
                          af_credential_ref := Some (l_credential_ref snapshot),
                          af_detail := Some (''request '' @ show_nat (unat (l_requests_used snapshot)))\<rparr>)
                      self in
                (self, Inr snapshot)))"

definition get_lease :: "lease_manager \<Rightarrow> string \<Rightarrow> lease_error + lease" where
  "get_lease self lease_id =
     (case lm_leases self lease_id of None \<Rightarrow> Inl (NotFound lease_id) | Some l \<Rightarrow> Inr l)"

section \<open>Revocation\<close>

definition children_of :: "(string \<rightharpoonup> lease) \<Rightarrow> string \<Rightarrow> string list" where
  "children_of leases lease_id =
     (case leases lease_id of None \<Rightarrow> [] | Some l \<Rightarrow> l_child_lease_ids l)"

text \<open>
  The loop over the explicit stack; the head of the list is the top of the stack, so pushing
  the children of a node in reverse puts them in order in front.
\<close>

partial_function (option) collect_loop ::
  "(string \<rightharpoonup> lease) \<Rightarrow> string list \<Rightarrow> string list \<Rightarrow> string list option" where
  "collect_loop leases stack result =
     (case stack of
        [] \<Rightarrow> Some result
      | i # rest \<Rightarrow> collect_loop leases (children_of leases i @ rest) (result @ [i]))"

declare collect_loop.simps [code]

definition collect_descendants :: "(string \<rightharpoonup> lease) \<Rightarrow> string \<Rightarrow> string list option" where
  "collect_descendants leases root = collect_loop leases (rev (children_of leases root)) []"

definition revoke_one :: "string \<Rightarrow> string \<Rightarrow> string \<Rightarrow> lease_manager \<Rightarrow> lease_manager" where
  "revoke_one reason detail lease_id self =
     (case lm_leases self lease_id of
        None \<Rightarrow> self
      | Some l \<Rightarrow>
          (let fp = l_agent_fingerprint_hash l;
               self = set_status lease_id (Revoked reason) self;
               self = self\<lparr>lm_agent_leases :=
                 remove_from_agent_index (lm_agent_leases self) fp lease_id\<rparr> in
           emit_audit LeaseRevoked
             (audit_fields_default
                \<lparr>af_lease_id := Some lease_id, af_agent_fingerprint := Some (hex_encode fp),
                 af_detail := Some detail\<rparr>)
             self))"

definition revoke_lease ::
  "lease_manager \<Rightarrow> string \<Rightarrow> string \<Rightarrow> (lease_manager \<times> (lease_error + unit)) option" where
  "revoke_lease self lease_id reason =
     (if lm_leases self lease_id = None then Some (self, Inl (NotFound lease_id))
      else (case collect_descendants (lm_leases self) lease_id of
              None \<Rightarrow> None
            | Some descendants \<Rightarrow>
                (let self = fold (revoke_one reason (''cascading revocation: '' @ reason))
                              descendants self;
                     self = revoke_one reason reason lease_id self in
                 Some (self, Inr ()))))"

fun revoke_roots ::
  "string \<Rightarrow> string list \<Rightarrow> lease_manager \<Rightarrow> string list
   \<Rightarrow> (lease_manager \<times> (lease_error + string list)) option" where
  "revoke_roots reason revoked self [] = Some (self, Inr revoked)"
| "revoke_roots reason revoked self (lease_id # lease_ids) =
     (let is_root = (case lm_leases self lease_id of
                       None \<Rightarrow> False | Some l \<Rightarrow> l_parent_lease_id l = None) in
      if is_root
      then (case collect_descendants (lm_leases self) lease_id of
              None \<Rightarrow> None
            | Some descendants \<Rightarrow>
                (case revoke_lease self lease_id reason of
                   None \<Rightarrow> None
                 | Some (self, Inl e) \<Rightarrow> Some (self, Inl e)
                 | Some (self, Inr _) \<Rightarrow>
                     revoke_roots reason (revoked @ lease_id # descendants) self lease_ids))
      else revoke_roots reason revoked self lease_ids)"

definition revoke_agent_leases ::
  "lease_manager \<Rightarrow> bytes \<Rightarrow> string \<Rightarrow> (lease_manager \<times> (lease_error + string list)) option" where
  "revoke_agent_leases self fingerprint_hash reason =
     (let lease_ids = (case lm_agent_leases self fingerprint_hash of None \<Rightarrow> [] | Some ids \<Rightarrow> ids) in
      case revoke_roots reason [] self lease_ids of
        None \<Rightarrow> None
      | Some (self, Inl e) \<Rightarrow> Some (self, Inl e)
      | Some (self, Inr revoked) \<Rightarrow>
          Some (self\<lparr>lm_agent_leases := (lm_agent_leases self)(fingerprint_hash := None)\<rparr>,
                Inr revoked))"

record agent_death_notice =
  dn_pid :: u32
  dn_fingerprint_hash :: bytes

text \<open>The body of the handler's loop; the results are only logged.\<close>

definition liveness_step :: "lease_manager \<Rightarrow> agent_death_notice \<Rightarrow> lease_manager option" where
  "liveness_step self notice =
     map_option fst (revoke_agent_leases self (dn_fingerprint_hash notice) ''agent process died'')"

fun liveness_handler :: "lease_manager \<Rightarrow> agent_death_notice list \<Rightarrow> lease_manager option" where
  "liveness_handler self [] = Some self"
| "liveness_handler self (notice # rx) =
     (case liveness_step self notice of None \<Rightarrow> None | Some self \<Rightarrow> liveness_handler self rx)"

section \<open>Expiry\<close>

text \<open>\<open>order\<close> is the order in which the hash map is iterated.\<close>

definition expire_one :: "string \<Rightarrow> lease_manager \<Rightarrow> lease_manager" where
  "expire_one lease_id self =
     (case lm_leases self lease_id of
        None \<Rightarrow> self
      | Some l \<Rightarrow>
          (let fp = l_agent_fingerprint_hash l;
               self = set_status lease_id Expired self;
               self = self\<lparr>lm_agent_leases :=
                 remove_from_agent_index (lm_agent_leases self) fp lease_id\<rparr> in
           emit_audit LeaseExpired
             (audit_fields_default
                \<lparr>af_lease_id := Some lease_id, af_agent_fingerprint := Some (hex_encode fp),
                 af_credential_ref := Some (l_credential_ref l)\<rparr>)
             self))"

definition sweep_expired :: "string list \<Rightarrow> int \<Rightarrow> lease_manager \<Rightarrow> lease_manager" where
  "sweep_expired order now self =
     (let expired_ids =
            filter (\<lambda>i. case lm_leases self i of
                          None \<Rightarrow> False
                        | Some l \<Rightarrow> l_status l = Active \<and> l_expires_at l < now) order in
      fold expire_one expired_ids self)"

end
