(* ===== verification/Cdp_Lease_Delegation.thy ===== *)
theory Cdp_Lease_Delegation
  imports Cdp_Lease_Manager
begin

text \<open>
  Delegation (\<open>crates/cdp-lease/src/delegation.rs\<close>) and the lemmas that describe how each
  operation of the manager changes the lease map. Delegation has three parts, as in the source:
  a check under the read lock, work without a lock (DNS, identifiers, times), and a commit
  under the write lock that checks everything again. The three clock readings are \<open>created_at\<close>,
  \<open>now\<close> and \<open>now'\<close>.
\<close>

section \<open>Delegation\<close>

definition delegate_precheck :: "lease_manager \<Rightarrow> string \<Rightarrow> scope \<Rightarrow> lease_error + unit" where
  "delegate_precheck self parent_lease_id child_scope =
     (case lm_leases self parent_lease_id of
        None \<Rightarrow> Inl (NotFound parent_lease_id)
      | Some parent \<Rightarrow>
          if \<not> is_scope_subset child_scope (l_granted_scope parent) then Inl ScopeNotSubset
          else Inr ())"

definition child_lease ::
  "lease_env \<Rightarrow> bytes \<Rightarrow> lease \<Rightarrow> string \<Rightarrow> agent_info \<Rightarrow> scope \<Rightarrow> u64 \<Rightarrow> int \<Rightarrow> int
   \<Rightarrow> (string \<rightharpoonup> ip_addr list) \<Rightarrow> lease" where
  "child_lease env gate_key parent parent_lease_id target child_scope child_ttl_seconds
     created_at expires_at dns_pinned_ips =
     \<lparr>l_lease_id = lease_id_generate (env_id_random env),
      l_credential_ref = l_credential_ref parent,
      l_policy_name = ''delegated'', l_approval_method = ''delegation'',
      l_agent_fingerprint_hash = ai_fingerprint_hash target,
      l_agent_binary_path = ai_binary_path target,
      l_agent_uid = ai_uid target, l_agent_pid = ai_pid target,
      l_granted_scope = child_scope,
      l_lease_token =
        generate_lease_token (env_hmac env) gate_key (lease_id_generate (env_id_random env))
          (ai_fingerprint_hash target) (env_nonce env),
      l_channel_binding_nonce = env_nonce env, l_dns_pinned_ips = dns_pinned_ips,
      l_status = Active, l_created_at = created_at, l_expires_at = expires_at,
      l_ttl_seconds = child_ttl_seconds, l_cumulative_ttl_seconds = child_ttl_seconds,
      l_max_requests = None, l_requests_used = 0, l_renewals_used = 0,
      l_max_renewals = l_max_renewals parent,
      l_max_cumulative_ttl_seconds = l_max_cumulative_ttl_seconds parent,
      l_renewable = True, l_parent_lease_id = Some parent_lease_id, l_child_lease_ids = [],
      l_delegation_depth = l_delegation_depth parent + 1,
      l_delegation_allowed = l_delegation_allowed parent,
      l_delegation_max_depth = l_delegation_max_depth parent,
      l_follow_redirects = l_follow_redirects parent\<rparr>"

definition link_child :: "string \<Rightarrow> string \<Rightarrow> lease_manager \<Rightarrow> lease_manager" where
  "link_child parent_lease_id child_id self =
     (case lm_leases self parent_lease_id of
        None \<Rightarrow> self
      | Some p \<Rightarrow>
          insert_lease parent_lease_id
            (p\<lparr>l_child_lease_ids := l_child_lease_ids p @ [child_id]\<rparr>) self)"

definition delegate_commit ::
  "lease_env \<Rightarrow> int \<Rightarrow> int \<Rightarrow> int \<Rightarrow> int \<Rightarrow> (string \<rightharpoonup> ip_addr list) \<Rightarrow> lease_manager \<Rightarrow> string
   \<Rightarrow> agent_info \<Rightarrow> scope \<Rightarrow> u64 \<Rightarrow> lease_manager \<times> (lease_error + lease)" where
  "delegate_commit env created_at expires_at now now' dns_pinned_ips self parent_lease_id target
     child_scope child_ttl_seconds =
     (case lm_leases self parent_lease_id of
        None \<Rightarrow> (self, Inl (NotFound parent_lease_id))
      | Some parent \<Rightarrow>
          if l_status parent \<noteq> Active then (self, Inl NotActive)
          else if is_expired now parent then (self, Inl (LeaseError_Expired parent_lease_id))
          else if \<not> l_delegation_allowed parent then (self, Inl DelegationNotAllowed)
          else (let max_depth = unwrap_or (l_delegation_max_depth parent) 3;
                    child_depth = l_delegation_depth parent + 1 in
                if max_depth < child_depth then (self, Inl (DelegationDepthExceeded max_depth))
                else if \<not> is_scope_subset child_scope (l_granted_scope parent)
                  then (self, Inl ScopeNotSubset)
                else (let remaining = remaining_ttl_seconds (env_chrono env) now' parent in
                      if remaining < 0 \<or> word_of_int remaining < child_ttl_seconds
                        then (self, Inl TtlExceedsParent)
                      else (let c = child_lease env (lm_gate_key self) parent parent_lease_id target
                                      child_scope child_ttl_seconds created_at expires_at dns_pinned_ips;
                                self = link_child parent_lease_id (l_lease_id c) self;
                                self = insert_lease (l_lease_id c) c self;
                                self = emit_audit LeaseDelegated
                                  (audit_fields_default
                                     \<lparr>af_lease_id := Some (l_lease_id c),
                                      af_agent_fingerprint :=
                                        Some (hex_encode (l_agent_fingerprint_hash parent)),
                                      af_credential_ref := Some (l_credential_ref parent),
                                      af_detail := Some (''delegated from '' @ parent_lease_id
                                        @ '' to agent pid='' @ show_nat (unat (ai_pid target)))\<rparr>)
                                  self in
                            (self, Inr c)))))"

definition delegate ::
  "lease_env \<Rightarrow> int \<Rightarrow> int \<Rightarrow> int \<Rightarrow> lease_manager \<Rightarrow> string \<Rightarrow> agent_info \<Rightarrow> scope \<Rightarrow> u64 \<Rightarrow> bool
   \<Rightarrow> (lease_manager \<times> (lease_error + lease)) outcome" where
  "delegate env created_at now now' self parent_lease_id target child_scope child_ttl_seconds
     target_alive =
     (if \<not> target_alive then Ret (self, Inl TargetAgentNotAlive)
      else (case delegate_precheck self parent_lease_id child_scope of
              Inl e \<Rightarrow> Ret (self, Inl e)
            | Inr _ \<Rightarrow>
                (case pin_dns (env_lookup_host env) (scope_hosts child_scope) of
                   Inl e \<Rightarrow> Ret (self, Inl e)
                 | Inr dns_pinned_ips \<Rightarrow>
                     (case ch_add_seconds (env_chrono env) created_at (sint child_ttl_seconds) of
                        Panic \<Rightarrow> Panic
                      | Ret expires_at \<Rightarrow>
                          (case delegate_commit env created_at expires_at now now' dns_pinned_ips
                                  self parent_lease_id target child_scope child_ttl_seconds of
                             (self, Inl e) \<Rightarrow> Ret (self, Inl e)
                           | (self, Inr c) \<Rightarrow>
                               Ret (index_lease (ai_fingerprint_hash target) (l_lease_id c) self,
                                    Inr c))))))"

section \<open>What the operations do to the lease map\<close>

lemma emit_audit_leases [simp]:
  "lm_leases (emit_audit ev f self) = lm_leases self"
  "lm_agent_leases (emit_audit ev f self) = lm_agent_leases self"
  "lm_gate_key (emit_audit ev f self) = lm_gate_key self"
  by (simp_all add: emit_audit_def split: option.splits)

lemma insert_lease_leases [simp]:
  "lm_leases (insert_lease i l self) = (lm_leases self)(i \<mapsto> l)"
  "lm_agent_leases (insert_lease i l self) = lm_agent_leases self"
  "lm_gate_key (insert_lease i l self) = lm_gate_key self"
  by (simp_all add: insert_lease_def)

lemma index_lease_leases [simp]:
  "lm_leases (index_lease fp i self) = lm_leases self"
  "lm_gate_key (index_lease fp i self) = lm_gate_key self"
  by (simp_all add: index_lease_def)

definition with_status :: "lease_status \<Rightarrow> lease option \<Rightarrow> lease option" where
  "with_status st = map_option (\<lambda>l. l\<lparr>l_status := st\<rparr>)"

lemma with_status_None [simp]: "with_status st None = None"
  and with_status_Some [simp]: "with_status st (Some l) = Some (l\<lparr>l_status := st\<rparr>)"
  by (simp_all add: with_status_def)

lemma with_status_twice [simp]: "with_status st (with_status st' x) = with_status st x"
  by (cases x) simp_all

lemma revoke_one_leases [simp]:
  "lm_leases (revoke_one r d i self) = (lm_leases self)(i := with_status (Revoked r) (lm_leases self i))"
  by (auto simp: revoke_one_def set_status_def Let_def split: option.splits)

lemma expire_one_leases [simp]:
  "lm_leases (expire_one i self) = (lm_leases self)(i := with_status Expired (lm_leases self i))"
  by (auto simp: expire_one_def set_status_def Let_def split: option.splits)

lemma fold_with_status:
  assumes "\<And>i s. lm_leases (f i s) = (lm_leases s)(i := with_status st (lm_leases s i))"
  shows "lm_leases (fold f ids self) j =
    (if j \<in> set ids then with_status st (lm_leases self j) else lm_leases self j)"
  by (induction ids arbitrary: self) (auto simp: assms)

lemmas fold_revoke_leases = fold_with_status [of "revoke_one r d" "Revoked r" for r d,
    OF revoke_one_leases]

lemmas fold_expire_leases = fold_with_status [of expire_one Expired, OF expire_one_leases]

lemma sweep_leases:
  assumes "set order = dom (lm_leases self)"
  shows "lm_leases (sweep_expired order now self) j =
    (case lm_leases self j of
       None \<Rightarrow> None
     | Some l \<Rightarrow> if l_status l = Active \<and> l_expires_at l < now then Some (l\<lparr>l_status := Expired\<rparr>)
                 else Some l)"
  using assms
  by (auto simp: sweep_expired_def fold_expire_leases Let_def dom_def split: option.splits)

lemma use_lease_cases:
  obtains (refused) e where "use_lease now self i = (self, Inl e)"
  | (used) l where "lm_leases self i = Some l" "l_status l = Active" "\<not> is_expired now l"
      "\<And>m. l_max_requests l = Some m \<Longrightarrow> l_requests_used l < m"
      "lm_leases (fst (use_lease now self i)) =
         (lm_leases self)(i \<mapsto> l\<lparr>l_requests_used := l_requests_used l + 1\<rparr>)"
      "snd (use_lease now self i) = Inr (l\<lparr>l_requests_used := l_requests_used l + 1\<rparr>)"
proof (cases "lm_leases self i")
  case None
  then show ?thesis by (intro refused) (simp add: use_lease_def)
next
  case (Some l)
  let ?over = "case l_max_requests l of Some m \<Rightarrow> m \<le> l_requests_used l | None \<Rightarrow> False"
  show ?thesis
  proof (cases "l_status l = Active \<and> \<not> is_expired now l \<and> \<not> ?over")
    case True
    with Some show ?thesis
      by (intro used [of l]) (auto simp: use_lease_def Let_def not_le split: option.splits)
  next
    case False
    then have "\<exists>e. use_lease now self i = (self, Inl e)"
      using Some by (cases "l_status l = Active"; cases "is_expired now l"; cases ?over)
        (simp_all add: use_lease_def)
    then show ?thesis using refused by blast
  qed
qed

lemma renew_lease_cases:
  assumes "renew_lease ch now self i ext = Ret (self', r)"
  obtains (refused) e where "self' = self" "r = Inl e"
  | (renewed) l t where "lm_leases self i = Some l" "l_status l = Active" "\<not> is_expired now l"
      "l_renewable l" "l_renewals_used l < l_max_renewals l"
      "l_cumulative_ttl_seconds l + ext \<le> l_max_cumulative_ttl_seconds l"
      "ch_add_seconds ch (l_expires_at l) (sint ext) = Ret t" "r = Inr ()"
      "lm_leases self' = (lm_leases self)(i \<mapsto> l\<lparr>l_expires_at := t,
         l_cumulative_ttl_seconds := l_cumulative_ttl_seconds l + ext,
         l_renewals_used := l_renewals_used l + 1\<rparr>)"
      "lm_gate_key self' = lm_gate_key self"
  using assms
  by (auto simp: renew_lease_def Let_def not_less not_le
      split: option.splits if_splits outcome.splits)

lemma delegate_commit_cases:
  assumes "delegate_commit env t x now now' dns self pid target sc ttl = (self', r)"
  obtains (refused) e where "self' = self" "r = Inl e"
  | (granted) p c where "lm_leases self pid = Some p" "l_status p = Active" "\<not> is_expired now p"
      "l_delegation_allowed p"
      "l_delegation_depth p + 1 \<le> unwrap_or (l_delegation_max_depth p) 3"
      "is_scope_subset sc (l_granted_scope p)"
      "0 \<le> remaining_ttl_seconds (env_chrono env) now' p"
      "ttl \<le> word_of_int (remaining_ttl_seconds (env_chrono env) now' p)"
      "c = child_lease env (lm_gate_key self) p pid target sc ttl t x dns" "r = Inr c"
      "lm_leases self' = (lm_leases self)
         (pid \<mapsto> p\<lparr>l_child_lease_ids := l_child_lease_ids p @ [l_lease_id c]\<rparr>, l_lease_id c \<mapsto> c)"
      "lm_gate_key self' = lm_gate_key self"
proof (cases "lm_leases self pid")
  case None
  with assms show ?thesis by (intro refused) (auto simp: delegate_commit_def)
next
  case (Some p)
  let ?ok = "l_status p = Active \<and> \<not> is_expired now p \<and> l_delegation_allowed p \<and>
    l_delegation_depth p + 1 \<le> unwrap_or (l_delegation_max_depth p) 3 \<and>
    is_scope_subset sc (l_granted_scope p) \<and> 0 \<le> remaining_ttl_seconds (env_chrono env) now' p \<and>
    ttl \<le> word_of_int (remaining_ttl_seconds (env_chrono env) now' p)"
  let ?c = "child_lease env (lm_gate_key self) p pid target sc ttl t x dns"
  show ?thesis
  proof (cases ?ok)
    case True
    then have "\<not> unwrap_or (l_delegation_max_depth p) 3 < l_delegation_depth p + 1"
      "\<not> remaining_ttl_seconds (env_chrono env) now' p < 0"
      "\<not> word_of_int (remaining_ttl_seconds (env_chrono env) now' p) < ttl"
      by (simp_all add: not_less)
    with True Some assms have "r = Inr ?c"
      "lm_leases self' = (lm_leases self)
         (pid \<mapsto> p\<lparr>l_child_lease_ids := l_child_lease_ids p @ [l_lease_id ?c]\<rparr>, l_lease_id ?c \<mapsto> ?c)"
      "lm_gate_key self' = lm_gate_key self"
      by (auto simp: delegate_commit_def link_child_def Let_def)
    with True Some show ?thesis by (intro granted [of p ?c]) simp_all
  next
    case False
    with Some assms have "\<exists>e. self' = self \<and> r = Inl e"
      unfolding delegate_commit_def Let_def by (simp add: not_less split: if_splits) auto
    then show ?thesis using refused by blast
  qed
qed

lemma revoke_lease_gate_key [simp]:
  "lm_gate_key (revoke_one r d i self) = lm_gate_key self"
  "lm_gate_key (expire_one i self) = lm_gate_key self"
  by (simp_all add: revoke_one_def expire_one_def set_status_def Let_def split: option.splits)

lemma fold_gate_key:
  "(\<And>i s. lm_gate_key (f i s) = lm_gate_key s) \<Longrightarrow> lm_gate_key (fold f ids self) = lm_gate_key self"
  by (induction ids arbitrary: self) auto

end
