(* ===== verification/Cdp_Lease_Steps.thy ===== *)
theory Cdp_Lease_Steps
  imports Cdp_Lease_Delegation
begin

text \<open>
  The lease manager as a transition system. The locks of the source are released between the
  insertion of a lease and the update of the index, and between the parts of delegation and of
  the revocation of an agent, so a step is one locked section: \<open>lstep\<close>. The invariants of the
  reachable states are proved by rule induction: the leases form a finite forest, revocation is
  closed downwards, and every lease respects its limits. On a forest the loop that collects
  descendants ends.
\<close>

section \<open>The forest of leases\<close>

definition child_rel :: "(string \<rightharpoonup> lease) \<Rightarrow> (string \<times> string) set" where
  "child_rel m = {(p, c). c \<in> set (children_of m p)}"

definition lease_tree :: "(string \<rightharpoonup> lease) \<Rightarrow> bool" where
  "lease_tree m \<longleftrightarrow>
     finite (dom m) \<and> acyclic (child_rel m) \<and>
     (\<forall>i l. m i = Some l \<longrightarrow> l_lease_id l = i) \<and>
     (\<forall>p c. (p, c) \<in> child_rel m \<longleftrightarrow> (\<exists>lc. m c = Some lc \<and> l_parent_lease_id lc = Some p))"

lemma child_rel_Some: "(p, c) \<in> child_rel m \<Longrightarrow> \<exists>l. m p = Some l \<and> c \<in> set (l_child_lease_ids l)"
  by (cases "m p") (auto simp: child_rel_def children_of_def)

lemma lease_tree_dom: "lease_tree m \<Longrightarrow> child_rel m \<subseteq> dom m \<times> dom m"
  by (auto simp: lease_tree_def dest: child_rel_Some)

lemma lease_tree_wf: "lease_tree m \<Longrightarrow> wf ((child_rel m)\<inverse>)"
proof -
  assume tree: "lease_tree m"
  then have "finite (dom m \<times> dom m)" by (simp add: lease_tree_def)
  with lease_tree_dom [OF tree] have "finite (child_rel m)" by (rule finite_subset)
  with tree show ?thesis by (simp add: lease_tree_def finite_acyclic_wf_converse)
qed

text \<open>The parts of a lease that the forest depends on.\<close>

definition skeleton :: "(string \<rightharpoonup> lease) \<Rightarrow> string \<Rightarrow> (string \<times> string option \<times> string list) option" where
  "skeleton m i = map_option (\<lambda>l. (l_lease_id l, l_parent_lease_id l, l_child_lease_ids l)) (m i)"

lemma skeleton_Some:
  assumes "skeleton m = skeleton m'" "m i = Some l"
  obtains l' where "m' i = Some l'" "l_lease_id l' = l_lease_id l"
    "l_parent_lease_id l' = l_parent_lease_id l" "l_child_lease_ids l' = l_child_lease_ids l"
proof -
  from assms(1) have "skeleton m i = skeleton m' i" by simp
  with assms(2) show ?thesis by (cases "m' i") (auto simp: skeleton_def intro: that)
qed

lemma skeleton_child_rel: "skeleton m = skeleton m' \<Longrightarrow> child_rel m = child_rel m'"
proof -
  assume sk: "skeleton m = skeleton m'"
  have "children_of m p = children_of m' p" for p
  proof -
    from sk have "skeleton m p = skeleton m' p" by simp
    then show ?thesis by (cases "m p"; cases "m' p") (auto simp: skeleton_def children_of_def)
  qed
  then show ?thesis by (simp add: child_rel_def)
qed

lemma skeleton_tree:
  assumes "skeleton m = skeleton m'" "lease_tree m"
  shows "lease_tree m'"
proof -
  have "dom m = dom m'"
    using assms(1) by (auto simp: dom_def elim: skeleton_Some elim: skeleton_Some [OF sym])
  moreover have "(\<exists>lc. m c = Some lc \<and> l_parent_lease_id lc = Some p) \<longleftrightarrow>
      (\<exists>lc. m' c = Some lc \<and> l_parent_lease_id lc = Some p)" for p c
    by (metis assms(1) skeleton_Some)
  moreover have "l_lease_id l = i" if "m' i = Some l" for i l
    using that assms by (metis lease_tree_def skeleton_Some)
  ultimately show ?thesis
    using assms(2) skeleton_child_rel [OF assms(1)] by (simp add: lease_tree_def)
qed

lemma skeleton_upd:
  "m i = Some l \<Longrightarrow> l_lease_id l' = l_lease_id l \<Longrightarrow> l_parent_lease_id l' = l_parent_lease_id l \<Longrightarrow>
   l_child_lease_ids l' = l_child_lease_ids l \<Longrightarrow> skeleton (m(i \<mapsto> l')) = skeleton m"
  by (auto simp: skeleton_def)

lemma skeleton_status:
  "(\<And>j. m' j = (if j \<in> S then with_status st (m j) else m j)) \<Longrightarrow> skeleton m' = skeleton m"
  by (auto simp: skeleton_def with_status_def option.map_comp o_def)

section \<open>Collecting descendants\<close>

lemma collect_loop_Nil [simp]: "collect_loop m [] res = Some res"
  by (simp add: collect_loop.simps)

lemma collect_loop_Cons:
  "collect_loop m (i # rest) res = collect_loop m (children_of m i @ rest) (res @ [i])"
  by (simp add: collect_loop.simps [of m "i # rest"])

lemma collect_loop_list:
  assumes "\<And>x. x \<in> set xs \<Longrightarrow> \<exists>r. set r = D x \<and>
    (\<forall>rest res. collect_loop m (x # rest) res = collect_loop m rest (res @ r))"
  shows "\<exists>r. set r = (\<Union>x \<in> set xs. D x) \<and>
    (\<forall>rest res. collect_loop m (xs @ rest) res = collect_loop m rest (res @ r))"
  using assms
proof (induction xs)
  case (Cons x xs)
  obtain r where r: "set r = D x"
    "\<And>rest res. collect_loop m (x # rest) res = collect_loop m rest (res @ r)"
    using Cons.prems [of x] by auto
  obtain rs where rs: "set rs = (\<Union>x \<in> set xs. D x)"
    "\<And>rest res. collect_loop m (xs @ rest) res = collect_loop m rest (res @ rs)"
    using Cons.IH Cons.prems by auto
  show ?case using r rs by (intro exI [of _ "r @ rs"]) simp
qed simp

lemma collect_loop_node:
  assumes "wf ((child_rel m)\<inverse>)"
  shows "\<exists>r. set r = (child_rel m)\<^sup>* `` {i} \<and>
    (\<forall>rest res. collect_loop m (i # rest) res = collect_loop m rest (res @ r))"
  using assms
proof (induction i rule: wf_induct_rule)
  case (less i)
  obtain r where r: "set r = (\<Union>c \<in> set (children_of m i). (child_rel m)\<^sup>* `` {c})"
    "\<And>rest res. collect_loop m (children_of m i @ rest) res = collect_loop m rest (res @ r)"
    using collect_loop_list [of "children_of m i" "\<lambda>c. (child_rel m)\<^sup>* `` {c}" m] less
    by (auto simp: child_rel_def)
  have "set (i # r) = (child_rel m)\<^sup>* `` {i}"
    by (auto simp: r(1) child_rel_def elim: converse_rtranclE intro: converse_rtrancl_into_rtrancl)
  then show ?case
    using r(2) by (intro exI [of _ "i # r"]) (simp add: collect_loop_Cons)
qed

lemma collect_descendants_tree:
  assumes "lease_tree m"
  obtains ds where "collect_descendants m i = Some ds" "set ds = (child_rel m)\<^sup>+ `` {i}"
proof -
  obtain r where r: "set r = (\<Union>c \<in> set (rev (children_of m i)). (child_rel m)\<^sup>* `` {c})"
    "\<And>rest res. collect_loop m (rev (children_of m i) @ rest) res = collect_loop m rest (res @ r)"
    using collect_loop_list [of "rev (children_of m i)" "\<lambda>c. (child_rel m)\<^sup>* `` {c}" m]
      collect_loop_node [OF lease_tree_wf [OF assms]] by blast
  have "(i, j) \<in> (child_rel m)\<^sup>+ \<longleftrightarrow>
      (\<exists>c \<in> set (children_of m i). (c, j) \<in> (child_rel m)\<^sup>*)" for j
    by (metis (no_types) case_prodI child_rel_def mem_Collect_eq case_prodD rtrancl_into_trancl2 tranclD)
  then have "set r = (child_rel m)\<^sup>+ `` {i}" by (auto simp: r(1))
  moreover have "collect_descendants m i = Some r"
    using r(2) [of "[]" "[]"] by (simp add: collect_descendants_def)
  ultimately show ?thesis by (rule that [rotated])
qed

lemma revoke_lease_tree:
  assumes "lease_tree (lm_leases self)" "lm_leases self i \<noteq> None"
  obtains self' where "revoke_lease self i reason = Some (self', Inr ())"
    and "\<And>j. lm_leases self' j =
      (if (i, j) \<in> (child_rel (lm_leases self))\<^sup>* then with_status (Revoked reason) (lm_leases self j)
       else lm_leases self j)"
    and "lm_gate_key self' = lm_gate_key self"
proof -
  let ?R = "child_rel (lm_leases self)"
  obtain ds where ds: "collect_descendants (lm_leases self) i = Some ds" "set ds = ?R\<^sup>+ `` {i}"
    by (rule collect_descendants_tree [OF assms(1)])
  let ?mid = "fold (revoke_one reason (''cascading revocation: '' @ reason)) ds self"
  let ?self' = "revoke_one reason reason i ?mid"
  have "revoke_lease self i reason = Some (?self', Inr ())"
    using ds(1) assms(2) by (simp add: revoke_lease_def)
  moreover have "lm_leases ?self' j =
      (if (i, j) \<in> ?R\<^sup>* then with_status (Revoked reason) (lm_leases self j) else lm_leases self j)" for j
  proof (cases "j = i")
    case True
    then show ?thesis by (simp add: fold_revoke_leases)
  next
    case False
    then have "(i, j) \<in> ?R\<^sup>* \<longleftrightarrow> j \<in> set ds" by (simp add: ds(2) rtrancl_eq_or_trancl)
    with False show ?thesis by (simp add: fold_revoke_leases)
  qed
  moreover have "lm_gate_key ?self' = lm_gate_key self" by (simp add: fold_gate_key)
  ultimately show ?thesis by (rule that)
qed

section \<open>Locked sections as steps\<close>

text \<open>
  A world is the manager, the index updates that creation and delegation still owe (with the
  audit record creation sends last), and the clock. The limits that reach creation are those of
  a validated policy: \<open>constraints_valid\<close>. A new identifier is fresh, which is what 32 random
  bytes are relied on for.
\<close>

record world =
  w_mgr :: lease_manager
  w_pending :: "(bytes \<times> string \<times> audit_fields option) list"
  w_now :: int

definition constraints_valid :: "policy_constraints \<Rightarrow> bool" where
  "constraints_valid pcons \<longleftrightarrow>
     \<not> exceeds (pc_max_renewals pcons) 3 \<and> \<not> exceeds (pc_max_cumulative_ttl_seconds pcons) 14400"

definition finish_index :: "bytes \<times> string \<times> audit_fields option \<Rightarrow> lease_manager \<Rightarrow> lease_manager" where
  "finish_index p self =
     (case p of
        (fp, i, None) \<Rightarrow> index_lease fp i self
      | (fp, i, Some f) \<Rightarrow> emit_audit LeaseGranted f (index_lease fp i self))"

inductive lstep :: "hmac_fun \<Rightarrow> chrono \<Rightarrow> world \<Rightarrow> world \<Rightarrow> bool" for hmac ch where
  tick: "w_now w \<le> t \<Longrightarrow> lstep hmac ch w (w\<lparr>w_now := t\<rparr>)"
| create: "new_root_lease env t (lm_gate_key (w_mgr w)) agent cred granted pcons pname am = Ret (Inr l) \<Longrightarrow>
    env_hmac env = hmac \<Longrightarrow> env_chrono env = ch \<Longrightarrow> t \<le> w_now w \<Longrightarrow> constraints_valid pcons \<Longrightarrow>
    lm_leases (w_mgr w) (l_lease_id l) = None \<Longrightarrow>
    lstep hmac ch w (w\<lparr>w_mgr := insert_lease (l_lease_id l) l (w_mgr w),
      w_pending := (ai_fingerprint_hash agent, l_lease_id l, Some (granted_fields l)) # w_pending w\<rparr>)"
| delegate: "delegate_commit env t x now now' dns (w_mgr w) pid target sc ttl = (mgr', Inr c) \<Longrightarrow>
    pin_dns (env_lookup_host env) (scope_hosts sc) = Inr dns \<Longrightarrow>
    ch_add_seconds ch t (sint ttl) = Ret x \<Longrightarrow>
    env_hmac env = hmac \<Longrightarrow> env_chrono env = ch \<Longrightarrow> t \<le> now \<Longrightarrow> now \<le> now' \<Longrightarrow> now' \<le> w_now w \<Longrightarrow>
    lm_leases (w_mgr w) (l_lease_id c) = None \<Longrightarrow>
    lstep hmac ch w (w\<lparr>w_mgr := mgr',
      w_pending := (ai_fingerprint_hash target, l_lease_id c, None) # w_pending w\<rparr>)"
| index: "p \<in> set (w_pending w) \<Longrightarrow>
    lstep hmac ch w (w\<lparr>w_mgr := finish_index p (w_mgr w), w_pending := remove1 p (w_pending w)\<rparr>)"
| renew: "renew_lease ch (w_now w) (w_mgr w) i ext = Ret (mgr', r) \<Longrightarrow>
    lstep hmac ch w (w\<lparr>w_mgr := mgr'\<rparr>)"
| use: "lstep hmac ch w (w\<lparr>w_mgr := fst (use_lease (w_now w) (w_mgr w) i)\<rparr>)"
| revoke: "revoke_lease (w_mgr w) i reason = Some (mgr', r) \<Longrightarrow> lstep hmac ch w (w\<lparr>w_mgr := mgr'\<rparr>)"
| forget: "lstep hmac ch w (w\<lparr>w_mgr := (w_mgr w)\<lparr>lm_agent_leases :=
    (lm_agent_leases (w_mgr w))(fp := None)\<rparr>\<rparr>)"
| sweep: "set order = dom (lm_leases (w_mgr w)) \<Longrightarrow>
    lstep hmac ch w (w\<lparr>w_mgr := sweep_expired order (w_now w) (w_mgr w)\<rparr>)"

abbreviation leases_of :: "world \<Rightarrow> (string \<rightharpoonup> lease)" where
  "leases_of w \<equiv> lm_leases (w_mgr w)"

definition initial :: "world \<Rightarrow> bool" where
  "initial w \<longleftrightarrow> (\<exists>key tx. w_mgr w = manager_new key tx) \<and> w_pending w = []"

definition reachable :: "hmac_fun \<Rightarrow> chrono \<Rightarrow> world \<Rightarrow> bool" where
  "reachable hmac ch w \<longleftrightarrow> (\<exists>w0. initial w0 \<and> (lstep hmac ch)\<^sup>*\<^sup>* w0 w)"

lemma reachable_step: "reachable hmac ch w \<Longrightarrow> lstep hmac ch w w' \<Longrightarrow> reachable hmac ch w'"
  unfolding reachable_def by (meson rtranclp.rtrancl_into_rtrancl)

lemma reachable_induct [consumes 1, case_names init step]:
  assumes "reachable hmac ch w" "\<And>w. initial w \<Longrightarrow> P w"
    and "\<And>w w'. reachable hmac ch w \<Longrightarrow> P w \<Longrightarrow> lstep hmac ch w w' \<Longrightarrow> P w'"
  shows "P w"
proof -
  from assms(1) obtain w0 where w0: "initial w0" "(lstep hmac ch)\<^sup>*\<^sup>* w0 w"
    by (auto simp: reachable_def)
  from w0(2) have "reachable hmac ch w \<and> P w"
  proof (induction rule: rtranclp_induct)
    case base
    then show ?case using w0(1) assms(2) by (auto simp: reachable_def)
  qed (use assms(3) reachable_step in blast)
  then show ?thesis by simp
qed

section \<open>What a step does to the lease map\<close>

lemma finish_index_leases [simp]:
  "lm_leases (finish_index p self) = lm_leases self"
  "lm_gate_key (finish_index p self) = lm_gate_key self"
  by (auto simp: finish_index_def split: prod.splits option.splits)

lemma revoke_lease_NotFound:
  "lm_leases self i = None \<Longrightarrow> revoke_lease self i reason = Some (self, Inl (NotFound i))"
  by (simp add: revoke_lease_def)

lemma sweep_gate_key [simp]: "lm_gate_key (sweep_expired order now self) = lm_gate_key self"
  by (simp add: sweep_expired_def Let_def fold_gate_key)

lemma use_gate_key [simp]: "lm_gate_key (fst (use_lease now self i)) = lm_gate_key self"
  by (auto simp: use_lease_def Let_def split: option.splits)

lemma lstep_effect:
  assumes "lstep hmac ch w w'" "lease_tree (leases_of w)"
  obtains (same) "leases_of w' = leases_of w"
  | (created) env t agent cred granted pcons pname am l where
      "new_root_lease env t (lm_gate_key (w_mgr w)) agent cred granted pcons pname am = Ret (Inr l)"
      "env_hmac env = hmac" "env_chrono env = ch" "t \<le> w_now w" "constraints_valid pcons"
      "leases_of w (l_lease_id l) = None" "leases_of w' = (leases_of w)(l_lease_id l \<mapsto> l)"
  | (delegated) env t x now now' dns pid p target sc ttl c where
      "leases_of w pid = Some p" "l_status p = Active" "\<not> is_expired now p"
      "l_delegation_allowed p" "l_delegation_depth p + 1 \<le> unwrap_or (l_delegation_max_depth p) 3"
      "is_scope_subset sc (l_granted_scope p)" "0 \<le> remaining_ttl_seconds ch now' p"
      "ttl \<le> word_of_int (remaining_ttl_seconds ch now' p)"
      "c = child_lease env (lm_gate_key (w_mgr w)) p pid target sc ttl t x dns"
      "pin_dns (env_lookup_host env) (scope_hosts sc) = Inr dns"
      "ch_add_seconds ch t (sint ttl) = Ret x" "env_hmac env = hmac"
      "t \<le> now" "now \<le> now'" "now' \<le> w_now w" "leases_of w (l_lease_id c) = None"
      "leases_of w' = (leases_of w)
         (pid \<mapsto> p\<lparr>l_child_lease_ids := l_child_lease_ids p @ [l_lease_id c]\<rparr>, l_lease_id c \<mapsto> c)"
  | (renewed) i l ext t where "leases_of w i = Some l" "l_status l = Active"
      "\<not> is_expired (w_now w) l" "l_renewable l" "l_renewals_used l < l_max_renewals l"
      "l_cumulative_ttl_seconds l + ext \<le> l_max_cumulative_ttl_seconds l"
      "ch_add_seconds ch (l_expires_at l) (sint ext) = Ret t"
      "leases_of w' = (leases_of w)(i \<mapsto> l\<lparr>l_expires_at := t,
         l_cumulative_ttl_seconds := l_cumulative_ttl_seconds l + ext,
         l_renewals_used := l_renewals_used l + 1\<rparr>)"
  | (used) i l where "leases_of w i = Some l" "l_status l = Active" "\<not> is_expired (w_now w) l"
      "\<And>m. l_max_requests l = Some m \<Longrightarrow> l_requests_used l < m"
      "leases_of w' = (leases_of w)(i \<mapsto> l\<lparr>l_requests_used := l_requests_used l + 1\<rparr>)"
  | (revoked) i reason where "\<And>j. leases_of w' j =
      (if (i, j) \<in> (child_rel (leases_of w))\<^sup>* then with_status (Revoked reason) (leases_of w j)
       else leases_of w j)"
  | (expired) S where "\<And>j. leases_of w' j =
      (if j \<in> S then with_status Expired (leases_of w j) else leases_of w j)"
      "\<And>j l. j \<in> S \<Longrightarrow> leases_of w j = Some l \<Longrightarrow> l_status l = Active \<and> l_expires_at l < w_now w"
  using assms(1)
proof cases
  case tick
  then show ?thesis by (intro same) simp
next
  case create
  then show ?thesis by (intro created) simp_all
next
  case (delegate env t x now now' dns pid target sc ttl mgr' c)
  from delegate(2) show ?thesis
  proof (cases rule: delegate_commit_cases)
    case (granted p c')
    with delegate show ?thesis
      by (intro delegated [of pid p now sc now' ttl c env target t x dns]) simp_all
  qed simp
next
  case index
  then show ?thesis by (intro same) simp
next
  case renew
  from renew(2) show ?thesis
  proof (cases rule: renew_lease_cases)
    case refused
    with renew show ?thesis by (intro same) simp
  next
    case (renewed l t)
    with renew show ?thesis by (intro that(4) [of _ l]) simp_all
  qed
next
  case (use i)
  show ?thesis
  proof (cases rule: use_lease_cases [of "w_now w" "w_mgr w" i])
    case refused
    with use show ?thesis by (intro same) simp
  next
    case (used l)
    with use show ?thesis by (intro that(5) [of i l]) simp_all
  qed
next
  case (revoke i reason)
  show ?thesis
  proof (cases "leases_of w i = None")
    case True
    with revoke show ?thesis by (intro same) (simp add: revoke_lease_NotFound)
  next
    case False
    obtain self' where "revoke_lease (w_mgr w) i reason = Some (self', Inr ())"
      "\<And>j. lm_leases self' j = (if (i, j) \<in> (child_rel (leases_of w))\<^sup>*
         then with_status (Revoked reason) (leases_of w j) else leases_of w j)"
      using revoke_lease_tree [OF assms(2) False, where reason = reason] by blast
    with revoke show ?thesis by (intro revoked [of i reason]) simp
  qed
next
  case forget
  then show ?thesis by (intro same) simp
next
  case sweep
  let ?S = "{j. \<exists>l. leases_of w j = Some l \<and> l_status l = Active \<and> l_expires_at l < w_now w}"
  from sweep show ?thesis
    by (intro expired [of ?S]) (auto simp: sweep_leases split: option.splits)
qed

lemma lstep_gate_key: "lstep hmac ch w w' \<Longrightarrow> lm_gate_key (w_mgr w') = lm_gate_key (w_mgr w)"
proof (induction rule: lstep.induct)
  case delegate
  then show ?case by (auto elim: delegate_commit_cases)
next
  case renew
  then show ?case by (auto elim: renew_lease_cases)
next
  case revoke
  then show ?case
    by (auto simp: revoke_lease_def Let_def fold_gate_key split: if_splits option.splits)
qed simp_all

section \<open>Invariants\<close>

lemma insert_leaf_acyclic:
  assumes "acyclic R" "\<And>x. (x, c) \<notin> R" "\<And>x. (c, x) \<notin> R" "p \<noteq> c"
  shows "acyclic (insert (p, c) R)"
proof -
  have "(c, p) \<notin> R\<^sup>*" using assms(3,4) by (metis converse_rtranclE)
  with assms(1) show ?thesis by (simp add: acyclic_insert)
qed

lemma root_tree:
  assumes "lease_tree m" "m i = None" "l_lease_id l = i" "l_parent_lease_id l = None"
    "l_child_lease_ids l = []"
  shows "lease_tree (m(i \<mapsto> l))"
proof -
  have "children_of (m(i \<mapsto> l)) p = children_of m p" for p
    using assms(2,5) by (auto simp: children_of_def)
  then have "child_rel (m(i \<mapsto> l)) = child_rel m" by (simp add: child_rel_def)
  with assms show ?thesis by (auto simp: lease_tree_def)
qed

lemma child_tree:
  assumes tree: "lease_tree m" and p: "m pid = Some p" and new: "m i = None"
    and c: "l_lease_id c = i" "l_parent_lease_id c = Some pid" "l_child_lease_ids c = []"
  shows "lease_tree (m(pid \<mapsto> p\<lparr>l_child_lease_ids := l_child_lease_ids p @ [i]\<rparr>, i \<mapsto> c))"
    (is "lease_tree ?m")
proof -
  have ne: "pid \<noteq> i" using p new by auto
  have "children_of ?m q = (if q = pid then children_of m q @ [i] else children_of m q)" for q
    using ne p new c(3) by (auto simp: children_of_def)
  then have rel: "child_rel ?m = insert (pid, i) (child_rel m)"
    by (auto simp: child_rel_def split: if_splits)
  have "(x, i) \<notin> child_rel m" "(i, x) \<notin> child_rel m" for x
    using new lease_tree_dom [OF tree] by auto
  then have "acyclic (child_rel ?m)"
    unfolding rel using tree ne by (intro insert_leaf_acyclic) (auto simp: lease_tree_def)
  moreover have "(q, j) \<in> child_rel ?m \<longleftrightarrow>
      (\<exists>l. ?m j = Some l \<and> l_parent_lease_id l = Some q)" for q j
  proof -
    have old: "(q, j) \<in> child_rel m \<longleftrightarrow> (\<exists>l. m j = Some l \<and> l_parent_lease_id l = Some q)"
      using tree by (simp add: lease_tree_def)
    show ?thesis unfolding rel insert_iff old using ne p new c by auto
  qed
  ultimately show ?thesis using tree p c(1) by (auto simp: lease_tree_def)
qed

lemma new_root_lease_fields:
  assumes "new_root_lease env t key agent cred granted pcons pname am = Ret (Inr l)"
  shows "l_lease_id l = lease_id_generate (env_id_random env)" "l_parent_lease_id l = None"
    "l_child_lease_ids l = []" "l_status l = Active" "l_delegation_depth l = 0"
    "l_renewals_used l = 0" "l_requests_used l = 0" "l_cumulative_ttl_seconds l = l_ttl_seconds l"
    "l_created_at l = t" "ch_add_seconds (env_chrono env) t (sint (l_ttl_seconds l)) = Ret (l_expires_at l)"
    "l_max_renewals l = unwrap_or (pc_max_renewals pcons) 3"
    "l_max_cumulative_ttl_seconds l = unwrap_or (pc_max_cumulative_ttl_seconds pcons) 14400"
    "l_granted_scope l = granted"
    "pin_dns (env_lookup_host env) (scope_hosts granted) = Inr (l_dns_pinned_ips l)"
    "l_lease_token l = generate_lease_token (env_hmac env) key (l_lease_id l)
       (l_agent_fingerprint_hash l) (l_channel_binding_nonce l)"
    "l_agent_fingerprint_hash l = ai_fingerprint_hash agent"
  using assms by (auto simp: new_root_lease_def Let_def split: sum.splits outcome.splits)

lemma lstep_tree:
  assumes "lstep hmac ch w w'" "lease_tree (leases_of w)"
  shows "lease_tree (leases_of w')"
  using assms
proof (cases rule: lstep_effect)
  case created
  with assms(2) new_root_lease_fields [OF created(1)] show ?thesis by (simp add: root_tree)
next
  case delegated
  then show ?thesis using child_tree [OF assms(2) delegated(1,16)] by (simp add: child_lease_def)
next
  case renewed
  then show ?thesis by (intro skeleton_tree [OF _ assms(2)]) (simp add: skeleton_upd)
next
  case used
  then show ?thesis by (intro skeleton_tree [OF _ assms(2)]) (simp add: skeleton_upd)
next
  case (revoked i reason)
  then show ?thesis
    using skeleton_tree [OF skeleton_status [symmetric] assms(2),
        of "leases_of w'" "{j. (i, j) \<in> (child_rel (leases_of w))\<^sup>*}" "Revoked reason"] by simp
next
  case expired
  then show ?thesis using skeleton_tree [OF skeleton_status [symmetric] assms(2)] by metis
qed (use assms in simp)

lemma initial_leases: "initial w \<Longrightarrow> leases_of w = Map.empty"
  by (auto simp: initial_def manager_new_def)

lemma reachable_tree: "reachable hmac ch w \<Longrightarrow> lease_tree (leases_of w)"
proof (induction rule: reachable_induct)
  case (init w)
  then show ?case
    by (simp add: initial_leases lease_tree_def child_rel_def children_of_def acyclic_def)
qed (rule lstep_tree)

definition is_revoked :: "lease \<Rightarrow> bool" where
  "is_revoked l = (case l_status l of Revoked _ \<Rightarrow> True | _ \<Rightarrow> False)"

lemma is_revoked_simps [simp]:
  "is_revoked (l\<lparr>l_status := Revoked r\<rparr>)" "\<not> is_revoked (l\<lparr>l_status := Expired\<rparr>)"
  "l_status l = Active \<Longrightarrow> \<not> is_revoked l"
  by (simp_all add: is_revoked_def)

definition revoked_at :: "(string \<rightharpoonup> lease) \<Rightarrow> string \<Rightarrow> bool" where
  "revoked_at m i \<longleftrightarrow> (\<exists>l. m i = Some l \<and> is_revoked l)"

lemma lstep_revoked_at:
  assumes "lstep hmac ch w w'" "lease_tree (leases_of w)" "revoked_at (leases_of w) i"
  shows "revoked_at (leases_of w') i"
proof -
  from assms(3) obtain l where l: "leases_of w i = Some l" "is_revoked l"
    by (auto simp: revoked_at_def)
  from assms(1,2) show ?thesis
  proof (cases rule: lstep_effect)
    case (created env t agent cred granted pcons pname am new)
    with l have "l_lease_id new \<noteq> i" by auto
    with created l show ?thesis by (auto simp: revoked_at_def)
  next
    case (delegated env t x now now' dns pid p target sc ttl c)
    with l have "l_lease_id c \<noteq> i" by auto
    moreover from delegated l have "pid \<noteq> i" by auto
    ultimately show ?thesis using delegated(17) l by (auto simp: revoked_at_def)
  next
    case renewed
    with l show ?thesis by (auto simp: revoked_at_def)
  next
    case used
    with l show ?thesis by (auto simp: revoked_at_def)
  next
    case revoked
    with l show ?thesis by (simp add: revoked_at_def)
  next
    case (expired S)
    with l have "i \<notin> S" by fastforce
    with expired(1) l show ?thesis by (simp add: revoked_at_def)
  qed (use l in \<open>simp add: revoked_at_def\<close>)
qed

text \<open>Revocation is closed downwards.\<close>

definition cascade_closed :: "(string \<rightharpoonup> lease) \<Rightarrow> bool" where
  "cascade_closed m \<longleftrightarrow> (\<forall>p c. (p, c) \<in> child_rel m \<longrightarrow> revoked_at m p \<longrightarrow> revoked_at m c)"

lemma cascade_closed_desc:
  assumes "(p, c) \<in> (child_rel m)\<^sup>*" "cascade_closed m" "revoked_at m p"
  shows "revoked_at m c"
  using assms by (induction rule: rtrancl_induct) (auto simp: cascade_closed_def)

lemma lstep_cascade:
  assumes step: "lstep hmac ch w w'" and tree: "lease_tree (leases_of w)"
    and closed: "cascade_closed (leases_of w)"
  shows "cascade_closed (leases_of w')"
proof -
  let ?m = "leases_of w" and ?m' = "leases_of w'"
  have keep: "revoked_at ?m i \<Longrightarrow> revoked_at ?m' i" for i
    by (rule lstep_revoked_at [OF step tree])
  have same_rel: ?thesis
    if "child_rel ?m' = child_rel ?m" "\<And>i. revoked_at ?m' i \<Longrightarrow> revoked_at ?m i"
    using that closed keep by (auto simp: cascade_closed_def)
  from step tree show ?thesis
  proof (cases rule: lstep_effect)
    case same
    then show ?thesis using closed by simp
  next
    case (created env t agent cred granted pcons pname am l)
    note flds = new_root_lease_fields [OF created(1)]
    have "child_rel ?m' = child_rel ?m"
      using created(6,7) flds(3) by (auto simp: child_rel_def children_of_def split: if_splits)
    then show ?thesis
      using created(7) flds(4) by (intro same_rel) (auto simp: revoked_at_def split: if_splits)
  next
    case (delegated env t x now now' dns pid p target sc ttl c)
    have "\<not> revoked_at ?m' pid"
      using delegated by (auto simp: revoked_at_def child_lease_def is_revoked_def)
    moreover have "revoked_at ?m' i \<Longrightarrow> revoked_at ?m i" for i
      using delegated(1,2,9,16,17)
      by (auto simp: revoked_at_def child_lease_def is_revoked_def split: if_splits)
    moreover have "(q, j) \<in> child_rel ?m' \<Longrightarrow> q = pid \<or> (q, j) \<in> child_rel ?m" for q j
      using delegated(9,16,17)
      by (auto simp: child_rel_def children_of_def child_lease_def split: if_splits)
    ultimately show ?thesis using closed keep unfolding cascade_closed_def by metis
  next
    case (renewed i l ext t)
    then have "skeleton ?m' = skeleton ?m" by (simp add: skeleton_upd)
    with renewed show ?thesis
      by (intro same_rel skeleton_child_rel) (auto simp: revoked_at_def is_revoked_def split: if_splits)
  next
    case (used i l)
    then have "skeleton ?m' = skeleton ?m" by (simp add: skeleton_upd)
    with used show ?thesis
      by (intro same_rel skeleton_child_rel) (auto simp: revoked_at_def is_revoked_def split: if_splits)
  next
    case (revoked i reason)
    then have rel: "child_rel ?m' = child_rel ?m"
      using skeleton_child_rel [OF skeleton_status,
          of ?m' "{j. (i, j) \<in> (child_rel ?m)\<^sup>*}" "Revoked reason" ?m] by simp
    have "revoked_at ?m' c" if pc: "(p, c) \<in> child_rel ?m" "revoked_at ?m' p" for p c
    proof (cases "(i, p) \<in> (child_rel ?m)\<^sup>*")
      case True
      with pc(1) have "(i, c) \<in> (child_rel ?m)\<^sup>*" by (rule rtrancl_into_rtrancl [rotated])
      moreover from pc(1) tree obtain lc where "?m c = Some lc" by (auto simp: lease_tree_def)
      ultimately show ?thesis by (simp add: revoked_at_def revoked)
    next
      case False
      with pc(2) have "revoked_at ?m p" by (simp add: revoked_at_def revoked)
      with pc(1) closed keep show ?thesis by (auto simp: cascade_closed_def)
    qed
    then show ?thesis by (simp add: cascade_closed_def rel)
  next
    case (expired S)
    then have "child_rel ?m' = child_rel ?m" by (metis skeleton_child_rel skeleton_status)
    moreover have "revoked_at ?m' i \<Longrightarrow> revoked_at ?m i" for i
      by (cases "?m i") (auto simp: revoked_at_def expired(1) split: if_splits)
    ultimately show ?thesis by (rule same_rel)
  qed
qed

lemma reachable_cascade: "reachable hmac ch w \<Longrightarrow> cascade_closed (leases_of w)"
proof (induction rule: reachable_induct)
  case (init w)
  then show ?case by (simp add: initial_leases cascade_closed_def revoked_at_def)
qed (use lstep_cascade reachable_tree in blast)

lemma steps_revoked_at:
  assumes "(lstep hmac ch)\<^sup>*\<^sup>* w w'" "reachable hmac ch w" "revoked_at (leases_of w) i"
  shows "revoked_at (leases_of w') i \<and> reachable hmac ch w'"
  using assms
  by (induction rule: rtranclp_induct) (auto dest: reachable_step lstep_revoked_at reachable_tree)

section \<open>Limits of a lease\<close>

text \<open>
  The limits every reachable lease respects. Seconds enter the time arithmetic as signed
  numbers (\<open>as i64\<close>), so the lifetime is the signed value of the cumulative counter.
\<close>

definition lease_ok :: "hmac_fun \<Rightarrow> bytes \<Rightarrow> lease \<Rightarrow> bool" where
  "lease_ok hmac key l \<longleftrightarrow>
     l_renewals_used l \<le> l_max_renewals l \<and> l_max_renewals l \<le> 3 \<and>
     (\<forall>m. l_max_requests l = Some m \<longrightarrow> l_requests_used l \<le> m) \<and>
     l_expires_at l = l_created_at l + sint (l_cumulative_ttl_seconds l) * nanos \<and>
     \<bar>sint (l_cumulative_ttl_seconds l)\<bar> \<le> 2 ^ 63 div 1000 \<and>
     l_max_cumulative_ttl_seconds l \<le> 14400 \<and>
     (l_renewals_used l = 0 \<longrightarrow> l_cumulative_ttl_seconds l = l_ttl_seconds l) \<and>
     (l_renewals_used l \<noteq> 0 \<longrightarrow> l_cumulative_ttl_seconds l \<le> l_max_cumulative_ttl_seconds l) \<and>
     l_delegation_depth l \<le> unwrap_or (l_delegation_max_depth l) 3 \<and>
     dom (l_dns_pinned_ips l) = set (scope_hosts (l_granted_scope l)) \<and>
     verify_lease_token hmac key (l_lease_id l) (l_agent_fingerprint_hash l)
       (l_channel_binding_nonce l) (l_lease_token l) = Ret True"

lemma sint_add:
  fixes a b :: u64
  assumes "\<bar>sint a\<bar> \<le> 2 ^ 63 div 1000" "\<bar>sint b\<bar> \<le> 2 ^ 63 div 1000"
  shows "sint (a + b) = sint a + sint b"
proof -
  have "sint (a + b) = signed_take_bit 63 (sint a + sint b)" by (simp add: sint_word_ariths)
  also have "\<dots> = sint a + sint b"
    using assms by (intro signed_take_bit_int_eq_self) auto
  finally show ?thesis .
qed

lemma sint_small:
  fixes a :: u64
  assumes "a \<le> 14400"
  shows "sint a = uint a" "uint a \<le> 14400"
proof -
  show *: "uint a \<le> 14400" using assms by (simp add: word_le_def)
  have "sint a = signed_take_bit 63 (uint a)" by (simp add: sint_uint)
  also have "\<dots> = uint a" using * by (intro signed_take_bit_int_eq_self) (auto intro: order_trans [of _ 0])
  finally show "sint a = uint a" .
qed

lemma sint_le_uint: "sint (a :: u64) \<le> uint a"
proof (cases "uint a < 2 ^ 63")
  case True
  then have "signed_take_bit 63 (uint a) = uint a"
    by (intro signed_take_bit_int_eq_self) (auto intro: order_trans [of _ 0])
  then show ?thesis by (simp add: sint_uint)
next
  case False
  then show ?thesis using sint_lt [of a] by simp
qed

lemma lease_ok_status [simp]: "lease_ok hmac key (l\<lparr>l_status := st\<rparr>) = lease_ok hmac key l"
  and lease_ok_children [simp]: "lease_ok hmac key (l\<lparr>l_child_lease_ids := cs\<rparr>) = lease_ok hmac key l"
  by (simp_all add: lease_ok_def)

lemma pin_dns_dom: "pin_dns lookup hosts = Inr m \<Longrightarrow> dom m = set hosts"
  using pin_hosts_Inr [of lookup Map.empty hosts m] by (auto simp: pin_dns_def dom_def split: if_splits)

lemma lease_ok_created:
  assumes "new_root_lease env t key agent cred granted pcons pname am = Ret (Inr l)"
    and "constraints_valid pcons" "chrono_ok (env_chrono env)"
  shows "lease_ok (env_hmac env) key l"
proof -
  note flds = new_root_lease_fields [OF assms(1)]
  have "l_max_renewals l \<le> 3" "l_max_cumulative_ttl_seconds l \<le> 14400"
    using assms(2) flds(11,12)
    by (auto simp: constraints_valid_def exceeds_def unwrap_or_def not_less split: option.splits)
  moreover have "l_expires_at l = t + sint (l_ttl_seconds l) * nanos"
    "\<bar>sint (l_ttl_seconds l)\<bar> \<le> 2 ^ 63 div 1000"
    using assms(3) flds(10) unfolding chrono_ok_def by blast+
  ultimately show ?thesis
    using flds pin_dns_dom [OF flds(14)] verify_lease_token_generated
    by (simp add: lease_ok_def)
qed

lemma lease_ok_child:
  assumes "lease_ok hmac key p" "chrono_ok ch" "ch_add_seconds ch t (sint ttl) = Ret x"
    and "l_delegation_depth p + 1 \<le> unwrap_or (l_delegation_max_depth p) 3"
    and "pin_dns (env_lookup_host env) (scope_hosts sc) = Inr dns" "env_hmac env = hmac"
  shows "lease_ok hmac key (child_lease env key p pid target sc ttl t x dns)"
proof -
  from assms(2,3) have "x = t + sint ttl * nanos" "\<bar>sint ttl\<bar> \<le> 2 ^ 63 div 1000"
    unfolding chrono_ok_def by blast+
  then show ?thesis
    using assms pin_dns_dom [OF assms(5)] verify_lease_token_generated
    by (simp add: lease_ok_def child_lease_def)
qed

lemma lease_ok_renewed:
  assumes "lease_ok hmac key l" "chrono_ok ch" "l_renewals_used l < l_max_renewals l"
    and "l_cumulative_ttl_seconds l + ext \<le> l_max_cumulative_ttl_seconds l"
    and "ch_add_seconds ch (l_expires_at l) (sint ext) = Ret t"
  shows "lease_ok hmac key (l\<lparr>l_expires_at := t,
    l_cumulative_ttl_seconds := l_cumulative_ttl_seconds l + ext,
    l_renewals_used := l_renewals_used l + 1\<rparr>)"
proof -
  from assms(2,5) have t: "t = l_expires_at l + sint ext * nanos" "\<bar>sint ext\<bar> \<le> 2 ^ 63 div 1000"
    unfolding chrono_ok_def by blast+
  have sum: "sint (l_cumulative_ttl_seconds l + ext) = sint (l_cumulative_ttl_seconds l) + sint ext"
    using assms(1) t(2) by (intro sint_add) (simp_all add: lease_ok_def)
  have small: "l_cumulative_ttl_seconds l + ext \<le> 14400"
    using assms(1,4) by (auto simp: lease_ok_def)
  have "l_renewals_used l + 1 \<le> l_max_renewals l"
    using assms(3) by (simp add: inc_le)
  moreover have "\<bar>sint (l_cumulative_ttl_seconds l + ext)\<bar> \<le> 2 ^ 63 div 1000"
    using sint_small [OF small] by simp
  moreover have "t = l_created_at l + sint (l_cumulative_ttl_seconds l + ext) * nanos"
    using assms(1) t(1) sum by (simp add: lease_ok_def algebra_simps)
  moreover have "l_renewals_used l + 1 \<noteq> 0"
  proof
    assume "l_renewals_used l + 1 = 0"
    then have "l_renewals_used l = - 1" by (simp add: eq_neg_iff_add_eq_0)
    moreover from assms(1) have "l_renewals_used l \<le> 3" unfolding lease_ok_def by (blast intro: order_trans)
    moreover have "\<not> (- 1 :: u32) \<le> 3" by code_simp
    ultimately show False by simp
  qed
  ultimately show ?thesis using assms(1,4) by (simp add: lease_ok_def)
qed

lemma lease_ok_used:
  assumes "lease_ok hmac key l" "\<And>m. l_max_requests l = Some m \<Longrightarrow> l_requests_used l < m"
  shows "lease_ok hmac key (l\<lparr>l_requests_used := l_requests_used l + 1\<rparr>)"
  using assms by (auto simp: lease_ok_def inc_le)

definition all_ok :: "hmac_fun \<Rightarrow> world \<Rightarrow> bool" where
  "all_ok hmac w \<longleftrightarrow> (\<forall>i l. leases_of w i = Some l \<longrightarrow> lease_ok hmac (lm_gate_key (w_mgr w)) l)"

lemma lstep_all_ok:
  assumes "lstep hmac ch w w'" "lease_tree (leases_of w)" "chrono_ok ch" "all_ok hmac w"
  shows "all_ok hmac w'"
proof -
  note key = lstep_gate_key [OF assms(1)]
  from assms(1,2) show ?thesis
  proof (cases rule: lstep_effect)
    case (created env t agent cred granted pcons pname am l)
    with assms key lease_ok_created [OF created(1,5)] show ?thesis
      by (auto simp: all_ok_def split: if_splits)
  next
    case (delegated env t x now now' dns pid p target sc ttl c)
    have p: "lease_ok hmac (lm_gate_key (w_mgr w)) p"
      using assms(4) delegated(1) by (simp add: all_ok_def)
    have "lease_ok hmac (lm_gate_key (w_mgr w)) c"
      unfolding delegated(9)
      by (rule lease_ok_child [OF p assms(3) delegated(11,5,10,12)])
    with p assms(4) key show ?thesis
      using delegated(17) by (auto simp: all_ok_def split: if_splits)
  next
    case (renewed i l ext t)
    then have "lease_ok hmac (lm_gate_key (w_mgr w)) l" using assms(4) by (simp add: all_ok_def)
    from lease_ok_renewed [OF this assms(3) renewed(5,6,7)] assms(4) key renewed(8) show ?thesis
      by (auto simp: all_ok_def)
  next
    case (used i l)
    then have "lease_ok hmac (lm_gate_key (w_mgr w)) l" using assms(4) by (simp add: all_ok_def)
    from lease_ok_used [OF this used(4)] assms(4) key used(5) show ?thesis
      by (auto simp: all_ok_def)
  next
    case revoked
    with assms(4) key show ?thesis by (auto simp: all_ok_def with_status_def split: if_splits)
  next
    case expired
    with assms(4) key show ?thesis by (auto simp: all_ok_def with_status_def split: if_splits)
  qed (use assms(4) key in \<open>simp add: all_ok_def\<close>)
qed

lemma reachable_all_ok: "reachable hmac ch w \<Longrightarrow> chrono_ok ch \<Longrightarrow> all_ok hmac w"
proof (induction rule: reachable_induct)
  case (init w)
  then show ?case by (simp add: initial_leases all_ok_def)
qed (use lstep_all_ok reachable_tree in blast)

end
