(* ===== verification/Cdp_Lease_Ops.thy ===== *)
theory Cdp_Lease_Ops
  imports Cdp_Lease_Steps
begin

text \<open>
  Whole operations of the lease manager, one after the other: \<open>ostep\<close>. Each of them is a run of
  locked sections of \<open>lstep\<close>, so it keeps the invariants proved there. On top of that, in
  sequential executions the agent index covers every active root lease, which is what the
  handler of agent deaths relies on. The properties of the lease crate are stated here.
\<close>

section \<open>Operations\<close>

inductive ostep :: "hmac_fun \<Rightarrow> chrono \<Rightarrow> int \<Rightarrow> lease_manager \<Rightarrow> lease_manager \<Rightarrow> bool"
  for hmac ch now where
  create: "create_lease env t self agent cred granted pcons pname am = Ret (self', r) \<Longrightarrow>
    env_hmac env = hmac \<Longrightarrow> env_chrono env = ch \<Longrightarrow> t \<le> now \<Longrightarrow> constraints_valid pcons \<Longrightarrow>
    lm_leases self (lease_id_generate (env_id_random env)) = None \<Longrightarrow> ostep hmac ch now self self'"
| delegate: "delegate env t t' t'' self pid target sc ttl alive = Ret (self', r) \<Longrightarrow>
    env_hmac env = hmac \<Longrightarrow> env_chrono env = ch \<Longrightarrow> t \<le> t' \<Longrightarrow> t' \<le> t'' \<Longrightarrow> t'' \<le> now \<Longrightarrow>
    lm_leases self (lease_id_generate (env_id_random env)) = None \<Longrightarrow> ostep hmac ch now self self'"
| renew: "renew_lease ch now self i ext = Ret (self', r) \<Longrightarrow> ostep hmac ch now self self'"
| use: "use_lease now self i = (self', r) \<Longrightarrow> ostep hmac ch now self self'"
| revoke: "revoke_lease self i reason = Some (self', r) \<Longrightarrow> ostep hmac ch now self self'"
| revoke_agent: "revoke_agent_leases self fp reason = Some (self', r) \<Longrightarrow> ostep hmac ch now self self'"
| sweep: "set order = dom (lm_leases self) \<Longrightarrow> ostep hmac ch now self (sweep_expired order now self)"

inductive oreach :: "hmac_fun \<Rightarrow> chrono \<Rightarrow> int \<Rightarrow> lease_manager \<Rightarrow> bool" for hmac ch where
  init: "oreach hmac ch now (manager_new key tx)"
| step: "oreach hmac ch now self \<Longrightarrow> now \<le> now' \<Longrightarrow> ostep hmac ch now' self self' \<Longrightarrow>
    oreach hmac ch now' self'"

abbreviation quiet :: "lease_manager \<Rightarrow> int \<Rightarrow> world" where
  "quiet self now \<equiv> \<lparr>w_mgr = self, w_pending = [], w_now = now\<rparr>"

section \<open>Operations are runs of locked sections\<close>

lemma create_lease_cases:
  assumes "create_lease env t self agent cred granted pcons pname am = Ret (self', r)"
  obtains (refused) e where "self' = self" "r = Inl e"
  | (granted) l where
      "new_root_lease env t (lm_gate_key self) agent cred granted pcons pname am = Ret (Inr l)"
      "self' = emit_audit LeaseGranted (granted_fields l)
         (index_lease (ai_fingerprint_hash agent) (l_lease_id l) (insert_lease (l_lease_id l) l self))"
      "r = Inr l"
  using assms by (auto simp: create_lease_def Let_def split: outcome.splits sum.splits)

lemma delegate_cases:
  assumes "delegate env t t' t'' self pid target sc ttl alive = Ret (self', r)"
  obtains (refused) e where "self' = self" "r = Inl e"
  | (granted) dns x mid c where "alive"
      "pin_dns (env_lookup_host env) (scope_hosts sc) = Inr dns"
      "ch_add_seconds (env_chrono env) t (sint ttl) = Ret x"
      "delegate_commit env t x t' t'' dns self pid target sc ttl = (mid, Inr c)"
      "self' = index_lease (ai_fingerprint_hash target) (l_lease_id c) mid" "r = Inr c"
proof -
  have commit: "mid = self" if "delegate_commit env t x t' t'' dns self pid target sc ttl = (mid, Inl e)"
    for x dns mid e
    using that by (cases rule: delegate_commit_cases) auto
  show ?thesis
    using assms refused granted commit
    by (auto simp: delegate_def split: if_splits sum.splits outcome.splits prod.splits)
qed

lemma revoke_roots_run:
  assumes "revoke_roots reason acc self ids = Some (self', r)"
  shows "(lstep hmac ch)\<^sup>*\<^sup>* (quiet self now) (quiet self' now)"
  using assms
proof (induction reason acc self ids rule: revoke_roots.induct)
  case (2 reason acc self i ids)
  show ?case
  proof (cases "case lm_leases self i of None \<Rightarrow> False | Some l \<Rightarrow> l_parent_lease_id l = None")
    case True
    with "2.prems" obtain ds mid r' where
      mid: "collect_descendants (lm_leases self) i = Some ds" "revoke_lease self i reason = Some (mid, r')"
      and rest: "case r' of Inl e \<Rightarrow> self' = mid | Inr _ \<Rightarrow>
        revoke_roots reason (acc @ i # ds) mid ids = Some (self', r)"
      by (auto simp: Let_def split: option.splits sum.splits)
    have first: "lstep hmac ch (quiet self now) (quiet mid now)"
      using lstep.revoke [of "quiet self now" i reason mid r' hmac ch] mid(2) by simp
    show ?thesis
    proof (cases r')
      case Inl
      with rest first show ?thesis by simp
    next
      case (Inr u)
      with rest have "revoke_roots reason (acc @ i # ds) mid ids = Some (self', r)" by simp
      from "2.IH"(1) [OF refl True mid(1)] mid(2) Inr this
      have "(lstep hmac ch)\<^sup>*\<^sup>* (quiet mid now) (quiet self' now)" by auto
      with first show ?thesis by (rule converse_rtranclp_into_rtranclp)
    qed
  next
    case False
    with "2.prems" have "revoke_roots reason acc self ids = Some (self', r)"
      by (simp add: Let_def)
    with "2.IH"(2) [OF refl False] show ?thesis by simp
  qed
qed simp

lemma ostep_run:
  assumes "ostep hmac ch now self self'"
  shows "(lstep hmac ch)\<^sup>*\<^sup>* (quiet self now) (quiet self' now)"
  using assms
proof cases
  case (create env t agent cred granted pcons pname am r)
  from create(1) show ?thesis
  proof (cases rule: create_lease_cases)
    case (granted l)
    let ?p = "(ai_fingerprint_hash agent, l_lease_id l, Some (granted_fields l))"
    let ?mid = "\<lparr>w_mgr = insert_lease (l_lease_id l) l self, w_pending = [?p], w_now = now\<rparr>"
    have "lstep hmac ch (quiet self now) ?mid"
      using lstep.create [of env t "quiet self now" agent cred _ pcons pname am l hmac ch]
        granted(1) create new_root_lease_fields(1) [OF granted(1)] by simp
    moreover have "lstep hmac ch ?mid (quiet self' now)"
      using lstep.index [of ?p ?mid hmac ch] granted(2) by (simp add: finish_index_def)
    ultimately show ?thesis by (meson r_into_rtranclp rtranclp.rtrancl_into_rtrancl)
  qed simp
next
  case (delegate env t t' t'' pid target sc ttl alive r)
  from delegate(1) show ?thesis
  proof (cases rule: delegate_cases)
    case (granted dns x mid c)
    let ?p = "(ai_fingerprint_hash target, l_lease_id c, None)"
    let ?mid = "\<lparr>w_mgr = mid, w_pending = [?p], w_now = now\<rparr>"
    from granted(4) have "l_lease_id c = lease_id_generate (env_id_random env)"
      by (cases rule: delegate_commit_cases) (simp_all add: child_lease_def)
    then have "lstep hmac ch (quiet self now) ?mid"
      using lstep.delegate [of env t x t' t'' dns "quiet self now" pid target sc ttl mid c ch hmac]
        granted delegate by simp
    moreover have "lstep hmac ch ?mid (quiet self' now)"
      using lstep.index [of ?p ?mid hmac ch] granted(5) by (simp add: finish_index_def)
    ultimately show ?thesis by (meson r_into_rtranclp rtranclp.rtrancl_into_rtrancl)
  qed simp
next
  case (renew i ext r)
  then show ?thesis using lstep.renew [of ch "quiet self now" i ext self' r hmac] by auto
next
  case (use i r)
  then show ?thesis using lstep.use [of hmac ch "quiet self now" i] by auto
next
  case (revoke i reason r)
  then show ?thesis using lstep.revoke [of "quiet self now" i reason self' r hmac ch] by auto
next
  case (revoke_agent fp reason r)
  then obtain mid r' where mid: "revoke_roots reason []  self
      (case lm_agent_leases self fp of None \<Rightarrow> [] | Some ids \<Rightarrow> ids) = Some (mid, r')"
    and fin: "self' = mid \<or> self' = mid\<lparr>lm_agent_leases := (lm_agent_leases mid)(fp := None)\<rparr>"
    by (auto simp: revoke_agent_leases_def Let_def split: option.splits sum.splits)
  note run = revoke_roots_run [OF mid, of hmac ch now]
  have "lstep hmac ch (quiet mid now)
      (quiet (mid\<lparr>lm_agent_leases := (lm_agent_leases mid)(fp := None)\<rparr>) now)"
    using lstep.forget [of hmac ch "quiet mid now" fp] by simp
  with run fin show ?thesis by (auto intro: rtranclp.rtrancl_into_rtrancl)
next
  case (sweep order)
  then show ?thesis using lstep.sweep [of order "quiet self now" hmac ch] by auto
qed

lemma oreach_reachable: "oreach hmac ch now self \<Longrightarrow> reachable hmac ch (quiet self now)"
proof (induction rule: oreach.induct)
  case (init now key tx)
  have "initial (quiet (manager_new key tx) now)" by (auto simp: initial_def)
  then show ?case unfolding reachable_def by blast
next
  case (step now self now' self')
  have "lstep hmac ch (quiet self now) (quiet self now')"
    using lstep.tick [of "quiet self now" now' hmac ch] step(2) by simp
  with step.IH ostep_run [OF step(3)] show ?case
    unfolding reachable_def by (meson rtranclp.rtrancl_into_rtrancl rtranclp_trans)
qed

section \<open>The agent index\<close>

definition is_root :: "(string \<rightharpoonup> lease) \<Rightarrow> string \<Rightarrow> bool" where
  "is_root m i \<longleftrightarrow> (\<exists>l. m i = Some l \<and> l_parent_lease_id l = None)"

definition below :: "(string \<rightharpoonup> lease) \<Rightarrow> string list \<Rightarrow> string set" where
  "below m ids = {j. \<exists>i \<in> set ids. is_root m i \<and> (i, j) \<in> (child_rel m)\<^sup>*}"

lemma below_Nil [simp]: "below m [] = {}"
  by (simp add: below_def)

lemma below_Cons: "below m (i # ids) = (if is_root m i then (child_rel m)\<^sup>* `` {i} else {}) \<union> below m ids"
  by (auto simp: below_def)

lemma skeleton_below: "skeleton m = skeleton m' \<Longrightarrow> below m ids = below m' ids"
proof -
  assume sk: "skeleton m = skeleton m'"
  have "is_root m i = is_root m' i" for i
    by (metis sk is_root_def skeleton_Some)
  with skeleton_child_rel [OF sk] show ?thesis by (simp add: below_def)
qed

lemma revoke_roots_tree:
  assumes "lease_tree (lm_leases self)"
  shows "\<exists>self' revoked. revoke_roots reason acc self ids = Some (self', Inr revoked) \<and>
    set revoked = set acc \<union> below (lm_leases self) ids \<and>
    (\<forall>j. lm_leases self' j = (if j \<in> below (lm_leases self) ids
       then with_status (Revoked reason) (lm_leases self j) else lm_leases self j))"
  using assms
proof (induction ids arbitrary: acc self)
  case (Cons i ids)
  show ?case
  proof (cases "is_root (lm_leases self) i")
    case True
    then have root: "case lm_leases self i of None \<Rightarrow> False | Some l \<Rightarrow> l_parent_lease_id l = None"
      and ex: "lm_leases self i \<noteq> None"
      by (auto simp: is_root_def)
    let ?R = "child_rel (lm_leases self)"
    obtain ds where ds: "collect_descendants (lm_leases self) i = Some ds" "set ds = ?R\<^sup>+ `` {i}"
      by (rule collect_descendants_tree [OF Cons.prems])
    obtain mid where mid: "revoke_lease self i reason = Some (mid, Inr ())"
      "\<And>j. lm_leases mid j = (if (i, j) \<in> ?R\<^sup>* then with_status (Revoked reason) (lm_leases self j)
         else lm_leases self j)"
      using revoke_lease_tree [OF Cons.prems ex, where reason = reason] by blast
    have sk: "skeleton (lm_leases mid) = skeleton (lm_leases self)"
      using skeleton_status [of "lm_leases mid" "?R\<^sup>* `` {i}" "Revoked reason" "lm_leases self"] mid(2)
      by simp
    note bl = skeleton_below [OF sk]
    obtain self' revoked where
      rest: "revoke_roots reason (acc @ i # ds) mid ids = Some (self', Inr revoked)"
      "set revoked = set (acc @ i # ds) \<union> below (lm_leases self) ids"
      "\<And>j. lm_leases self' j = (if j \<in> below (lm_leases self) ids
         then with_status (Revoked reason) (lm_leases mid j) else lm_leases mid j)"
      using Cons.IH [OF skeleton_tree [OF sk [symmetric] Cons.prems], of "acc @ i # ds"]
      unfolding bl by blast
    have "revoke_roots reason acc self (i # ids) = Some (self', Inr revoked)"
      using root ds(1) mid(1) rest(1) by (simp add: Let_def)
    moreover have "insert i (set ds) = ?R\<^sup>* `` {i}"
      by (auto simp: ds(2) rtrancl_eq_or_trancl)
    then have "set revoked = set acc \<union> below (lm_leases self) (i # ids)"
      using rest(2) True by (simp add: below_Cons Un_assoc [symmetric])
    moreover have "lm_leases self' j = (if j \<in> below (lm_leases self) (i # ids)
         then with_status (Revoked reason) (lm_leases self j) else lm_leases self j)" for j
      using True by (simp add: rest(3) mid(2) below_Cons)
    ultimately show ?thesis by blast
  next
    case False
    then have root: "\<not> (case lm_leases self i of None \<Rightarrow> False | Some l \<Rightarrow> l_parent_lease_id l = None)"
      by (auto simp: is_root_def split: option.splits)
    then have "revoke_roots reason acc self (i # ids) = revoke_roots reason acc self ids"
      by (simp add: Let_def)
    with Cons.IH [OF Cons.prems, of acc] False show ?thesis by (simp add: below_Cons)
  qed
qed simp

definition indexed :: "lease_manager \<Rightarrow> bytes \<Rightarrow> string list" where
  "indexed self fp = (case lm_agent_leases self fp of None \<Rightarrow> [] | Some ids \<Rightarrow> ids)"

lemma revoke_agent_leases_tree:
  assumes "lease_tree (lm_leases self)"
  shows "\<exists>self' revoked. revoke_agent_leases self fp reason = Some (self', Inr revoked) \<and>
    set revoked = below (lm_leases self) (indexed self fp) \<and>
    (\<forall>j. lm_leases self' j = (if j \<in> set revoked
       then with_status (Revoked reason) (lm_leases self j) else lm_leases self j)) \<and>
    lm_agent_leases self' fp = None"
  using revoke_roots_tree [OF assms, of reason "[]" "indexed self fp"]
  by (auto simp: revoke_agent_leases_def indexed_def)

definition index_covers :: "lease_manager \<Rightarrow> bool" where
  "index_covers self \<longleftrightarrow>
     (\<forall>i l. lm_leases self i = Some l \<longrightarrow> l_status l = Active \<longrightarrow> l_parent_lease_id l = None \<longrightarrow>
        i \<in> set (indexed self (l_agent_fingerprint_hash l)))"

lemma indexed_emit_audit [simp]: "indexed (emit_audit ev f self) fp = indexed self fp"
  by (simp add: indexed_def)

lemma indexed_insert_lease [simp]: "indexed (insert_lease i l self) fp = indexed self fp"
  by (simp add: indexed_def)

lemma indexed_index_lease [simp]:
  "indexed (index_lease fp i self) fp' = indexed self fp' @ (if fp' = fp then [i] else [])"
  by (auto simp: indexed_def index_lease_def split: option.splits)

lemma indexed_remove:
  "set (indexed (self\<lparr>lm_agent_leases := remove_from_agent_index (lm_agent_leases self) fp i\<rparr>) fp') =
   set (indexed self fp') - (if fp' = fp then {i} else {})"
  by (auto simp: indexed_def remove_from_agent_index_def Let_def filter_empty_conv split: option.splits)

lemma indexed_set_status [simp]: "indexed (set_status i st self) fp = indexed self fp"
  by (simp add: set_status_def split: option.splits)

lemma indexed_revoke_one: "set (indexed self fp) - {i} \<subseteq> set (indexed (revoke_one r d i self) fp)"
  by (auto simp: revoke_one_def Let_def indexed_remove split: option.splits)

lemma indexed_expire_one: "set (indexed self fp) - {i} \<subseteq> set (indexed (expire_one i self) fp)"
  by (auto simp: expire_one_def Let_def indexed_remove split: option.splits)

lemma indexed_fold:
  assumes "\<And>i s. set (indexed s fp) - {i} \<subseteq> set (indexed (f i s) fp)"
  shows "set (indexed self fp) - set ids \<subseteq> set (indexed (fold f ids self) fp)"
proof (induction ids arbitrary: self)
  case (Cons i ids)
  show ?case using Cons [of "f i self"] assms [of self i] by auto
qed simp

lemma index_covers_status:
  assumes "index_covers self"
    and "\<And>j. lm_leases self' j = (if j \<in> S then with_status st (lm_leases self j) else lm_leases self j)"
    and "\<And>fp. set (indexed self fp) - S \<subseteq> set (indexed self' fp)" "st \<noteq> Active"
  shows "index_covers self'"
  unfolding index_covers_def
proof (intro allI impI)
  fix i l
  assume l: "lm_leases self' i = Some l" "l_status l = Active" "l_parent_lease_id l = None"
  with assms(2,4) have "i \<notin> S" by (cases "lm_leases self i") (auto split: if_splits)
  then have "lm_leases self i = Some l" using l(1) assms(2) by simp
  with assms(1) l have "i \<in> set (indexed self (l_agent_fingerprint_hash l))"
    by (simp add: index_covers_def)
  with \<open>i \<notin> S\<close> assms(3) show "i \<in> set (indexed self' (l_agent_fingerprint_hash l))" by blast
qed

lemma index_covers_revoke:
  assumes "lease_tree (lm_leases self)" "index_covers self" "revoke_lease self i reason = Some (self', r)"
  shows "index_covers self'"
proof (cases "lm_leases self i = None")
  case True
  with assms show ?thesis by (simp add: revoke_lease_NotFound)
next
  case False
  obtain ds where ds: "collect_descendants (lm_leases self) i = Some ds"
    by (rule collect_descendants_tree [OF assms(1)])
  let ?mid = "fold (revoke_one reason (''cascading revocation: '' @ reason)) ds self"
  from assms(3) False ds have self': "self' = revoke_one reason reason i ?mid"
    by (simp add: revoke_lease_def)
  have "set (indexed self fp) - insert i (set ds) \<subseteq> set (indexed self' fp)" for fp
  proof -
    have "set (indexed self fp) - set ds \<subseteq> set (indexed ?mid fp)"
      by (rule indexed_fold) (rule indexed_revoke_one)
    moreover have "set (indexed ?mid fp) - {i} \<subseteq> set (indexed self' fp)"
      unfolding self' by (rule indexed_revoke_one)
    ultimately show ?thesis by blast
  qed
  moreover have "lm_leases self' j = (if j \<in> insert i (set ds)
      then with_status (Revoked reason) (lm_leases self j) else lm_leases self j)" for j
    by (simp add: self' fold_revoke_leases)
  ultimately show ?thesis
    by (intro index_covers_status [OF assms(2), where S = "insert i (set ds)"
        and st = "Revoked reason"]) simp_all
qed

lemma index_covers_revoke_roots:
  assumes "lease_tree (lm_leases self)" "index_covers self"
    and "revoke_roots reason acc self ids = Some (self', r)"
  shows "index_covers self'"
  using assms
proof (induction ids arbitrary: acc self)
  case (Cons i ids)
  show ?case
  proof (cases "is_root (lm_leases self) i")
    case True
    then have root: "case lm_leases self i of None \<Rightarrow> False | Some l \<Rightarrow> l_parent_lease_id l = None"
      and ex: "lm_leases self i \<noteq> None"
      by (auto simp: is_root_def)
    obtain ds where ds: "collect_descendants (lm_leases self) i = Some ds"
      by (rule collect_descendants_tree [OF Cons.prems(1)])
    obtain mid where mid: "revoke_lease self i reason = Some (mid, Inr ())"
      "\<And>j. lm_leases mid j = (if (i, j) \<in> (child_rel (lm_leases self))\<^sup>*
         then with_status (Revoked reason) (lm_leases self j) else lm_leases self j)"
      using revoke_lease_tree [OF Cons.prems(1) ex, where reason = reason] by blast
    have "skeleton (lm_leases mid) = skeleton (lm_leases self)"
      using skeleton_status [of "lm_leases mid" "(child_rel (lm_leases self))\<^sup>* `` {i}"
          "Revoked reason" "lm_leases self"] mid(2) by simp
    then have "lease_tree (lm_leases mid)" by (metis skeleton_tree Cons.prems(1))
    moreover have "index_covers mid" by (rule index_covers_revoke [OF Cons.prems(1,2) mid(1)])
    moreover have "revoke_roots reason (acc @ i # ds) mid ids = Some (self', r)"
      using Cons.prems(3) root ds mid(1) by (simp add: Let_def)
    ultimately show ?thesis by (rule Cons.IH)
  next
    case False
    then have "\<not> (case lm_leases self i of None \<Rightarrow> False | Some l \<Rightarrow> l_parent_lease_id l = None)"
      by (auto simp: is_root_def split: option.splits)
    with Cons show ?thesis by (simp add: Let_def)
  qed
qed simp

lemma index_covers_revoke_agent:
  assumes tree: "lease_tree (lm_leases self)" and cov: "index_covers self"
    and rev: "revoke_agent_leases self fp reason = Some (self', r)"
  shows "index_covers self'"
proof -
  from revoke_roots_tree [OF tree, of reason "[]" "indexed self fp"] obtain mid revoked where
    mid: "revoke_roots reason [] self (indexed self fp) = Some (mid, Inr revoked)"
    "set revoked = below (lm_leases self) (indexed self fp)"
    "\<And>j. lm_leases mid j = (if j \<in> below (lm_leases self) (indexed self fp)
       then with_status (Revoked reason) (lm_leases self j) else lm_leases self j)"
    by auto
  have self': "self' = mid\<lparr>lm_agent_leases := (lm_agent_leases mid)(fp := None)\<rparr>"
    using rev mid(1) by (simp add: revoke_agent_leases_def indexed_def)
  have cov_mid: "index_covers mid" by (rule index_covers_revoke_roots [OF tree cov mid(1)])
  have "i \<in> set (indexed self' (l_agent_fingerprint_hash l))"
    if l: "lm_leases mid i = Some l" "l_status l = Active" "l_parent_lease_id l = None" for i l
  proof -
    have out: "i \<notin> below (lm_leases self) (indexed self fp)"
      using l mid(3) by (cases "lm_leases self i") auto
    then have old: "lm_leases self i = Some l" using l(1) mid(3) by simp
    with cov l(2,3) have "i \<in> set (indexed self (l_agent_fingerprint_hash l))"
      by (simp add: index_covers_def)
    with out old l(3) have "l_agent_fingerprint_hash l \<noteq> fp" by (auto simp: below_def is_root_def)
    moreover have "i \<in> set (indexed mid (l_agent_fingerprint_hash l))"
      using cov_mid l by (simp add: index_covers_def)
    ultimately show ?thesis by (simp add: indexed_def self')
  qed
  then show ?thesis by (simp add: index_covers_def self')
qed

lemma ostep_covers:
  assumes "ostep hmac ch now self self'" "lease_tree (lm_leases self)" "index_covers self"
  shows "index_covers self'"
  using assms(1)
proof cases
  case (create env t agent cred granted pcons pname am r)
  from create(1) show ?thesis
  proof (cases rule: create_lease_cases)
    case (granted l)
    with assms(3) new_root_lease_fields(16) [OF granted(1)] show ?thesis
      by (auto simp: index_covers_def)
  qed (use assms(3) in simp)
next
  case (delegate env t t' t'' pid target sc ttl alive r)
  from delegate(1) show ?thesis
  proof (cases rule: delegate_cases)
    case (granted dns x mid c)
    then show ?thesis
    proof (cases rule: delegate_commit_cases [OF granted(4)])
      case (2 p c')
      have "indexed mid fp = indexed self fp" for fp
        using granted(4) by (auto simp: delegate_commit_def link_child_def Let_def
            split: option.splits if_splits)
      with 2 granted assms(3) show ?thesis
        by (auto simp: index_covers_def child_lease_def)
    qed simp
  qed (use assms(3) in simp)
next
  case (renew i ext r)
  have "indexed self' fp = indexed self fp" for fp
    using renew by (auto simp: renew_lease_def Let_def split: option.splits if_splits outcome.splits)
  with renew assms(3) show ?thesis
    by (cases rule: renew_lease_cases) (auto simp: index_covers_def split: if_splits)
next
  case (use i r)
  then have self': "self' = fst (use_lease now self i)" by simp
  have same: "indexed (fst (use_lease now self i)) fp = indexed self fp" for fp
    by (simp add: use_lease_def Let_def split: option.splits)
  show ?thesis
  proof (cases rule: use_lease_cases [of now self i])
    case refused
    with self' assms(3) show ?thesis by simp
  next
    case (used l)
    show ?thesis
      unfolding index_covers_def self' same used(5) using assms(3) used(1)
      by (auto simp: index_covers_def split: if_splits)
  qed
next
  case (revoke i reason r)
  then show ?thesis by (rule index_covers_revoke [OF assms(2,3)])
next
  case (revoke_agent fp reason r)
  then show ?thesis by (rule index_covers_revoke_agent [OF assms(2,3)])
next
  case (sweep order)
  let ?ids = "filter (\<lambda>i. case lm_leases self i of None \<Rightarrow> False
    | Some l \<Rightarrow> l_status l = Active \<and> l_expires_at l < now) order"
  have "index_covers (fold expire_one ?ids self)"
    by (rule index_covers_status [OF assms(3) fold_expire_leases indexed_fold [OF indexed_expire_one]])
      simp
  then show ?thesis using sweep by (simp add: sweep_expired_def)
qed

lemma oreach_invariant:
  assumes "oreach hmac ch now self"
  shows "lease_tree (lm_leases self) \<and> index_covers self"
  using assms
proof (induction rule: oreach.induct)
  case (init now key tx)
  then show ?case
    by (simp add: manager_new_def index_covers_def lease_tree_def child_rel_def children_of_def
        acyclic_def)
next
  case (step now self now' self')
  have "lease_tree (lm_leases self')"
    using reachable_tree [OF oreach_reachable [OF oreach.step [OF step(1-3)]]] by simp
  with step show ?case using ostep_covers by blast
qed

lemma revoke_agent_leases_covers:
  assumes "oreach hmac ch now self"
  shows "\<exists>self' revoked. revoke_agent_leases self fp reason = Some (self', Inr revoked) \<and>
    (\<forall>j. lm_leases self' j = (if j \<in> set revoked
       then map_option (\<lambda>l. l\<lparr>l_status := Revoked reason\<rparr>) (lm_leases self j)
       else lm_leases self j)) \<and>
    (\<forall>i l j. lm_leases self i = Some l \<longrightarrow> l_status l = Active \<longrightarrow> l_parent_lease_id l = None \<longrightarrow>
       l_agent_fingerprint_hash l = fp \<longrightarrow> (i, j) \<in> (child_rel (lm_leases self))\<^sup>* \<longrightarrow> j \<in> set revoked)"
proof -
  from oreach_invariant [OF assms] have tree: "lease_tree (lm_leases self)" and cov: "index_covers self"
    by simp_all
  have "j \<in> below (lm_leases self) (indexed self fp)"
    if l: "lm_leases self i = Some l" "l_status l = Active" "l_parent_lease_id l = None"
      "l_agent_fingerprint_hash l = fp" and ij: "(i, j) \<in> (child_rel (lm_leases self))\<^sup>*" for i l j
  proof -
    from cov l have "i \<in> set (indexed self fp)" by (auto simp: index_covers_def)
    with l ij show ?thesis by (auto simp: below_def is_root_def)
  qed
  with revoke_agent_leases_tree [OF tree, of fp reason] show ?thesis
    unfolding with_status_def by blast
qed

section \<open>Properties\<close>

text \<open>
  C6. Revocation cascades. In every reachable state, under every interleaving of the locked
  sections, revoking an existing lease terminates, marks the lease and exactly its descendants
  as revoked with the given reason, and leaves every other lease as it was.
\<close>

theorem revoke_lease_cascades:
  assumes "reachable hmac ch w" "leases_of w i \<noteq> None"
  shows "\<exists>mgr'. revoke_lease (w_mgr w) i reason = Some (mgr', Inr ()) \<and>
    (\<forall>j. lm_leases mgr' j =
      (if (i, j) \<in> (child_rel (leases_of w))\<^sup>*
       then map_option (\<lambda>l. l\<lparr>l_status := Revoked reason\<rparr>) (leases_of w j)
       else leases_of w j))"
  using revoke_lease_tree [OF reachable_tree [OF assms(1)] assms(2), of reason]
  unfolding with_status_def by blast

text \<open>
  C7. No resurrection. Once a lease is revoked, in every later state it and every lease
  delegated from it, directly or not, is refused by use, by renewal and as the parent of a
  delegation, and the refusal changes nothing.
\<close>

theorem revoked_never_usable:
  assumes "reachable hmac ch w" "revoked_at (leases_of w) i"
    and "(lstep hmac ch)\<^sup>*\<^sup>* w w'" "(i, j) \<in> (child_rel (leases_of w'))\<^sup>*"
  shows "use_lease now (w_mgr w') j = (w_mgr w', Inl NotActive) \<and>
    renew_lease ch now (w_mgr w') j ext = Ret (w_mgr w', Inl NotActive) \<and>
    delegate_commit env t x now now' dns (w_mgr w') j target sc ttl = (w_mgr w', Inl NotActive)"
proof -
  from steps_revoked_at [OF assms(3,1,2)] have "revoked_at (leases_of w') i" "reachable hmac ch w'"
    by simp_all
  with cascade_closed_desc [OF assms(4)] reachable_cascade have "revoked_at (leases_of w') j" by blast
  then obtain l where "leases_of w' j = Some l" "is_revoked l" by (auto simp: revoked_at_def)
  moreover from this(2) have "l_status l \<noteq> Active" by (auto simp: is_revoked_def)
  ultimately show ?thesis by (simp add: use_lease_def renew_lease_def delegate_commit_def)
qed

text \<open>
  C9. Limits. In every reachable state a lease has been renewed at most as often as its limit,
  itself at most 3, has been used at most as often as its request limit, and its delegation depth
  is within its limit. A lease that was never renewed expires its granted lifetime after its creation;
  one that was renewed expires within its own cumulative limit, itself at most 14400 seconds. The
  granted lifetime itself is not limited by the cumulative limit.
\<close>

theorem lease_limits:
  assumes "reachable hmac ch w" "chrono_ok ch" "leases_of w i = Some l"
  shows "l_renewals_used l \<le> l_max_renewals l \<and> l_max_renewals l \<le> 3 \<and>
    (\<forall>m. l_max_requests l = Some m \<longrightarrow> l_requests_used l \<le> m) \<and>
    l_delegation_depth l \<le> unwrap_or (l_delegation_max_depth l) 3 \<and>
    (l_renewals_used l = 0 \<longrightarrow> l_expires_at l = l_created_at l + sint (l_ttl_seconds l) * nanos) \<and>
    (l_renewals_used l \<noteq> 0 \<longrightarrow>
       l_expires_at l \<le> l_created_at l + uint (l_max_cumulative_ttl_seconds l) * nanos) \<and>
    l_max_cumulative_ttl_seconds l \<le> 14400"
proof -
  let ?c = "l_cumulative_ttl_seconds l" and ?m = "l_max_cumulative_ttl_seconds l"
  have ok: "lease_ok hmac (lm_gate_key (w_mgr w)) l"
    using reachable_all_ok [OF assms(1,2)] assms(3) by (simp add: all_ok_def)
  have "sint ?c * nanos \<le> uint ?m * nanos" if "l_renewals_used l \<noteq> 0"
  proof -
    from ok that have "?c \<le> ?m" "?m \<le> 14400" by (simp_all add: lease_ok_def)
    then have "sint ?c \<le> uint ?m" using sint_small(1) [of ?c] by (simp add: word_le_def)
    then show ?thesis by (simp add: nanos_def)
  qed
  with ok show ?thesis by (simp add: lease_ok_def)
qed

text \<open>
  Tokens and pins. In every reachable state the stored token of a lease verifies for its
  identifier, agent and nonce, and its pinned hosts are exactly the hosts of its scope.
\<close>

theorem lease_token_and_pins:
  assumes "reachable hmac ch w" "chrono_ok ch" "leases_of w i = Some l"
  shows "verify_lease_token hmac (lm_gate_key (w_mgr w)) i (l_agent_fingerprint_hash l)
      (l_channel_binding_nonce l) (l_lease_token l) = Ret True \<and>
    dom (l_dns_pinned_ips l) = set (scope_hosts (l_granted_scope l))"
proof -
  have "lease_ok hmac (lm_gate_key (w_mgr w)) l"
    using reachable_all_ok [OF assms(1,2)] assms(3) by (simp add: all_ok_def)
  moreover have "l_lease_id l = i"
    using reachable_tree [OF assms(1)] assms(3) by (simp add: lease_tree_def)
  ultimately show ?thesis by (simp add: lease_ok_def)
qed

text \<open>
  C10. Delegation. A successful delegation has an active, unexpired parent that allows it; the
  child has the credential of the parent, a scope the subset check accepts, a depth within the
  limit, and, at that moment, expires no later than the parent. The child is stored and linked
  to the parent, and no other lease changes.
\<close>

theorem delegate_sound:
  assumes "chrono_ok (env_chrono env)" "t \<le> t'" "t' \<le> t''"
    and "delegate env t t' t'' self pid target sc ttl alive = Ret (self', Inr c)"
  shows "\<exists>p. alive \<and> lm_leases self pid = Some p \<and> is_active t' p \<and> l_delegation_allowed p \<and>
    l_credential_ref c = l_credential_ref p \<and> l_granted_scope c = sc \<and>
    is_scope_subset sc (l_granted_scope p) \<and>
    l_delegation_depth c = l_delegation_depth p + 1 \<and>
    l_delegation_depth c \<le> unwrap_or (l_delegation_max_depth p) 3 \<and>
    l_expires_at c \<le> l_expires_at p \<and>
    lm_leases self' = (lm_leases self)
      (pid \<mapsto> p\<lparr>l_child_lease_ids := l_child_lease_ids p @ [l_lease_id c]\<rparr>, l_lease_id c \<mapsto> c)"
  using assms(4)
proof (cases rule: delegate_cases)
  case (granted dns x mid c')
  from granted(4) show ?thesis
  proof (cases rule: delegate_commit_cases)
    case inner: (granted p c'')
    let ?rem = "remaining_ttl_seconds (env_chrono env) t'' p"
    have x: "x = t + sint ttl * nanos" using assms(1) granted(3) unfolding chrono_ok_def by blast
    have "uint ttl \<le> uint (word_of_int ?rem :: u64)" using inner(8) by (simp add: word_le_def)
    also have "\<dots> \<le> ?rem" using inner(7) by (simp add: unsigned_of_int take_bit_eq_mod zmod_le_nonneg_dividend)
    finally have ttl: "sint ttl \<le> ?rem" using sint_le_uint [of ttl] by simp
    have "x \<le> l_expires_at p"
    proof (cases "t'' \<le> l_expires_at p")
      case True
      then have "?rem = (l_expires_at p - t'') div nanos"
        using assms(1) by (simp add: chrono_ok_def remaining_ttl_seconds_def)
      then have "?rem * nanos \<le> l_expires_at p - t''"
        using True by (simp add: nanos_def)
      moreover have "sint ttl * nanos \<le> ?rem * nanos" using ttl by (simp add: nanos_def)
      ultimately show ?thesis using x assms(2,3) by simp
    next
      case False
      then have "?rem \<le> 0" using assms(1) by (simp add: chrono_ok_def remaining_ttl_seconds_def)
      with ttl have "sint ttl * nanos \<le> 0" by (simp add: nanos_def)
      with x assms(2) inner(3) show ?thesis by (simp add: is_expired_def)
    qed
    with granted inner show ?thesis
      by (intro exI [of _ p]) (simp add: is_active_def child_lease_def)
  qed simp
qed simp

text \<open>
  Agent death. In sequential executions, handling the death of an agent terminates; it
  revokes every active root lease of the agent together with all leases delegated from it,
  reports exactly the revoked leases, and leaves every other lease as it was.
\<close>

theorem agent_death_revokes:
  assumes "oreach hmac ch now self"
  shows "\<exists>self' revoked. revoke_agent_leases self fp reason = Some (self', Inr revoked) \<and>
    (\<forall>j. lm_leases self' j = (if j \<in> set revoked
       then map_option (\<lambda>l. l\<lparr>l_status := Revoked reason\<rparr>) (lm_leases self j)
       else lm_leases self j)) \<and>
    (\<forall>i l j. lm_leases self i = Some l \<longrightarrow> l_status l = Active \<longrightarrow> l_parent_lease_id l = None \<longrightarrow>
       l_agent_fingerprint_hash l = fp \<longrightarrow> (i, j) \<in> (child_rel (lm_leases self))\<^sup>* \<longrightarrow> j \<in> set revoked)"
  using assms by (rule revoke_agent_leases_covers)

text \<open>
  Every whole operation of the manager is a run of its locked sections, from a quiet state
  to a quiet state, so what holds in every reachable state of the interleaved system holds
  between operations.
\<close>

theorem operations_refine_sections:
  assumes "ostep hmac ch now self self'"
  shows "(lstep hmac ch)\<^sup>*\<^sup>* \<lparr>w_mgr = self, w_pending = [], w_now = now\<rparr>
    \<lparr>w_mgr = self', w_pending = [], w_now = now\<rparr>"
  using assms by (rule ostep_run)

section \<open>Witnesses and counterexamples\<close>

text \<open>
  A concrete run: a root lease with a request limit, a lease delegated from it, and the
  revocation of the root. The clock arithmetic is exact within the range of \<open>chrono\<close>.
\<close>

definition sample_chrono :: chrono where
  "sample_chrono =
     \<lparr>ch_add_seconds = (\<lambda>t s. if \<bar>s\<bar> \<le> 2 ^ 63 div 1000 then Ret (t + s * nanos) else Panic),
      ch_num_seconds = (\<lambda>d. if 0 \<le> d then d div nanos else - (- d div nanos))\<rparr>"

definition sample_hmac :: hmac_fun where
  "sample_hmac k m = [1]"

definition sample_env :: "u8 \<Rightarrow> lease_env" where
  "sample_env b = \<lparr>env_lookup_host = (\<lambda>_. Inr [V4 1]), env_id_random = [b], env_nonce = replicate 32 b,
     env_hmac = sample_hmac, env_chrono = sample_chrono\<rparr>"

definition sample_target :: agent_info where
  "sample_target = sample_agent\<lparr>ai_pid := 8, ai_fingerprint_hash := replicate 32 3\<rparr>"

definition sample_limits :: policy_constraints where
  "sample_limits = policy_constraints_default
     \<lparr>pc_max_ttl_seconds := Some 100, pc_max_requests_per_lease := Some 1, pc_delegation_allowed := True\<rparr>"

definition lease1 :: lease where
  "lease1 =
     \<lparr>l_lease_id = ''01'', l_credential_ref = ''c'', l_policy_name = ''p'',
      l_approval_method = ''auto'', l_agent_fingerprint_hash = replicate 32 2,
      l_agent_binary_path = ''/bin/a'', l_agent_uid = 1000, l_agent_pid = 7,
      l_granted_scope = scope_default,
      l_lease_token = generate_lease_token sample_hmac [7] ''01'' (replicate 32 2) (replicate 32 1),
      l_channel_binding_nonce = replicate 32 1, l_dns_pinned_ips = Map.empty, l_status = Active,
      l_created_at = 0, l_expires_at = 100 * nanos, l_ttl_seconds = 100,
      l_cumulative_ttl_seconds = 100, l_max_requests = Some 1, l_requests_used = 0,
      l_renewals_used = 0, l_max_renewals = 3, l_max_cumulative_ttl_seconds = 14400,
      l_renewable = True, l_parent_lease_id = None, l_child_lease_ids = [],
      l_delegation_depth = 0, l_delegation_allowed = True, l_delegation_max_depth = None,
      l_follow_redirects = False\<rparr>"

definition mgr1 :: lease_manager where
  "mgr1 = index_lease (replicate 32 2) ''01'' (insert_lease ''01'' lease1 (manager_new [7] None))"

definition lease2 :: lease where
  "lease2 = child_lease (sample_env 2) [7] lease1 ''01'' sample_target scope_default 100 0
     (100 * nanos) Map.empty"

definition mgr2 :: lease_manager where
  "mgr2 = index_lease (replicate 32 3) ''02''
     (insert_lease ''02'' lease2
       (insert_lease ''01'' (lease1\<lparr>l_child_lease_ids := [''02'']\<rparr>) mgr1))"

definition mgr3 :: lease_manager where
  "mgr3 = fst (the (revoke_lease mgr2 ''01'' ''r''))"

lemma sample_chrono_ok: "chrono_ok sample_chrono"
  by (auto simp: chrono_ok_def sample_chrono_def nanos_def split: if_splits)

lemma sample_ids: "lease_id_generate [1] = ''01''" "lease_id_generate [2] = ''02''"
  by code_simp+

lemma sample_add: "ch_add_seconds sample_chrono t 100 = Ret (t + 100 * nanos)"
  "ch_add_seconds sample_chrono t 50 = Ret (t + 50 * nanos)"
  "ch_num_seconds sample_chrono (100 * nanos) = 100"
  by (simp_all add: sample_chrono_def nanos_def)

lemma sample_sint: "sint (100 :: u64) = 100" "sint (50 :: u64) = 50"
  by simp_all

lemmas sample_defs = sample_env_def sample_agent_def sample_target_def sample_limits_def
  policy_constraints_default_def scope_default_def manager_new_def

lemma new_lease1:
  "new_root_lease (sample_env 1) 0 [7] sample_agent ''c'' scope_default sample_limits ''p'' ''auto'' =
     Ret (Inr lease1)"
  by (simp add: new_root_lease_def lease1_def sample_defs pin_dns_def unwrap_or_def or_option_def
      sample_ids sample_add sample_sint Let_def)

lemma run_create:
  "create_lease (sample_env 1) 0 (manager_new [7] None) sample_agent ''c'' scope_default sample_limits
     ''p'' ''auto'' = Ret (mgr1, Inr lease1)"
proof -
  have "lm_gate_key (manager_new [7] None) = [7]" by (simp add: manager_new_def)
  moreover have "emit_audit ev f mgr1 = mgr1" for ev f
    by (simp add: emit_audit_def mgr1_def index_lease_def insert_lease_def manager_new_def)
  moreover have "ai_fingerprint_hash sample_agent = replicate 32 2" "l_lease_id lease1 = ''01''"
    by (simp_all add: sample_agent_def lease1_def)
  ultimately show ?thesis
    by (simp add: create_lease_def new_lease1 Let_def flip: mgr1_def)
qed

lemma lease2_id: "l_lease_id lease2 = ''02''"
  by (simp add: lease2_def child_lease_def sample_env_def sample_ids)

lemma mgr1_leases: "lm_leases mgr1 = [''01'' \<mapsto> lease1]" "lm_gate_key mgr1 = [7]"
  "lm_audit_tx mgr1 = None"
  by (simp_all add: mgr1_def manager_new_def index_lease_def insert_lease_def)

lemma run_delegate:
  "delegate (sample_env 2) 0 0 0 mgr1 ''01'' sample_target scope_default 100 True =
     Ret (mgr2, Inr lease2)"
proof -
  have dns: "pin_dns l (scope_hosts scope_default) = Inr Map.empty" for l
    by (simp add: pin_dns_def scope_default_def)
  have ch: "env_chrono (sample_env 2) = sample_chrono" by (simp add: sample_env_def)
  have sub: "is_scope_subset scope_default (l_granted_scope lease1)"
    by (simp add: lease1_def is_scope_subset_refl)
  have rem: "remaining_ttl_seconds sample_chrono 0 lease1 = 100"
    by (simp add: remaining_ttl_seconds_def lease1_def sample_add)
  let ?mid = "insert_lease ''02'' lease2
    (insert_lease ''01'' (lease1\<lparr>l_child_lease_ids := [''02'']\<rparr>) mgr1)"
  have "emit_audit ev f ?mid = ?mid" for ev f
    by (simp add: emit_audit_def insert_lease_def mgr1_leases)
  then have "delegate_commit (sample_env 2) 0 (100 * nanos) 0 0 Map.empty mgr1 ''01'' sample_target
      scope_default 100 = (?mid, Inr lease2)"
    using sub rem lease2_id
    by (simp add: delegate_commit_def mgr1_leases link_child_def Let_def ch flip: lease2_def)
      (simp add: lease1_def is_expired_def unwrap_or_def nanos_def)
  then show ?thesis
    using sub
    by (simp add: delegate_def delegate_precheck_def mgr1_leases dns ch sample_sint sample_add
        lease2_id mgr2_def sample_target_def)
qed

lemma mgr1_step: "ostep sample_hmac sample_chrono 0 (manager_new [7] None) mgr1"
  by (rule ostep.create [OF run_create])
    (simp_all add: sample_env_def manager_new_def constraints_valid_def exceeds_def sample_limits_def
      policy_constraints_default_def)

lemma mgr1_reach: "oreach sample_hmac sample_chrono 0 mgr1"
  using oreach.step [OF oreach.init order_refl mgr1_step] .

lemma mgr2_step: "ostep sample_hmac sample_chrono 0 mgr1 mgr2"
  by (rule ostep.delegate [OF run_delegate]) (simp_all add: sample_env_def sample_ids mgr1_leases)

lemma mgr2_reach: "oreach sample_hmac sample_chrono 0 mgr2"
  using oreach.step [OF mgr1_reach order_refl mgr2_step] .

lemma mgr2_leases:
  "lm_leases mgr2 ''01'' = Some (lease1\<lparr>l_child_lease_ids := [''02'']\<rparr>)"
  "lm_leases mgr2 ''02'' = Some lease2"
  by (simp_all add: mgr2_def)

lemma mgr2_child: "(''01'', ''02'') \<in> (child_rel (lm_leases mgr2))\<^sup>*"
  by (rule r_into_rtrancl) (simp add: child_rel_def children_of_def mgr2_leases)

theorem revoke_lease_cascades_witness:
  "\<exists>mgr'. revoke_lease mgr2 ''01'' ''r'' = Some (mgr', Inr ()) \<and>
     map_option l_status (lm_leases mgr' ''02'') = Some (Revoked ''r'')"
proof -
  have "leases_of (quiet mgr2 0) ''01'' \<noteq> None" using mgr2_leases(1) by auto
  from revoke_lease_cascades [OF oreach_reachable [OF mgr2_reach] this, of "''r''"] obtain mgr' where
    "revoke_lease mgr2 ''01'' ''r'' = Some (mgr', Inr ())"
    "\<forall>j. lm_leases mgr' j = (if (''01'', j) \<in> (child_rel (lm_leases mgr2))\<^sup>*
       then map_option (\<lambda>l. l\<lparr>l_status := Revoked ''r''\<rparr>) (lm_leases mgr2 j) else lm_leases mgr2 j)"
    by auto
  with mgr2_child show ?thesis by (intro exI [of _ mgr']) (simp add: mgr2_leases)
qed

lemma mgr3_facts:
  "revoke_lease mgr2 ''01'' ''r'' = Some (mgr3, Inr ())"
  "lm_leases mgr3 ''01'' = Some (lease1\<lparr>l_child_lease_ids := [''02''], l_status := Revoked ''r''\<rparr>)"
proof -
  have tree: "lease_tree (lm_leases mgr2)" using oreach_invariant [OF mgr2_reach] by simp
  have "lm_leases mgr2 ''01'' \<noteq> None" by (simp add: mgr2_leases)
  from revoke_lease_tree [OF tree this, of "''r''"] obtain self' where
    "revoke_lease mgr2 ''01'' ''r'' = Some (self', Inr ())"
    "lm_leases self' ''01'' = with_status (Revoked ''r'') (lm_leases mgr2 ''01'')"
    by (metis rtrancl.rtrancl_refl)
  then show "revoke_lease mgr2 ''01'' ''r'' = Some (mgr3, Inr ())"
    "lm_leases mgr3 ''01'' = Some (lease1\<lparr>l_child_lease_ids := [''02''], l_status := Revoked ''r''\<rparr>)"
    by (simp_all add: mgr3_def mgr2_leases)
qed

lemma mgr3_reach: "oreach sample_hmac sample_chrono 0 mgr3"
  using oreach.step [OF mgr2_reach order_refl ostep.revoke [OF mgr3_facts(1)]] .

theorem revoked_never_usable_witness: "use_lease 0 mgr3 ''02'' = (mgr3, Inl NotActive)"
proof -
  have "revoked_at (leases_of (quiet mgr3 0)) ''01''"
    using mgr3_facts(2) by (simp add: revoked_at_def is_revoked_def)
  moreover have "(''01'', ''02'') \<in> (child_rel (leases_of (quiet mgr3 0)))\<^sup>*"
    by (rule r_into_rtrancl) (simp add: child_rel_def children_of_def mgr3_facts(2))
  ultimately show ?thesis
    using revoked_never_usable [OF oreach_reachable [OF mgr3_reach] _ rtranclp.rtrancl_refl] by simp
qed

theorem lease_limits_witness:
  "lm_leases mgr1 ''01'' = Some lease1 \<and> l_expires_at lease1 = l_created_at lease1 + sint (l_ttl_seconds lease1) * nanos \<and>
     l_max_cumulative_ttl_seconds lease1 \<le> 14400"
proof -
  have l: "lm_leases mgr1 ''01'' = Some lease1" by (simp add: mgr1_leases)
  have "l_renewals_used lease1 = 0" by (simp add: lease1_def)
  with l show ?thesis
    using lease_limits [OF oreach_reachable [OF mgr1_reach] sample_chrono_ok, of "''01''" lease1] by simp
qed

theorem lease_token_and_pins_witness:
  "\<exists>l. lm_leases mgr2 ''02'' = Some l \<and>
     verify_lease_token sample_hmac (lm_gate_key mgr2) ''02'' (l_agent_fingerprint_hash l)
       (l_channel_binding_nonce l) (l_lease_token l) = Ret True"
proof -
  obtain l where l: "lm_leases mgr2 ''02'' = Some l" using mgr2_leases(2) by auto
  then show ?thesis
    using lease_token_and_pins [OF oreach_reachable [OF mgr2_reach] sample_chrono_ok, of "''02''" l]
    by simp
qed

theorem delegate_sound_witness:
  "\<exists>c p. lm_leases mgr1 ''01'' = Some p \<and> lm_leases mgr2 (l_lease_id c) = Some c \<and>
     l_expires_at c \<le> l_expires_at p"
proof -
  have "chrono_ok (env_chrono (sample_env 2))" by (simp add: sample_env_def sample_chrono_ok)
  from delegate_sound [OF this order_refl order_refl run_delegate] show ?thesis by auto
qed

theorem agent_death_revokes_witness:
  "\<exists>self' revoked. revoke_agent_leases mgr2 (replicate 32 2) ''died'' = Some (self', Inr revoked) \<and>
     ''02'' \<in> set revoked"
proof -
  obtain l where "lm_leases mgr2 ''01'' = Some l" "l_status l = Active" "l_parent_lease_id l = None"
    "l_agent_fingerprint_hash l = replicate 32 2"
    using mgr2_leases(1) by (auto simp: lease1_def)
  with agent_death_revokes [OF mgr2_reach, of "replicate 32 2" "''died''"] mgr2_child
  show ?thesis by blast
qed

theorem operations_refine_sections_witness:
  "(lstep sample_hmac sample_chrono)\<^sup>*\<^sup>* \<lparr>w_mgr = mgr1, w_pending = [], w_now = 0\<rparr>
     \<lparr>w_mgr = mgr2, w_pending = [], w_now = 0\<rparr>"
  by (rule operations_refine_sections [OF mgr2_step])

text \<open>
  Delegation does not bound the child by its parent over time: a run creates a lease for
  100 seconds and one request, delegates it and renews the child, after which the child is
  active, outlives its parent by 50 seconds and has no request limit at all.
\<close>

theorem delegated_lease_escapes_parent:
  "\<exists>self p c. oreach sample_hmac sample_chrono 0 self \<and>
     lm_leases self ''01'' = Some p \<and> lm_leases self ''02'' = Some c \<and>
     l_parent_lease_id c = Some ''01'' \<and> l_status c = Active \<and>
     l_expires_at c = l_expires_at p + 50 * nanos \<and>
     l_max_requests p = Some 1 \<and> l_max_requests c = None"
proof -
  let ?c = "lease2\<lparr>l_expires_at := 150 * nanos, l_cumulative_ttl_seconds := 150, l_renewals_used := 1\<rparr>"
  have l2: "l_expires_at lease2 = 100 * nanos" "l_cumulative_ttl_seconds lease2 = 100"
    "l_renewals_used lease2 = 0" "l_max_renewals lease2 = 3" "l_max_cumulative_ttl_seconds lease2 = 14400"
    "l_renewable lease2" "l_status lease2 = Active" "l_parent_lease_id lease2 = Some ''01''"
    "l_max_requests lease2 = None"
    by (simp_all add: lease2_def child_lease_def lease1_def)
  have "\<exists>self'. renew_lease sample_chrono 0 mgr2 ''02'' 50 = Ret (self', Inr ()) \<and>
      lm_leases self' = (lm_leases mgr2)(''02'' \<mapsto> ?c)"
    by (simp add: renew_lease_def mgr2_leases l2 is_expired_def sample_sint sample_add Let_def)
      (simp add: nanos_def)
  then obtain self' where self': "renew_lease sample_chrono 0 mgr2 ''02'' 50 = Ret (self', Inr ())"
    "lm_leases self' = (lm_leases mgr2)(''02'' \<mapsto> ?c)"
    by blast
  have "oreach sample_hmac sample_chrono 0 self'"
    using oreach.step [OF mgr2_reach order_refl ostep.renew [OF self'(1)]] .
  moreover have "l_expires_at ?c = l_expires_at (lease1\<lparr>l_child_lease_ids := [''02'']\<rparr>) + 50 * nanos"
    "l_max_requests (lease1\<lparr>l_child_lease_ids := [''02'']\<rparr>) = Some 1"
    by (simp_all add: lease1_def nanos_def)
  ultimately show ?thesis using self'(2) mgr2_leases(1) l2 by (intro exI [of _ self'])  simp
qed

text \<open>
  Revoking the leases of an agent passes over leases that were delegated to it: in a
  reachable state where the agent holds one active delegated lease, the operation succeeds,
  revokes nothing, drops the agent from the index and leaves the lease active.
\<close>

theorem delegated_lease_survives_death:
  "oreach sample_hmac sample_chrono 0 mgr2 \<and>
   (\<exists>self' l. revoke_agent_leases mgr2 (replicate 32 3) ''agent process died'' = Some (self', Inr []) \<and>
      lm_agent_leases self' (replicate 32 3) = None \<and>
      lm_leases self' ''02'' = Some l \<and> l_status l = Active \<and>
      l_agent_fingerprint_hash l = replicate 32 3)"
proof
  have tree: "lease_tree (lm_leases mgr2)" using oreach_invariant [OF mgr2_reach] by simp
  obtain self' revoked where r: "revoke_agent_leases mgr2 (replicate 32 3) ''agent process died'' =
      Some (self', Inr revoked)"
    "set revoked = below (lm_leases mgr2) (indexed mgr2 (replicate 32 3))"
    "\<And>j. lm_leases self' j = (if j \<in> set revoked
       then with_status (Revoked ''agent process died'') (lm_leases mgr2 j) else lm_leases mgr2 j)"
    "lm_agent_leases self' (replicate 32 3) = None"
    using revoke_agent_leases_tree [OF tree, of "replicate 32 3" "''agent process died''"] by blast
  have "indexed mgr2 (replicate 32 3) = [''02'']"
    by (simp add: mgr2_def mgr1_def indexed_def index_lease_def insert_lease_def manager_new_def)
  moreover have l2: "l_parent_lease_id lease2 = Some ''01''" "l_status lease2 = Active"
    "l_agent_fingerprint_hash lease2 = replicate 32 3"
    by (simp_all add: lease2_def child_lease_def sample_target_def)
  ultimately have "below (lm_leases mgr2) (indexed mgr2 (replicate 32 3)) = {}"
    using mgr2_leases(2) by (auto simp: below_def is_root_def)
  with r have "revoked = []" "lm_leases self' ''02'' = lm_leases mgr2 ''02''" by simp_all
  with r(1,4) mgr2_leases(2) l2 show
    "\<exists>self' l. revoke_agent_leases mgr2 (replicate 32 3) ''agent process died'' = Some (self', Inr []) \<and>
      lm_agent_leases self' (replicate 32 3) = None \<and>
      lm_leases self' ''02'' = Some l \<and> l_status l = Active \<and>
      l_agent_fingerprint_hash l = replicate 32 3"
    by auto
qed (rule mgr2_reach)

end
