(* ===== verification/Cdp_Proxy_Scope.thy ===== *)
theory Cdp_Proxy_Scope
  imports Cdp_Lease_Ops
begin

text \<open>
  The checks of the proxy crate (\<open>crates/cdp-proxy/src\<close>: \<open>scope.rs\<close>, \<open>redirect.rs\<close>,
  \<open>sanitizer.rs\<close>, \<open>dns.rs\<close>, the error type and the port range of \<open>lib.rs\<close>). The glob compiler,
  the JSON parser, the URI parser and the resolver are arguments. A header map is the list of
  its pairs of name and value, names in lower case; a URI is its parsed parts. The lemmas
  characterise what passes: the scope check exactly, the body check down to its depth bound.
\<close>

section \<open>Errors\<close>

datatype auth_reason =
    Missing_Lease_Token | Missing_Channel_Binding | Binding_Not_Hex | Token_Mismatch
  | Binding_Mismatch | Peer_Pid_Mismatch u32 u32 | Peer_Uid_Mismatch u32 u32
  | Cannot_Read string string | Bad_Inode string | No_Tcp_Entry | No_Process u64
  | Bad_Uid_Line string | Bad_Uid string | No_Uid_Line string

datatype scope_reason =
    Host_Not_Allowed string | Path_Forbidden string | Path_Not_Allowed string
  | Bad_Forbidden_Pattern string | Bad_Allowed_Pattern string | Method_Not_Allowed string
  | Missing_Host | Origin_Not_Allowed string

datatype redirect_reason =
    No_Location u16 | Location_Not_Ascii | Location_Not_Uri string | Location_Without_Host string
  | Redirect_Host_Not_Allowed string | Too_Many_Redirects nat

datatype listener_reason =
    Range_Format string | Bad_Start_Port string string | Bad_End_Port string string
  | Start_After_End nat nat

datatype proxy_error =
    AuthFailed auth_reason
  | ScopeViolation scope_reason
  | DnsPinMismatch (pin_host: string) (pin_resolved: ip_addr) (pin_pinned: "ip_addr list")
  | RedirectBlocked redirect_reason
  | CredentialInjection string
  | PortExhausted u16 u16
  | Listener listener_reason
  | Upstream string
  | BodyTooLarge (body_size: u64) (body_limit: u64)
  | ForbiddenField string
  | ContentTypeNotAllowed string
  | ProxyError_Lease lease_error
  | ProxyError_Crypto crypto_error
  | ProxyError_Io string
  | Hyper string

section \<open>Scope validation\<close>

record globset =
  gs_new :: "string \<Rightarrow> string + (string \<Rightarrow> bool)"
  gs_build :: "(string \<Rightarrow> bool) list \<Rightarrow> string + (string \<Rightarrow> bool)"

definition validate_host :: "string \<Rightarrow> string list \<Rightarrow> proxy_error + unit" where
  "validate_host host allowed_hosts =
     (if allowed_hosts = [] then Inr ()
      else if list_ex (\<lambda>h. h = host) allowed_hosts then Inr ()
      else Inl (ScopeViolation (Host_Not_Allowed host)))"

fun add_globs ::
  "globset \<Rightarrow> (string \<Rightarrow> bool) list \<Rightarrow> string list \<Rightarrow> string + (string \<Rightarrow> bool) list" where
  "add_globs gs builder [] = Inr builder"
| "add_globs gs builder (pattern # patterns) =
     (case gs_new gs pattern of
        Inl e \<Rightarrow> Inl e
      | Inr g \<Rightarrow> add_globs gs (builder @ [g]) patterns)"

definition build_glob_set :: "globset \<Rightarrow> string list \<Rightarrow> string + (string \<Rightarrow> bool)" where
  "build_glob_set gs patterns =
     (case add_globs gs [] patterns of Inl e \<Rightarrow> Inl e | Inr builder \<Rightarrow> gs_build gs builder)"

definition validate_path ::
  "globset \<Rightarrow> string \<Rightarrow> string list \<Rightarrow> string list \<Rightarrow> proxy_error + unit" where
  "validate_path gs path allowed_paths forbidden_paths =
     (let allow =
            (if allowed_paths = [] then Inr ()
             else (case build_glob_set gs allowed_paths of
                     Inl e \<Rightarrow> Inl (ScopeViolation (Bad_Allowed_Pattern e))
                   | Inr allowed_set \<Rightarrow>
                       if allowed_set path then Inr ()
                       else Inl (ScopeViolation (Path_Not_Allowed path)))) in
      if forbidden_paths \<noteq> []
      then (case build_glob_set gs forbidden_paths of
              Inl e \<Rightarrow> Inl (ScopeViolation (Bad_Forbidden_Pattern e))
            | Inr forbidden_set \<Rightarrow>
                if forbidden_set path then Inl (ScopeViolation (Path_Forbidden path)) else allow)
      else allow)"

definition validate_method :: "string \<Rightarrow> string list \<Rightarrow> proxy_error + unit" where
  "validate_method meth allowed_methods =
     (if allowed_methods = [] then Inr ()
      else if list_ex (\<lambda>m. eq_ignore_ascii_case m meth) allowed_methods then Inr ()
      else Inl (ScopeViolation (Method_Not_Allowed meth)))"

definition MAX_JSON_DEPTH :: nat where
  "MAX_JSON_DEPTH = 64"

text \<open>
  The first argument is the number of levels left, \<open>MAX_JSON_DEPTH - depth\<close>. Objects and arrays
  are scanned in order; the first key found wins.
\<close>

fun find_forbidden_field_bounded :: "nat \<Rightarrow> string list \<Rightarrow> json \<Rightarrow> string option"
  and find_in_members :: "nat \<Rightarrow> string list \<Rightarrow> (string \<times> json) list \<Rightarrow> string option"
  and find_in_items :: "nat \<Rightarrow> string list \<Rightarrow> json list \<Rightarrow> string option" where
  "find_forbidden_field_bounded 0 forbidden value = None"
| "find_forbidden_field_bounded (Suc n) forbidden value =
     (case value of
        JObject members \<Rightarrow> find_in_members n forbidden members
      | JArray items \<Rightarrow> find_in_items n forbidden items
      | _ \<Rightarrow> None)"
| "find_in_members n forbidden [] = None"
| "find_in_members n forbidden ((key, child) # rest) =
     (if list_ex (\<lambda>f. f = key) forbidden then Some key
      else (case find_forbidden_field_bounded n forbidden child of
              Some bad \<Rightarrow> Some bad
            | None \<Rightarrow> find_in_members n forbidden rest))"
| "find_in_items n forbidden [] = None"
| "find_in_items n forbidden (item # rest) =
     (case find_forbidden_field_bounded n forbidden item of
        Some bad \<Rightarrow> Some bad
      | None \<Rightarrow> find_in_items n forbidden rest)"

definition find_forbidden_field :: "json \<Rightarrow> string list \<Rightarrow> string option" where
  "find_forbidden_field value forbidden = find_forbidden_field_bounded MAX_JSON_DEPTH forbidden value"

definition validate_body ::
  "(bytes \<Rightarrow> json option) \<Rightarrow> bytes option \<Rightarrow> string option \<Rightarrow> body_constraints \<Rightarrow> proxy_error + unit" where
  "validate_body from_slice body content_type bc =
     (let body_bytes = unwrap_or body [];
          size = (of_nat (length body_bytes) :: u64);
          ct = unwrap_or content_type [];
          media_type = trim (hd (split_on (CHR '';'') ct)) in
      if (case bc_max_size_bytes bc of Some m \<Rightarrow> m < size | None \<Rightarrow> False)
        then Inl (BodyTooLarge size (the (bc_max_size_bytes bc)))
      else if bc_allowed_content_types bc \<noteq> [] \<and>
              \<not> list_ex (\<lambda>allowed. eq_ignore_ascii_case allowed media_type) (bc_allowed_content_types bc)
        then Inl (ContentTypeNotAllowed ct)
      else if bc_forbidden_fields bc \<noteq> [] \<and> body_bytes \<noteq> []
        then (case from_slice body_bytes of
                None \<Rightarrow> Inr ()
              | Some v \<Rightarrow>
                  (case find_forbidden_field v (bc_forbidden_fields bc) of
                     Some bad_field \<Rightarrow> Inl (ForbiddenField bad_field)
                   | None \<Rightarrow> Inr ()))
      else Inr ())"

definition validate_request ::
  "globset \<Rightarrow> (bytes \<Rightarrow> json option) \<Rightarrow> string \<Rightarrow> string \<Rightarrow> string \<Rightarrow> string option \<Rightarrow> bytes option
   \<Rightarrow> scope \<Rightarrow> proxy_error + unit" where
  "validate_request gs from_slice meth host path content_type body sc =
     (case validate_host host (scope_hosts sc) of
        Inl e \<Rightarrow> Inl e
      | Inr _ \<Rightarrow>
          (case validate_path gs path (scope_paths sc) (scope_forbidden_paths sc) of
             Inl e \<Rightarrow> Inl e
           | Inr _ \<Rightarrow>
               (case validate_method meth (scope_methods sc) of
                  Inl e \<Rightarrow> Inl e
                | Inr _ \<Rightarrow>
                    (case scope_body_constraints sc of
                       None \<Rightarrow> Inr ()
                     | Some bc \<Rightarrow> validate_body from_slice body content_type bc))))"

section \<open>Headers, redirects and DNS pins\<close>

text \<open>
  A header map holds, for each name, its values in the order in which they were added, and no order
  between names. It is represented by the list of all entries; the program looks at it, and the
  statements below about single headers are made, through \<open>header_get\<close>, the first value of a name, and
  \<open>header_values\<close>, all of them. Adding an entry at the end of the list appends a value to those of its
  name and leaves the other names alone.
\<close>

type_synonym headers = "(string \<times> string) list"

definition header_values :: "headers \<Rightarrow> string \<Rightarrow> string list" where
  "header_values hs name = map snd (filter (\<lambda>(n, _). n = name) hs)"

definition header_get :: "headers \<Rightarrow> string \<Rightarrow> string option" where
  "header_get hs name = map_of hs name"

definition header_remove :: "string \<Rightarrow> headers \<Rightarrow> headers" where
  "header_remove name hs = filter (\<lambda>(n, _). n \<noteq> name) hs"

definition header_insert :: "string \<Rightarrow> string \<Rightarrow> headers \<Rightarrow> headers" where
  "header_insert name v hs = header_remove name hs @ [(name, v)]"

definition SENSITIVE_RESPONSE_HEADERS :: "string list" where
  "SENSITIVE_RESPONSE_HEADERS =
     [''authorization'', ''set-cookie'', ''www-authenticate'', ''proxy-authorization'']"

definition strip_credential_headers :: "headers \<Rightarrow> headers" where
  "strip_credential_headers hs = fold header_remove SENSITIVE_RESPONSE_HEADERS hs"

record response =
  rs_status :: u16
  rs_headers :: headers
  rs_body :: bytes

definition sanitize_response :: "response \<Rightarrow> response" where
  "sanitize_response r = r\<lparr>rs_headers := strip_credential_headers (rs_headers r)\<rparr>"

record uri =
  uri_scheme :: "string option"
  uri_host :: "string option"
  uri_port :: "u16 option"
  uri_path :: string
  uri_query :: "string option"

datatype redirect_action =
    PassThrough
  | Follow (follow_location: uri) (follow_host: string)
  | Block redirect_reason

text \<open>\<open>to_str\<close> reads a header value as text; \<open>parse_uri\<close> parses a URI.\<close>

definition evaluate_redirect ::
  "(string \<Rightarrow> string option) \<Rightarrow> (string \<Rightarrow> string + uri) \<Rightarrow> u16 \<Rightarrow> headers \<Rightarrow> bool \<Rightarrow> string list
   \<Rightarrow> proxy_error + redirect_action" where
  "evaluate_redirect to_str parse_uri status hs follow_redirects allowed_hosts =
     (if \<not> (300 \<le> status \<and> status < 400) then Inr PassThrough
      else if \<not> follow_redirects then Inr PassThrough
      else (case header_get hs ''location'' of
              None \<Rightarrow> Inl (RedirectBlocked (No_Location status))
            | Some location_header \<Rightarrow>
                (case to_str location_header of
                   None \<Rightarrow> Inl (RedirectBlocked Location_Not_Ascii)
                 | Some location_str \<Rightarrow>
                     (case parse_uri location_str of
                        Inl e \<Rightarrow> Inl (RedirectBlocked (Location_Not_Uri e))
                      | Inr u \<Rightarrow>
                          (case uri_host u of
                             None \<Rightarrow> Inl (RedirectBlocked (Location_Without_Host location_str))
                           | Some host \<Rightarrow>
                               if allowed_hosts = [] \<or> list_ex (\<lambda>h. h = host) allowed_hosts
                               then Inr (Follow u host)
                               else Inr (Block (Redirect_Host_Not_Allowed host)))))))"

definition verify_pinned_ip :: "lease \<Rightarrow> string \<Rightarrow> ip_addr \<Rightarrow> proxy_error + unit" where
  "verify_pinned_ip l host resolved_ip =
     (case l_dns_pinned_ips l host of
        Some pinned_ips \<Rightarrow>
          if resolved_ip \<in> set pinned_ips then Inr ()
          else Inl (DnsPinMismatch host resolved_ip pinned_ips)
      | None \<Rightarrow> Inl (DnsPinMismatch host resolved_ip []))"

fun verify_all_pinned :: "lease \<Rightarrow> string \<Rightarrow> ip_addr list \<Rightarrow> proxy_error + unit" where
  "verify_all_pinned l host [] = Inr ()"
| "verify_all_pinned l host (ip # ips) =
     (case verify_pinned_ip l host ip of Inl e \<Rightarrow> Inl e | Inr _ \<Rightarrow> verify_all_pinned l host ips)"

definition resolve_and_verify :: "resolver \<Rightarrow> lease \<Rightarrow> string \<Rightarrow> proxy_error + ip_addr list" where
  "resolve_and_verify lookup_host l host =
     (case lookup_host (host @ '':0'') of
        Inl e \<Rightarrow> Inl (Upstream (''DNS resolution failed for '' @ host @ '': '' @ e))
      | Inr ips \<Rightarrow>
          if ips = []
          then Inl (Upstream (''DNS resolution for '' @ host @ '' returned no addresses''))
          else (case verify_all_pinned l host ips of Inl e \<Rightarrow> Inl e | Inr _ \<Rightarrow> Inr ips))"

section \<open>Port ranges\<close>

definition split_once :: "char \<Rightarrow> string \<Rightarrow> (string \<times> string) option" where
  "split_once d s =
     (if d \<in> set s then Some (takeWhile (\<lambda>c. c \<noteq> d) s, tl (dropWhile (\<lambda>c. c \<noteq> d) s)) else None)"

definition parse_port_range :: "string \<Rightarrow> proxy_error + u16 \<times> u16" where
  "parse_port_range range_str =
     (case split_once (CHR ''-'') range_str of
        None \<Rightarrow> Inl (Listener (Range_Format range_str))
      | Some (a, b) \<Rightarrow>
          (case parse_uint 65535 (trim a) of
             None \<Rightarrow> Inl (Listener (Bad_Start_Port range_str a))
           | Some start \<Rightarrow>
               (case parse_uint 65535 (trim b) of
                  None \<Rightarrow> Inl (Listener (Bad_End_Port range_str b))
                | Some stop \<Rightarrow>
                    if stop < start then Inl (Listener (Start_After_End start stop))
                    else Inr (of_nat start, of_nat stop))))"

section \<open>Lemmas\<close>

definition globset_ok :: "globset \<Rightarrow> bool" where
  "globset_ok gs \<longleftrightarrow> (\<forall>ms f p. gs_build gs ms = Inr f \<longrightarrow> f p = (\<exists>m \<in> set ms. m p))"

definition glob_accepts :: "globset \<Rightarrow> string \<Rightarrow> string \<Rightarrow> bool" where
  "glob_accepts gs pattern p = (case gs_new gs pattern of Inl _ \<Rightarrow> False | Inr g \<Rightarrow> g p)"

lemma add_globs_Inr:
  "add_globs gs b ps = Inr ms \<Longrightarrow>
   (\<exists>m \<in> set ms. m p) \<longleftrightarrow> (\<exists>m \<in> set b. m p) \<or> (\<exists>pat \<in> set ps. glob_accepts gs pat p)"
proof (induction gs b ps rule: add_globs.induct)
  case (2 gs b pat ps)
  then show ?case
    by (cases "gs_new gs pat") (auto simp: glob_accepts_def)
qed simp

lemma build_glob_set_Inr:
  "globset_ok gs \<Longrightarrow> build_glob_set gs ps = Inr f \<Longrightarrow> f p \<longleftrightarrow> (\<exists>pat \<in> set ps. glob_accepts gs pat p)"
proof -
  assume ok: "globset_ok gs" and "build_glob_set gs ps = Inr f"
  then obtain ms where ms: "add_globs gs [] ps = Inr ms" "gs_build gs ms = Inr f"
    by (auto simp: build_glob_set_def split: sum.splits)
  from ok ms(2) have "f p \<longleftrightarrow> (\<exists>m \<in> set ms. m p)" by (simp add: globset_ok_def)
  with add_globs_Inr [OF ms(1), of p] show ?thesis by simp
qed

lemma validate_path_Inr:
  assumes "globset_ok gs" "validate_path gs p allowed forbidden = Inr ()"
  shows "(allowed = [] \<or> (\<exists>pat \<in> set allowed. glob_accepts gs pat p)) \<and>
    \<not> (\<exists>pat \<in> set forbidden. glob_accepts gs pat p)"
  using assms(2) build_glob_set_Inr [OF assms(1)]
  by (auto simp: validate_path_def Let_def split: if_splits sum.splits)

fun keys_within :: "nat \<Rightarrow> json \<Rightarrow> string set" where
  "keys_within 0 v = {}"
| "keys_within (Suc n) v =
     (case v of
        JObject members \<Rightarrow> (\<Union>(k, c) \<in> set members. insert k (keys_within n c))
      | JArray items \<Rightarrow> (\<Union>c \<in> set items. keys_within n c)
      | _ \<Rightarrow> {})"

lemma find_bounded_None:
  "find_forbidden_field_bounded n forb v = None \<longleftrightarrow> keys_within n v \<inter> set forb = {}"
  "find_in_members n forb ms = None \<longleftrightarrow>
     (\<Union>(k, c) \<in> set ms. insert k (keys_within n c)) \<inter> set forb = {}"
  "find_in_items n forb xs = None \<longleftrightarrow> (\<Union>c \<in> set xs. keys_within n c) \<inter> set forb = {}"
proof (induction n forb v and n forb ms and n forb xs
    rule: find_forbidden_field_bounded_find_in_members_find_in_items.induct)
  case (2 n forb v)
  then show ?case by (cases v) auto
next
  case (4 n forb key child rest)
  then show ?case
    by (cases "find_forbidden_field_bounded n forb child") (auto simp: list_ex_iff)
next
  case (6 n forb item rest)
  then show ?case
    by (cases "find_forbidden_field_bounded n forb item") auto
qed auto

lemma find_bounded_Some:
  "find_forbidden_field_bounded n forb v = Some k \<Longrightarrow> k \<in> keys_within n v \<inter> set forb"
  "find_in_members n forb ms = Some k \<Longrightarrow>
     k \<in> (\<Union>(k, c) \<in> set ms. insert k (keys_within n c)) \<inter> set forb"
  "find_in_items n forb xs = Some k \<Longrightarrow> k \<in> (\<Union>c \<in> set xs. keys_within n c) \<inter> set forb"
proof (induction n forb v and n forb ms and n forb xs
    rule: find_forbidden_field_bounded_find_in_members_find_in_items.induct)
  case (2 n forb v)
  then show ?case by (cases v) auto
next
  case (4 n forb key child rest)
  then show ?case
    by (cases "find_forbidden_field_bounded n forb child") (auto simp: list_ex_iff split: if_splits)
next
  case (6 n forb item rest)
  then show ?case
    by (cases "find_forbidden_field_bounded n forb item") auto
qed auto

lemma fold_header_remove: "fold header_remove ns hs = filter (\<lambda>(n, _). n \<notin> set ns) hs"
  by (induction ns arbitrary: hs) (auto simp: header_remove_def filter_filter intro!: filter_cong)

lemma verify_all_pinned_Inr:
  "verify_all_pinned l host ips = Inr () \<longleftrightarrow> (\<forall>ip \<in> set ips. verify_dns (l_dns_pinned_ips l) host ip)"
  by (induction ips) (auto simp: verify_pinned_ip_def verify_dns_def split: option.splits sum.splits)

lemma resolve_and_verify_Inr:
  assumes "resolve_and_verify lookup l host = Inr ips"
  shows "ips \<noteq> [] \<and> (\<forall>ip \<in> set ips. verify_dns (l_dns_pinned_ips l) host ip) \<and>
    host \<in> dom (l_dns_pinned_ips l)"
proof -
  from assms have ips: "ips \<noteq> []" "\<forall>ip \<in> set ips. verify_dns (l_dns_pinned_ips l) host ip"
    by (auto simp: resolve_and_verify_def split: sum.splits if_splits)
      (metis verify_all_pinned_Inr unit.exhaust)
  then have "verify_dns (l_dns_pinned_ips l) host (hd ips)" by simp
  then have "host \<in> dom (l_dns_pinned_ips l)" by (auto simp: verify_dns_def split: option.splits)
  with ips show ?thesis by simp
qed

section \<open>Properties\<close>

text \<open>What it means that a scope admits a request, given a meaning of patterns and of JSON.\<close>

definition scope_admits ::
  "globset \<Rightarrow> (bytes \<Rightarrow> json option) \<Rightarrow> string \<Rightarrow> string \<Rightarrow> string \<Rightarrow> string option \<Rightarrow> bytes \<Rightarrow> scope
   \<Rightarrow> bool" where
  "scope_admits gs from_slice meth host path ct body sc \<longleftrightarrow>
     open_list (scope_hosts sc) host \<and>
     (scope_methods sc = [] \<or> (\<exists>m \<in> set (scope_methods sc). eq_ignore_ascii_case m meth)) \<and>
     (scope_paths sc = [] \<or> (\<exists>pat \<in> set (scope_paths sc). glob_accepts gs pat path)) \<and>
     \<not> (\<exists>pat \<in> set (scope_forbidden_paths sc). glob_accepts gs pat path) \<and>
     (\<forall>bc. scope_body_constraints sc = Some bc \<longrightarrow>
        within (bc_max_size_bytes bc) (of_nat (length body)) \<and>
        (bc_allowed_content_types bc = [] \<or>
         (\<exists>t \<in> set (bc_allowed_content_types bc).
            eq_ignore_ascii_case t (trim (hd (split_on (CHR '';'') (unwrap_or ct [])))))) \<and>
        (\<forall>v. body \<noteq> [] \<longrightarrow> from_slice body = Some v \<longrightarrow>
           keys_within MAX_JSON_DEPTH v \<inter> set (bc_forbidden_fields bc) = {}))"

lemma validate_body_Inr:
  assumes "validate_body from_slice body ct bc = Inr ()"
  shows "within (bc_max_size_bytes bc) (of_nat (length (unwrap_or body []))) \<and>
    (bc_allowed_content_types bc = [] \<or>
     (\<exists>t \<in> set (bc_allowed_content_types bc).
        eq_ignore_ascii_case t (trim (hd (split_on (CHR '';'') (unwrap_or ct [])))))) \<and>
    (unwrap_or body [] \<noteq> [] \<longrightarrow> from_slice (unwrap_or body []) = Some v \<longrightarrow>
       keys_within MAX_JSON_DEPTH v \<inter> set (bc_forbidden_fields bc) = {})"
proof (intro conjI)
  show "bc_allowed_content_types bc = [] \<or>
     (\<exists>t \<in> set (bc_allowed_content_types bc).
        eq_ignore_ascii_case t (trim (hd (split_on (CHR '';'') (unwrap_or ct [])))))"
    using assms by (auto simp: validate_body_def Let_def list_ex_iff split: if_splits)
  show "within (bc_max_size_bytes bc) (of_nat (length (unwrap_or body [])))"
    using assms by (cases "bc_max_size_bytes bc")
      (auto simp: validate_body_def within_def Let_def not_less split: if_splits)
  show "unwrap_or body [] \<noteq> [] \<longrightarrow> from_slice (unwrap_or body []) = Some v \<longrightarrow>
       keys_within MAX_JSON_DEPTH v \<inter> set (bc_forbidden_fields bc) = {}"
    using assms find_bounded_None(1) [of MAX_JSON_DEPTH "bc_forbidden_fields bc" v]
    by (auto simp: validate_body_def find_forbidden_field_def Let_def split: if_splits option.splits)
qed

lemma validate_request_scope:
  assumes "globset_ok gs" "validate_request gs from_slice meth host path ct body sc = Inr ()"
  shows "scope_admits gs from_slice meth host path ct (unwrap_or body []) sc"
proof -
  from assms(2) have parts: "validate_host host (scope_hosts sc) = Inr ()"
    "validate_path gs path (scope_paths sc) (scope_forbidden_paths sc) = Inr ()"
    "validate_method meth (scope_methods sc) = Inr ()"
    "\<And>bc. scope_body_constraints sc = Some bc \<Longrightarrow> validate_body from_slice body ct bc = Inr ()"
    by (auto simp: validate_request_def split: sum.splits)
  have "open_list (scope_hosts sc) host"
    using parts(1) by (auto simp: validate_host_def open_list_def list_ex_iff split: if_splits)
  moreover have "scope_methods sc = [] \<or> (\<exists>m \<in> set (scope_methods sc). eq_ignore_ascii_case m meth)"
    using parts(3) by (auto simp: validate_method_def list_ex_iff split: if_splits)
  ultimately show ?thesis
    using validate_path_Inr [OF assms(1) parts(2)] validate_body_Inr [OF parts(4)]
    unfolding scope_admits_def by blast
qed

text \<open>
  A request that passes the scope check is admitted by the scope: its host, method and path
  are allowed, no forbidden pattern matches the path, the body is within the size limit and of an
  allowed content type, and no forbidden field occurs in it within 64 levels.
\<close>

theorem validate_request_sound:
  assumes "globset_ok gs" "validate_request gs from_slice meth host path ct body sc = Inr ()"
  shows "scope_admits gs from_slice meth host path ct (unwrap_or body []) sc"
  using assms by (rule validate_request_scope)

text \<open>
  The search for forbidden fields is exact on the first 64 levels: it finds nothing exactly
  when no forbidden key occurs there, and what it finds is a forbidden key that occurs.
\<close>

theorem find_forbidden_field_exact:
  "(find_forbidden_field v forb = None \<longleftrightarrow> keys_within 64 v \<inter> set forb = {}) \<and>
   set_option (find_forbidden_field v forb) \<subseteq> keys_within 64 v \<inter> set forb"
  using find_bounded_None(1) find_bounded_Some(1)
  by (auto simp: find_forbidden_field_def MAX_JSON_DEPTH_def elim!: option.set_cases)

text \<open>
  Below the depth bound the search fails open: a forbidden key inside 64 nested arrays is
  not found.
\<close>

theorem find_forbidden_field_fails_open:
  "find_forbidden_field (((\<lambda>v. JArray [v]) ^^ 64) (JObject [(k, JNull)])) [k] = None"
proof -
  have "find_forbidden_field_bounded n [k] (((\<lambda>v. JArray [v]) ^^ n) w) = None" for n w
    by (induction n) simp_all
  then show ?thesis by (simp add: find_forbidden_field_def MAX_JSON_DEPTH_def)
qed

text \<open>
  Sanitising a response removes every authorization, set-cookie, www-authenticate and
  proxy-authorization header, all values of a repeated one included, and keeps the other
  headers, their order, the status and the body.
\<close>

theorem sanitize_response_exact:
  "sanitize_response r = r\<lparr>rs_headers := filter (\<lambda>(n, _). n \<notin> {''authorization'', ''set-cookie'',
     ''www-authenticate'', ''proxy-authorization''}) (rs_headers r)\<rparr>"
proof -
  have "set SENSITIVE_RESPONSE_HEADERS =
      {''authorization'', ''set-cookie'', ''www-authenticate'', ''proxy-authorization''}"
    by (simp add: SENSITIVE_RESPONSE_HEADERS_def)
  then show ?thesis
    by (simp only: sanitize_response_def strip_credential_headers_def fold_header_remove)
qed

text \<open>
  A printed port range parses back to its bounds.
\<close>

theorem parse_port_range_roundtrip:
  assumes "a \<le> b" "b \<le> 65535"
  shows "parse_port_range (show_nat a @ ''-'' @ show_nat b) = Inr (of_nat a, of_nat b)"
proof -
  have "CHR ''-'' \<notin> set (show_nat a)" using show_nat_plain by fastforce
  then have "split_once (CHR ''-'') (show_nat a @ ''-'' @ show_nat b) = Some (show_nat a, show_nat b)"
    by (simp add: split_once_def takeWhile_append dropWhile_append)
  moreover have "trim (show_nat n) = show_nat n" for n by (rule trim_plain) (simp_all add: show_nat_plain)
  ultimately show ?thesis using assms by (simp add: parse_port_range_def parse_uint_show_nat)
qed

section \<open>Witnesses\<close>

text \<open>Patterns that match themselves only, and a parser for the body that is one object.\<close>

definition exact_globs :: globset where
  "exact_globs = \<lparr>gs_new = (\<lambda>pat. Inr (\<lambda>p. p = pat)), gs_build = (\<lambda>ms. Inr (\<lambda>p. \<exists>m \<in> set ms. m p))\<rparr>"

lemma exact_globs_ok: "globset_ok exact_globs"
  by (simp add: globset_ok_def exact_globs_def)

definition sample_scope :: scope where
  "sample_scope = scope_default\<lparr>scope_hosts := [''h''], scope_methods := [''GET''],
     scope_paths := [''/a''], scope_forbidden_paths := [''/b'']\<rparr>"

theorem validate_request_sound_witness:
  "scope_admits exact_globs (\<lambda>_. None) ''get'' ''h'' ''/a'' None [] sample_scope"
proof -
  have "eq_ignore_ascii_case ''GET'' ''get''" by code_simp
  then have "validate_request exact_globs (\<lambda>_. None) ''get'' ''h'' ''/a'' None None sample_scope = Inr ()"
    by (simp add: validate_request_def validate_host_def validate_path_def validate_method_def
        build_glob_set_def exact_globs_def sample_scope_def scope_default_def)
  from validate_request_sound [OF exact_globs_ok this] show ?thesis by (simp add: unwrap_or_def)
qed

theorem parse_port_range_roundtrip_witness: "parse_port_range ''80-99'' = Inr (80, 99)"
proof -
  have "show_nat 80 = ''80''" "show_nat 99 = ''99''" by code_simp+
  then show ?thesis using parse_port_range_roundtrip [of 80 99] by simp
qed

end
