(* ===== verification/Cdp_Proxy_Auth.thy ===== *)
theory Cdp_Proxy_Auth
  imports Cdp_Proxy_Scope
begin

text \<open>
  Triple authentication of proxied requests (\<open>crates/cdp-proxy/src/auth.rs\<close>): the lease token,
  the channel binding and the identity of the peer process, found through the tables of
  \<open>/proc\<close>. The file system is the record \<open>proc_fs\<close>; \<open>to_str\<close> reads a header value as text.
  The property states exactly when a request is authenticated.
\<close>

section \<open>Addresses in the kernel tables\<close>

record sock_addr =
  sa_ip :: ip_addr
  sa_port :: u16

definition upper_digit :: "nat \<Rightarrow> char" where
  "upper_digit d = (if d < 10 then char_of (48 + d) else char_of (55 + d))"

text \<open>The low \<open>n\<close> hexadecimal digits of a number, upper case: \<open>{:0nX}\<close> for a value that fits.\<close>

fun hex_upper :: "nat \<Rightarrow> nat \<Rightarrow> string" where
  "hex_upper 0 v = []"
| "hex_upper (Suc n) v = upper_digit (v div 16 ^ n mod 16) # hex_upper n v"

fun from_le_bytes :: "bytes \<Rightarrow> nat" where
  "from_le_bytes [] = 0"
| "from_le_bytes (b # bs) = unat b + 256 * from_le_bytes bs"

definition ipv4_to_proc_hex :: "u32 \<Rightarrow> string" where
  "ipv4_to_proc_hex ip = hex_upper 8 (from_le_bytes (be_bytes 4 (unat ip)))"

definition octets :: "128 word \<Rightarrow> bytes" where
  "octets ip = be_bytes 16 (unat ip)"

definition ipv6_to_proc_hex :: "128 word \<Rightarrow> string" where
  "ipv6_to_proc_hex ip =
     (let o16 = octets ip in
      concat (map (\<lambda>i. hex_upper 8 (from_le_bytes (take 4 (drop (4 * i) o16)))) [0..<4]))"

definition proc_address :: "sock_addr \<Rightarrow> string" where
  "proc_address a =
     (case sa_ip a of V4 v4 \<Rightarrow> ipv4_to_proc_hex v4 | V6 v6 \<Rightarrow> ipv6_to_proc_hex v6)
     @ '':'' @ hex_upper 4 (unat (sa_port a))"

section \<open>Finding the peer\<close>

record proc_fs =
  pf_read_to_string :: "string \<Rightarrow> string + string"
  pf_read_proc :: "string + string list"
  pf_read_fds :: "u32 \<Rightarrow> string option list option"

text \<open>
  \<open>pf_read_fds pid\<close> is the directory of open descriptors of a process, \<open>None\<close> when it cannot be
  read; an element is the target of a link, \<open>None\<close> when the link cannot be read.
\<close>

fun scan_tcp :: "string \<Rightarrow> string list \<Rightarrow> proxy_error + u64" where
  "scan_tcp target_local [] = Inl (AuthFailed No_Tcp_Entry)"
| "scan_tcp target_local (line # ls) =
     (let flds = split_whitespace line in
      if length flds < 10 then scan_tcp target_local ls
      else if flds ! 1 = target_local
      then (case parse_uint (2 ^ 64 - 1) (flds ! 9) of
              None \<Rightarrow> Inl (AuthFailed (Bad_Inode (flds ! 9)))
            | Some inode \<Rightarrow> Inr (of_nat inode))
      else scan_tcp target_local ls)"

definition parse_proc_net_tcp :: "string \<Rightarrow> sock_addr \<Rightarrow> proxy_error + u64" where
  "parse_proc_net_tcp content target_addr =
     scan_tcp (proc_address target_addr) (drop 1 (lines content))"

definition find_socket_inode :: "proc_fs \<Rightarrow> sock_addr \<Rightarrow> proxy_error + u64" where
  "find_socket_inode fs remote_addr =
     (let proc_path = (case sa_ip remote_addr of V4 _ \<Rightarrow> ''/proc/net/tcp'' | V6 _ \<Rightarrow> ''/proc/net/tcp6'') in
      case pf_read_to_string fs proc_path of
        Inl e \<Rightarrow> Inl (AuthFailed (Cannot_Read proc_path e))
      | Inr content \<Rightarrow> parse_proc_net_tcp content remote_addr)"

fun scan_pids :: "proc_fs \<Rightarrow> u64 \<Rightarrow> string \<Rightarrow> string list \<Rightarrow> proxy_error + u32" where
  "scan_pids fs target_inode target_link [] = Inl (AuthFailed (No_Process target_inode))"
| "scan_pids fs target_inode target_link (name # names) =
     (case parse_uint (2 ^ 32 - 1) name of
        None \<Rightarrow> scan_pids fs target_inode target_link names
      | Some pid \<Rightarrow>
          (case pf_read_fds fs (of_nat pid) of
             None \<Rightarrow> scan_pids fs target_inode target_link names
           | Some fds \<Rightarrow>
               if list_ex (\<lambda>t. t = Some target_link) fds then Inr (of_nat pid)
               else scan_pids fs target_inode target_link names))"

definition find_pid_for_inode :: "proc_fs \<Rightarrow> u64 \<Rightarrow> proxy_error + u32" where
  "find_pid_for_inode fs target_inode =
     (case pf_read_proc fs of
        Inl e \<Rightarrow> Inl (AuthFailed (Cannot_Read ''/proc'' e))
      | Inr names \<Rightarrow>
          scan_pids fs target_inode (''socket:['' @ show_nat (unat target_inode) @ '']'') names)"

fun scan_uid :: "string \<Rightarrow> string list \<Rightarrow> proxy_error + u32" where
  "scan_uid status_path [] = Inl (AuthFailed (No_Uid_Line status_path))"
| "scan_uid status_path (line # ls) =
     (case strip_prefix ''Uid:'' line of
        None \<Rightarrow> scan_uid status_path ls
      | Some rest \<Rightarrow>
          (let flds = split_whitespace rest in
           if length flds < 2 then Inl (AuthFailed (Bad_Uid_Line status_path))
           else (case parse_uint (2 ^ 32 - 1) (flds ! 1) of
                   None \<Rightarrow> Inl (AuthFailed (Bad_Uid status_path))
                 | Some uid \<Rightarrow> Inr (of_nat uid))))"

definition read_uid_for_pid :: "proc_fs \<Rightarrow> u32 \<Rightarrow> proxy_error + u32" where
  "read_uid_for_pid fs pid =
     (let status_path = ''/proc/'' @ show_nat (unat pid) @ ''/status'' in
      case pf_read_to_string fs status_path of
        Inl e \<Rightarrow> Inl (AuthFailed (Cannot_Read status_path e))
      | Inr content \<Rightarrow> scan_uid status_path (lines content))"

definition resolve_tcp_peer :: "proc_fs \<Rightarrow> sock_addr \<Rightarrow> proxy_error + u32 \<times> u32" where
  "resolve_tcp_peer fs remote_addr =
     (case find_socket_inode fs remote_addr of
        Inl e \<Rightarrow> Inl e
      | Inr inode \<Rightarrow>
          (case find_pid_for_inode fs inode of
             Inl e \<Rightarrow> Inl e
           | Inr pid \<Rightarrow>
               (case read_uid_for_pid fs pid of Inl e \<Rightarrow> Inl e | Inr uid \<Rightarrow> Inr (pid, uid))))"

section \<open>Authentication\<close>

definition HEADER_LEASE_TOKEN :: string where
  "HEADER_LEASE_TOKEN = ''x-cdp-lease-token''"

definition HEADER_CHANNEL_BINDING :: string where
  "HEADER_CHANNEL_BINDING = ''x-cdp-channel-binding''"

definition extract_header :: "(string \<Rightarrow> string option) \<Rightarrow> headers \<Rightarrow> string \<Rightarrow> string option" where
  "extract_header to_str hs name =
     (case header_get hs name of None \<Rightarrow> None | Some v \<Rightarrow> to_str v)"

definition auth_hex_to_bytes :: "string \<Rightarrow> bytes option outcome" where
  "auth_hex_to_bytes hex = (if length hex mod 2 \<noteq> 0 then Ret None else decode_pairs hex)"

interpretation auth_hex: hex_codec auth_hex_to_bytes
proof
  show "auth_hex_to_bytes (hex_encode bs) = Ret (Some bs)" for bs
    by (simp add: auth_hex_to_bytes_def decode_pairs_hex_encode)
  show "is_ascii s \<Longrightarrow> auth_hex_to_bytes s \<noteq> Panic" for s
    by (simp add: auth_hex_to_bytes_def decode_pairs_ascii)
qed

definition authenticate ::
  "hmac_fun \<Rightarrow> (string \<Rightarrow> string option) \<Rightarrow> proc_fs \<Rightarrow> sock_addr \<Rightarrow> headers \<Rightarrow> string \<Rightarrow> lease \<Rightarrow> bytes
   \<Rightarrow> (proxy_error + unit) outcome" where
  "authenticate hmac to_str fs remote_addr hs lease_id l gate_key =
     (case extract_header to_str hs HEADER_LEASE_TOKEN of
        None \<Rightarrow> Ret (Inl (AuthFailed Missing_Lease_Token))
      | Some token_str \<Rightarrow>
          (case extract_header to_str hs HEADER_CHANNEL_BINDING of
             None \<Rightarrow> Ret (Inl (AuthFailed Missing_Channel_Binding))
           | Some cb_hex \<Rightarrow>
               (case auth_hex_to_bytes cb_hex of
                  Panic \<Rightarrow> Panic
                | Ret None \<Rightarrow> Ret (Inl (AuthFailed Binding_Not_Hex))
                | Ret (Some cb_bytes) \<Rightarrow>
                    (case verify_lease_token hmac gate_key lease_id (l_agent_fingerprint_hash l)
                            (l_channel_binding_nonce l) token_str of
                       Panic \<Rightarrow> Panic
                     | Ret False \<Rightarrow> Ret (Inl (AuthFailed Token_Mismatch))
                     | Ret True \<Rightarrow>
                         if \<not> verify_binding (l_channel_binding_nonce l) cb_bytes
                         then Ret (Inl (AuthFailed Binding_Mismatch))
                         else (case resolve_tcp_peer fs remote_addr of
                                 Inl e \<Rightarrow> Ret (Inl e)
                               | Inr (peer_pid, peer_uid) \<Rightarrow>
                                   if peer_pid \<noteq> l_agent_pid l
                                   then Ret (Inl (AuthFailed (Peer_Pid_Mismatch peer_pid (l_agent_pid l))))
                                   else if peer_uid \<noteq> l_agent_uid l
                                   then Ret (Inl (AuthFailed (Peer_Uid_Mismatch peer_uid (l_agent_uid l))))
                                   else Ret (Inr ()))))))"

section \<open>Lemmas\<close>

text \<open>A header value read as text is ASCII: the documented behaviour of \<open>HeaderValue::to_str\<close>.\<close>

definition to_str_ok :: "(string \<Rightarrow> string option) \<Rightarrow> bool" where
  "to_str_ok to_str \<longleftrightarrow> (\<forall>v s. to_str v = Some s \<longrightarrow> s = v \<and> is_ascii v)"

lemma extract_header_ascii:
  "to_str_ok to_str \<Longrightarrow> extract_header to_str hs name = Some s \<Longrightarrow> is_ascii s"
  by (auto simp: extract_header_def to_str_ok_def split: option.splits)

lemma verify_lease_token_ascii: "is_ascii tok \<Longrightarrow> verify_lease_token hmac k i fp n tok \<noteq> Panic"
  by (cases rule: token_hex.dec_ascii_cases [of tok]) (auto simp: verify_lease_token_def)

lemma authenticate_no_panic:
  assumes "to_str_ok to_str"
  shows "authenticate hmac to_str fs ra hs i l k \<noteq> Panic"
proof -
  have "verify_lease_token hmac k i fp n tok \<noteq> Panic"
    if "extract_header to_str hs HEADER_LEASE_TOKEN = Some tok" for tok fp n
    using extract_header_ascii [OF assms that] by (rule verify_lease_token_ascii)
  moreover have "auth_hex_to_bytes cb \<noteq> Panic"
    if "extract_header to_str hs HEADER_CHANNEL_BINDING = Some cb" for cb
    using extract_header_ascii [OF assms that] by (rule auth_hex.dec_ascii)
  ultimately show ?thesis
    by (auto simp: authenticate_def split: option.splits outcome.splits bool.splits sum.splits)
qed

lemma authenticate_Inr:
  "authenticate hmac to_str fs ra hs i l k = Ret (Inr ()) \<longleftrightarrow>
     (\<exists>tok cb bs. extract_header to_str hs HEADER_LEASE_TOKEN = Some tok \<and>
        extract_header to_str hs HEADER_CHANNEL_BINDING = Some cb \<and>
        auth_hex_to_bytes cb = Ret (Some bs) \<and>
        verify_lease_token hmac k i (l_agent_fingerprint_hash l) (l_channel_binding_nonce l) tok =
          Ret True \<and>
        verify_binding (l_channel_binding_nonce l) bs) \<and>
     resolve_tcp_peer fs ra = Inr (l_agent_pid l, l_agent_uid l)"
  by (auto simp: authenticate_def split: option.splits outcome.splits bool.splits sum.splits if_splits)

lemma upper_digit_inject: "a < 16 \<Longrightarrow> b < 16 \<Longrightarrow> upper_digit a = upper_digit b \<longleftrightarrow> a = b"
proof
  assume "a < 16" "b < 16" "upper_digit a = upper_digit b"
  then have "(of_char (upper_digit a) :: nat) = of_char (upper_digit b)" by simp
  with \<open>a < 16\<close> \<open>b < 16\<close> show "a = b" by (auto simp: upper_digit_def split: if_splits)
qed simp

lemma length_hex_upper [simp]: "length (hex_upper n v) = n"
  by (induction n) auto

lemma hex_upper_mod: "hex_upper n v = hex_upper n w \<Longrightarrow> v mod 16 ^ n = w mod 16 ^ n"
proof (induction n)
  case (Suc n)
  have split: "x mod 16 ^ Suc n = 16 ^ n * (x div 16 ^ n mod 16) + x mod 16 ^ n" for x :: nat
    using mod_mult2_eq [of x "16 ^ n" 16] by (simp add: mult.commute)
  from Suc.prems have "v div 16 ^ n mod 16 = w div 16 ^ n mod 16" "hex_upper n v = hex_upper n w"
    by (simp_all add: upper_digit_inject)
  with Suc.IH show ?case unfolding split by simp
qed simp

lemma hex_upper_inject: "v < 16 ^ n \<Longrightarrow> w < 16 ^ n \<Longrightarrow> hex_upper n v = hex_upper n w \<longleftrightarrow> v = w"
  using hex_upper_mod [of n v w] by auto

lemma from_le_bytes_less: "from_le_bytes bs < 256 ^ length bs"
proof (induction bs)
  case (Cons b bs)
  have "unat b + 256 * from_le_bytes bs < 256 * (1 + from_le_bytes bs)"
    using unat_u8_less [of b] by simp
  also have "\<dots> \<le> 256 * 256 ^ length bs" using Cons by (intro mult_left_mono) auto
  finally show ?case by simp
qed simp

lemma from_le_bytes_inject:
  "length a = length b \<Longrightarrow> from_le_bytes a = from_le_bytes b \<longleftrightarrow> a = b"
proof (induction a b rule: list_induct2)
  case (Cons x xs y ys)
  have "unat x = unat y \<and> from_le_bytes xs = from_le_bytes ys"
    if eq: "unat x + 256 * from_le_bytes xs = unat y + 256 * from_le_bytes ys"
  proof -
    have "(unat x + 256 * from_le_bytes xs) mod 256 = (unat y + 256 * from_le_bytes ys) mod 256"
      by (simp only: eq)
    then have "unat x = unat y" using unat_u8_less [of x] unat_u8_less [of y] by simp
    with eq show ?thesis by simp
  qed
  with Cons show ?case by (auto simp: word_unat_eq_iff)
qed simp

lemma hex_le_inject:
  "length a = 4 \<Longrightarrow> length b = 4 \<Longrightarrow>
   hex_upper 8 (from_le_bytes a) = hex_upper 8 (from_le_bytes b) \<longleftrightarrow> a = b"
proof -
  assume len: "length a = 4" "length b = 4"
  have "from_le_bytes a < 16 ^ 8" "from_le_bytes b < 16 ^ 8"
    using from_le_bytes_less [of a] from_le_bytes_less [of b] len by simp_all
  with len show ?thesis by (simp only: hex_upper_inject from_le_bytes_inject)
qed

lemma unat_less_pow: "unat (x :: 'a :: len word) < 2 ^ LENGTH('a)"
  using unsigned_less [of x, where 'a = nat] by simp

lemma ipv4_to_proc_hex_inject: "ipv4_to_proc_hex a = ipv4_to_proc_hex b \<longleftrightarrow> a = b"
proof -
  have "unat a < 256 ^ 4" "unat b < 256 ^ 4"
    using unat_less_pow [of a] unat_less_pow [of b] by simp_all
  then show ?thesis
    by (simp add: ipv4_to_proc_hex_def hex_le_inject be_bytes_inject word_unat_eq_iff del: be_bytes.simps)
qed

lemma take_drop_16:
  assumes "length xs = 16"
  shows "xs = take 4 (drop 0 xs) @ take 4 (drop 4 xs) @ take 4 (drop 8 xs) @ take 4 (drop 12 xs)"
proof -
  have "take 4 (drop 12 xs) = drop 12 xs" using assms by simp
  moreover have "take 4 (drop 8 xs) @ drop 12 xs = drop 8 xs"
    using append_take_drop_id [of 4 "drop 8 xs"] by simp
  moreover have "take 4 (drop 4 xs) @ drop 8 xs = drop 4 xs"
    using append_take_drop_id [of 4 "drop 4 xs"] by simp
  ultimately show ?thesis by simp
qed

lemma ipv6_to_proc_hex_inject: "ipv6_to_proc_hex a = ipv6_to_proc_hex b \<longleftrightarrow> a = b"
proof
  assume eq: "ipv6_to_proc_hex a = ipv6_to_proc_hex b"
  have len: "length (octets x) = 16" for x by (simp add: octets_def del: be_bytes.simps)
  have range: "[0..<4] = [0, 1, 2, 3 :: nat]" by (simp add: upt_rec)
  have "\<forall>i \<in> {0, 1, 2, 3}. hex_upper 8 (from_le_bytes (take 4 (drop (4 * i) (octets a)))) =
      hex_upper 8 (from_le_bytes (take 4 (drop (4 * i) (octets b))))"
    using eq by (simp add: ipv6_to_proc_hex_def Let_def range append_eq_append_conv)
  then have "\<forall>i \<in> {0, 1, 2, 3}. take 4 (drop (4 * i) (octets a)) = take 4 (drop (4 * i) (octets b))"
    by (simp add: hex_le_inject len)
  then have "octets a = octets b"
    using take_drop_16 [OF len, of a] take_drop_16 [OF len, of b] by simp
  moreover have "unat a < 256 ^ 16" "unat b < 256 ^ 16"
    using unat_less_pow [of a] unat_less_pow [of b] by simp_all
  ultimately show "a = b" unfolding octets_def by (simp only: be_bytes_inject word_unat_eq_iff)
qed simp

section \<open>Properties\<close>

text \<open>
  C28. Triple authentication. For a lease with a 32-byte nonce and header values that read as
  ASCII, authentication never panics, and it succeeds exactly when the token header carries a
  token that verifies for the lease, the binding header decodes to the nonce of the lease, and
  the peer process found through the kernel tables has the recorded process and user.
\<close>

theorem authenticate_iff:
  assumes "to_str_ok to_str" "length (l_channel_binding_nonce l) = 32"
  shows "authenticate hmac to_str fs ra hs i l k \<noteq> Panic \<and>
    (authenticate hmac to_str fs ra hs i l k = Ret (Inr ()) \<longleftrightarrow>
     (\<exists>tok. extract_header to_str hs HEADER_LEASE_TOKEN = Some tok \<and>
        verify_lease_token hmac k i (l_agent_fingerprint_hash l) (l_channel_binding_nonce l) tok =
          Ret True) \<and>
     (\<exists>cb. extract_header to_str hs HEADER_CHANNEL_BINDING = Some cb \<and>
        auth_hex_to_bytes cb = Ret (Some (l_channel_binding_nonce l))) \<and>
     resolve_tcp_peer fs ra = Inr (l_agent_pid l, l_agent_uid l))"
  using authenticate_no_panic [OF assms(1)] binding_eq.eq_iff [OF assms(2)]
  unfolding authenticate_Inr by auto

text \<open>
  The key used to look up a peer in the kernel tables identifies its socket address: two
  addresses have the same key only if they are equal, for both address families.
\<close>

theorem proc_address_inject: "proc_address a = proc_address b \<longleftrightarrow> a = b"
proof
  assume eq: "proc_address a = proc_address b"
  have len4: "length (ipv4_to_proc_hex x) = 8" for x by (simp add: ipv4_to_proc_hex_def)
  have len6: "length (ipv6_to_proc_hex x) = 32" for x
    by (simp add: ipv6_to_proc_hex_def Let_def upt_rec)
  have port: "hex_upper 4 (unat p) = hex_upper 4 (unat q) \<longleftrightarrow> p = q" for p q :: u16
    using unat_less_pow [of p] unat_less_pow [of q] by (simp add: hex_upper_inject word_unat_eq_iff)
  have "length (proc_address a) = length (proc_address b)" using eq by simp
  then have "(\<exists>x y. sa_ip a = V4 x \<and> sa_ip b = V4 y) \<or> (\<exists>x y. sa_ip a = V6 x \<and> sa_ip b = V6 y)"
    by (cases "sa_ip a"; cases "sa_ip b") (simp_all add: proc_address_def len4 len6)
  then have "sa_ip a = sa_ip b \<and> sa_port a = sa_port b"
  proof (elim disjE exE conjE)
    fix x y
    assume "sa_ip a = V4 x" "sa_ip b = V4 y"
    with eq show ?thesis
      by (simp add: proc_address_def append_eq_append_conv len4 ipv4_to_proc_hex_inject port)
  next
    fix x y
    assume "sa_ip a = V6 x" "sa_ip b = V6 y"
    with eq show ?thesis
      by (simp add: proc_address_def append_eq_append_conv len6 ipv6_to_proc_hex_inject port)
  qed
  then show "a = b" by simp
qed simp

section \<open>Witnesses\<close>

definition ascii_to_str :: "string \<Rightarrow> string option" where
  "ascii_to_str v = (if is_ascii v then Some v else None)"

lemma ascii_to_str_ok: "to_str_ok ascii_to_str"
  by (simp add: to_str_ok_def ascii_to_str_def)

text \<open>A process table in which process 7 of user 1000 owns the socket of the peer.\<close>

definition sample_peer :: sock_addr where
  "sample_peer = \<lparr>sa_ip = V4 0, sa_port = 0\<rparr>"

definition sample_proc :: proc_fs where
  "sample_proc =
     \<lparr>pf_read_to_string = (\<lambda>p.
        if p = ''/proc/net/tcp'' then Inr (''h'' @ [CHR 0x0A] @ ''0: 00000000:0000 c d e f g h i 5'')
        else if p = ''/proc/7/status'' then Inr ''Uid: 1 1000'' else Inl ''gone''),
      pf_read_proc = Inr [''7''], pf_read_fds = (\<lambda>_. Some [Some ''socket:[5]''])\<rparr>"

definition sample_headers :: headers where
  "sample_headers =
     [(HEADER_LEASE_TOKEN, l_lease_token lease1),
      (HEADER_CHANNEL_BINDING, hex_encode (l_channel_binding_nonce lease1)), (''host'', ''h:80'')]"

lemma hex_upper_0: "hex_upper n 0 = replicate n (CHR ''0'')"
proof -
  have "upper_digit 0 = CHR ''0''" by code_simp
  then show ?thesis by (induction n) auto
qed

lemma from_be_0: "from_le_bytes (be_bytes n 0) = 0"
  by (induction n) auto

lemma sample_proc_address: "proc_address sample_peer = ''00000000:0000''"
proof -
  have "replicate 8 (CHR ''0'') @ '':'' @ replicate 4 (CHR ''0'') = ''00000000:0000''" by code_simp
  then show ?thesis
    by (simp only: proc_address_def sample_peer_def ipv4_to_proc_hex_def hex_upper_0 from_be_0
        sock_addr.simps ip_addr.simps unat_0)
qed

lemma sample_numbers:
  "show_nat 5 = ''5''" "show_nat 7 = ''7''" "show_nat 1000 = ''1000''"
  by code_simp+

lemma sample_parse:
  "5 \<le> lim \<Longrightarrow> parse_uint lim ''5'' = Some 5" "7 \<le> lim \<Longrightarrow> parse_uint lim ''7'' = Some 7"
  "1000 \<le> lim \<Longrightarrow> parse_uint lim ''1000'' = Some 1000"
  using parse_uint_show_nat [of lim] by (simp_all flip: sample_numbers)

lemma sample_lines:
  "lines (''h'' @ [CHR 0x0A] @ ''0: 00000000:0000 c d e f g h i 5'') =
     [''h'', ''0: 00000000:0000 c d e f g h i 5'']"
  "split_whitespace ''0: 00000000:0000 c d e f g h i 5'' =
     [''0:'', ''00000000:0000'', ''c'', ''d'', ''e'', ''f'', ''g'', ''h'', ''i'', ''5'']"
  "split_whitespace '' 1 1000'' = [''1'', ''1000'']" "lines ''Uid: 1 1000'' = [''Uid: 1 1000'']"
  "strip_prefix ''Uid:'' ''Uid: 1 1000'' = Some '' 1 1000''"
  by code_simp+

lemma sample_resolve: "resolve_tcp_peer sample_proc sample_peer = Inr (7, 1000)"
proof -
  have "parse_proc_net_tcp (''h'' @ [CHR 0x0A] @ ''0: 00000000:0000 c d e f g h i 5'') sample_peer = Inr 5"
    unfolding parse_proc_net_tcp_def sample_lines sample_proc_address scan_tcp.simps drop_Suc_Cons
      drop_0 One_nat_def
    by (simp add: sample_lines sample_parse)
  then have "find_socket_inode sample_proc sample_peer = Inr 5"
    unfolding find_socket_inode_def by (simp add: sample_peer_def sample_proc_def)
  moreover have "find_pid_for_inode sample_proc 5 = Inr 7"
    by (simp add: find_pid_for_inode_def sample_proc_def sample_parse sample_numbers)
  moreover have "read_uid_for_pid sample_proc 7 = Inr 1000"
    by (simp add: read_uid_for_pid_def sample_proc_def sample_numbers sample_lines sample_parse)
  ultimately show ?thesis by (simp add: resolve_tcp_peer_def)
qed

lemma sample_extract:
  "extract_header ascii_to_str sample_headers HEADER_LEASE_TOKEN = Some (l_lease_token lease1)"
  "extract_header ascii_to_str sample_headers HEADER_CHANNEL_BINDING =
     Some (hex_encode (l_channel_binding_nonce lease1))"
  by (simp_all add: extract_header_def header_get_def sample_headers_def HEADER_LEASE_TOKEN_def
      HEADER_CHANNEL_BINDING_def ascii_to_str_def hex_encode_ascii lease1_def generate_lease_token_def)

lemma sample_token:
  "verify_lease_token sample_hmac [7] ''01'' (l_agent_fingerprint_hash lease1)
     (l_channel_binding_nonce lease1) (l_lease_token lease1) = Ret True"
  by (simp add: lease1_def verify_lease_token_generated)

lemma sample_authenticate:
  assumes "l_agent_fingerprint_hash l = l_agent_fingerprint_hash lease1"
    "l_channel_binding_nonce l = l_channel_binding_nonce lease1" "l_agent_pid l = 7" "l_agent_uid l = 1000"
  shows "authenticate sample_hmac ascii_to_str sample_proc sample_peer sample_headers ''01'' l [7] =
    Ret (Inr ())"
proof -
  have "verify_binding (l_channel_binding_nonce lease1) (l_channel_binding_nonce lease1)"
    by (subst binding_eq.eq_iff) (simp_all add: lease1_def)
  with assms show ?thesis unfolding authenticate_Inr
    by (simp add: sample_extract sample_token auth_hex.dec_encode sample_resolve)
qed

theorem authenticate_iff_witness:
  "authenticate sample_hmac ascii_to_str sample_proc sample_peer sample_headers ''01'' lease1 [7] =
     Ret (Inr ())"
proof -
  have "length (l_channel_binding_nonce lease1) = 32" by (simp add: lease1_def)
  moreover have "resolve_tcp_peer sample_proc sample_peer = Inr (l_agent_pid lease1, l_agent_uid lease1)"
    by (simp add: sample_resolve lease1_def)
  ultimately show ?thesis
    using authenticate_iff [OF ascii_to_str_ok] sample_extract sample_token auth_hex.dec_encode by blast
qed

end
