(* ===== verification/Cdp_Proxy_Http.thy ===== *)
theory Cdp_Proxy_Http
  imports Cdp_Proxy_Auth
begin

text \<open>
  The request pipeline of the proxy (\<open>crates/cdp-proxy/src/http.rs\<close>): buffering, triple
  authentication, recording the use of the lease, scope validation, DNS pin verification,
  credential injection, forwarding with bounded redirects, sanitising, and the translation of
  errors into responses. Outside code (HTTP types, the network, the credential provider) is the
  record \<open>proxy_env\<close>. The lease is read once for authentication and again when its use is
  recorded; the two reads see the manager states \<open>mgr0\<close> and \<open>mgr\<close>. The handler returns the
  requests it tried to send, so that the properties can speak about them.
\<close>

section \<open>Requests\<close>

record request =
  rq_method :: string
  rq_uri :: uri
  rq_headers :: headers
  rq_body :: "string + bytes"

record outbound =
  ob_ip :: ip_addr
  ob_port :: u16
  ob_method :: string
  ob_uri :: uri
  ob_headers :: headers
  ob_body :: bytes

text \<open>
  The body of a request or of an upstream response is read after its head; \<open>Inl\<close> is an error while
  reading it. \<open>px_build\<close> is the error of the request builder, if it has one; \<open>px_send\<close> connects and
  exchanges one request; \<open>px_audit_tx\<close> tells whether an audit sink is configured.
\<close>

record upstream_response =
  us_status :: u16
  us_headers :: headers
  us_body :: "string + bytes"

record proxy_env =
  px_hmac :: hmac_fun
  px_to_str :: "string \<Rightarrow> string option"
  px_proc :: proc_fs
  px_lookup_host :: resolver
  px_globs :: globset
  px_from_slice :: "bytes \<Rightarrow> json option"
  px_parse_uri :: "string \<Rightarrow> string + uri"
  px_host_value :: "string \<Rightarrow> string option"
  px_header_name :: "string \<Rightarrow> string option"
  px_header_value :: "bytes \<Rightarrow> string option"
  px_fetch_credential :: "string \<Rightarrow> string \<Rightarrow> proxy_error + (string \<times> bytes) list"
  px_build :: "headers \<Rightarrow> string option"
  px_send :: "outbound \<Rightarrow> proxy_error + upstream_response"
  px_show_error :: "proxy_error \<Rightarrow> string"
  px_show_reason :: "redirect_reason \<Rightarrow> string"
  px_audit_tx :: bool

type_synonym audit_events = "(audit_event_type \<times> audit_fields) list"

definition GLOBAL_MAX_BODY_BYTES :: u64 where
  "GLOBAL_MAX_BODY_BYTES = 4 * 1024 * 1024"

definition MAX_REDIRECT_HOPS :: nat where
  "MAX_REDIRECT_HOPS = 5"

definition emit_blocked :: "bool \<Rightarrow> string \<Rightarrow> string \<Rightarrow> audit_events" where
  "emit_blocked audit_tx lease_id detail =
     (if audit_tx
      then [(ProxyBlocked,
             audit_fields_default\<lparr>af_lease_id := Some lease_id, af_detail := Some detail\<rparr>)]
      else [])"

definition collect_body :: "string + bytes \<Rightarrow> u64 \<Rightarrow> proxy_error + bytes" where
  "collect_body body max_bytes =
     (case body of
        Inl e \<Rightarrow> Inl (Hyper e)
      | Inr bs \<Rightarrow>
          (let size = (of_nat (length bs) :: u64) in
           if max_bytes < size then Inl (BodyTooLarge size max_bytes) else Inr bs))"

definition extract_host :: "(string \<Rightarrow> string option) \<Rightarrow> headers \<Rightarrow> uri \<Rightarrow> string option" where
  "extract_host to_str hs u =
     (case extract_header to_str hs ''host'' of
        Some host_str \<Rightarrow> Some (hd (split_on (CHR '':'') host_str))
      | None \<Rightarrow> uri_host u)"

definition port_for_uri :: "uri \<Rightarrow> u16" where
  "port_for_uri u =
     (case uri_port u of
        Some port \<Rightarrow> port
      | None \<Rightarrow> if uri_scheme u = Some ''https'' then 443 else 80)"

definition strip_proxy_internal_headers :: "headers \<Rightarrow> headers" where
  "strip_proxy_internal_headers hs = fold header_remove [HEADER_LEASE_TOKEN, HEADER_CHANNEL_BINDING] hs"

fun inject_headers :: "proxy_env \<Rightarrow> headers \<Rightarrow> (string \<times> bytes) list \<Rightarrow> proxy_error + headers" where
  "inject_headers env hs [] = Inr hs"
| "inject_headers env hs ((name, v) # rest) =
     (case px_header_name env name of
        None \<Rightarrow> Inl (CredentialInjection (''invalid header name '' @ name))
      | Some n \<Rightarrow>
          (case px_header_value env v of
             None \<Rightarrow> Inl (CredentialInjection (''invalid header value for '' @ name))
           | Some val \<Rightarrow> inject_headers env (hs @ [(n, val)]) rest))"

section \<open>Forwarding\<close>

text \<open>
  \<open>build_outbound\<close> is the part of one iteration up to the connection; \<open>hops\<close> is the number of
  redirects that may still be followed.
\<close>

definition build_outbound ::
  "proxy_env \<Rightarrow> request \<Rightarrow> bytes \<Rightarrow> (string \<times> bytes) list \<Rightarrow> uri \<Rightarrow> string \<Rightarrow> ip_addr list
   \<Rightarrow> proxy_error + outbound" where
  "build_outbound env req body cred_headers current_uri current_host current_pinned_ips =
     (case px_host_value env current_host of
        None \<Rightarrow> Inl (Upstream ''invalid host header'')
      | Some host_value \<Rightarrow>
     (let outbound_headers =
            header_insert ''host'' host_value (strip_proxy_internal_headers (rq_headers req)) in
      case inject_headers env outbound_headers cred_headers of
        Inl e \<Rightarrow> Inl e
      | Inr hs \<Rightarrow>
     (case px_build env hs of
        Some e \<Rightarrow> Inl (Upstream (''failed to build request: '' @ e))
      | None \<Rightarrow>
     (case current_pinned_ips of
        [] \<Rightarrow> Inl (Upstream ''no pinned IPs available'')
      | target_ip # _ \<Rightarrow>
          Inr \<lparr>ob_ip = target_ip, ob_port = port_for_uri current_uri, ob_method = rq_method req,
               ob_uri = current_uri, ob_headers = hs, ob_body = body\<rparr>))))"

fun execute_with_redirects ::
  "proxy_env \<Rightarrow> request \<Rightarrow> bytes \<Rightarrow> (string \<times> bytes) list \<Rightarrow> lease \<Rightarrow> string \<Rightarrow> nat \<Rightarrow> uri \<Rightarrow> string
   \<Rightarrow> ip_addr list \<Rightarrow> outbound list \<times> audit_events \<times> (proxy_error + response)" where
  "execute_with_redirects env req body cred_headers l lease_id hops current_uri current_host
     current_pinned_ips =
     (case build_outbound env req body cred_headers current_uri current_host current_pinned_ips of
        Inl e \<Rightarrow> ([], [], Inl e)
      | Inr ob \<Rightarrow>
     (case px_send env ob of
        Inl e \<Rightarrow> ([ob], [], Inl e)
      | Inr resp \<Rightarrow>
     (case evaluate_redirect (px_to_str env) (px_parse_uri env) (us_status resp) (us_headers resp)
             (l_follow_redirects l) (scope_hosts (l_granted_scope l)) of
        Inl e \<Rightarrow> ([ob], [], Inl e)
      | Inr (Block reason) \<Rightarrow>
          ([ob], emit_blocked (px_audit_tx env) lease_id (''redirect blocked: '' @ px_show_reason env reason),
           Inl (RedirectBlocked reason))
      | Inr PassThrough \<Rightarrow>
          ([ob], [],
           case us_body resp of
             Inl e \<Rightarrow> Inl (Hyper e)
           | Inr bs \<Rightarrow> Inr (sanitize_response
                 \<lparr>rs_status = us_status resp, rs_headers = us_headers resp, rs_body = bs\<rparr>))
      | Inr (Follow location new_host) \<Rightarrow>
     (case hops of
        0 \<Rightarrow> ([ob], [], Inl (RedirectBlocked (Too_Many_Redirects MAX_REDIRECT_HOPS)))
      | Suc hops' \<Rightarrow>
     (case resolve_and_verify (px_lookup_host env) l new_host of
        Inl e \<Rightarrow>
          ([ob], emit_blocked (px_audit_tx env) lease_id
             (''dns_rebinding_detected on redirect to '' @ new_host @ '': '' @ px_show_error env e), Inl e)
      | Inr new_pinned \<Rightarrow>
     (let (sent, aud, r) =
            execute_with_redirects env req body cred_headers l lease_id hops' location new_host
              new_pinned in
      (ob # sent, aud, r)))))))"

declare execute_with_redirects.simps [simp del]

section \<open>The handler\<close>

definition handle_request_inner ::
  "proxy_env \<Rightarrow> int \<Rightarrow> lease_manager \<Rightarrow> lease_manager \<Rightarrow> sock_addr \<Rightarrow> string \<Rightarrow> bytes \<Rightarrow> request
   \<Rightarrow> (lease_manager \<times> outbound list \<times> audit_events \<times> (proxy_error + response)) outcome" where
  "handle_request_inner env now mgr0 mgr remote_addr lease_id gate_key req =
     (let emit = emit_blocked (px_audit_tx env) lease_id in
      case collect_body (rq_body req) GLOBAL_MAX_BODY_BYTES of
        Inl e \<Rightarrow> Ret (mgr, [], [], Inl e)
      | Inr body_bytes \<Rightarrow>
     (case get_lease mgr0 lease_id of
        Inl e \<Rightarrow> Ret (mgr, [], [], Inl (ProxyError_Lease e))
      | Inr auth_lease \<Rightarrow>
     (case authenticate (px_hmac env) (px_to_str env) (px_proc env) remote_addr (rq_headers req)
             lease_id auth_lease gate_key of
        Panic \<Rightarrow> Panic
      | Ret (Inl e) \<Rightarrow> Ret (mgr, [], emit (''auth failed: '' @ px_show_error env e), Inl e)
      | Ret (Inr _) \<Rightarrow>
     (case use_lease now mgr lease_id of
        (mgr, Inl e) \<Rightarrow> Ret (mgr, [], [], Inl (ProxyError_Lease e))
      | (mgr, Inr l) \<Rightarrow>
     (case extract_host (px_to_str env) (rq_headers req) (rq_uri req) of
        None \<Rightarrow> Ret (mgr, [], [], Inl (ScopeViolation Missing_Host))
      | Some host \<Rightarrow>
     (case validate_request (px_globs env) (px_from_slice env) (rq_method req) host
             (uri_path (rq_uri req))
             (extract_header (px_to_str env) (rq_headers req) ''content-type'')
             (if body_bytes = [] then None else Some body_bytes) (l_granted_scope l) of
        Inl e \<Rightarrow> Ret (mgr, [], emit (''scope violation: '' @ px_show_error env e), Inl e)
      | Inr _ \<Rightarrow>
     (case resolve_and_verify (px_lookup_host env) l host of
        Inl e \<Rightarrow> Ret (mgr, [], emit (''dns_rebinding_detected: '' @ px_show_error env e), Inl e)
      | Inr pinned_ips \<Rightarrow>
     (case px_fetch_credential env (l_credential_ref l) lease_id of
        Inl e \<Rightarrow> Ret (mgr, [], [], Inl e)
      | Inr cred_headers \<Rightarrow>
          Ret (mgr, execute_with_redirects env req body_bytes cred_headers l lease_id MAX_REDIRECT_HOPS
                      (rq_uri req) host pinned_ips)))))))))"

definition text_response :: "u16 \<Rightarrow> string \<Rightarrow> response" where
  "text_response status body =
     \<lparr>rs_status = status, rs_headers = [(''content-type'', ''text/plain; charset=utf-8'')],
      rs_body = as_bytes body\<rparr>"

fun proxy_error_to_response :: "proxy_error \<Rightarrow> response" where
  "proxy_error_to_response (AuthFailed _) = text_response 403 ''403 Forbidden: authentication failed''"
| "proxy_error_to_response (ScopeViolation _) = text_response 403 ''403 Forbidden: scope violation''"
| "proxy_error_to_response (DnsPinMismatch _ _ _) =
     text_response 403 ''403 Forbidden: dns_rebinding_detected''"
| "proxy_error_to_response (RedirectBlocked _) = text_response 403 ''403 Forbidden: redirect blocked''"
| "proxy_error_to_response (BodyTooLarge _ _) = text_response 413 ''413 Payload Too Large''"
| "proxy_error_to_response (ForbiddenField _) = text_response 403 ''403 Forbidden: scope violation''"
| "proxy_error_to_response (ContentTypeNotAllowed _) =
     text_response 403 ''403 Forbidden: scope violation''"
| "proxy_error_to_response (ProxyError_Lease (NotFound _)) =
     text_response 403 ''403 Forbidden: lease not valid''"
| "proxy_error_to_response (ProxyError_Lease (LeaseError_Expired _)) =
     text_response 403 ''403 Forbidden: lease not valid''"
| "proxy_error_to_response (ProxyError_Lease (LeaseError_Revoked _)) =
     text_response 403 ''403 Forbidden: lease not valid''"
| "proxy_error_to_response _ = text_response 502 ''502 Bad Gateway''"

definition handle_request ::
  "proxy_env \<Rightarrow> int \<Rightarrow> lease_manager \<Rightarrow> lease_manager \<Rightarrow> sock_addr \<Rightarrow> string \<Rightarrow> bytes \<Rightarrow> request
   \<Rightarrow> (lease_manager \<times> outbound list \<times> audit_events \<times> response) outcome" where
  "handle_request env now mgr0 mgr remote_addr lease_id gate_key req =
     (case handle_request_inner env now mgr0 mgr remote_addr lease_id gate_key req of
        Panic \<Rightarrow> Panic
      | Ret (mgr, sent, aud, Inr resp) \<Rightarrow> Ret (mgr, sent, aud, resp)
      | Ret (mgr, sent, aud, Inl e) \<Rightarrow> Ret (mgr, sent, aud, proxy_error_to_response e))"

section \<open>What the proxy relies on in the lease store\<close>

text \<open>
  Recording a use hands out the lease only when it is active, unexpired and below its request
  limit, and counts the request; a refusal changes nothing.
\<close>

locale lease_store =
  fixes stored :: "'s \<Rightarrow> string \<Rightarrow> lease option"
    and record_use :: "int \<Rightarrow> 's \<Rightarrow> string \<Rightarrow> 's \<times> (lease_error + lease)"
  assumes use_granted: "record_use now s i = (s', Inr l) \<Longrightarrow>
      \<exists>old. stored s i = Some old \<and> is_active now old \<and>
        (\<forall>m. l_max_requests old = Some m \<longrightarrow> l_requests_used old < m) \<and>
        l = old\<lparr>l_requests_used := l_requests_used old + 1\<rparr> \<and> stored s' = (stored s)(i \<mapsto> l)"
    and use_refused: "record_use now s i = (s', Inl e) \<Longrightarrow> s' = s"
begin

lemma use_active: "record_use now s i = (s', Inr l) \<Longrightarrow> is_active now l"
  by (auto dest!: use_granted simp: is_active_def is_expired_def)

lemma use_counted: "record_use now s i = (s', Inr l) \<Longrightarrow> l_max_requests l = Some m \<Longrightarrow> l_requests_used l \<le> m"
  by (auto dest!: use_granted simp: inc_le)

lemma use_keeps_grant:
  "record_use now s i = (s', Inr l) \<Longrightarrow> stored s i = Some old \<Longrightarrow>
   l_granted_scope l = l_granted_scope old \<and> l_dns_pinned_ips l = l_dns_pinned_ips old \<and>
   l_credential_ref l = l_credential_ref old"
  by (auto dest!: use_granted)

lemma use_others: "record_use now s i = (s', r) \<Longrightarrow> j \<noteq> i \<Longrightarrow> stored s' j = stored s j"
  by (cases r) (auto dest: use_granted use_refused)

end

interpretation store: lease_store lm_leases use_lease
proof
  show "\<exists>old. lm_leases s i = Some old \<and> is_active now old \<and>
      (\<forall>m. l_max_requests old = Some m \<longrightarrow> l_requests_used old < m) \<and>
      l = old\<lparr>l_requests_used := l_requests_used old + 1\<rparr> \<and> lm_leases s' = (lm_leases s)(i \<mapsto> l)"
    if "use_lease now s i = (s', Inr l)" for now s i s' l
    using that by (cases rule: use_lease_cases [of now s i]) (auto simp: is_active_def)
  show "s' = s" if "use_lease now s i = (s', Inl e)" for now s i s' e
    using that by (cases rule: use_lease_cases [of now s i]) auto
qed

section \<open>What is sent upstream\<close>

text \<open>
  A request sent for a lease: it goes to an address that is pinned for a host the scope allows,
  names that host, and carries the agent's headers without the proxy's own, then what the
  credential provider adds.
\<close>

definition outbound_ok :: "proxy_env \<Rightarrow> request \<Rightarrow> bytes \<Rightarrow> lease \<Rightarrow> outbound \<Rightarrow> bool" where
  "outbound_ok env req body l ob \<longleftrightarrow>
     ob_method ob = rq_method req \<and> ob_body ob = body \<and>
     (\<exists>host host_value injected.
        open_list (scope_hosts (l_granted_scope l)) host \<and>
        verify_dns (l_dns_pinned_ips l) host (ob_ip ob) \<and>
        px_host_value env host = Some host_value \<and>
        (ob_uri ob = rq_uri req \<or> uri_host (ob_uri ob) = Some host) \<and>
        ob_headers ob =
          filter (\<lambda>(n, _). n \<notin> {HEADER_LEASE_TOKEN, HEADER_CHANNEL_BINDING, ''host''}) (rq_headers req)
            @ (''host'', host_value) # injected)"

lemma inject_headers_appends: "inject_headers env hs creds = Inr hs' \<Longrightarrow> \<exists>injected. hs' = hs @ injected"
  by (induction env hs creds rule: inject_headers.induct) (auto split: option.splits)

lemma outbound_base:
  "header_insert ''host'' v (strip_proxy_internal_headers hs) =
     filter (\<lambda>(n, _). n \<notin> {HEADER_LEASE_TOKEN, HEADER_CHANNEL_BINDING, ''host''}) hs @ [(''host'', v)]"
  by (auto simp: header_insert_def strip_proxy_internal_headers_def header_remove_def
      intro!: filter_cong)

lemma evaluate_redirect_Follow:
  "evaluate_redirect to_str parse_uri st hs follow hosts = Inr (Follow u h) \<Longrightarrow>
     uri_host u = Some h \<and> open_list hosts h \<and> follow"
  by (auto simp: evaluate_redirect_def open_list_def list_ex_iff
      split: if_splits option.splits sum.splits)

lemma evaluate_redirect_PassThrough:
  "evaluate_redirect to_str parse_uri st hs follow hosts = Inr PassThrough \<Longrightarrow>
     follow \<Longrightarrow> \<not> (300 \<le> st \<and> st < 400)"
  by (auto simp: evaluate_redirect_def split: if_splits option.splits sum.splits)

text \<open>A response that is handed back: sanitised, and no redirect when the lease follows them.\<close>

definition passed_on :: "lease \<Rightarrow> response \<Rightarrow> bool" where
  "passed_on l resp \<longleftrightarrow> fst ` set (rs_headers resp) \<inter> set SENSITIVE_RESPONSE_HEADERS = {} \<and>
     (l_follow_redirects l \<longrightarrow> \<not> (300 \<le> rs_status resp \<and> rs_status resp < 400))"

lemma passed_on_sanitized:
  "passed_on l (sanitize_response r) \<longleftrightarrow>
     (l_follow_redirects l \<longrightarrow> \<not> (300 \<le> rs_status r \<and> rs_status r < 400))"
  by (auto simp: passed_on_def sanitize_response_def strip_credential_headers_def fold_header_remove
      simp del: fold.simps)

lemma execute_cases:
  assumes "execute_with_redirects env req body creds l i hops u h ips = (sent, aud, r)"
  obtains (refused) e where "sent = []" "r = Inl e"
  | (last) ob where "build_outbound env req body creds u h ips = Inr ob" "sent = [ob]"
      "\<And>resp. r = Inr resp \<Longrightarrow> passed_on l resp"
  | (hop) ob hops' location new_host new_ips sent' where
      "build_outbound env req body creds u h ips = Inr ob" "sent = ob # sent'" "hops = Suc hops'"
      "uri_host location = Some new_host" "open_list (scope_hosts (l_granted_scope l)) new_host"
      "l_follow_redirects l" "resolve_and_verify (px_lookup_host env) l new_host = Inr new_ips"
      "execute_with_redirects env req body creds l i hops' location new_host new_ips = (sent', aud, r)"
proof (cases "build_outbound env req body creds u h ips")
  case (Inl e)
  then show ?thesis using assms refused by (auto simp: execute_with_redirects.simps)
next
  case ob: (Inr ob)
  show ?thesis
  proof (cases "px_send env ob")
    case (Inl e)
    then show ?thesis using assms ob last by (auto simp: execute_with_redirects.simps)
  next
    case us: (Inr us)
    let ?red = "evaluate_redirect (px_to_str env) (px_parse_uri env) (us_status us) (us_headers us)
       (l_follow_redirects l) (scope_hosts (l_granted_scope l))"
    consider (fail) e where "?red = Inl e" | (block) e where "?red = Inr (Block e)"
      | (pass) "?red = Inr PassThrough" | (follow) loc nh where "?red = Inr (Follow loc nh)"
      by (cases ?red; cases "projr ?red") auto
    then show ?thesis
    proof cases
      case pass
      then show ?thesis
        using assms ob us last [OF ob] evaluate_redirect_PassThrough [OF pass]
        by (cases "us_body us") (auto simp: execute_with_redirects.simps passed_on_sanitized)
    next
      case follow
      from evaluate_redirect_Follow [OF this] assms ob us follow last [OF ob] hop [OF ob]
      show ?thesis
        by (cases hops; cases "resolve_and_verify (px_lookup_host env) l nh")
          (auto simp: execute_with_redirects.simps [of _ _ _ _ _ _ _ u] split: prod.splits)
    qed (use assms ob us last [OF ob] in \<open>auto simp: execute_with_redirects.simps\<close>)
  qed
qed

lemma build_outbound_ok:
  assumes "build_outbound env req body creds u h ips = Inr ob"
    and "open_list (scope_hosts (l_granted_scope l)) h"
    and "\<forall>ip \<in> set ips. verify_dns (l_dns_pinned_ips l) h ip"
    and "u = rq_uri req \<or> uri_host u = Some h"
  shows "outbound_ok env req body l ob"
proof -
  from assms(1) obtain hv hs ip rest where built: "px_host_value env h = Some hv" "ips = ip # rest"
    "inject_headers env (header_insert ''host'' hv (strip_proxy_internal_headers (rq_headers req))) creds
       = Inr hs"
    "ob = \<lparr>ob_ip = ip, ob_port = port_for_uri u, ob_method = rq_method req, ob_uri = u,
          ob_headers = hs, ob_body = body\<rparr>"
    by (auto simp: build_outbound_def Let_def split: option.splits sum.splits list.splits)
  moreover from built(3) obtain injected where
    "hs = filter (\<lambda>(n, _). n \<notin> {HEADER_LEASE_TOKEN, HEADER_CHANNEL_BINDING, ''host''}) (rq_headers req)
       @ (''host'', hv) # injected"
    by (auto dest: inject_headers_appends simp: outbound_base)
  ultimately show ?thesis using assms(2-4) unfolding outbound_ok_def by auto
qed

lemma execute_sent:
  assumes "execute_with_redirects env req body creds l i hops u h ips = (sent, aud, r)"
    and "open_list (scope_hosts (l_granted_scope l)) h"
    and "\<forall>ip \<in> set ips. verify_dns (l_dns_pinned_ips l) h ip"
    and "u = rq_uri req \<or> uri_host u = Some h"
  shows "length sent \<le> Suc hops \<and> (\<forall>ob \<in> set sent. outbound_ok env req body l ob) \<and>
    (\<forall>resp. r = Inr resp \<longrightarrow> sent \<noteq> [] \<and> passed_on l resp)"
  using assms
proof (induction hops arbitrary: u h ips sent)
  case 0
  from 0(1) show ?case
    by (cases rule: execute_cases) (use build_outbound_ok [OF _ 0(2-4)] in auto)
next
  case (Suc hops)
  from Suc.prems(1) show ?case
  proof (cases rule: execute_cases)
    case (hop ob hops' location new_host new_ips sent')
    moreover from hop have "length sent' \<le> Suc hops \<and> (\<forall>ob \<in> set sent'. outbound_ok env req body l ob) \<and>
        (\<forall>resp. r = Inr resp \<longrightarrow> sent' \<noteq> [] \<and> passed_on l resp)"
      using resolve_and_verify_Inr [OF hop(7)] by (intro Suc.IH) auto
    ultimately show ?thesis using build_outbound_ok [OF _ Suc.prems(2-4)] by auto
  qed (use build_outbound_ok [OF _ Suc.prems(2-4)] in auto)
qed

section \<open>The course of a request\<close>

definition authenticated ::
  "proxy_env \<Rightarrow> lease_manager \<Rightarrow> sock_addr \<Rightarrow> string \<Rightarrow> bytes \<Rightarrow> request \<Rightarrow> bool" where
  "authenticated env mgr ra i key req \<longleftrightarrow>
     (\<exists>l. lm_leases mgr i = Some l \<and>
        authenticate (px_hmac env) (px_to_str env) (px_proc env) ra (rq_headers req) i l key = Ret (Inr ()))"

lemma get_lease_Inr: "get_lease mgr i = Inr l \<longleftrightarrow> lm_leases mgr i = Some l"
  by (simp add: get_lease_def split: option.splits)

lemma collect_body_Inr: "collect_body b m = Inr bs \<Longrightarrow> b = Inr bs \<and> of_nat (length bs) \<le> m"
  by (auto simp: collect_body_def Let_def not_less split: sum.splits if_splits)

lemma handle_request_inner_cases:
  assumes "handle_request_inner env now mgr0 mgr ra i key req = Ret (mgr', sent, aud, r)"
  obtains (refused) e where "mgr' = mgr" "sent = []" "r = Inl e"
  | (counted) l e where "authenticated env mgr0 ra i key req" "use_lease now mgr i = (mgr', Inr l)"
      "sent = []" "r = Inl e"
  | (forwarded) body l host ips creds where
      "authenticated env mgr0 ra i key req" "use_lease now mgr i = (mgr', Inr l)"
      "collect_body (rq_body req) GLOBAL_MAX_BODY_BYTES = Inr body"
      "extract_host (px_to_str env) (rq_headers req) (rq_uri req) = Some host"
      "validate_request (px_globs env) (px_from_slice env) (rq_method req) host (uri_path (rq_uri req))
         (extract_header (px_to_str env) (rq_headers req) ''content-type'')
         (if body = [] then None else Some body) (l_granted_scope l) = Inr ()"
      "resolve_and_verify (px_lookup_host env) l host = Inr ips"
      "px_fetch_credential env (l_credential_ref l) i = Inr creds"
      "execute_with_redirects env req body creds l i MAX_REDIRECT_HOPS (rq_uri req) host ips = (sent, aud, r)"
proof (cases "(\<exists>body l0. collect_body (rq_body req) GLOBAL_MAX_BODY_BYTES = Inr body \<and>
    get_lease mgr0 i = Inr l0 \<and> authenticate (px_hmac env) (px_to_str env) (px_proc env) ra
      (rq_headers req) i l0 key = Ret (Inr ())) \<and> (\<exists>self l. use_lease now mgr i = (self, Inr l))")
  case False
  with assms have "mgr' = mgr \<and> sent = [] \<and> (\<exists>e. r = Inl e)"
    by (auto simp: handle_request_inner_def Let_def dest!: store.use_refused
        split: sum.splits outcome.splits prod.splits)
  then show ?thesis using refused by blast
next
  case True
  then obtain body l0 self l where pre: "collect_body (rq_body req) GLOBAL_MAX_BODY_BYTES = Inr body"
    "get_lease mgr0 i = Inr l0" "authenticate (px_hmac env) (px_to_str env) (px_proc env) ra
      (rq_headers req) i l0 key = Ret (Inr ())" "use_lease now mgr i = (self, Inr l)" by blast
  then have auth: "authenticated env mgr0 ra i key req" by (auto simp: authenticated_def get_lease_Inr)
  from assms pre have "mgr' = self"
    by (auto simp: handle_request_inner_def Let_def split: sum.splits option.splits)
  with assms pre show ?thesis using counted [OF auth] forwarded [OF auth]
    by (auto simp: handle_request_inner_def Let_def split: sum.splits option.splits)
qed

lemma handle_request_inner_no_panic:
  "to_str_ok (px_to_str env) \<Longrightarrow> handle_request_inner env now mgr0 mgr ra i key req \<noteq> Panic"
  using authenticate_no_panic [of "px_to_str env"]
  by (auto simp: handle_request_inner_def Let_def split: sum.splits outcome.splits option.splits prod.splits)

lemma forwarded_course:
  assumes "handle_request_inner env now mgr0 mgr ra i key req = Ret (mgr', sent, aud, r)"
    and "sent \<noteq> [] \<or> r = Inr resp"
  obtains body l host where "authenticated env mgr0 ra i key req"
    "use_lease now mgr i = (mgr', Inr l)" "rq_body req = Inr body"
    "extract_host (px_to_str env) (rq_headers req) (rq_uri req) = Some host"
    "validate_request (px_globs env) (px_from_slice env) (rq_method req) host (uri_path (rq_uri req))
       (extract_header (px_to_str env) (rq_headers req) ''content-type'')
       (if body = [] then None else Some body) (l_granted_scope l) = Inr ()"
    "length sent \<le> 6" "\<forall>ob \<in> set sent. outbound_ok env req body l ob"
    "\<forall>resp. r = Inr resp \<longrightarrow> sent \<noteq> [] \<and> passed_on l resp"
  using assms(1)
proof (cases rule: handle_request_inner_cases)
  case (forwarded body l host ips creds)
  from forwarded(5) have "open_list (scope_hosts (l_granted_scope l)) host"
    by (auto simp: validate_request_def validate_host_def open_list_def list_ex_iff
        split: sum.splits if_splits)
  moreover have "\<forall>ip \<in> set ips. verify_dns (l_dns_pinned_ips l) host ip"
    using resolve_and_verify_Inr [OF forwarded(6)] by blast
  ultimately have "length sent \<le> Suc MAX_REDIRECT_HOPS \<and>
      (\<forall>ob \<in> set sent. outbound_ok env req body l ob) \<and>
      (\<forall>resp. r = Inr resp \<longrightarrow> sent \<noteq> [] \<and> passed_on l resp)"
    by (intro execute_sent [OF forwarded(8)]) simp_all
  with that [OF forwarded(1,2) _ forwarded(4,5)] collect_body_Inr [OF forwarded(3)]
  show ?thesis by (simp add: MAX_REDIRECT_HOPS_def)
qed (use assms(2) in auto)

lemma outbound_ok_counted [simp]:
  "outbound_ok env req body (l\<lparr>l_requests_used := n\<rparr>) ob = outbound_ok env req body l ob"
  by (simp add: outbound_ok_def)

section \<open>Properties\<close>

text \<open>
  C2. Whatever the proxy sends upstream is authorised: the request was authenticated against the
  stored lease, the lease is active, unexpired and below its request limit when its use is
  recorded, the use is counted once, the scope admits the request, at most six requests are sent
  for it, and each of them goes to an address pinned for an allowed host, without the headers
  that authenticate the agent to the proxy.
\<close>

theorem forwarded_requests_authorised:
  assumes "globset_ok (px_globs env)"
    and "handle_request_inner env now mgr0 mgr ra i key req = Ret (mgr', sent, aud, r)" "sent \<noteq> []"
  shows "authenticated env mgr0 ra i key req \<and>
    (\<exists>l host body. lm_leases mgr i = Some l \<and> is_active now l \<and>
       (\<forall>m. l_max_requests l = Some m \<longrightarrow> l_requests_used l < m) \<and>
       lm_leases mgr' = (lm_leases mgr)(i \<mapsto> l\<lparr>l_requests_used := l_requests_used l + 1\<rparr>) \<and>
       rq_body req = Inr body \<and>
       extract_host (px_to_str env) (rq_headers req) (rq_uri req) = Some host \<and>
       scope_admits (px_globs env) (px_from_slice env) (rq_method req) host (uri_path (rq_uri req))
         (extract_header (px_to_str env) (rq_headers req) ''content-type'') body (l_granted_scope l) \<and>
       length sent \<le> 6 \<and> (\<forall>ob \<in> set sent. outbound_ok env req body l ob))"
proof (rule forwarded_course [OF assms(2)])
  show "sent \<noteq> [] \<or> r = Inr resp" for resp using assms(3) by simp
  fix body l' host
  assume course: "authenticated env mgr0 ra i key req" "use_lease now mgr i = (mgr', Inr l')"
    "rq_body req = Inr body" "extract_host (px_to_str env) (rq_headers req) (rq_uri req) = Some host"
    "validate_request (px_globs env) (px_from_slice env) (rq_method req) host (uri_path (rq_uri req))
       (extract_header (px_to_str env) (rq_headers req) ''content-type'')
       (if body = [] then None else Some body) (l_granted_scope l') = Inr ()"
    "length sent \<le> 6" "\<forall>ob \<in> set sent. outbound_ok env req body l' ob"
  have "unwrap_or (if body = [] then None else Some body) [] = body" by (simp add: unwrap_or_def)
  with validate_request_scope [OF assms(1) course(5)] store.use_granted [OF course(2)] course
  show ?thesis by fastforce
qed

text \<open>
  C27. The handler always answers. With header values that read as ASCII it never panics, the
  response it returns carries none of the headers that are to be stripped, only the lease of
  the listener can change in the store, and it changes only for an authenticated request.
\<close>

theorem handle_request_answers:
  assumes "to_str_ok (px_to_str env)"
  shows "\<exists>mgr' sent aud resp. handle_request env now mgr0 mgr ra i key req = Ret (mgr', sent, aud, resp) \<and>
    fst ` set (rs_headers resp) \<inter> set SENSITIVE_RESPONSE_HEADERS = {} \<and>
    (\<forall>j. j \<noteq> i \<longrightarrow> lm_leases mgr' j = lm_leases mgr j) \<and>
    (mgr' \<noteq> mgr \<longrightarrow> authenticated env mgr0 ra i key req)"
proof (cases "handle_request_inner env now mgr0 mgr ra i key req")
  case Panic
  with handle_request_inner_no_panic [OF assms] show ?thesis by blast
next
  case (Ret x)
  obtain mgr' sent aud r where x: "x = (mgr', sent, aud, r)" by (cases x)
  from Ret [unfolded x] have store: "(\<forall>j. j \<noteq> i \<longrightarrow> lm_leases mgr' j = lm_leases mgr j) \<and>
      (mgr' \<noteq> mgr \<longrightarrow> authenticated env mgr0 ra i key req)"
    by (cases rule: handle_request_inner_cases) (auto dest: store.use_others)
  show ?thesis
  proof (cases r)
    case (Inl e)
    have "fst ` set (rs_headers (proxy_error_to_response e)) \<inter> set SENSITIVE_RESPONSE_HEADERS = {}"
      by (cases e rule: proxy_error_to_response.cases)
        (simp_all add: text_response_def SENSITIVE_RESPONSE_HEADERS_def)
    with store Inl Ret x show ?thesis by (auto simp: handle_request_def)
  next
    case (Inr resp)
    then obtain l where "passed_on l resp" using Ret [unfolded x]
      by (elim forwarded_course) auto
    with store Inr Ret x show ?thesis by (auto simp: handle_request_def passed_on_def)
  qed
qed

text \<open>The number of requests of a sequence for which something is sent upstream.\<close>

fun forwarded_count ::
  "string \<Rightarrow> lease_manager \<Rightarrow> (proxy_env \<times> int \<times> lease_manager \<times> sock_addr \<times> bytes \<times> request) list \<Rightarrow> nat" where
  "forwarded_count i mgr [] = 0"
| "forwarded_count i mgr ((env, now, mgr0, ra, key, req) # rest) =
     (case handle_request env now mgr0 mgr ra i key req of
        Panic \<Rightarrow> 0
      | Ret (mgr', sent, _, _) \<Rightarrow> (if sent = [] then 0 else 1) + forwarded_count i mgr' rest)"

lemma handle_request_Ret:
  "handle_request env now mgr0 mgr ra i key req = Ret (mgr', sent, aud, resp) \<Longrightarrow>
   \<exists>r. handle_request_inner env now mgr0 mgr ra i key req = Ret (mgr', sent, aud, r)"
  by (auto simp: handle_request_def split: outcome.splits sum.splits)

lemma handle_request_counts:
  assumes "handle_request env now mgr0 mgr ra i key req = Ret (mgr', sent, aud, resp)"
    and "lm_leases mgr i = Some l"
  shows "lm_leases mgr' i = Some l \<and> sent = [] \<or>
    lm_leases mgr' i = Some (l\<lparr>l_requests_used := l_requests_used l + 1\<rparr>) \<and>
    (\<forall>m. l_max_requests l = Some m \<longrightarrow> l_requests_used l < m)"
proof -
  obtain r where "handle_request_inner env now mgr0 mgr ra i key req = Ret (mgr', sent, aud, r)"
    using handle_request_Ret [OF assms(1)] by blast
  then show ?thesis
    by (cases rule: handle_request_inner_cases) (use assms(2) in \<open>auto dest: store.use_granted\<close>)
qed

text \<open>
  C26. The request limit of a lease bounds what is forwarded: over any sequence of requests to
  the listener of a lease, however the environment behaves, at most as many requests are
  forwarded as the lease has uses left.
\<close>

theorem forwarding_bounded:
  assumes "lm_leases mgr i = Some l" "l_max_requests l = Some m"
  shows "forwarded_count i mgr reqs \<le> unat m - unat (l_requests_used l)"
  using assms
proof (induction i mgr reqs arbitrary: l rule: forwarded_count.induct)
  case (2 i mgr env now mgr0 ra key req rest)
  show ?case
  proof (cases "handle_request env now mgr0 mgr ra i key req")
    case (Ret x)
    obtain mgr' sent aud resp where x: "x = (mgr', sent, aud, resp)" by (cases x) auto
    note IH = 2(1) [OF Ret x [symmetric] refl refl]
    from handle_request_counts [OF Ret [unfolded x] 2(2)] show ?thesis
    proof (elim disjE conjE)
      assume "lm_leases mgr' i = Some l" "sent = []"
      with IH [of l] 2(3) Ret x show ?thesis by simp
    next
      assume used: "lm_leases mgr' i = Some (l\<lparr>l_requests_used := l_requests_used l + 1\<rparr>)"
        "\<forall>m. l_max_requests l = Some m \<longrightarrow> l_requests_used l < m"
      with 2(3) have less: "l_requests_used l < m" by simp
      then have "unat (l_requests_used l + 1) = unat (l_requests_used l) + 1"
        using unat_less_pow [of m] by (simp add: word_less_nat_alt unat_word_ariths)
      with IH [OF used(1)] 2(3) Ret x less show ?thesis by (auto simp: word_less_nat_alt)
    qed
  qed simp
qed simp

text \<open>
  An authenticated request on a lease that is revoked, or that the sweep has marked as
  expired, is not forwarded, but it is answered as an upstream failure: 502, not the 403 with
  which the translation of errors answers revoked and expired leases.
\<close>

theorem inactive_lease_answered_502:
  assumes "rq_body req = Inr body" "length body \<le> 4194304"
    and "authenticated env mgr0 ra i key req"
    and "lm_leases mgr i = Some l" "l_status l \<noteq> Active"
  shows "handle_request env now mgr0 mgr ra i key req =
    Ret (mgr, [], [], text_response 502 ''502 Bad Gateway'')"
proof -
  have "collect_body (rq_body req) GLOBAL_MAX_BODY_BYTES = Inr body"
    using assms(2) by (simp add: assms(1) collect_body_def GLOBAL_MAX_BODY_BYTES_def Let_def
        word_less_nat_alt unat_of_nat not_less take_bit_nat_eq_self)
  moreover have "use_lease now mgr i = (mgr, Inl NotActive)"
    using assms(4,5) by (simp add: use_lease_def)
  ultimately show ?thesis
    using assms(3) by (auto simp: handle_request_def handle_request_inner_def authenticated_def
        get_lease_def Let_def)
qed

section \<open>Witnesses\<close>

text \<open>A lease for one host, an agent that may use it once, and an upstream that sets a cookie.\<close>

definition proxy_lease :: lease where
  "proxy_lease = lease1\<lparr>l_granted_scope := sample_scope, l_dns_pinned_ips := [''h'' \<mapsto> [V4 1]]\<rparr>"

definition proxy_mgr :: lease_manager where
  "proxy_mgr = index_lease (replicate 32 2) ''01'' (insert_lease ''01'' proxy_lease (manager_new [7] None))"

definition sample_uri :: uri where
  "sample_uri = \<lparr>uri_scheme = None, uri_host = None, uri_port = None, uri_path = ''/a'', uri_query = None\<rparr>"

definition sample_request :: request where
  "sample_request =
     \<lparr>rq_method = ''GET'', rq_uri = sample_uri, rq_headers = sample_headers, rq_body = Inr []\<rparr>"

definition sample_proxy :: proxy_env where
  "sample_proxy =
     \<lparr>px_hmac = sample_hmac, px_to_str = ascii_to_str, px_proc = sample_proc,
      px_lookup_host = (\<lambda>_. Inr [V4 1]), px_globs = exact_globs, px_from_slice = (\<lambda>_. None),
      px_parse_uri = (\<lambda>_. Inl ''bad''), px_host_value = Some, px_header_name = Some,
      px_header_value = (\<lambda>_. Some ''secret''), px_fetch_credential = (\<lambda>_ _. Inr [(''authorization'', [1])]),
      px_build = (\<lambda>_. None),
      px_send = (\<lambda>_. Inr \<lparr>us_status = 200, us_headers = [(''set-cookie'', ''x'')], us_body = Inr []\<rparr>),
      px_show_error = (\<lambda>_. []), px_show_reason = (\<lambda>_. []), px_audit_tx = False\<rparr>"

lemma sample_proxy_simps:
  "px_hmac sample_proxy = sample_hmac" "px_to_str sample_proxy = ascii_to_str"
  "px_proc sample_proxy = sample_proc" "px_lookup_host sample_proxy = (\<lambda>_. Inr [V4 1])"
  "px_globs sample_proxy = exact_globs" "px_from_slice sample_proxy = (\<lambda>_. None)"
  "px_fetch_credential sample_proxy = (\<lambda>_ _. Inr [(''authorization'', [1])])"
  "px_send sample_proxy =
     (\<lambda>_. Inr \<lparr>us_status = 200, us_headers = [(''set-cookie'', ''x'')], us_body = Inr []\<rparr>)"
  "rq_method sample_request = ''GET''" "rq_uri sample_request = sample_uri"
  "rq_headers sample_request = sample_headers" "rq_body sample_request = Inr []"
  "uri_path sample_uri = ''/a''"
  by (simp_all add: sample_proxy_def sample_request_def sample_uri_def)

definition sample_outbound :: outbound where
  "sample_outbound =
     \<lparr>ob_ip = V4 1, ob_port = 80, ob_method = ''GET'', ob_uri = sample_uri,
      ob_headers = [(''host'', ''h''), (''authorization'', ''secret'')], ob_body = []\<rparr>"

lemma proxy_mgr_leases: "lm_leases proxy_mgr = [''01'' \<mapsto> proxy_lease]" "lm_audit_tx proxy_mgr = None"
  by (simp_all add: proxy_mgr_def manager_new_def index_lease_def insert_lease_def)

lemma sample_authenticated: "authenticated sample_proxy proxy_mgr sample_peer ''01'' [7] sample_request"
  unfolding authenticated_def proxy_mgr_leases
  by (simp add: sample_proxy_def sample_request_def sample_authenticate proxy_lease_def lease1_def)

lemma sample_use:
  "use_lease 0 proxy_mgr ''01'' =
     (insert_lease ''01'' (proxy_lease\<lparr>l_requests_used := 1\<rparr>) proxy_mgr,
      Inr (proxy_lease\<lparr>l_requests_used := 1\<rparr>))"
  by (simp add: use_lease_def proxy_mgr_leases Let_def emit_audit_def insert_lease_def)
    (simp add: proxy_lease_def lease1_def is_expired_def nanos_def)

lemma sample_validate:
  "validate_request exact_globs (\<lambda>_. None) ''GET'' ''h'' ''/a'' ct None sample_scope = Inr ()"
proof -
  have "eq_ignore_ascii_case ''GET'' ''GET''" by code_simp
  then show ?thesis
    by (simp add: validate_request_def validate_host_def validate_path_def validate_method_def
        build_glob_set_def exact_globs_def sample_scope_def scope_default_def)
qed

lemma sample_scope_of: "l_granted_scope (proxy_lease\<lparr>l_requests_used := 1\<rparr>) = sample_scope"
  by (simp add: proxy_lease_def)

lemma sample_host: "extract_host ascii_to_str sample_headers sample_uri = Some ''h''"
proof -
  have "split_on (CHR '':'') ''h:80'' = [''h'', ''80'']" by code_simp
  then show ?thesis
    by (simp add: extract_host_def extract_header_def header_get_def sample_headers_def
        HEADER_LEASE_TOKEN_def HEADER_CHANNEL_BINDING_def ascii_to_str_def)
qed

lemma sample_build:
  "build_outbound sample_proxy sample_request [] [(''authorization'', [1])] sample_uri ''h'' [V4 1] =
     Inr sample_outbound"
  by (simp add: build_outbound_def sample_proxy_def sample_request_def outbound_base sample_headers_def
      sample_outbound_def port_for_uri_def sample_uri_def Let_def)

lemma sample_course:
  assumes "authenticated sample_proxy mgr sample_peer ''01'' [7] sample_request"
    and "use_lease 0 mgr ''01'' = (mgr', Inr l)"
    and "\<And>ct. validate_request exact_globs (\<lambda>_. None) ''GET'' ''h'' ''/a'' ct None (l_granted_scope l) = Inr ()"
    and "l_dns_pinned_ips l = [''h'' \<mapsto> [V4 1]]"
  shows "handle_request_inner sample_proxy 0 mgr mgr sample_peer ''01'' [7] sample_request =
     Ret (mgr', [sample_outbound], [],
          Inr (sanitize_response \<lparr>rs_status = 200, rs_headers = [(''set-cookie'', ''x'')], rs_body = []\<rparr>))"
proof -
  have "execute_with_redirects sample_proxy sample_request [] [(''authorization'', [1])] l ''01''
      MAX_REDIRECT_HOPS sample_uri ''h'' [V4 1] =
    ([sample_outbound], [],
     Inr (sanitize_response \<lparr>rs_status = 200, rs_headers = [(''set-cookie'', ''x'')], rs_body = []\<rparr>))" for l
    by (subst execute_with_redirects.simps) (simp add: sample_build sample_proxy_simps evaluate_redirect_def)
  moreover have "resolve_and_verify (\<lambda>_. Inr [V4 1]) l ''h'' = Inr [V4 1]"
    by (simp add: resolve_and_verify_def verify_pinned_ip_def assms(4))
  ultimately show ?thesis
    using assms(1)
    by (auto simp: handle_request_inner_def authenticated_def get_lease_def assms(2,3) sample_host
        collect_body_def sample_proxy_simps)
qed

lemma sample_run:
  "handle_request_inner sample_proxy 0 proxy_mgr proxy_mgr sample_peer ''01'' [7] sample_request =
     Ret (insert_lease ''01'' (proxy_lease\<lparr>l_requests_used := 1\<rparr>) proxy_mgr, [sample_outbound], [],
          Inr (sanitize_response \<lparr>rs_status = 200, rs_headers = [(''set-cookie'', ''x'')], rs_body = []\<rparr>))"
  by (rule sample_course [OF sample_authenticated sample_use])
    (simp_all add: sample_validate sample_scope_of proxy_lease_def)

theorem forwarded_requests_authorised_witness:
  "authenticated sample_proxy proxy_mgr sample_peer ''01'' [7] sample_request \<and>
   outbound_ok sample_proxy sample_request [] proxy_lease sample_outbound"
proof -
  have "globset_ok (px_globs sample_proxy)" by (simp add: sample_proxy_simps exact_globs_ok)
  from forwarded_requests_authorised [OF this sample_run] show ?thesis
    by (auto simp: proxy_mgr_leases sample_proxy_simps)
qed

theorem handle_request_answers_witness:
  "\<exists>mgr' sent aud resp.
     handle_request sample_proxy 0 proxy_mgr proxy_mgr sample_peer ''01'' [7] sample_request =
       Ret (mgr', sent, aud, resp) \<and>
     fst ` set (rs_headers resp) \<inter> set SENSITIVE_RESPONSE_HEADERS = {}"
proof -
  have "to_str_ok (px_to_str sample_proxy)" by (simp add: sample_proxy_simps ascii_to_str_ok)
  from handle_request_answers [OF this] show ?thesis by blast
qed

theorem forwarding_bounded_witness:
  "forwarded_count ''01'' proxy_mgr
     (replicate 5 (sample_proxy, 0, proxy_mgr, sample_peer, [7], sample_request)) \<le> 1"
proof -
  have "l_max_requests proxy_lease = Some 1" "l_requests_used proxy_lease = 0"
    by (simp_all add: proxy_lease_def lease1_def)
  then show ?thesis using forwarding_bounded [of proxy_mgr "''01''" proxy_lease 1]
    by (simp add: proxy_mgr_leases)
qed

theorem inactive_lease_answered_502_witness:
  "handle_request sample_proxy 0 proxy_mgr
     (insert_lease ''01'' (proxy_lease\<lparr>l_status := Revoked ''r''\<rparr>) proxy_mgr) sample_peer ''01'' [7] sample_request =
   Ret (insert_lease ''01'' (proxy_lease\<lparr>l_status := Revoked ''r''\<rparr>) proxy_mgr, [], [],
        text_response 502 ''502 Bad Gateway'')"
  by (rule inactive_lease_answered_502
        [of _ "[]", OF _ _ sample_authenticated, of _ "proxy_lease\<lparr>l_status := Revoked ''r''\<rparr>"])
    (simp_all add: sample_proxy_simps insert_lease_def)

end
