(* ===== verification/Cdp_Proxy_Manager.thy ===== *)
theory Cdp_Proxy_Manager
  imports Cdp_Proxy_Auth "HOL-Library.AList"
begin

text \<open>
  The pool of listeners (\<open>crates/cdp-proxy/src/manager.rs\<close>). A shutdown channel is a number;
  dropping the sender records the number in \<open>pm_cancelled\<close>, and a spawned server runs until its
  channel is there. The fields that are only handed to the servers (lease store, credential
  provider, key, audit sink) are left out. The mutex makes every operation one step. The lemmas
  show that running servers and pool entries correspond, and that no two running servers share
  an address.
\<close>

section \<open>State\<close>

record proxy_config =
  pcfg_bind_address :: ip_addr
  pcfg_port_range_start :: u16
  pcfg_port_range_end :: u16

definition proxy_config_default :: proxy_config where
  "proxy_config_default =
     \<lparr>pcfg_bind_address = V4 0x7F000001, pcfg_port_range_start = 19000, pcfg_port_range_end = 19999\<rparr>"

record listener_handle =
  lh_bind_addr :: sock_addr
  lh_cancel :: nat

record proxy_server =
  ps_lease_id :: string
  ps_bind_addr :: sock_addr
  ps_shutdown :: nat

record proxy_manager =
  pm_config :: proxy_config
  pm_listeners :: "(string \<times> u16 \<times> listener_handle) list"
  pm_channels :: nat
  pm_cancelled :: "nat list"
  pm_servers :: "proxy_server list"

definition proxy_manager_new :: "proxy_config \<Rightarrow> proxy_manager" where
  "proxy_manager_new config =
     \<lparr>pm_config = config, pm_listeners = [], pm_channels = 0, pm_cancelled = [], pm_servers = []\<rparr>"

section \<open>Operations\<close>

definition port_range :: "u16 \<Rightarrow> u16 \<Rightarrow> u16 list" where
  "port_range a b = map word_of_nat [unat a..<Suc (unat b)]"

definition find_free_port :: "proxy_manager \<Rightarrow> u16 option" where
  "find_free_port self =
     find (\<lambda>port. \<not> list_ex (\<lambda>(_, p, _). p = port) (pm_listeners self))
       (port_range (pcfg_port_range_start (pm_config self)) (pcfg_port_range_end (pm_config self)))"

definition stop :: "listener_handle \<Rightarrow> proxy_manager \<Rightarrow> proxy_manager" where
  "stop h self = self\<lparr>pm_cancelled := lh_cancel h # pm_cancelled self\<rparr>"

text \<open>Inserting drops the handle that was stored for the lease, and with it its sender.\<close>

definition insert_listener :: "string \<Rightarrow> u16 \<Rightarrow> listener_handle \<Rightarrow> proxy_manager \<Rightarrow> proxy_manager" where
  "insert_listener lease_id port h self =
     (let self = (case map_of (pm_listeners self) lease_id of
                    Some (_, old) \<Rightarrow> stop old self
                  | None \<Rightarrow> self) in
      self\<lparr>pm_listeners := AList.update lease_id (port, h) (pm_listeners self)\<rparr>)"

definition port_exhausted :: "proxy_manager \<Rightarrow> proxy_error" where
  "port_exhausted self =
     PortExhausted (pcfg_port_range_start (pm_config self)) (pcfg_port_range_end (pm_config self))"

definition listener_addr :: "proxy_config \<Rightarrow> u16 \<Rightarrow> sock_addr" where
  "listener_addr config port = \<lparr>sa_ip = pcfg_bind_address config, sa_port = port\<rparr>"

definition allocate_port :: "proxy_manager \<Rightarrow> string \<Rightarrow> proxy_manager \<times> (proxy_error + u16)" where
  "allocate_port self lease_id =
     (case find_free_port self of
        None \<Rightarrow> (self, Inl (port_exhausted self))
      | Some port \<Rightarrow>
          (let h = \<lparr>lh_bind_addr = listener_addr (pm_config self) port, lh_cancel = pm_channels self\<rparr>;
               self = self\<lparr>pm_channels := Suc (pm_channels self)\<rparr> in
           (insert_listener lease_id port h self, Inr port)))"

definition start_proxy :: "proxy_manager \<Rightarrow> string \<Rightarrow> proxy_manager \<times> (proxy_error + u16)" where
  "start_proxy self lease_id =
     (case find_free_port self of
        None \<Rightarrow> (self, Inl (port_exhausted self))
      | Some port \<Rightarrow>
          (let bind_addr = listener_addr (pm_config self) port;
               h = \<lparr>lh_bind_addr = bind_addr, lh_cancel = pm_channels self\<rparr>;
               server = \<lparr>ps_lease_id = lease_id, ps_bind_addr = bind_addr,
                         ps_shutdown = pm_channels self\<rparr>;
               self = self\<lparr>pm_channels := Suc (pm_channels self),
                           pm_servers := server # pm_servers self\<rparr> in
           (insert_listener lease_id port h self, Inr port)))"

definition port_for_lease :: "proxy_manager \<Rightarrow> string \<Rightarrow> u16 option" where
  "port_for_lease self lease_id = map_option fst (map_of (pm_listeners self) lease_id)"

definition bind_addr_for_lease :: "proxy_manager \<Rightarrow> string \<Rightarrow> sock_addr option" where
  "bind_addr_for_lease self lease_id =
     map_option (\<lambda>(_, h). lh_bind_addr h) (map_of (pm_listeners self) lease_id)"

definition release_lease :: "proxy_manager \<Rightarrow> string \<Rightarrow> proxy_manager \<times> bool" where
  "release_lease self lease_id =
     (case map_of (pm_listeners self) lease_id of
        Some (_, h) \<Rightarrow>
          (stop h (self\<lparr>pm_listeners := AList.delete lease_id (pm_listeners self)\<rparr>), True)
      | None \<Rightarrow> (self, False))"

definition stop_all :: "proxy_manager \<Rightarrow> proxy_manager" where
  "stop_all self =
     fold (\<lambda>(_, _, h). stop h) (pm_listeners self) (self\<lparr>pm_listeners := []\<rparr>)"

definition active_count :: "proxy_manager \<Rightarrow> nat" where
  "active_count self = length (pm_listeners self)"

section \<open>Steps and the invariant\<close>

inductive pstep :: "proxy_manager \<Rightarrow> proxy_manager \<Rightarrow> bool" where
  start: "start_proxy self i = (self', r) \<Longrightarrow> pstep self self'"
| allocate: "allocate_port self i = (self', r) \<Longrightarrow> pstep self self'"
| release: "release_lease self i = (self', b) \<Longrightarrow> pstep self self'"
| stop_all: "pstep self (stop_all self)"

definition pm_reachable :: "proxy_manager \<Rightarrow> bool" where
  "pm_reachable self \<longleftrightarrow> (\<exists>config. pstep\<^sup>*\<^sup>* (proxy_manager_new config) self)"

definition running :: "proxy_manager \<Rightarrow> proxy_server \<Rightarrow> bool" where
  "running self s \<longleftrightarrow> s \<in> set (pm_servers self) \<and> ps_shutdown s \<notin> set (pm_cancelled self)"

definition channel_of :: "string \<times> u16 \<times> listener_handle \<Rightarrow> nat" where
  "channel_of e = lh_cancel (snd (snd e))"

definition port_of :: "string \<times> u16 \<times> listener_handle \<Rightarrow> u16" where
  "port_of e = fst (snd e)"

definition entries_ok :: "proxy_config \<Rightarrow> (string \<times> u16 \<times> listener_handle) set \<Rightarrow> bool" where
  "entries_ok config es \<longleftrightarrow>
     inj_on port_of es \<and> inj_on channel_of es \<and>
     (\<forall>(i, p, h) \<in> es. p \<in> set (port_range (pcfg_port_range_start config) (pcfg_port_range_end config)) \<and>
        lh_bind_addr h = listener_addr config p)"

definition channels_ok ::
  "(string \<times> u16 \<times> listener_handle) set \<Rightarrow> nat \<Rightarrow> nat set \<Rightarrow> proxy_server set \<Rightarrow> bool" where
  "channels_ok es n cancelled servers \<longleftrightarrow>
     (\<forall>e \<in> es. channel_of e < n \<and> channel_of e \<notin> cancelled) \<and> (\<forall>c \<in> cancelled. c < n) \<and>
     inj_on ps_shutdown servers \<and>
     (\<forall>s \<in> servers. ps_shutdown s < n \<and>
        (ps_shutdown s \<in> cancelled \<or>
         (\<exists>p h. (ps_lease_id s, p, h) \<in> es \<and> lh_cancel h = ps_shutdown s \<and> lh_bind_addr h = ps_bind_addr s)))"

definition pm_ok :: "proxy_manager \<Rightarrow> bool" where
  "pm_ok self \<longleftrightarrow>
     distinct (map fst (pm_listeners self)) \<and> entries_ok (pm_config self) (set (pm_listeners self)) \<and>
     channels_ok (set (pm_listeners self)) (pm_channels self) (set (pm_cancelled self)) (set (pm_servers self))"

section \<open>Lemmas\<close>

lemma set_update:
  "distinct (map fst es) \<Longrightarrow> set (AList.update k v es) = insert (k, v) {e \<in> set es. fst e \<noteq> k}"
  by (induction es) (auto simp: image_iff split: if_splits)

lemma find_free_port_Some:
  assumes "find_free_port self = Some p"
  shows "p \<in> set (port_range (pcfg_port_range_start (pm_config self)) (pcfg_port_range_end (pm_config self))) \<and>
    p \<notin> port_of ` set (pm_listeners self)"
  using assms by (auto simp: find_free_port_def find_Some_iff list_ex_iff port_of_def)

lemma find_free_port_None:
  "find_free_port self = None \<longleftrightarrow>
     set (port_range (pcfg_port_range_start (pm_config self)) (pcfg_port_range_end (pm_config self))) \<subseteq>
       port_of ` set (pm_listeners self)"
  by (force simp: find_free_port_def find_None_iff list_ex_iff port_of_def image_iff)

text \<open>Dropping the entry of a lease and adding a fresh one, on the sets of the invariant.\<close>

lemma entries_ok_subset: "entries_ok config es \<Longrightarrow> es' \<subseteq> es \<Longrightarrow> entries_ok config es'"
  by (auto simp: entries_ok_def intro: inj_on_subset)

lemma entries_ok_insert:
  assumes "entries_ok config es" "p \<notin> port_of ` es" "lh_cancel h \<notin> channel_of ` es"
    and "p \<in> set (port_range (pcfg_port_range_start config) (pcfg_port_range_end config))"
    and "lh_bind_addr h = listener_addr config p"
  shows "entries_ok config (insert (i, p, h) es)"
  using assms by (auto simp: entries_ok_def port_of_def channel_of_def inj_on_insert image_iff)

lemma channels_ok_drop:
  assumes "channels_ok es n cancelled servers" "inj_on channel_of es"
  shows "channels_ok {e \<in> es. fst e \<noteq> i} n (channel_of ` {e \<in> es. fst e = i} \<union> cancelled) servers"
proof -
  have "channel_of e \<noteq> channel_of e'" if "e \<in> es" "fst e \<noteq> i" "e' \<in> es" "fst e' = i" for e e'
    using that inj_onD [OF assms(2)] by metis
  moreover have "ps_shutdown s \<in> channel_of ` {e \<in> es. fst e = i} \<union> cancelled \<or>
      (\<exists>p h. (ps_lease_id s, p, h) \<in> {e \<in> es. fst e \<noteq> i} \<and> lh_cancel h = ps_shutdown s \<and>
         lh_bind_addr h = ps_bind_addr s)" if "s \<in> servers" for s
    using assms(1) that unfolding channels_ok_def
    by (cases "ps_lease_id s = i") (fastforce simp: channel_of_def image_iff)+
  ultimately show ?thesis using assms(1) unfolding channels_ok_def by blast
qed

lemma channels_ok_insert:
  assumes "channels_ok es n cancelled servers" "lh_cancel h = n"
  shows "channels_ok (insert (i, p, h) es) (Suc n) cancelled servers"
  using assms by (fastforce simp: channels_ok_def channel_of_def less_Suc_eq)

lemma channels_ok_spawn:
  assumes "channels_ok es n cancelled servers" "lh_cancel h = n"
  shows "channels_ok (insert (i, p, h) es) (Suc n) cancelled
    (insert \<lparr>ps_lease_id = i, ps_bind_addr = lh_bind_addr h, ps_shutdown = n\<rparr> servers)"
proof -
  have "n \<notin> ps_shutdown ` servers" using assms(1) by (auto simp: channels_ok_def)
  with channels_ok_insert [OF assms, of i p] assms(2) show ?thesis
    unfolding channels_ok_def by (auto simp: inj_on_insert)
qed

lemma entry_of_lease:
  assumes "distinct (map fst es)"
  shows "channel_of ` {e \<in> set es. fst e = i} =
    (case map_of es i of None \<Rightarrow> {} | Some (_, h) \<Rightarrow> {lh_cancel h})"
proof (cases "map_of es i")
  case None
  then have "\<forall>e \<in> set es. fst e \<noteq> i" by (auto simp: map_of_eq_None_iff)
  with None show ?thesis by auto
next
  case (Some x)
  with assms have "{e \<in> set es. fst e = i} = {(i, x)}"
    by (auto simp: map_of_eq_Some_iff) (metis Pair_inject eq_key_imp_eq_value)
  with Some show ?thesis by (auto simp: channel_of_def split: prod.splits)
qed

lemma insert_listener_effect:
  assumes "distinct (map fst (pm_listeners self))"
  shows "set (pm_listeners (insert_listener i p h self)) =
      insert (i, p, h) {e \<in> set (pm_listeners self). fst e \<noteq> i}"
    "set (pm_cancelled (insert_listener i p h self)) =
      channel_of ` {e \<in> set (pm_listeners self). fst e = i} \<union> set (pm_cancelled self)"
    "map_of (pm_listeners (insert_listener i p h self)) = (map_of (pm_listeners self))(i \<mapsto> (p, h))"
    "distinct (map fst (pm_listeners (insert_listener i p h self)))"
    "pm_config (insert_listener i p h self) = pm_config self"
    "pm_channels (insert_listener i p h self) = pm_channels self"
    "pm_servers (insert_listener i p h self) = pm_servers self"
  using assms
  by (simp_all add: insert_listener_def stop_def set_update entry_of_lease update_conv' distinct_update
      split: option.splits prod.splits)

lemma release_lease_effect:
  assumes "distinct (map fst (pm_listeners self))"
  shows "set (pm_listeners (fst (release_lease self i))) = {e \<in> set (pm_listeners self). fst e \<noteq> i}"
    "set (pm_cancelled (fst (release_lease self i))) =
      channel_of ` {e \<in> set (pm_listeners self). fst e = i} \<union> set (pm_cancelled self)"
    "distinct (map fst (pm_listeners (fst (release_lease self i))))"
    "pm_config (fst (release_lease self i)) = pm_config self"
    "pm_channels (fst (release_lease self i)) = pm_channels self"
    "pm_servers (fst (release_lease self i)) = pm_servers self"
  using assms
  by (auto simp: release_lease_def stop_def entry_of_lease AList.delete_eq distinct_map_filter
      map_of_eq_None_iff image_iff split: option.splits prod.splits)

lemma stop_all_effect:
  "pm_listeners (stop_all self) = []"
  "set (pm_cancelled (stop_all self)) = channel_of ` set (pm_listeners self) \<union> set (pm_cancelled self)"
  "pm_config (stop_all self) = pm_config self" "pm_channels (stop_all self) = pm_channels self"
  "pm_servers (stop_all self) = pm_servers self"
proof -
  have "pm_listeners (fold (\<lambda>(_, _, h). stop h) es m) = pm_listeners m \<and>
      set (pm_cancelled (fold (\<lambda>(_, _, h). stop h) es m)) = channel_of ` set es \<union> set (pm_cancelled m) \<and>
      pm_config (fold (\<lambda>(_, _, h). stop h) es m) = pm_config m \<and>
      pm_channels (fold (\<lambda>(_, _, h). stop h) es m) = pm_channels m \<and>
      pm_servers (fold (\<lambda>(_, _, h). stop h) es m) = pm_servers m" for es m
    by (induction es arbitrary: m) (auto simp: stop_def channel_of_def)
  then show "pm_listeners (stop_all self) = []"
    "set (pm_cancelled (stop_all self)) = channel_of ` set (pm_listeners self) \<union> set (pm_cancelled self)"
    "pm_config (stop_all self) = pm_config self" "pm_channels (stop_all self) = pm_channels self"
    "pm_servers (stop_all self) = pm_servers self"
    by (simp_all add: stop_all_def)
qed

lemma insert_listener_ok:
  assumes "pm_ok self" "find_free_port self = Some p"
    and "h = \<lparr>lh_bind_addr = listener_addr (pm_config self) p, lh_cancel = pm_channels self\<rparr>"
    and "servers = pm_servers self \<or> servers =
      \<lparr>ps_lease_id = i, ps_bind_addr = lh_bind_addr h, ps_shutdown = pm_channels self\<rparr> # pm_servers self"
  shows "pm_ok (insert_listener i p h
    (self\<lparr>pm_channels := Suc (pm_channels self), pm_servers := servers\<rparr>))"
proof -
  from assms(1) have ok: "distinct (map fst (pm_listeners self))"
    "entries_ok (pm_config self) (set (pm_listeners self))"
    "channels_ok (set (pm_listeners self)) (pm_channels self) (set (pm_cancelled self)) (set (pm_servers self))"
    by (simp_all add: pm_ok_def)
  let ?kept = "{e \<in> set (pm_listeners self). fst e \<noteq> i}"
  let ?gone = "channel_of ` {e \<in> set (pm_listeners self). fst e = i} \<union> set (pm_cancelled self)"
  have chan: "channels_ok ?kept (pm_channels self) ?gone (set (pm_servers self))"
    using channels_ok_drop [OF ok(3)] ok(2) by (simp add: entries_ok_def)
  have h: "lh_cancel h = pm_channels self" using assms(3) by simp
  have "channels_ok (insert (i, p, h) ?kept) (Suc (pm_channels self)) ?gone (set servers)"
    using assms(4) channels_ok_insert [OF chan h, of i p] channels_ok_spawn [OF chan h, of i p] by auto
  moreover have "entries_ok (pm_config self) (insert (i, p, h) ?kept)"
    using find_free_port_Some [OF assms(2)] ok(3)
    by (intro entries_ok_insert entries_ok_subset [OF ok(2)])
      (auto simp: assms(3) channels_ok_def channel_of_def)
  ultimately show ?thesis using ok(1) by (simp add: pm_ok_def insert_listener_effect)
qed

lemma pstep_ok:
  assumes "pstep self self'" "pm_ok self"
  shows "pm_ok self'"
  using assms
proof (cases rule: pstep.cases)
  case (start i r)
  then show ?thesis using assms(2) insert_listener_ok [OF assms(2)]
    by (auto simp: start_proxy_def Let_def split: option.splits)
next
  case (allocate i r)
  have "self\<lparr>pm_channels := n, pm_servers := pm_servers self\<rparr> = self\<lparr>pm_channels := n\<rparr>" for n by simp
  with allocate show ?thesis using assms(2) insert_listener_ok [OF assms(2) _ _ disjI1 [OF refl]]
    by (auto simp: allocate_port_def Let_def split: option.splits)
next
  case (release i b)
  then have "self' = fst (release_lease self i)" by simp
  with assms(2) show ?thesis
    by (auto simp: pm_ok_def release_lease_effect intro: entries_ok_subset channels_ok_drop)
      (simp add: channels_ok_drop entries_ok_def)
next
  case stop_all
  have "channels_ok {} (pm_channels self) (channel_of ` set (pm_listeners self) \<union> set (pm_cancelled self))
      (set (pm_servers self))"
    using assms(2) unfolding pm_ok_def channels_ok_def by (fastforce simp: channel_of_def image_iff)
  with stop_all show ?thesis by (simp add: pm_ok_def stop_all_effect entries_ok_def)
qed

lemma pm_reachable_ok: "pm_reachable self \<Longrightarrow> pm_ok self"
proof -
  have "pm_ok (proxy_manager_new config)" for config
    by (simp add: pm_ok_def proxy_manager_new_def entries_ok_def channels_ok_def)
  moreover have "pstep\<^sup>*\<^sup>* a b \<Longrightarrow> pm_ok a \<Longrightarrow> pm_ok b" for a b
    by (induction rule: rtranclp_induct) (auto dest: pstep_ok)
  ultimately show "pm_reachable self \<Longrightarrow> pm_ok self" by (auto simp: pm_reachable_def)
qed

section \<open>The pool as an interface\<close>

text \<open>
  Both ways of taking a port keep one contract: the port is usable and free, and the pool
  changes at the lease only; a refusal means that no usable port is free.
\<close>

locale port_pool =
  fixes ok :: "'s \<Rightarrow> bool" and ports :: "'s \<Rightarrow> string \<Rightarrow> u16 option" and usable :: "'s \<Rightarrow> u16 set"
    and take_port :: "'s \<Rightarrow> string \<Rightarrow> 's \<times> (proxy_error + u16)"
  assumes take_ok: "ok s \<Longrightarrow> take_port s i = (s', r) \<Longrightarrow> ok s'"
    and take_granted: "ok s \<Longrightarrow> take_port s i = (s', Inr p) \<Longrightarrow>
      p \<in> usable s \<and> p \<notin> ran (ports s) \<and> ports s' = (ports s)(i \<mapsto> p) \<and> usable s' = usable s"
    and take_refused: "ok s \<Longrightarrow> take_port s i = (s', Inl e) \<Longrightarrow> s' = s \<and> usable s \<subseteq> ran (ports s)"
    and pool_ok: "ok s \<Longrightarrow> inj_on (ports s) (dom (ports s)) \<and> ran (ports s) \<subseteq> usable s \<and>
      finite (usable s)"
begin

lemma moves: "ok s \<Longrightarrow> ports s i = Some q \<Longrightarrow> take_port s i = (s', Inr p) \<Longrightarrow> p \<noteq> q"
  by (auto dest!: take_granted simp: ran_def)

lemma granted_iff: "ok s \<Longrightarrow> (\<exists>s' p. take_port s i = (s', Inr p)) \<longleftrightarrow> ran (ports s) \<noteq> usable s"
proof (cases "take_port s i")
  case (Pair s' r)
  assume ok: "ok s"
  show ?thesis
  proof (cases r)
    case (Inl e)
    with Pair ok take_refused [of s i s' e] pool_ok [of s] show ?thesis by auto
  next
    case (Inr p)
    with Pair ok take_granted [of s i s' p] show ?thesis by blast
  qed
qed

lemma granted_iff_card:
  assumes "ok s"
  shows "(\<exists>s' p. take_port s i = (s', Inr p)) \<longleftrightarrow> card (dom (ports s)) < card (usable s)"
proof -
  have "ran (ports s) = the ` ports s ` dom (ports s)" by (force simp: ran_def image_iff dom_def)
  moreover have "inj_on (the \<circ> ports s) (dom (ports s))"
    using pool_ok [OF assms] by (auto simp: inj_on_def) (metis domI)
  ultimately have "card (ran (ports s)) = card (dom (ports s))"
    by (metis card_image image_comp)
  with pool_ok [OF assms] granted_iff [OF assms, of i] show ?thesis
    by (metis card_mono card_subset_eq order_le_less less_irrefl)
qed

end

abbreviation usable_ports :: "proxy_manager \<Rightarrow> u16 set" where
  "usable_ports self \<equiv>
     set (port_range (pcfg_port_range_start (pm_config self)) (pcfg_port_range_end (pm_config self)))"

lemma port_for_lease_eq_Some:
  "pm_ok self \<Longrightarrow> port_for_lease self i = Some p \<longleftrightarrow> (\<exists>h. (i, p, h) \<in> set (pm_listeners self))"
  by (auto simp: port_for_lease_def pm_ok_def map_of_eq_Some_iff)

lemma ran_port_for_lease: "pm_ok self \<Longrightarrow> ran (port_for_lease self) = port_of ` set (pm_listeners self)"
  by (force simp: ran_def port_for_lease_eq_Some port_of_def image_iff)

lemma dom_port_for_lease: "dom (port_for_lease self) = fst ` set (pm_listeners self)"
  by (auto simp: port_for_lease_def dom_def map_option_eq_Some dom_map_of_conv_image_fst [symmetric])

lemma pm_ok_pool:
  assumes "pm_ok self"
  shows "inj_on (port_for_lease self) (dom (port_for_lease self)) \<and>
    ran (port_for_lease self) \<subseteq> usable_ports self \<and> finite (usable_ports self)"
proof -
  have "i = j" if "(i, p, h) \<in> set (pm_listeners self)" "(j, p, h') \<in> set (pm_listeners self)" for i j p h h'
    using assms that inj_onD [of port_of "set (pm_listeners self)" "(i, p, h)" "(j, p, h')"]
    by (simp add: pm_ok_def entries_ok_def port_of_def)
  then have "inj_on (port_for_lease self) (dom (port_for_lease self))"
    using port_for_lease_eq_Some [OF assms] by (auto simp: inj_on_def dom_def) metis
  moreover have "ran (port_for_lease self) \<subseteq> usable_ports self"
    using assms by (auto simp: ran_port_for_lease pm_ok_def entries_ok_def port_of_def)
  ultimately show ?thesis by simp
qed

lemma find_free_port_pool:
  "pm_ok self \<Longrightarrow> find_free_port self = None \<longleftrightarrow> usable_ports self \<subseteq> ran (port_for_lease self)"
  "pm_ok self \<Longrightarrow> find_free_port self = Some p \<Longrightarrow> p \<in> usable_ports self \<and> p \<notin> ran (port_for_lease self)"
  by (simp_all add: find_free_port_None find_free_port_Some ran_port_for_lease)

lemma insert_listener_port:
  "port_for_lease (insert_listener i p h self) = (port_for_lease self)(i \<mapsto> p)"
  "pm_config (insert_listener i p h self) = pm_config self"
  by (auto simp: port_for_lease_def insert_listener_def stop_def update_conv' fun_eq_iff
      split: option.splits)

lemma port_for_lease_unchanged [simp]:
  "port_for_lease (self\<lparr>pm_channels := n, pm_servers := ss\<rparr>) = port_for_lease self"
  "port_for_lease (self\<lparr>pm_channels := n\<rparr>) = port_for_lease self"
  by (simp_all add: port_for_lease_def fun_eq_iff)

lemmas take_defs = start_proxy_def allocate_port_def Let_def insert_listener_port

interpretation starting: port_pool pm_ok port_for_lease usable_ports start_proxy
proof
  show "pm_ok s'" if "pm_ok s" "start_proxy s i = (s', r)" for s i s' r
    using that pstep_ok pstep.start by blast
qed (auto simp: take_defs pm_ok_pool find_free_port_pool split: option.splits dest: find_free_port_pool)

interpretation allocating: port_pool pm_ok port_for_lease usable_ports allocate_port
proof
  show "pm_ok s'" if "pm_ok s" "allocate_port s i = (s', r)" for s i s' r
    using that pstep_ok pstep.allocate by blast
qed (auto simp: take_defs pm_ok_pool find_free_port_pool split: option.splits dest: find_free_port_pool)

lemma card_usable_ports:
  "card (usable_ports self) =
     Suc (unat (pcfg_port_range_end (pm_config self))) - unat (pcfg_port_range_start (pm_config self))"
proof -
  let ?ns = "{unat (pcfg_port_range_start (pm_config self))..<Suc (unat (pcfg_port_range_end (pm_config self)))}"
  have "n < 2 ^ 16" if "n \<in> ?ns" for n
    using that unat_less_pow [of "pcfg_port_range_end (pm_config self)"] by auto
  then have "unat (word_of_nat n :: u16) = n" if "n \<in> ?ns" for n
    using that by (simp add: unat_of_nat take_bit_nat_eq_self)
  then have "inj_on (word_of_nat :: nat \<Rightarrow> u16) ?ns" by (rule inj_on_inverseI)
  then have "card (word_of_nat ` ?ns :: u16 set) = card ?ns" by (rule card_image)
  then show ?thesis by (simp only: port_range_def set_map set_upt card_atLeastLessThan)
qed

lemma active_count_dom: "pm_ok self \<Longrightarrow> active_count self = card (dom (port_for_lease self))"
proof -
  assume "pm_ok self"
  then have "card (set (map fst (pm_listeners self))) = length (map fst (pm_listeners self))"
    by (intro distinct_card) (simp add: pm_ok_def)
  then show ?thesis by (simp add: active_count_def dom_port_for_lease)
qed

lemma running_entry:
  assumes "pm_ok self" "running self s"
  obtains p h where "(ps_lease_id s, p, h) \<in> set (pm_listeners self)" "lh_cancel h = ps_shutdown s"
    "ps_bind_addr s = listener_addr (pm_config self) p"
  using assms by (fastforce simp: running_def pm_ok_def channels_ok_def entries_ok_def)

lemma release_lease_running:
  assumes "pm_ok self"
  shows "running (fst (release_lease self i)) s \<longleftrightarrow> running self s \<and> ps_lease_id s \<noteq> i"
proof (cases "running self s")
  case True
  have dist: "distinct (map fst (pm_listeners self))" using assms by (simp add: pm_ok_def)
  obtain p h where s: "(ps_lease_id s, p, h) \<in> set (pm_listeners self)" "lh_cancel h = ps_shutdown s"
    using running_entry [OF assms True] by blast
  then have chan: "channel_of (ps_lease_id s, p, h) = ps_shutdown s" by (simp add: channel_of_def)
  have "inj_on channel_of (set (pm_listeners self))" using assms by (simp add: pm_ok_def entries_ok_def)
  from inj_on_image_mem_iff [OF this s(1), of "{e \<in> set (pm_listeners self). fst e = i}"]
  have "ps_shutdown s \<in> channel_of ` {e \<in> set (pm_listeners self). fst e = i} \<longleftrightarrow> ps_lease_id s = i"
    using s(1) by (auto simp: chan)
  with True show ?thesis by (simp add: running_def release_lease_effect [OF dist])
next
  case False
  have "distinct (map fst (pm_listeners self))" using assms by (simp add: pm_ok_def)
  with False show ?thesis by (auto simp: running_def release_lease_effect)
qed

lemma release_lease_ok: "pm_ok self \<Longrightarrow> pm_ok (fst (release_lease self i))"
  by (metis pstep_ok pstep.release prod.collapse)

lemma release_all_running:
  "pm_ok self \<Longrightarrow> running (fold (\<lambda>i pool. fst (release_lease pool i)) ids self) s \<longleftrightarrow>
     running self s \<and> ps_lease_id s \<notin> set ids"
  by (induction ids arbitrary: self) (auto simp: release_lease_running release_lease_ok)

lemma stop_all_running: "pm_ok self \<Longrightarrow> \<not> running (stop_all self) s"
proof
  assume ok: "pm_ok self" and "running (stop_all self) s"
  then have run: "running self s" and gone: "ps_shutdown s \<notin> channel_of ` set (pm_listeners self)"
    by (auto simp: running_def stop_all_effect)
  obtain p h where "(ps_lease_id s, p, h) \<in> set (pm_listeners self)" "lh_cancel h = ps_shutdown s"
    using running_entry [OF ok run] by blast
  then have "ps_shutdown s \<in> channel_of ` set (pm_listeners self)"
    by (intro image_eqI [of _ _ "(ps_lease_id s, p, h)"]) (simp_all add: channel_of_def)
  with gone show False ..
qed

section \<open>Properties\<close>

text \<open>
  C39. Starting a proxy in a reachable pool succeeds exactly when fewer listeners are active than
  the configured range has ports. The port it returns lies in the range, belongs to no lease
  before, and belongs to this lease afterwards; every other lease keeps its port. A refusal
  changes nothing.
\<close>

theorem start_proxy_pool:
  assumes "pm_reachable self" "start_proxy self i = (self', r)"
  shows "((\<exists>p. r = Inr p) \<longleftrightarrow> active_count self <
      Suc (unat (pcfg_port_range_end (pm_config self))) - unat (pcfg_port_range_start (pm_config self))) \<and>
    (\<forall>p. r = Inr p \<longrightarrow> p \<in> usable_ports self \<and> p \<notin> ran (port_for_lease self) \<and>
      port_for_lease self' = (port_for_lease self)(i \<mapsto> p)) \<and>
    (\<forall>e. r = Inl e \<longrightarrow> self' = self)"
proof -
  note ok = pm_reachable_ok [OF assms(1)]
  have "(\<exists>p. r = Inr p) \<longleftrightarrow> active_count self < card (usable_ports self)"
    using starting.granted_iff_card [OF ok, of i] assms(2) by (simp add: active_count_dom ok)
  then show ?thesis
    unfolding card_usable_ports using starting.take_granted [OF ok] starting.take_refused [OF ok] assms(2)
    by blast
qed

text \<open>
  C29. In every reachable pool the running servers are isolated: two running servers with the
  same address are the same server, each runs at the address and port recorded for its lease,
  and no lease has two of them.
\<close>

theorem running_servers_isolated:
  assumes "pm_reachable self" "running self s" "running self t"
  shows "bind_addr_for_lease self (ps_lease_id s) = Some (ps_bind_addr s) \<and>
    port_for_lease self (ps_lease_id s) = Some (sa_port (ps_bind_addr s)) \<and>
    (ps_bind_addr s = ps_bind_addr t \<longrightarrow> s = t) \<and> (ps_lease_id s = ps_lease_id t \<longrightarrow> s = t)"
proof -
  note ok = pm_reachable_ok [OF assms(1)]
  then have inv: "inj_on port_of (set (pm_listeners self))" "distinct (map fst (pm_listeners self))"
    "inj_on ps_shutdown (set (pm_servers self))"
    "\<forall>(i, p, h) \<in> set (pm_listeners self). lh_bind_addr h = listener_addr (pm_config self) p"
    by (auto simp: pm_ok_def entries_ok_def channels_ok_def)
  obtain p h where s: "(ps_lease_id s, p, h) \<in> set (pm_listeners self)" "lh_cancel h = ps_shutdown s"
    "ps_bind_addr s = listener_addr (pm_config self) p" using running_entry [OF ok assms(2)] .
  obtain q g where t: "(ps_lease_id t, q, g) \<in> set (pm_listeners self)" "lh_cancel g = ps_shutdown t"
    "ps_bind_addr t = listener_addr (pm_config self) q" using running_entry [OF ok assms(3)] .
  have same: "s = t" if "(p, h) = (q, g)"
    using inj_onD [OF inv(3)] assms(2,3) s(2) t(2) that by (simp add: running_def)
  have lease: "s = t" if "ps_lease_id s = ps_lease_id t"
    using eq_key_imp_eq_value [OF inv(2) s(1)] t(1) that by (intro same) simp
  have addr: "s = t" if "ps_bind_addr s = ps_bind_addr t"
  proof (rule same)
    have "p = q" using s(3) t(3) that by (simp add: listener_addr_def)
    then show "(p, h) = (q, g)" using inj_onD [OF inv(1) _ s(1) t(1)] by (simp add: port_of_def)
  qed
  have entry: "map_of (pm_listeners self) (ps_lease_id s) = Some (p, h)"
    using inv(2) s(1) by (simp add: map_of_eq_Some_iff)
  have "bind_addr_for_lease self (ps_lease_id s) = Some (ps_bind_addr s)"
    using inv(4) s(1,3) by (auto simp: bind_addr_for_lease_def entry)
  moreover have "port_for_lease self (ps_lease_id s) = Some (sa_port (ps_bind_addr s))"
    by (simp add: port_for_lease_def entry s(3) listener_addr_def)
  ultimately show ?thesis using lease addr by blast
qed

text \<open>
  Releasing a lease stops exactly its server and frees its port; stopping all leaves no
  server running.
\<close>

theorem release_stops_server:
  assumes "pm_reachable self" "release_lease self i = (self', b)"
  shows "(b \<longleftrightarrow> port_for_lease self i \<noteq> None) \<and> port_for_lease self' i = None \<and>
    (\<forall>s. running self' s \<longleftrightarrow> running self s \<and> ps_lease_id s \<noteq> i) \<and> (\<forall>s. \<not> running (stop_all self) s)"
proof -
  note ok = pm_reachable_ok [OF assms(1)]
  then have dist: "distinct (map fst (pm_listeners self))" by (simp add: pm_ok_def)
  have self': "self' = fst (release_lease self i)" using assms(2) by simp
  have "i \<notin> fst ` set (pm_listeners self')"
    using release_lease_effect(1) [OF dist, of i] by (auto simp: self')
  then have "port_for_lease self' i = None" by (simp add: port_for_lease_def map_of_eq_None_iff)
  moreover have "b \<longleftrightarrow> port_for_lease self i \<noteq> None"
    using assms(2) by (auto simp: release_lease_def port_for_lease_def split: option.splits)
  ultimately show ?thesis
    using release_lease_running [OF ok, of i] stop_all_running [OF ok] by (simp add: self')
qed

text \<open>
  Starting a proxy for a lease that holds an allocated port never uses that port: the lease
  moves to another one.
\<close>

theorem start_after_allocate_moves:
  assumes "pm_reachable self" "allocate_port self i = (self1, Inr p)"
    and "start_proxy self1 i = (self2, Inr q)"
  shows "q \<noteq> p \<and> port_for_lease self2 i = Some q"
proof -
  note ok = pm_reachable_ok [OF assms(1)]
  have ok1: "pm_ok self1" using allocating.take_ok [OF ok assms(2)] .
  have "port_for_lease self1 i = Some p" using allocating.take_granted [OF ok assms(2)] by simp
  from starting.moves [OF ok1 this assms(3)] starting.take_granted [OF ok1 assms(3)]
  show ?thesis by simp
qed

section \<open>Witnesses\<close>

text \<open>A pool of two ports.\<close>

definition sample_pool :: proxy_manager where
  "sample_pool = proxy_manager_new
     \<lparr>pcfg_bind_address = V4 1, pcfg_port_range_start = 5, pcfg_port_range_end = 6\<rparr>"

lemma sample_pool_reachable: "pm_reachable sample_pool"
  by (auto simp: pm_reachable_def sample_pool_def)

lemma sample_pool_ports: "port_range 5 6 = [5, 6]"
  by (simp add: port_range_def upt_rec)

lemma pm_reachable_step: "pm_reachable self \<Longrightarrow> pstep self self' \<Longrightarrow> pm_reachable self'"
  by (auto simp: pm_reachable_def intro: rtranclp.rtrancl_into_rtrancl)

definition sample_pool1 :: proxy_manager where
  "sample_pool1 = fst (start_proxy sample_pool ''a'')"

lemma sample_start: "start_proxy sample_pool ''a'' = (sample_pool1, Inr 5)"
  by (simp add: sample_pool1_def start_proxy_def find_free_port_def sample_pool_def proxy_manager_new_def
      sample_pool_ports Let_def)

definition sample_server :: proxy_server where
  "sample_server = \<lparr>ps_lease_id = ''a'', ps_bind_addr = \<lparr>sa_ip = V4 1, sa_port = 5\<rparr>, ps_shutdown = 0\<rparr>"

lemma sample_running: "running sample_pool1 sample_server"
  by (simp add: sample_pool1_def start_proxy_def find_free_port_def sample_pool_def proxy_manager_new_def
      sample_pool_ports Let_def running_def insert_listener_def listener_addr_def sample_server_def)

lemma sample_pool1_reachable: "pm_reachable sample_pool1"
  by (rule pm_reachable_step [OF sample_pool_reachable pstep.start [OF sample_start]])

theorem start_proxy_pool_witness: "port_for_lease sample_pool1 = (port_for_lease sample_pool)(''a'' \<mapsto> 5)"
  using start_proxy_pool [OF sample_pool_reachable sample_start] by simp

theorem running_servers_isolated_witness:
  "bind_addr_for_lease sample_pool1 ''a'' = Some \<lparr>sa_ip = V4 1, sa_port = 5\<rparr>"
  using running_servers_isolated [OF sample_pool1_reachable sample_running sample_running]
  by (simp add: sample_server_def)

theorem release_stops_server_witness: "\<not> running (fst (release_lease sample_pool1 ''a'')) sample_server"
proof -
  obtain m b where "release_lease sample_pool1 ''a'' = (m, b)" by (cases "release_lease sample_pool1 ''a''")
  with release_stops_server [OF sample_pool1_reachable this] show ?thesis by (simp add: sample_server_def)
qed

theorem start_after_allocate_moves_witness:
  "snd (allocate_port sample_pool ''a'') = Inr 5 \<and>
   snd (start_proxy (fst (allocate_port sample_pool ''a'')) ''a'') = Inr 6 \<and> (6 :: u16) \<noteq> 5"
proof -
  obtain m where m: "allocate_port sample_pool ''a'' = (m, Inr 5)"
    by (simp add: allocate_port_def find_free_port_def sample_pool_def proxy_manager_new_def
        sample_pool_ports Let_def)
  then have "snd (start_proxy m ''a'') = Inr 6"
    by (auto simp: allocate_port_def start_proxy_def find_free_port_def sample_pool_def proxy_manager_new_def
        sample_pool_ports Let_def insert_listener_def)
  with m start_after_allocate_moves [OF sample_pool_reachable m, of "fst (start_proxy m ''a'')" 6]
  show ?thesis by (cases "start_proxy m ''a''") simp
qed

end
