(* ===== verification/Cdp_Gate_Verify.thy ===== *)
theory Cdp_Gate_Verify
  imports Cdp_Policy_Approval Cdp_Proxy_Http Cdp_Proxy_Manager
begin

text \<open>
  The types of the gate and the verification of an agent (\<open>crates/cdp-gate/src/types.rs\<close>,
  \<open>error.rs\<close> and \<open>agent_verify.rs\<close>). The process file system, \<open>pidfd_open\<close> and SHA-256 are
  arguments. A file descriptor for a process carries no data and is left out of the fingerprint.
  The lemmas show that the start time is found whatever the name of the process is, and that a
  fingerprint identifies the user, the process, the binary and the start time.
\<close>

section \<open>Types\<close>

record agent_fingerprint =
  fp_uid :: u32
  fp_pid :: u32
  fp_binary_path :: string
  fp_binary_hash :: bytes
  fp_start_time :: u64
  fp_fingerprint_hash :: bytes

record agent_registration =
  rg_fingerprint :: agent_fingerprint
  rg_agent_id :: string
  rg_agent_version :: string
  rg_capabilities_granted :: "string list"
  rg_connection_id :: bytes
  rg_registered_at :: int

record death_notification =
  dt_pid :: u32
  dt_fingerprint_hash :: bytes

record peer_info =
  peer_pid :: u32
  peer_uid :: u32
  peer_gid :: u32

record json_rpc_request =
  jr_jsonrpc :: string
  jr_method :: string
  jr_params :: json
  jr_id :: json

record register_params =
  rp_agent_id :: string
  rp_agent_version :: string
  rp_capabilities :: "string list"
  rp_attestation :: "json option"
  rp_nonce :: string
  rp_timestamp :: string

record register_result =
  rr_status :: string
  rr_agent_fingerprint :: string
  rr_session_token :: string
  rr_capabilities_granted :: "string list"

record requested_scope =
  rsc_hosts :: "string list"
  rsc_methods :: "string list"
  rsc_paths :: "string list"
  rsc_ttl_seconds :: "u64 option"
  rsc_max_requests :: "u64 option"

record request_credential_params =
  rc_session_token :: string
  rc_credential_ref :: string
  rc_scope :: requested_scope
  rc_reason :: string
  rc_nonce :: string
  rc_timestamp :: string

record request_credential_result =
  rcr_status :: string
  rcr_lease_id :: string
  rcr_proxy_port :: u16
  rcr_lease_token :: string
  rcr_channel_binding_nonce :: string
  rcr_ttl_seconds :: u64
  rcr_granted_scope :: requested_scope

text \<open>The value of a successful response, before it is written as JSON.\<close>

datatype rpc_result = Registered register_result | Granted request_credential_result

record json_rpc_response =
  js_jsonrpc :: string
  js_result :: "rpc_result option"
  js_error :: "(int \<times> string) option"
  js_id :: json

definition rpc_success :: "json \<Rightarrow> rpc_result \<Rightarrow> json_rpc_response" where
  "rpc_success rid v = \<lparr>js_jsonrpc = ''2.0'', js_result = Some v, js_error = None, js_id = rid\<rparr>"

definition rpc_error :: "json \<Rightarrow> int \<Rightarrow> string \<Rightarrow> json_rpc_response" where
  "rpc_error rid code message =
     \<lparr>js_jsonrpc = ''2.0'', js_result = None, js_error = Some (code, message), js_id = rid\<rparr>"

datatype replay_reason =
    Nonce_Not_Uuid | Nonce_Not_V4 | Timestamp_Not_Rfc3339 | Timestamp_Age int | Duplicate_Nonce string

datatype session_reason =
    No_Registration | Missing_Session_Token | Bad_Token_Prefix | Session_Hmac_Invalid

datatype verify_reason =
    Binary_Unreadable string string | Exe_Unreadable u32 string | Stat_Unreadable u32 string
  | No_Closing_Paren u32 | Too_Few_Fields u32 nat | Start_Not_U64 u32 string | Client_Identity string

datatype gate_error =
    GateError_Config string
  | GateError_Listener string
  | AgentVerification verify_reason
  | GateError_Fingerprint string
  | JsonRpc int string
  | Replay replay_reason
  | SessionInvalid session_reason
  | GateError_Io string
  | Syscall string
  | GateError_Crypto crypto_error
  | GateError_Policy policy_error
  | GateError_Lease lease_error
  | GateError_Proxy proxy_error
  | GateError_Vault string
  | CredentialDenied string

section \<open>Agent verification\<close>

record process_env =
  pv_pidfd_open :: "u32 \<Rightarrow> string option"
  pv_read_exe :: "u32 \<Rightarrow> string + string"
  pv_read_file :: "string \<Rightarrow> string + bytes"
  pv_read_stat :: "u32 \<Rightarrow> string + string"
  pv_sha256 :: "bytes \<Rightarrow> bytes"

text \<open>\<open>pv_pidfd_open\<close> is the error of the system call, if it fails.\<close>

definition hash_binary :: "process_env \<Rightarrow> string \<Rightarrow> gate_error + bytes" where
  "hash_binary pv path =
     (case pv_read_file pv path of
        Inl e \<Rightarrow> Inl (AgentVerification (Binary_Unreadable path e))
      | Inr data \<Rightarrow> Inr (pv_sha256 pv data))"

definition read_binary_path :: "process_env \<Rightarrow> u32 \<Rightarrow> gate_error + string" where
  "read_binary_path pv pid =
     (case pv_read_exe pv pid of
        Inl e \<Rightarrow> Inl (AgentVerification (Exe_Unreadable pid e))
      | Inr p \<Rightarrow> Inr p)"

definition STARTTIME_INDEX :: nat where
  "STARTTIME_INDEX = 19"

definition read_start_time :: "process_env \<Rightarrow> u32 \<Rightarrow> gate_error + u64" where
  "read_start_time pv pid =
     (case pv_read_stat pv pid of
        Inl e \<Rightarrow> Inl (AgentVerification (Stat_Unreadable pid e))
      | Inr stat \<Rightarrow>
          if CHR '')'' \<notin> set stat then Inl (AgentVerification (No_Closing_Paren pid))
          else (let remainder = rev (takeWhile (\<lambda>c. c \<noteq> CHR '')'') (rev stat));
                    flds = split_whitespace remainder in
                if length flds \<le> STARTTIME_INDEX
                then Inl (AgentVerification (Too_Few_Fields pid (length flds)))
                else (case parse_uint (2 ^ 64 - 1) (flds ! STARTTIME_INDEX) of
                        None \<Rightarrow> Inl (AgentVerification (Start_Not_U64 pid (flds ! STARTTIME_INDEX)))
                      | Some n \<Rightarrow> Inr (of_nat n))))"

definition le_bytes :: "nat \<Rightarrow> nat \<Rightarrow> bytes" where
  "le_bytes n v = rev (be_bytes n v)"

definition compute_fingerprint :: "(bytes \<Rightarrow> bytes) \<Rightarrow> u32 \<Rightarrow> u32 \<Rightarrow> bytes \<Rightarrow> u64 \<Rightarrow> bytes" where
  "compute_fingerprint sha256 uid pid binary_hash start_time =
     sha256 (le_bytes 4 (unat uid) @ le_bytes 4 (unat pid) @ binary_hash @ le_bytes 8 (unat start_time))"

definition verify_agent :: "process_env \<Rightarrow> u32 \<Rightarrow> u32 \<Rightarrow> gate_error + agent_fingerprint" where
  "verify_agent pv pid uid =
     (case pv_pidfd_open pv pid of
        Some e \<Rightarrow> Inl (Syscall (''pidfd_open('' @ show_nat (unat pid) @ '') failed: '' @ e))
      | None \<Rightarrow>
     (case read_binary_path pv pid of
        Inl e \<Rightarrow> Inl e
      | Inr binary_path \<Rightarrow>
     (case hash_binary pv binary_path of
        Inl e \<Rightarrow> Inl e
      | Inr binary_hash \<Rightarrow>
     (case read_start_time pv pid of
        Inl e \<Rightarrow> Inl e
      | Inr start_time \<Rightarrow>
          Inr \<lparr>fp_uid = uid, fp_pid = pid, fp_binary_path = binary_path, fp_binary_hash = binary_hash,
               fp_start_time = start_time,
               fp_fingerprint_hash =
                 compute_fingerprint (pv_sha256 pv) uid pid binary_hash start_time\<rparr>))))"

text \<open>
  What a liveness monitor sends once the process has ended: nothing when the descriptor cannot be
  duplicated or registered, which is only logged.
\<close>

definition spawn_liveness_monitor :: "bool \<Rightarrow> bool \<Rightarrow> u32 \<Rightarrow> bytes \<Rightarrow> death_notification option" where
  "spawn_liveness_monitor duplicated registered pid fingerprint_hash =
     (if duplicated \<and> registered then Some \<lparr>dt_pid = pid, dt_fingerprint_hash = fingerprint_hash\<rparr> else None)"

section \<open>Lemmas\<close>

text \<open>Fields of printable characters other than the space, separated by single spaces.\<close>

definition printable :: "string \<Rightarrow> bool" where
  "printable w \<longleftrightarrow> w \<noteq> [] \<and> (\<forall>c \<in> set w. 33 \<le> (of_char c :: nat) \<and> (of_char c :: nat) < 127)"

lemma strip_first_hd: "\<forall>p \<in> set ps. p \<noteq> [] \<and> hd p \<noteq> c \<Longrightarrow> strip_first ps (c # cs) = None"
proof (induction ps)
  case (Cons p ps)
  then show ?case by (cases p) auto
qed simp

lemma strip_first_printable:
  assumes "33 \<le> (of_char c :: nat)" "(of_char c :: nat) < 127"
  shows "strip_first ws_encodings (c # cs) = None"
proof (rule strip_first_hd)
  have "\<forall>p \<in> set ws_encodings. p \<noteq> [] \<and> \<not> (33 \<le> (of_char (hd p) :: nat) \<and> (of_char (hd p) :: nat) < 127)"
    by (simp add: ws_encodings_def)
  with assms show "\<forall>p \<in> set ws_encodings. p \<noteq> [] \<and> hd p \<noteq> c" by blast
qed

lemma strip_first_space:
  "strip_first ws_encodings (CHR 0x20 # cs) = Some cs" "strip_first ws_encodings (CHR 0x0A # cs) = Some cs"
  "strip_first ws_encodings [] = None"
  by (simp_all add: ws_encodings_def)

lemma ws_words_printable:
  assumes "\<forall>c \<in> set w. 33 \<le> (of_char c :: nat) \<and> (of_char c :: nat) < 127"
  shows "ws_words (length w + n) word (w @ t) = ws_words n (word @ w) t"
  using assms by (induction w arbitrary: word) (simp_all add: strip_first_printable)

lemma ws_words_fields:
  assumes "\<forall>w \<in> set ws. printable w" "ws \<noteq> []"
  shows "ws_words (Suc (length (join '' '' ws))) [] (join '' '' ws @ [CHR 0x0A]) = ws"
  using assms
proof (induction ws rule: induct_list012)
  case (2 w)
  then show ?case using ws_words_printable [of w 1 "[]" "[CHR 0x0A]"]
    by (simp add: printable_def strip_first_space)
next
  case (3 w v ws)
  have "w \<noteq> []" "\<forall>c \<in> set w. 33 \<le> (of_char c :: nat) \<and> (of_char c :: nat) < 127"
    using 3(3) by (simp_all add: printable_def)
  from ws_words_printable [OF this(2), of "Suc (Suc (length (join '' '' (v # ws))))" "[]"
      "CHR 0x20 # join '' '' (v # ws) @ [CHR 0x0A]"] this(1) 3
  show ?case by (simp add: strip_first_space)
qed simp

lemma split_whitespace_fields:
  assumes "\<forall>w \<in> set ws. printable w" "ws \<noteq> []"
  shows "split_whitespace (CHR 0x20 # join '' '' ws @ [CHR 0x0A]) = ws"
  using ws_words_fields [OF assms] by (simp add: split_whitespace_def strip_first_space)

lemma le_bytes_inject:
  "v < 256 ^ n \<Longrightarrow> w < 256 ^ n \<Longrightarrow> le_bytes n v = le_bytes n w \<longleftrightarrow> v = w"
  by (simp add: le_bytes_def be_bytes_inject)

lemma length_le_bytes [simp]: "length (le_bytes n v) = n"
  by (simp add: le_bytes_def)

lemma read_start_time_stat:
  assumes "pv_read_stat pv pid =
      Inr (show_nat n @ '' ('' @ comm @ '') '' @ join '' '' flds @ [CHR 0x0A])"
    and "\<forall>w \<in> set flds. printable w \<and> CHR '')'' \<notin> set w" "19 < length flds"
    and "flds ! 19 = show_nat start" "start < 2 ^ 64"
  shows "read_start_time pv pid = Inr (of_nat start)"
proof -
  have join_paren: "\<forall>w \<in> set ws. CHR '')'' \<notin> set w \<Longrightarrow> CHR '')'' \<notin> set (join '' '' ws)" for ws
    by (induction ws rule: induct_list012) auto
  let ?rest = "CHR 0x20 # join '' '' flds @ [CHR 0x0A]"
  have "CHR '')'' \<notin> set ?rest" using join_paren assms(2) by auto
  then have "takeWhile (\<lambda>c. c \<noteq> CHR '')'') (rev ?rest @ CHR '')'' # xs) = rev ?rest" for xs
    by (subst takeWhile_append2) auto
  from this [of "rev (show_nat n @ '' ('' @ comm)"]
  have "rev (takeWhile (\<lambda>c. c \<noteq> CHR '')'')
      (rev (show_nat n @ '' ('' @ comm @ '') '' @ join '' '' flds @ [CHR 0x0A]))) = ?rest" by simp
  moreover have "split_whitespace ?rest = flds"
    using assms(2,3) by (intro split_whitespace_fields) auto
  ultimately show ?thesis
    using assms(1,3-5) by (simp add: read_start_time_def STARTTIME_INDEX_def parse_uint_show_nat)
qed

section \<open>Properties\<close>

text \<open>
  The start time is read correctly whatever the process calls itself: for a stat line with
  printable fields after the command name, none of them with a closing parenthesis, field 22 is
  found, even when the name contains spaces and parentheses.
\<close>

theorem read_start_time_correct:
  assumes "pv_read_stat pv pid =
      Inr (show_nat n @ '' ('' @ comm @ '') '' @ join '' '' flds @ [CHR 0x0A])"
    and "\<forall>w \<in> set flds. printable w \<and> CHR '')'' \<notin> set w" "19 < length flds"
    and "flds ! 19 = show_nat start" "start < 2 ^ 64"
  shows "read_start_time pv pid = Inr (of_nat start)"
  using assms by (rule read_start_time_stat)

text \<open>
  A fingerprint identifies its agent: for 32-byte binary hashes, equal fingerprints mean the
  same user, process, binary hash and start time, or a collision of the hash function on two
  different inputs.
\<close>

theorem fingerprint_binds:
  assumes "length h = 32" "length h' = 32"
    and "compute_fingerprint sha256 uid pid h t = compute_fingerprint sha256 uid' pid' h' t'"
  shows "uid = uid' \<and> pid = pid' \<and> h = h' \<and> t = t' \<or> (\<exists>x y. x \<noteq> y \<and> sha256 x = sha256 y)"
proof -
  have w32: "le_bytes 4 (unat a) = le_bytes 4 (unat b) \<longleftrightarrow> a = b" for a b :: u32
    using unat_less_pow [of a] unat_less_pow [of b] by (simp add: le_bytes_inject word_unat_eq_iff)
  have w64: "le_bytes 8 (unat a) = le_bytes 8 (unat b) \<longleftrightarrow> a = b" for a b :: u64
    using unat_less_pow [of a] unat_less_pow [of b] by (simp add: le_bytes_inject word_unat_eq_iff)
  have "uid = uid' \<and> pid = pid' \<and> h = h' \<and> t = t' \<longleftrightarrow>
      le_bytes 4 (unat uid) @ le_bytes 4 (unat pid) @ h @ le_bytes 8 (unat t) =
      le_bytes 4 (unat uid') @ le_bytes 4 (unat pid') @ h' @ le_bytes 8 (unat t')"
    using assms(1,2) by (simp add: append_eq_append_conv w32 w64)
  with assms(3) show ?thesis unfolding compute_fingerprint_def by metis
qed

section \<open>Witnesses\<close>

definition sample_process :: process_env where
  "sample_process =
     \<lparr>pv_pidfd_open = (\<lambda>_. None), pv_read_exe = (\<lambda>_. Inr ''/bin/a''), pv_read_file = (\<lambda>_. Inr []),
      pv_read_stat = (\<lambda>_. Inr (show_nat 7 @ '' ('' @ '') 1 2'' @ '') '' @ join '' '' (replicate 20 ''5'') @ [CHR 0x0A])),
      pv_sha256 = (\<lambda>_. replicate 32 1)\<rparr>"

lemma sample_start_time: "read_start_time (sample_process\<lparr>pv_sha256 := h\<rparr>) 7 = Inr 5"
proof -
  have five: "show_nat 5 = ''5''" by code_simp
  have "\<forall>w \<in> set (replicate 20 ''5''). printable w \<and> CHR '')'' \<notin> set w" by (simp add: printable_def)
  then show ?thesis
    using read_start_time_stat [of "sample_process\<lparr>pv_sha256 := h\<rparr>" 7 7 "'') 1 2''" "replicate 20 ''5''" 5]
    by (simp add: sample_process_def five)
qed

theorem read_start_time_correct_witness: "read_start_time sample_process 7 = Inr 5"
proof -
  have five: "show_nat 5 = ''5''" by code_simp
  have "\<forall>w \<in> set (replicate 20 ''5''). printable w \<and> CHR '')'' \<notin> set w" by (simp add: printable_def)
  then show ?thesis
    using read_start_time_correct [of sample_process 7 7 "'') 1 2''" "replicate 20 ''5''" 5]
    by (simp add: sample_process_def five)
qed

theorem fingerprint_binds_witness:
  "compute_fingerprint (take 4) 1 2 (replicate 32 0) 5 = compute_fingerprint (take 4) 1 3 (replicate 32 0) 5 \<and>
   (\<exists>x y :: bytes. x \<noteq> y \<and> take 4 x = take 4 y)"
proof -
  have "compute_fingerprint (take 4) 1 2 (replicate 32 0) 5 = compute_fingerprint (take 4) 1 3 (replicate 32 0) 5"
    by (simp add: compute_fingerprint_def)
  moreover from fingerprint_binds [OF _ _ this] have "\<exists>x y :: bytes. x \<noteq> y \<and> take 4 x = take 4 y" by simp
  ultimately show ?thesis by blast
qed

end
