(* ===== verification/Cdp_Gate_Router.thy ===== *)
theory Cdp_Gate_Router
  imports Cdp_Gate_Verify
begin

text \<open>
  The router of the gate (\<open>crates/cdp-gate/src/router.rs\<close>): replay protection, registration,
  sessions, credential requests, the death of an agent and the loop of a connection. A request is
  one step on the state of the router, which holds the lease manager, the listener pool and the
  policy engine. The nonce cache is the \<open>LruCache\<close> of the \<open>lru\<close> crate and is only used through
  its operations; parsers, clocks, the process table and the dialogs are arguments too.
\<close>

section \<open>State\<close>

record 'c lru_ops =
  lru_contains :: "'c \<Rightarrow> string \<Rightarrow> bool"
  lru_put :: "string \<Rightarrow> 'c \<Rightarrow> 'c"

text \<open>
  What is left to do of a handler that is suspended between two of its sections: a credential request
  after the check of its session, after replay protection, after its approval and after its lease was
  stored; a registration after replay protection and after its monitor was spawned; a death after the
  agent was taken out of the registry, and with the leases whose listeners are still to be released.
\<close>

datatype gate_task =
    Session_Checked request_credential_params peer_info bytes
  | Fresh_Request request_credential_params peer_info bytes
  | Grant_Approved agent_info string scope string policy_constraints
  | Lease_Created string
  | Fresh_Registration register_params peer_info bytes
  | Monitor_Spawned agent_registration
  | Deregistered bytes
  | Releasing "string list"

record 'c router =
  rt_gate_key :: bytes
  rt_registry :: "string \<Rightarrow> agent_registration option"
  rt_nonce_cache :: 'c
  rt_monitors :: "death_notification list"
  rt_tasks :: "gate_task list"
  rt_lease_manager :: lease_manager
  rt_proxy_manager :: proxy_manager
  rt_policy_engine :: policy_engine

text \<open>
  \<open>gt_order\<close> is the order in which the hash map of registrations is iterated; \<open>rt_monitors\<close> are
  the notifications that the spawned liveness monitors have yet to send: when the process ends, or
  at once when its descriptor cannot be watched. \<open>rt_tasks\<close> are the suspended handlers.
\<close>

record 'c gate_env =
  gt_lru :: "'c lru_ops"
  gt_uuid_version :: "string \<Rightarrow> nat option"
  gt_rfc3339 :: "string \<Rightarrow> int option"
  gt_process :: process_env
  gt_clone_pidfd :: "u32 \<Rightarrow> string option"
  gt_lease :: lease_env
  gt_gui :: gui_env
  gt_from_slice :: "bytes \<Rightarrow> string + json_rpc_request"
  gt_register_params :: "json \<Rightarrow> string + register_params"
  gt_request_params :: "json \<Rightarrow> string + request_credential_params"
  gt_show :: "gate_error \<Rightarrow> string"
  gt_order :: "(string \<Rightarrow> agent_registration option) \<Rightarrow> string list"

definition MIN_NONCE_CACHE_ENTRIES :: nat where
  "MIN_NONCE_CACHE_ENTRIES = 10000"

text \<open>\<open>lru_new\<close> makes an empty cache of a capacity.\<close>

definition router_new ::
  "(nat \<Rightarrow> 'c) \<Rightarrow> nat \<Rightarrow> bytes \<Rightarrow> lease_manager \<Rightarrow> proxy_manager \<Rightarrow> policy_engine \<Rightarrow> 'c router" where
  "router_new lru_new nonce_max_entries gate_key leases proxy engine =
     \<lparr>rt_gate_key = gate_key, rt_registry = Map.empty,
      rt_nonce_cache = lru_new (max nonce_max_entries MIN_NONCE_CACHE_ENTRIES), rt_monitors = [], rt_tasks = [],
      rt_lease_manager = leases, rt_proxy_manager = proxy, rt_policy_engine = engine\<rparr>"

definition find_registration ::
  "'c gate_env \<Rightarrow> 'c router \<Rightarrow> peer_info \<Rightarrow> bytes \<Rightarrow> agent_registration option" where
  "find_registration env self peer connection_id =
     List.find (\<lambda>r. fp_pid (rg_fingerprint r) = peer_pid peer \<and> rg_connection_id r = connection_id)
       (List.map_filter (rt_registry self) (gt_order env (rt_registry self)))"

section \<open>Replay protection and sessions\<close>

definition validate_replay ::
  "'c gate_env \<Rightarrow> int \<Rightarrow> 'c router \<Rightarrow> string \<Rightarrow> string \<Rightarrow> 'c router \<times> (gate_error + unit)" where
  "validate_replay env now self nonce timestamp =
     (case gt_uuid_version env nonce of
        None \<Rightarrow> (self, Inl (Replay Nonce_Not_Uuid))
      | Some v \<Rightarrow>
          if v \<noteq> 4 then (self, Inl (Replay Nonce_Not_V4))
          else (case gt_rfc3339 env timestamp of
                  None \<Rightarrow> (self, Inl (Replay Timestamp_Not_Rfc3339))
                | Some ts \<Rightarrow>
                    (let age = ch_num_seconds (env_chrono (gt_lease env)) (now - ts) in
                     if 30 < \<bar>age\<bar> then (self, Inl (Replay (Timestamp_Age age)))
                     else if lru_contains (gt_lru env) (rt_nonce_cache self) nonce
                     then (self, Inl (Replay (Duplicate_Nonce nonce)))
                     else (self\<lparr>rt_nonce_cache := lru_put (gt_lru env) nonce (rt_nonce_cache self)\<rparr>,
                           Inr ()))))"

definition validate_session ::
  "'c gate_env \<Rightarrow> 'c router \<Rightarrow> json \<Rightarrow> peer_info \<Rightarrow> bytes \<Rightarrow> (gate_error + unit) outcome" where
  "validate_session env self params peer connection_id =
     (case Option.bind (json_get params ''session_token'') json_as_str of
        None \<Rightarrow> Ret (Inl (SessionInvalid Missing_Session_Token))
      | Some token \<Rightarrow>
     (case strip_prefix ''cdp_sess_'' token of
        None \<Rightarrow> Ret (Inl (SessionInvalid Bad_Token_Prefix))
      | Some raw_token \<Rightarrow>
     (case find_registration env self peer connection_id of
        None \<Rightarrow> Ret (Inl (SessionInvalid No_Registration))
      | Some reg \<Rightarrow>
     (case verify_session_token (env_hmac (gt_lease env)) (rt_gate_key self)
             (fp_fingerprint_hash (rg_fingerprint reg)) connection_id raw_token of
        Panic \<Rightarrow> Panic
      | Ret valid \<Rightarrow>
          if \<not> valid then Ret (Inl (SessionInvalid Session_Hmac_Invalid)) else Ret (Inr ())))))"

section \<open>Registration\<close>

definition handle_register ::
  "'c gate_env \<Rightarrow> int \<Rightarrow> int \<Rightarrow> 'c router \<Rightarrow> register_params \<Rightarrow> peer_info \<Rightarrow> bytes
   \<Rightarrow> 'c router \<times> (gate_error + rpc_result)" where
  "handle_register env now later self params peer connection_id =
     (case validate_replay env now self (rp_nonce params) (rp_timestamp params) of
        (self, Inl e) \<Rightarrow> (self, Inl e)
      | (self, Inr _) \<Rightarrow>
     (case verify_agent (gt_process env) (peer_pid peer) (peer_uid peer) of
        Inl e \<Rightarrow> (self, Inl e)
      | Inr fingerprint \<Rightarrow>
     (let raw_token = generate_session_token (env_hmac (gt_lease env)) (rt_gate_key self)
                        (fp_fingerprint_hash fingerprint) connection_id;
          session_token = ''cdp_sess_'' @ raw_token in
      case gt_clone_pidfd env (peer_pid peer) of
        Some e \<Rightarrow> (self, Inl (Syscall (''failed to clone pidfd: '' @ e)))
      | None \<Rightarrow>
     (let fp_hex = hex_encode (fp_fingerprint_hash fingerprint);
          registration =
            \<lparr>rg_fingerprint = fingerprint, rg_agent_id = rp_agent_id params,
             rg_agent_version = rp_agent_version params, rg_capabilities_granted = rp_capabilities params,
             rg_connection_id = connection_id, rg_registered_at = later\<rparr> in
      (self\<lparr>rt_monitors := \<lparr>dt_pid = peer_pid peer, dt_fingerprint_hash = fp_fingerprint_hash fingerprint\<rparr>
                             # rt_monitors self,
            rt_registry := (rt_registry self)(fp_hex \<mapsto> registration)\<rparr>,
       Inr (Registered \<lparr>rr_status = ''registered'', rr_agent_fingerprint = fp_hex,
              rr_session_token = session_token, rr_capabilities_granted = rp_capabilities params\<rparr>))))))"

section \<open>Credential requests\<close>

definition registration_info :: "agent_registration \<Rightarrow> agent_info" where
  "registration_info r =
     \<lparr>ai_uid = fp_uid (rg_fingerprint r), ai_pid = fp_pid (rg_fingerprint r),
      ai_binary_path = fp_binary_path (rg_fingerprint r), ai_binary_hash = fp_binary_hash (rg_fingerprint r),
      ai_start_time = fp_start_time (rg_fingerprint r),
      ai_fingerprint_hash = fp_fingerprint_hash (rg_fingerprint r),
      ai_agent_id = Some (rg_agent_id r), ai_agent_version = Some (rg_agent_version r)\<rparr>"

definition scope_of_request :: "requested_scope \<Rightarrow> scope" where
  "scope_of_request rs =
     scope_default\<lparr>scope_hosts := rsc_hosts rs, scope_methods := rsc_methods rs, scope_paths := rsc_paths rs,
       scope_ttl_seconds := rsc_ttl_seconds rs, scope_max_requests := rsc_max_requests rs\<rparr>"

definition granted_scope_info :: "scope \<Rightarrow> requested_scope" where
  "granted_scope_info sc =
     \<lparr>rsc_hosts = scope_hosts sc, rsc_methods = scope_methods sc, rsc_paths = scope_paths sc,
      rsc_ttl_seconds = scope_ttl_seconds sc, rsc_max_requests = scope_max_requests sc\<rparr>"

definition grant_lease ::
  "'c gate_env \<Rightarrow> int \<Rightarrow> 'c router \<Rightarrow> agent_info \<Rightarrow> string \<Rightarrow> scope \<Rightarrow> string \<Rightarrow> policy_constraints
   \<Rightarrow> 'c router \<times> (gate_error + rpc_result) outcome" where
  "grant_lease env later self agent cref granted pname pcons =
     (case create_lease (gt_lease env) later (rt_lease_manager self) agent cref granted pcons pname ''auto'' of
        Panic \<Rightarrow> (self, Panic)
      | Ret (leases, Inl e) \<Rightarrow> (self\<lparr>rt_lease_manager := leases\<rparr>, Ret (Inl (GateError_Lease e)))
      | Ret (leases, Inr l) \<Rightarrow>
          (let self = self\<lparr>rt_lease_manager := leases\<rparr> in
           case start_proxy (rt_proxy_manager self) (l_lease_id l) of
             (pool, Inl e) \<Rightarrow> (self\<lparr>rt_proxy_manager := pool\<rparr>, Ret (Inl (GateError_Proxy e)))
           | (pool, Inr proxy_port) \<Rightarrow>
               (self\<lparr>rt_proxy_manager := pool\<rparr>,
                Ret (Inr (Granted
                  \<lparr>rcr_status = ''granted'', rcr_lease_id = l_lease_id l, rcr_proxy_port = proxy_port,
                   rcr_lease_token = l_lease_token l,
                   rcr_channel_binding_nonce = hex_encode (l_channel_binding_nonce l),
                   rcr_ttl_seconds = l_ttl_seconds l,
                   rcr_granted_scope = granted_scope_info granted\<rparr>)))))"

definition handle_request_credential ::
  "'c gate_env \<Rightarrow> int \<Rightarrow> int \<Rightarrow> 'c router \<Rightarrow> request_credential_params \<Rightarrow> peer_info \<Rightarrow> bytes
   \<Rightarrow> 'c router \<times> (gate_error + rpc_result) outcome" where
  "handle_request_credential env now later self params peer connection_id =
     (case validate_replay env now self (rc_nonce params) (rc_timestamp params) of
        (self, Inl e) \<Rightarrow> (self, Ret (Inl e))
      | (self, Inr _) \<Rightarrow>
     (case find_registration env self peer connection_id of
        None \<Rightarrow> (self, Ret (Inl (SessionInvalid No_Registration)))
      | Some reg \<Rightarrow>
     (case evaluate_with_approval (gt_gui env) (rt_policy_engine self) (registration_info reg)
             (rc_credential_ref params) (scope_of_request (rc_scope params)) (rc_reason params) of
        Panic \<Rightarrow> (self, Panic)
      | Ret (Inl e) \<Rightarrow> (self, Ret (Inl (GateError_Policy e)))
      | Ret (Inr (Denied reason)) \<Rightarrow> (self, Ret (Inl (CredentialDenied reason)))
      | Ret (Inr (RequiresApproval _ _ _)) \<Rightarrow>
          (self, Ret (Inl (CredentialDenied ''approval required but not resolved'')))
      | Ret (Inr (AutoApprove granted pname pcons)) \<Rightarrow>
          grant_lease env later self (registration_info reg) (rc_credential_ref params) granted pname pcons)))"

section \<open>Requests, deaths and connections\<close>

definition gate_error_code :: "gate_error \<Rightarrow> int" where
  "gate_error_code e =
     (case e of
        Replay _ \<Rightarrow> - 32010
      | SessionInvalid _ \<Rightarrow> - 32013
      | AgentVerification _ \<Rightarrow> - 32020
      | CredentialDenied _ \<Rightarrow> - 32030
      | GateError_Lease _ \<Rightarrow> - 32031
      | GateError_Proxy _ \<Rightarrow> - 32032
      | JsonRpc code _ \<Rightarrow> code
      | _ \<Rightarrow> - 32603)"

definition gate_error_to_response :: "'c gate_env \<Rightarrow> json \<Rightarrow> gate_error \<Rightarrow> json_rpc_response" where
  "gate_error_to_response env rid e =
     rpc_error rid (gate_error_code e) (case e of JsonRpc _ message \<Rightarrow> message | _ \<Rightarrow> gt_show env e)"

definition respond :: "'c gate_env \<Rightarrow> json \<Rightarrow> gate_error + rpc_result \<Rightarrow> json_rpc_response" where
  "respond env rid r = (case r of Inr v \<Rightarrow> rpc_success rid v | Inl e \<Rightarrow> gate_error_to_response env rid e)"

definition gate_handle_request ::
  "'c gate_env \<Rightarrow> int \<Rightarrow> int \<Rightarrow> 'c router \<Rightarrow> bytes \<Rightarrow> peer_info \<Rightarrow> bytes
   \<Rightarrow> 'c router \<times> json_rpc_response outcome" where
  "gate_handle_request env now later self raw_json peer connection_id =
     (case gt_from_slice env raw_json of
        Inl e \<Rightarrow> (self, Ret (rpc_error JNull (- 32700) (''parse error: '' @ e)))
      | Inr request \<Rightarrow>
     (let rid = jr_id request in
      if jr_jsonrpc request \<noteq> ''2.0''
      then (self, Ret (rpc_error rid (- 32600) (''jsonrpc must be '' @ [CHR 0x22] @ ''2.0'' @ [CHR 0x22])))
      else if jr_method request = ''cdp.register''
      then (case gt_register_params env (jr_params request) of
              Inl e \<Rightarrow> (self, Ret (rpc_error rid (- 32600) (''invalid params: '' @ e)))
            | Inr params \<Rightarrow>
                (case handle_register env now later self params peer connection_id of
                   (self, r) \<Rightarrow> (self, Ret (respond env rid r))))
      else if jr_method request = ''cdp.requestCredential''
      then (case gt_request_params env (jr_params request) of
              Inl e \<Rightarrow> (self, Ret (rpc_error rid (- 32600) (''invalid params: '' @ e)))
            | Inr params \<Rightarrow>
                (case validate_session env self (jr_params request) peer connection_id of
                   Panic \<Rightarrow> (self, Panic)
                 | Ret (Inl e) \<Rightarrow> (self, Ret (gate_error_to_response env rid e))
                 | Ret (Inr _) \<Rightarrow>
                     (case handle_request_credential env now later self params peer connection_id of
                        (self, Panic) \<Rightarrow> (self, Panic)
                      | (self, Ret r) \<Rightarrow> (self, Ret (respond env rid r)))))
      else (case validate_session env self (jr_params request) peer connection_id of
              Panic \<Rightarrow> (self, Panic)
            | Ret (Inl e) \<Rightarrow> (self, Ret (gate_error_to_response env rid e))
            | Ret (Inr _) \<Rightarrow>
                (self, Ret (rpc_error rid (- 32601) (''method not found: '' @ jr_method request))))))"

text \<open>\<open>None\<close> when the revocation does not return; the cascade is shown to return.\<close>

definition handle_death :: "'c router \<Rightarrow> death_notification \<Rightarrow> 'c router option" where
  "handle_death self notification =
     (let key = hex_encode (dt_fingerprint_hash notification);
          removed = (rt_registry self key \<noteq> None);
          self = self\<lparr>rt_registry := (rt_registry self)(key := None)\<rparr> in
      if removed
      then (case revoke_agent_leases (rt_lease_manager self) (dt_fingerprint_hash notification)
                   ''agent process exited'' of
              None \<Rightarrow> None
            | Some (leases, Inl e) \<Rightarrow> Some (self\<lparr>rt_lease_manager := leases\<rparr>)
            | Some (leases, Inr revoked_ids) \<Rightarrow>
                Some (self\<lparr>rt_lease_manager := leases,
                  rt_proxy_manager :=
                    fold (\<lambda>i pool. fst (release_lease pool i)) revoked_ids (rt_proxy_manager self)\<rparr>))
      else Some self)"

definition disconnect :: "'c router \<Rightarrow> bytes \<Rightarrow> 'c router" where
  "disconnect self connection_id =
     self\<lparr>rt_registry := (\<lambda>k. case rt_registry self k of
        None \<Rightarrow> None
      | Some reg \<Rightarrow> if rg_connection_id reg \<noteq> connection_id then Some reg else None)\<rparr>"

text \<open>
  The lines a connection delivers before it ends, each with the times of its two clock readings
  and whether the response can be written. A panic ends the task of the connection at once.
\<close>

fun handle_connection ::
  "'c gate_env \<Rightarrow> 'c router \<Rightarrow> peer_info \<Rightarrow> bytes \<Rightarrow> (string \<times> int \<times> int \<times> bool) list
   \<Rightarrow> 'c router \<times> json_rpc_response list" where
  "handle_connection env self peer connection_id [] = (disconnect self connection_id, [])"
| "handle_connection env self peer connection_id ((line, now, later, writable) # rest) =
     (case gate_handle_request env now later self (as_bytes (trim_end line)) peer connection_id of
        (self, Panic) \<Rightarrow> (self, [])
      | (self, Ret response) \<Rightarrow>
          if \<not> writable then (disconnect self connection_id, [])
          else (let (self, responses) = handle_connection env self peer connection_id rest in
                (self, response # responses)))"

section \<open>Lemmas\<close>

text \<open>
  The documented behaviour of the cache: \<open>recent\<close> lists its keys, the most recently inserted
  first; inserting a new key puts it in front and drops what exceeds the capacity; asking for a
  key changes nothing.
\<close>

definition lru_ok :: "'c lru_ops \<Rightarrow> ('c \<Rightarrow> string list) \<Rightarrow> nat \<Rightarrow> bool" where
  "lru_ok ops recent cap \<longleftrightarrow>
     (\<forall>c k. lru_contains ops c k \<longleftrightarrow> k \<in> set (recent c)) \<and>
     (\<forall>c k. k \<notin> set (recent c) \<longrightarrow> recent (lru_put ops k c) = take cap (k # recent c))"

lemma validate_replay_cases:
  assumes "validate_replay env now self n ts = (self', r)"
  obtains (refused) "self' = self" "isl r"
  | (accepted) t where "r = Inr ()" "gt_uuid_version env n = Some 4" "gt_rfc3339 env ts = Some t"
      "\<bar>ch_num_seconds (env_chrono (gt_lease env)) (now - t)\<bar> \<le> 30"
      "\<not> lru_contains (gt_lru env) (rt_nonce_cache self) n"
      "self' = self\<lparr>rt_nonce_cache := lru_put (gt_lru env) n (rt_nonce_cache self)\<rparr>"
proof (cases r)
  case (Inl e)
  with assms show thesis
    by (intro refused) (simp_all add: validate_replay_def Let_def split: option.splits if_splits)
next
  case (Inr u)
  with assms obtain t where "gt_rfc3339 env ts = Some t"
    by (simp add: validate_replay_def split: option.splits if_splits)
  with assms Inr show thesis
    by (intro accepted [of t]) (simp_all add: validate_replay_def Let_def split: option.splits if_splits)
qed

lemma find_registration_cache [simp]:
  "find_registration env (self\<lparr>rt_nonce_cache := c\<rparr>) peer conn = find_registration env self peer conn"
  by (simp add: find_registration_def)

lemma find_registration_Some:
  assumes "find_registration env self peer conn = Some reg"
  shows "(\<exists>k. rt_registry self k = Some reg) \<and> fp_pid (rg_fingerprint reg) = peer_pid peer \<and>
    rg_connection_id reg = conn"
proof -
  from assms have "reg \<in> set (List.map_filter (rt_registry self) (gt_order env (rt_registry self)))"
    "fp_pid (rg_fingerprint reg) = peer_pid peer" "rg_connection_id reg = conn"
    by (auto simp: find_registration_def find_Some_iff)
  then show ?thesis by (auto simp: List.map_filter_def)
qed

lemma validate_session_Inr:
  assumes "validate_session env self params peer conn = Ret (Inr ())"
  obtains raw reg where "json_get params ''session_token'' = Some (JString (''cdp_sess_'' @ raw))"
    "find_registration env self peer conn = Some reg"
    "verify_session_token (env_hmac (gt_lease env)) (rt_gate_key self)
       (fp_fingerprint_hash (rg_fingerprint reg)) conn raw = Ret True"
proof -
  have as_str: "json_as_str v = Some t \<longleftrightarrow> v = JString t" for v t by (cases v) auto
  have pre: "strip_prefix p t = Some r \<longleftrightarrow> t = p @ r" for p t r
    by (induction p t rule: strip_prefix.induct) auto
  from assms that show thesis
    by (auto simp: validate_session_def bind_eq_Some_conv as_str pre
        split: option.splits outcome.splits if_splits)
qed

lemma grant_lease_Granted:
  assumes "grant_lease env later self agent cref granted pname pcons = (self', Ret (Inr v))"
  obtains leases l pool port g where
    "create_lease (gt_lease env) later (rt_lease_manager self) agent cref granted pcons pname ''auto'' =
       Ret (leases, Inr l)"
    "start_proxy (rt_proxy_manager self) (l_lease_id l) = (pool, Inr port)" "v = Granted g"
    "self' = self\<lparr>rt_lease_manager := leases, rt_proxy_manager := pool\<rparr>"
    "rcr_lease_id g = l_lease_id l" "rcr_proxy_port g = port" "rcr_lease_token g = l_lease_token l"
    "rcr_channel_binding_nonce g = hex_encode (l_channel_binding_nonce l)"
    "rcr_granted_scope g = granted_scope_info granted"
  using assms
  by (auto simp: grant_lease_def Let_def split: outcome.splits prod.splits sum.splits)

lemma create_lease_stored:
  assumes "create_lease env t mgr agent cref granted pcons pname am = Ret (mgr', Inr l)"
  shows "lm_leases mgr' (l_lease_id l) = Some l \<and> l_granted_scope l = granted \<and> l_credential_ref l = cref \<and>
    l_status l = Active \<and> l_agent_fingerprint_hash l = ai_fingerprint_hash agent \<and>
    l_agent_pid l = ai_pid agent \<and> l_agent_uid l = ai_uid agent \<and> l_lease_token l \<in> range hex_encode"
  using assms
  by (auto simp: create_lease_def generate_lease_token_def new_root_lease_def insert_lease_def index_lease_def emit_audit_def Let_def
      split: outcome.splits sum.splits option.splits)

lemma start_proxy_port:
  "start_proxy pool i = (pool', Inr p) \<Longrightarrow> port_for_lease pool' i = Some p"
  by (auto simp: start_proxy_def Let_def insert_listener_port split: option.splits)

text \<open>What a granted credential request went through.\<close>

definition grant_ok ::
  "'c gate_env \<Rightarrow> int \<Rightarrow> 'c router \<Rightarrow> 'c router \<Rightarrow> peer_info \<Rightarrow> bytes \<Rightarrow> json_rpc_request \<Rightarrow> request_credential_params
   \<Rightarrow> request_credential_result \<Rightarrow> bool" where
  "grant_ok env now self self' peer conn request params g \<longleftrightarrow>
     (\<exists>reg raw granted pname pcons l ts.
        find_registration env self peer conn = Some reg \<and>
        json_get (jr_params request) ''session_token'' = Some (JString (''cdp_sess_'' @ raw)) \<and>
        verify_session_token (env_hmac (gt_lease env)) (rt_gate_key self)
          (fp_fingerprint_hash (rg_fingerprint reg)) conn raw = Ret True \<and>
        \<not> lru_contains (gt_lru env) (rt_nonce_cache self) (rc_nonce params) \<and>
        gt_rfc3339 env (rc_timestamp params) = Some ts \<and>
        \<bar>ch_num_seconds (env_chrono (gt_lease env)) (now - ts)\<bar> \<le> 30 \<and>
        evaluate_with_approval (gt_gui env) (rt_policy_engine self) (registration_info reg)
          (rc_credential_ref params) (scope_of_request (rc_scope params)) (rc_reason params) =
            Ret (Inr (AutoApprove granted pname pcons)) \<and>
        lm_leases (rt_lease_manager self') (rcr_lease_id g) = Some l \<and> l_status l = Active \<and>
        l_granted_scope l = granted \<and> l_credential_ref l = rc_credential_ref params \<and>
        l_agent_pid l = peer_pid peer \<and> l_agent_uid l = fp_uid (rg_fingerprint reg) \<and>
        l_lease_token l \<in> range hex_encode \<and>
        l_agent_fingerprint_hash l = fp_fingerprint_hash (rg_fingerprint reg) \<and>
        rcr_lease_token g = l_lease_token l \<and> rcr_granted_scope g = granted_scope_info granted \<and>
        rcr_channel_binding_nonce g = hex_encode (l_channel_binding_nonce l) \<and>
        port_for_lease (rt_proxy_manager self') (rcr_lease_id g) = Some (rcr_proxy_port g))"

lemma handle_request_credential_Granted:
  assumes "handle_request_credential env now later self params peer conn = (self', Ret (Inr v))"
    and "find_registration env self peer conn = Some reg"
    and "verify_session_token (env_hmac (gt_lease env)) (rt_gate_key self)
       (fp_fingerprint_hash (rg_fingerprint reg)) conn raw = Ret True"
    and "json_get (jr_params request) ''session_token'' = Some (JString (''cdp_sess_'' @ raw))"
  obtains g where "v = Granted g" "grant_ok env now self self' peer conn request params g"
proof -
  obtain mid r where replay: "validate_replay env now self (rc_nonce params) (rc_timestamp params) = (mid, r)"
    by (cases "validate_replay env now self (rc_nonce params) (rc_timestamp params)")
  from replay show thesis
  proof (cases rule: validate_replay_cases)
    case refused
    with assms(1) replay show ?thesis by (cases r) (simp_all add: handle_request_credential_def)
  next
    case (accepted ts)
    with assms(1,2) replay obtain granted pname pcons where
      dec: "evaluate_with_approval (gt_gui env) (rt_policy_engine self) (registration_info reg)
          (rc_credential_ref params) (scope_of_request (rc_scope params)) (rc_reason params) =
            Ret (Inr (AutoApprove granted pname pcons))"
      and grant: "grant_lease env later mid (registration_info reg) (rc_credential_ref params) granted pname
          pcons = (self', Ret (Inr v))"
      by (auto simp: handle_request_credential_def
          split: outcome.splits sum.splits policy_decision.splits)
    from grant show ?thesis
    proof (rule grant_lease_Granted)
      fix leases l pool port g
      assume made: "create_lease (gt_lease env) later (rt_lease_manager mid) (registration_info reg)
          (rc_credential_ref params) granted pcons pname ''auto'' = Ret (leases, Inr l)"
        and started: "start_proxy (rt_proxy_manager mid) (l_lease_id l) = (pool, Inr port)"
        and v: "v = Granted g" and self': "self' = mid\<lparr>rt_lease_manager := leases, rt_proxy_manager := pool\<rparr>"
        and g: "rcr_lease_id g = l_lease_id l" "rcr_proxy_port g = port" "rcr_lease_token g = l_lease_token l"
          "rcr_channel_binding_nonce g = hex_encode (l_channel_binding_nonce l)"
          "rcr_granted_scope g = granted_scope_info granted"
      have "grant_ok env now self self' peer conn request params g"
        unfolding grant_ok_def
        using assms(2-4) accepted dec create_lease_stored [OF made] start_proxy_port [OF started] g self'
          find_registration_Some [OF assms(2)]
        by (intro exI [of _ reg] exI [of _ raw] exI [of _ granted] exI [of _ pname] exI [of _ pcons]
            exI [of _ l] exI [of _ ts]) (simp add: registration_info_def)
      with v that show ?thesis by blast
    qed
  qed
qed

lemma gate_handle_request_Granted:
  assumes "gate_handle_request env now later self raw peer conn = (self', Ret resp)"
    and "js_result resp = Some (Granted g)"
  obtains request params where "gt_from_slice env raw = Inr request" "jr_method request = ''cdp.requestCredential''"
    "gt_request_params env (jr_params request) = Inr params"
    "grant_ok env now self self' peer conn request params g"
proof -
  have reg: "r \<noteq> Inr (Granted g)" if "handle_register env now later self params peer conn = (mid, r)"
    for params mid r
    using that by (auto simp: handle_register_def Let_def split: prod.splits sum.splits option.splits)
  have res: "js_result (respond env rid r) = Some v \<longleftrightarrow> r = Inr v" for rid r v
    by (auto simp: respond_def gate_error_to_response_def rpc_success_def rpc_error_def split: sum.splits)
  obtain request where req: "gt_from_slice env raw = Inr request"
    using assms by (cases "gt_from_slice env raw") (auto simp: gate_handle_request_def rpc_error_def)
  have meth: "jr_method request = ''cdp.requestCredential''"
  proof (rule ccontr)
    assume "jr_method request \<noteq> ''cdp.requestCredential''"
    with assms req reg show False
      by (auto simp: gate_handle_request_def Let_def rpc_error_def gate_error_to_response_def res
          split: if_splits sum.splits prod.splits outcome.splits)
  qed
  then obtain params where par: "gt_request_params env (jr_params request) = Inr params"
    and sess: "validate_session env self (jr_params request) peer conn = Ret (Inr ())"
    and run: "handle_request_credential env now later self params peer conn = (self', Ret (Inr (Granted g)))"
    using assms req
    by (auto simp: gate_handle_request_def Let_def rpc_error_def gate_error_to_response_def res
        split: if_splits sum.splits prod.splits outcome.splits)
  from sess obtain tok reg where "json_get (jr_params request) ''session_token'' = Some (JString (''cdp_sess_'' @ tok))"
    "find_registration env self peer conn = Some reg"
    "verify_session_token (env_hmac (gt_lease env)) (rt_gate_key self)
       (fp_fingerprint_hash (rg_fingerprint reg)) conn tok = Ret True"
    by (rule validate_session_Inr)
  with run obtain g' where "Granted g = Granted g'" "grant_ok env now self self' peer conn request params g'"
    by (elim handle_request_credential_Granted)
  with that [OF req meth par] show thesis by simp
qed

end
