(* ===== verification/Cdp_Gate_System.thy ===== *)
theory Cdp_Gate_System
  imports Cdp_Gate_Router
begin

text \<open>
  The running gate (\<open>crates/cdp-gate/src/main.rs\<close>): the router with its lease manager, listener
  pool and policy engine, and the tasks that act on them: connections, death notifications,
  proxied requests, the expiry sweep, the policy watcher and the shutdown. A handler is suspended
  where it waits, for a lock, a dialog or the resolver; a step is one section between two such
  points, or a whole handler that is not interrupted, and steps interleave in any order. An
  operation of the lease manager is one section here; its own sections interleave in
  \<open>Cdp_Lease_Steps\<close>.
\<close>

section \<open>Steps\<close>

definition gate_start ::
  "policy_fs \<Rightarrow> (string \<Rightarrow> string + policy_fs) \<Rightarrow> (string \<Rightarrow> string + policy_entry list) \<Rightarrow> string
   \<Rightarrow> approval_config \<Rightarrow> (nat \<Rightarrow> 'c) \<Rightarrow> nat \<Rightarrow> bytes \<Rightarrow> proxy_config \<Rightarrow> audit_channel \<Rightarrow> policy_error + 'c router" where
  "gate_start fs create_dir toml dir approval lru_new entries_max key pconfig audit_tx =
     (case engine_new fs create_dir toml dir approval of
        Inl e \<Rightarrow> Inl e
      | Inr engine \<Rightarrow>
          Inr (router_new lru_new entries_max key (manager_new key (Some audit_tx))
                 (proxy_manager_new pconfig) engine))"

text \<open>
  The sections of a request. \<open>request_begin\<close> runs a request up to its first suspension: a registration
  through replay protection, a credential request through the check of its session. \<open>task_step\<close>
  resumes a suspended handler for one section and gives what is left of it, if anything. An error
  or a panic ends the handler.
\<close>

definition request_begin ::
  "'c gate_env \<Rightarrow> int \<Rightarrow> 'c router \<Rightarrow> bytes \<Rightarrow> peer_info \<Rightarrow> bytes \<Rightarrow> 'c router \<times> gate_task list" where
  "request_begin env now self raw_json peer connection_id =
     (case gt_from_slice env raw_json of
        Inl e \<Rightarrow> (self, [])
      | Inr request \<Rightarrow>
          if jr_jsonrpc request \<noteq> ''2.0'' then (self, [])
          else if jr_method request = ''cdp.register''
          then (case gt_register_params env (jr_params request) of
                  Inl e \<Rightarrow> (self, [])
                | Inr params \<Rightarrow>
                    (case validate_replay env now self (rp_nonce params) (rp_timestamp params) of
                       (self, Inl e) \<Rightarrow> (self, [])
                     | (self, Inr _) \<Rightarrow> (self, [Fresh_Registration params peer connection_id])))
          else if jr_method request = ''cdp.requestCredential''
          then (case gt_request_params env (jr_params request) of
                  Inl e \<Rightarrow> (self, [])
                | Inr params \<Rightarrow>
                    (case validate_session env self (jr_params request) peer connection_id of
                       Ret (Inr _) \<Rightarrow> (self, [Session_Checked params peer connection_id])
                     | _ \<Rightarrow> (self, [])))
          else (self, []))"

fun task_step :: "'c gate_env \<Rightarrow> int \<Rightarrow> int \<Rightarrow> 'c router \<Rightarrow> gate_task \<Rightarrow> 'c router \<times> gate_task list" where
  "task_step env t now self (Session_Checked params peer connection_id) =
     (case validate_replay env t self (rc_nonce params) (rc_timestamp params) of
        (self, Inl e) \<Rightarrow> (self, [])
      | (self, Inr _) \<Rightarrow> (self, [Fresh_Request params peer connection_id]))"
| "task_step env t now self (Fresh_Request params peer connection_id) =
     (case find_registration env self peer connection_id of
        None \<Rightarrow> (self, [])
      | Some reg \<Rightarrow>
          (case evaluate_with_approval (gt_gui env) (rt_policy_engine self) (registration_info reg)
                  (rc_credential_ref params) (scope_of_request (rc_scope params)) (rc_reason params) of
             Ret (Inr (AutoApprove granted pname pcons)) \<Rightarrow>
               (self, [Grant_Approved (registration_info reg) (rc_credential_ref params) granted pname pcons])
           | _ \<Rightarrow> (self, [])))"
| "task_step env t now self (Grant_Approved agent cref granted pname pcons) =
     (case create_lease (gt_lease env) now (rt_lease_manager self) agent cref granted pcons pname ''auto'' of
        Panic \<Rightarrow> (self, [])
      | Ret (leases, Inl e) \<Rightarrow> (self\<lparr>rt_lease_manager := leases\<rparr>, [])
      | Ret (leases, Inr l) \<Rightarrow> (self\<lparr>rt_lease_manager := leases\<rparr>, [Lease_Created (l_lease_id l)]))"
| "task_step env t now self (Lease_Created i) =
     (self\<lparr>rt_proxy_manager := fst (start_proxy (rt_proxy_manager self) i)\<rparr>, [])"
| "task_step env t now self (Fresh_Registration params peer connection_id) =
     (case verify_agent (gt_process env) (peer_pid peer) (peer_uid peer) of
        Inl e \<Rightarrow> (self, [])
      | Inr fingerprint \<Rightarrow>
          (case gt_clone_pidfd env (peer_pid peer) of
             Some e \<Rightarrow> (self, [])
           | None \<Rightarrow>
               (self\<lparr>rt_monitors := \<lparr>dt_pid = peer_pid peer, dt_fingerprint_hash = fp_fingerprint_hash fingerprint\<rparr>
                                      # rt_monitors self\<rparr>,
                [Monitor_Spawned
                   \<lparr>rg_fingerprint = fingerprint, rg_agent_id = rp_agent_id params,
                    rg_agent_version = rp_agent_version params, rg_capabilities_granted = rp_capabilities params,
                    rg_connection_id = connection_id, rg_registered_at = now\<rparr>])))"
| "task_step env t now self (Monitor_Spawned registration) =
     (self\<lparr>rt_registry := (rt_registry self)(hex_encode (fp_fingerprint_hash (rg_fingerprint registration)) \<mapsto> registration)\<rparr>, [])"
| "task_step env t now self (Deregistered fingerprint_hash) =
     (case revoke_agent_leases (rt_lease_manager self) fingerprint_hash ''agent process exited'' of
        None \<Rightarrow> (self, [])
      | Some (leases, Inl e) \<Rightarrow> (self\<lparr>rt_lease_manager := leases\<rparr>, [])
      | Some (leases, Inr revoked_ids) \<Rightarrow> (self\<lparr>rt_lease_manager := leases\<rparr>, [Releasing revoked_ids]))"
| "task_step env t now self (Releasing []) = (self, [])"
| "task_step env t now self (Releasing (i # ids)) =
     (self\<lparr>rt_proxy_manager := fst (release_lease (rt_proxy_manager self) i)\<rparr>, [Releasing ids])"

fun creates_lease :: "gate_task \<Rightarrow> bool" where
  "creates_lease (Grant_Approved agent cref granted pname pcons) \<longleftrightarrow> True"
| "creates_lease _ \<longleftrightarrow> False"

text \<open>The first section of the handler of deaths, which receives the notification.\<close>

definition death_begin :: "'c router \<Rightarrow> death_notification \<Rightarrow> 'c router" where
  "death_begin self notification =
     (let key = hex_encode (dt_fingerprint_hash notification) in
      self\<lparr>rt_monitors := remove1 notification (rt_monitors self),
        rt_registry := (rt_registry self)(key := None),
        rt_tasks := (if rt_registry self key \<noteq> None then [Deregistered (dt_fingerprint_hash notification)] else [])
                    @ rt_tasks self\<rparr>)"

inductive gstep :: "'c lru_ops \<Rightarrow> hmac_fun \<Rightarrow> chrono \<Rightarrow> int \<Rightarrow> 'c router \<Rightarrow> 'c router \<Rightarrow> bool"
  for ops hmac ch now where
  request: "gate_handle_request env t now self raw peer conn = (self', r) \<Longrightarrow> gt_lru env = ops \<Longrightarrow>
    env_hmac (gt_lease env) = hmac \<Longrightarrow> env_chrono (gt_lease env) = ch \<Longrightarrow>
    lm_leases (rt_lease_manager self) (lease_id_generate (env_id_random (gt_lease env))) = None \<Longrightarrow>
    gstep ops hmac ch now self self'"
| disconnected: "gstep ops hmac ch now self (disconnect self conn)"
| begun: "request_begin env t self raw peer conn = (self', ts) \<Longrightarrow> gt_lru env = ops \<Longrightarrow>
    gstep ops hmac ch now self (self'\<lparr>rt_tasks := ts @ rt_tasks self'\<rparr>)"
| noticed: "nt \<in> set (rt_monitors self) \<Longrightarrow> gstep ops hmac ch now self (death_begin self nt)"
| resumed: "task \<in> set (rt_tasks self) \<Longrightarrow>
    task_step env t now (self\<lparr>rt_tasks := remove1 task (rt_tasks self)\<rparr>) task = (self', ts) \<Longrightarrow> gt_lru env = ops \<Longrightarrow>
    env_hmac (gt_lease env) = hmac \<Longrightarrow> env_chrono (gt_lease env) = ch \<Longrightarrow>
    (creates_lease task \<longrightarrow> lm_leases (rt_lease_manager self) (lease_id_generate (env_id_random (gt_lease env))) = None) \<Longrightarrow>
    gstep ops hmac ch now self (self'\<lparr>rt_tasks := ts @ rt_tasks self'\<rparr>)"
| death: "nt \<in> set (rt_monitors self) \<Longrightarrow>
    handle_death (self\<lparr>rt_monitors := remove1 nt (rt_monitors self)\<rparr>) nt = Some self' \<Longrightarrow> gstep ops hmac ch now self self'"
| proxied: "handle_request px now mgr0 (rt_lease_manager self) ra i (rt_gate_key self) req = Ret (leases, sent, aud, resp) \<Longrightarrow>
    gstep ops hmac ch now self (self\<lparr>rt_lease_manager := leases\<rparr>)"
| sweep: "set order = dom (lm_leases (rt_lease_manager self)) \<Longrightarrow>
    gstep ops hmac ch now self (self\<lparr>rt_lease_manager := sweep_expired order now (rt_lease_manager self)\<rparr>)"
| reloaded: "load_policies_from_dir fs toml dir = Inr policies \<Longrightarrow>
    gstep ops hmac ch now self
      (self\<lparr>rt_policy_engine := watcher_apply (rt_policy_engine self) [policies]\<rparr>)"
| shutdown: "gstep ops hmac ch now self (self\<lparr>rt_proxy_manager := stop_all (rt_proxy_manager self)\<rparr>)"

inductive tstep ::
  "'c lru_ops \<Rightarrow> hmac_fun \<Rightarrow> chrono \<Rightarrow> int \<times> 'c router \<Rightarrow> int \<times> 'c router \<Rightarrow> bool"
  for ops hmac ch where
  timed: "now \<le> now' \<Longrightarrow> gstep ops hmac ch now' self self' \<Longrightarrow> tstep ops hmac ch (now, self) (now', self')"

definition greach :: "'c lru_ops \<Rightarrow> hmac_fun \<Rightarrow> chrono \<Rightarrow> int \<Rightarrow> 'c router \<Rightarrow> bool" where
  "greach ops hmac ch now self \<longleftrightarrow>
     (\<exists>fs create_dir toml dir approval lru_new entries_max key pconfig audit_tx t0 start.
        gate_start fs create_dir toml dir approval lru_new entries_max key pconfig audit_tx = Inr start \<and>
        (tstep ops hmac ch)\<^sup>*\<^sup>* (t0, start) (now, self))"

section \<open>The invariant\<close>

definition engine_ok :: "policy_engine \<Rightarrow> bool" where
  "engine_ok engine \<longleftrightarrow> (\<forall>e \<in> set (ev_policies (eng_evaluator engine)). validate_policy e = Inr ())"

definition registry_ok :: "'c router \<Rightarrow> bool" where
  "registry_ok self \<longleftrightarrow>
     (\<forall>k reg. rt_registry self k = Some reg \<longrightarrow> k = hex_encode (fp_fingerprint_hash (rg_fingerprint reg)))"

definition listeners_ok :: "'c router \<Rightarrow> bool" where
  "listeners_ok self \<longleftrightarrow> fst ` set (pm_listeners (rt_proxy_manager self)) \<subseteq> dom (lm_leases (rt_lease_manager self))"

text \<open>What a suspended handler has obtained stays good: approved limits are valid, a created lease is stored.\<close>

fun task_ok :: "(string \<Rightarrow> lease option) \<Rightarrow> gate_task \<Rightarrow> bool" where
  "task_ok leases (Grant_Approved agent cref granted pname pcons) \<longleftrightarrow> constraints_valid pcons"
| "task_ok leases (Lease_Created i) \<longleftrightarrow> i \<in> dom leases"
| "task_ok leases _ \<longleftrightarrow> True"

definition tasks_ok :: "'c router \<Rightarrow> bool" where
  "tasks_ok self \<longleftrightarrow> (\<forall>task \<in> set (rt_tasks self). task_ok (lm_leases (rt_lease_manager self)) task)"

definition gate_ok :: "hmac_fun \<Rightarrow> chrono \<Rightarrow> int \<Rightarrow> 'c router \<Rightarrow> bool" where
  "gate_ok hmac ch now self \<longleftrightarrow>
     (\<exists>t \<le> now. oreach hmac ch t (rt_lease_manager self)) \<and> pm_ok (rt_proxy_manager self) \<and>
     engine_ok (rt_policy_engine self) \<and> registry_ok self \<and> listeners_ok self \<and> tasks_ok self \<and>
     lm_gate_key (rt_lease_manager self) = rt_gate_key self"

lemmas gate_ok_defs = gate_ok_def registry_ok_def listeners_ok_def tasks_ok_def

section \<open>Lemmas\<close>

lemma task_ok_mono: "task_ok leases task \<Longrightarrow> dom leases \<subseteq> dom leases' \<Longrightarrow> task_ok leases' task"
  by (cases task) auto

lemma lstep_dom:
  assumes "lstep hmac ch w w'" "lease_tree (leases_of w)"
  shows "dom (leases_of w) \<subseteq> dom (leases_of w')"
  using assms by (cases rule: lstep_effect) (auto simp: with_status_def dom_def)

lemma lsteps_dom:
  assumes "(lstep hmac ch)\<^sup>*\<^sup>* w w'" "lease_tree (leases_of w)"
  shows "dom (leases_of w) \<subseteq> dom (leases_of w') \<and> lease_tree (leases_of w') \<and>
    lm_gate_key (w_mgr w') = lm_gate_key (w_mgr w)"
  using assms
proof (induction rule: rtranclp_induct)
  case (step v v')
  then show ?case
    using lstep_dom [of hmac ch v v'] lstep_tree [of hmac ch v v'] lstep_gate_key [of hmac ch v v'] by (simp, metis order_trans)
qed simp

lemma ostep_keeps:
  assumes "oreach hmac ch t self" "ostep hmac ch now self self'"
  shows "dom (lm_leases self) \<subseteq> dom (lm_leases self') \<and> lm_gate_key self' = lm_gate_key self"
  using lsteps_dom [OF ostep_run [OF assms(2)]] oreach_invariant [OF assms(1)] by simp

lemma find_by_hash_member: "find_by_binary_hash self agent cred = Ret (Some e) \<Longrightarrow> e \<in> set (ev_policies self)"
  unfolding find_by_binary_hash_def by (drule find_outcome_Some) simp

lemma evaluate_entry:
  assumes "evaluate self agent cred req = Ret d"
  shows "d = Denied ''no matching policy'' \<or> (\<exists>e \<in> set (ev_policies self). d = build_decision e req)"
  using assms
  by (auto simp: evaluate_def find_by_binary_path_def find_by_agent_id_def find_Some_iff
      dest!: find_by_hash_member split: outcome.splits option.splits)

lemma build_decision_constraints:
  assumes "build_decision e req = AutoApprove g n c \<or> build_decision e req = RequiresApproval g n c"
  shows "c = build_constraints (pe_allow e) (pe_delegation e)"
  using assms by (auto simp: build_decision_def Let_def split: option.splits if_splits)

lemma approved_entry:
  assumes "evaluate_with_approval gui engine agent cred req reason = Ret (Inr (AutoApprove g n c))"
  obtains e where "e \<in> set (ev_policies (eng_evaluator engine))"
    "build_decision e req = AutoApprove g n c \<or> build_decision e req = RequiresApproval g n c"
proof -
  from assms obtain d where d: "evaluate (eng_evaluator engine) agent cred req = Ret d"
    "d = AutoApprove g n c \<or> d = RequiresApproval g n c"
    by (auto simp: evaluate_with_approval_def engine_evaluate_def
        split: outcome.splits policy_decision.splits sum.splits approval_result.splits)
  with evaluate_entry [OF d(1)] that show thesis by auto
qed

lemma approved_constraints_valid:
  assumes "engine_ok engine" "evaluate_with_approval gui engine agent cred req reason = Ret (Inr (AutoApprove g n c))"
  shows "constraints_valid c"
proof -
  from assms(2) obtain e where e: "e \<in> set (ev_policies (eng_evaluator engine))"
    and dec: "build_decision e req = AutoApprove g n c \<or> build_decision e req = RequiresApproval g n c"
    by (rule approved_entry)
  from dec have "c = build_constraints (pe_allow e) (pe_delegation e)" by (rule build_decision_constraints)
  moreover from e assms(1) have "validate_policy e = Inr ()" by (simp add: engine_ok_def)
  ultimately show ?thesis
    by (auto simp: constraints_valid_def build_constraints_def validate_policy_def Let_def split: if_splits)
qed

lemma approved_scope:
  assumes "engine_ok engine" "evaluate_with_approval gui engine agent cred req reason = Ret (Inr (AutoApprove g n c))"
  obtains e where "e \<in> set (ev_policies (eng_evaluator engine))" "validate_policy e = Inr ()"
    "intersect_scope req (pe_allow e) = Some g"
proof -
  from assms(2) obtain e where e: "e \<in> set (ev_policies (eng_evaluator engine))"
    and dec: "build_decision e req = AutoApprove g n c \<or> build_decision e req = RequiresApproval g n c"
    by (rule approved_entry)
  from dec have "intersect_scope req (pe_allow e) = Some g"
    by (auto simp: build_decision_def Let_def split: option.splits if_splits)
  with that e assms(1) show thesis by (auto simp: engine_ok_def)
qed

text \<open>What a request can do to the state.\<close>

lemma gate_handle_request_cases:
  assumes "gate_handle_request env t now self raw peer conn = (self', r)"
  obtains (quiet) c where "c = rt_nonce_cache self \<or> (\<exists>n. \<not> lru_contains (gt_lru env) (rt_nonce_cache self) n \<and>
        c = lru_put (gt_lru env) n (rt_nonce_cache self))" "self' = self\<lparr>rt_nonce_cache := c\<rparr>"
  | (registered) n reg where "\<not> lru_contains (gt_lru env) (rt_nonce_cache self) n"
      "verify_agent (gt_process env) (peer_pid peer) (peer_uid peer) = Inr (rg_fingerprint reg)"
      "self' = self\<lparr>rt_nonce_cache := lru_put (gt_lru env) n (rt_nonce_cache self),
         rt_monitors := \<lparr>dt_pid = peer_pid peer,
           dt_fingerprint_hash = fp_fingerprint_hash (rg_fingerprint reg)\<rparr> # rt_monitors self,
         rt_registry := (rt_registry self)(hex_encode (fp_fingerprint_hash (rg_fingerprint reg)) \<mapsto> reg)\<rparr>"
  | (leased) n reg cref granted pname pcons sc reason leases res pool where
      "\<not> lru_contains (gt_lru env) (rt_nonce_cache self) n"
      "evaluate_with_approval (gt_gui env) (rt_policy_engine self) (registration_info reg) cref sc reason =
         Ret (Inr (AutoApprove granted pname pcons))"
      "create_lease (gt_lease env) now (rt_lease_manager self) (registration_info reg) cref granted pcons pname
         ''auto'' = Ret (leases, res)"
      "pool = rt_proxy_manager self \<or>
         (\<exists>l. res = Inr l \<and> pool = fst (start_proxy (rt_proxy_manager self) (l_lease_id l)))"
      "self' = self\<lparr>rt_nonce_cache := lru_put (gt_lru env) n (rt_nonce_cache self),
         rt_lease_manager := leases, rt_proxy_manager := pool\<rparr>"
proof -
  have register: thesis if h: "handle_register env t now self params peer conn = (self', r')" for params r'
  proof (cases "validate_replay env t self (rp_nonce params) (rp_timestamp params)" rule: prod.exhaust)
    fix mid v
    assume rep: "validate_replay env t self (rp_nonce params) (rp_timestamp params) = (mid, v)"
    then show thesis
    proof (cases rule: validate_replay_cases)
      case refused
      with h rep have "self' = self" by (cases v) (simp_all add: handle_register_def)
      then show thesis using quiet [of "rt_nonce_cache self"] by simp
    next
      case (accepted ts)
      show thesis
      proof (cases "self' = mid")
        case True
        with accepted show thesis by (intro quiet [of "rt_nonce_cache mid"]) auto
      next
        case False
        with h rep accepted(1) obtain fp where
          fp: "verify_agent (gt_process env) (peer_pid peer) (peer_uid peer) = Inr fp"
          by (simp add: handle_register_def split: sum.splits)
        define reg where "reg = \<lparr>rg_fingerprint = fp, rg_agent_id = rp_agent_id params,
          rg_agent_version = rp_agent_version params, rg_capabilities_granted = rp_capabilities params,
          rg_connection_id = conn, rg_registered_at = now\<rparr>"
        from False h rep accepted fp show thesis
          by (intro registered [of "rp_nonce params" reg])
            (simp_all add: handle_register_def Let_def reg_def split: option.splits)
      qed
    qed
  qed
  have credential: thesis
    if h: "handle_request_credential env t now self params peer conn = (self', r')" for params r'
  proof (cases "validate_replay env t self (rc_nonce params) (rc_timestamp params)" rule: prod.exhaust)
    fix mid v
    assume rep: "validate_replay env t self (rc_nonce params) (rc_timestamp params) = (mid, v)"
    then show thesis
    proof (cases rule: validate_replay_cases)
      case refused
      with h rep have "self' = self" by (cases v) (simp_all add: handle_request_credential_def)
      then show thesis using quiet [of "rt_nonce_cache self"] by simp
    next
      case (accepted ts)
      show thesis
      proof (cases "self' = mid")
        case True
        with accepted show thesis by (intro quiet [of "rt_nonce_cache mid"]) auto
      next
        case False
        with h rep accepted obtain reg granted pname pcons where
          dec: "evaluate_with_approval (gt_gui env) (rt_policy_engine self) (registration_info reg)
              (rc_credential_ref params) (scope_of_request (rc_scope params)) (rc_reason params) =
                Ret (Inr (AutoApprove granted pname pcons))"
          and grant: "grant_lease env now mid (registration_info reg) (rc_credential_ref params) granted pname
              pcons = (self', r')"
          by (auto simp: handle_request_credential_def
              split: outcome.splits sum.splits policy_decision.splits option.splits)
        from grant False obtain leases res pool where
          "create_lease (gt_lease env) now (rt_lease_manager mid) (registration_info reg)
             (rc_credential_ref params) granted pcons pname ''auto'' = Ret (leases, res)"
          "pool = rt_proxy_manager mid \<or>
             (\<exists>l. res = Inr l \<and> pool = fst (start_proxy (rt_proxy_manager mid) (l_lease_id l)))"
          "self' = mid\<lparr>rt_lease_manager := leases, rt_proxy_manager := pool\<rparr>"
          by (auto simp: grant_lease_def Let_def split: outcome.splits prod.splits sum.splits)
        with accepted dec show thesis by (intro leased [of "rc_nonce params"]) simp_all
      qed
    qed
  qed
  have "self' = self \<or> (\<exists>params r'. handle_register env t now self params peer conn = (self', r')) \<or>
      (\<exists>params r'. handle_request_credential env t now self params peer conn = (self', r'))"
    using assms
    by (auto simp: gate_handle_request_def Let_def split: if_splits sum.splits prod.splits outcome.splits)
  then consider "self' = self" | (reg) params r' where "handle_register env t now self params peer conn = (self', r')"
    | (cred) params r' where "handle_request_credential env t now self params peer conn = (self', r')"
    by blast
  then show thesis
  proof cases
    case 1
    then show thesis by (intro quiet [of "rt_nonce_cache self"]) simp_all
  qed (fact register, fact credential)
qed

lemma create_lease_id:
  "create_lease env t mgr agent cref granted pcons pname am = Ret (mgr', Inr l) \<Longrightarrow>
   l_lease_id l = lease_id_generate (env_id_random env)"
  by (auto simp: create_lease_def new_root_lease_def Let_def split: outcome.splits sum.splits)

section \<open>The invariant holds\<close>

lemma start_proxy_keys:
  "fst ` set (pm_listeners (fst (start_proxy pool i))) \<subseteq> insert i (fst ` set (pm_listeners pool))"
  by (auto simp: start_proxy_def insert_listener_def stop_def dom_update Let_def split: option.splits)

lemma release_lease_keys: "fst ` set (pm_listeners (fst (release_lease pool i))) \<subseteq> fst ` set (pm_listeners pool)"
  by (auto simp: release_lease_def stop_def AList.delete_eq split: option.splits)

lemma release_all_keys:
  "fst ` set (pm_listeners (fold (\<lambda>i pool. fst (release_lease pool i)) ids pool)) \<subseteq> fst ` set (pm_listeners pool)"
  by (induction ids arbitrary: pool) (simp_all, meson order_trans release_lease_keys)

lemma release_all_ok: "pm_ok pool \<Longrightarrow> pm_ok (fold (\<lambda>i pool. fst (release_lease pool i)) ids pool)"
  by (induction ids arbitrary: pool) (simp_all add: release_lease_ok)

lemma stop_all_keys: "pm_listeners (stop_all pool) = []"
proof -
  have "pm_listeners (fold (\<lambda>(_, _, h). stop h) es p) = pm_listeners p" for p and
      es :: "(string \<times> u16 \<times> listener_handle) list"
    by (induction es arbitrary: p) (auto simp: stop_def)
  then show ?thesis by (simp add: stop_all_def)
qed

lemma start_proxy_ok: "pm_ok pool \<Longrightarrow> pm_ok (fst (start_proxy pool i))"
  by (metis pstep_ok pstep.start prod.collapse)

lemma handle_request_leases:
  assumes "handle_request px now mgr0 mgr ra i key req = Ret (leases, sent, aud, resp)"
  shows "leases = mgr \<or> (\<exists>l. use_lease now mgr i = (leases, Inr l))"
proof -
  from assms obtain r where "handle_request_inner px now mgr0 mgr ra i key req = Ret (leases, sent, aud, r)"
    by (auto simp: handle_request_def split: outcome.splits sum.splits)
  then show ?thesis by (cases rule: handle_request_inner_cases) auto
qed

lemma gate_ok_time: "gate_ok hmac ch t self \<Longrightarrow> t \<le> now \<Longrightarrow> gate_ok hmac ch now self"
  by (auto simp: gate_ok_def intro: order_trans)

lemma gate_ok_lease:
  assumes "gate_ok hmac ch t self" "t \<le> now" "ostep hmac ch now (rt_lease_manager self) leases"
  shows "gate_ok hmac ch now (self\<lparr>rt_lease_manager := leases\<rparr>)"
proof -
  from assms(1) obtain t0 where t0: "t0 \<le> t" "oreach hmac ch t0 (rt_lease_manager self)"
    by (auto simp: gate_ok_def)
  with assms(2,3) have "oreach hmac ch now leases"
    by (intro oreach.step [OF t0(2) _ assms(3)]) simp
  then have "\<exists>t \<le> now. oreach hmac ch t leases" by blast
  moreover note keeps = ostep_keeps [OF t0(2) assms(3)]
  moreover have "fst ` set (pm_listeners (rt_proxy_manager self)) \<subseteq> dom (lm_leases leases)"
    using order_trans [OF _ conjunct1 [OF keeps]] assms(1) by (simp add: gate_ok_def listeners_ok_def)
  moreover have "tasks_ok (self\<lparr>rt_lease_manager := leases\<rparr>)"
    using assms(1) task_ok_mono [OF _ conjunct1 [OF keeps]] by (simp add: gate_ok_defs)
  ultimately show ?thesis
    using assms(1) by (simp add: gate_ok_defs)
qed

lemma gate_ok_tasks:
  assumes "gate_ok hmac ch now self" "\<forall>task \<in> set ts. task_ok (lm_leases (rt_lease_manager self)) task"
  shows "gate_ok hmac ch now (self\<lparr>rt_tasks := ts\<rparr>)"
  using assms by (simp add: gate_ok_defs)

lemma gate_ok_leased:
  assumes ok: "gate_ok hmac ch t self" "t \<le> now"
    and step: "ostep hmac ch now (rt_lease_manager self) leases"
    and pool: "pool = rt_proxy_manager self \<or>
      (\<exists>i. pool = fst (start_proxy (rt_proxy_manager self) i) \<and> i \<in> dom (lm_leases leases))"
  shows "gate_ok hmac ch now (self\<lparr>rt_nonce_cache := c, rt_lease_manager := leases, rt_proxy_manager := pool\<rparr>)"
proof -
  have "gate_ok hmac ch now (self\<lparr>rt_lease_manager := leases\<rparr>)" using ok step by (rule gate_ok_lease)
  moreover from ok pool have "pm_ok pool" by (auto simp: gate_ok_def start_proxy_ok)
  moreover have "fst ` set (pm_listeners pool) \<subseteq> dom (lm_leases leases)"
    if "fst ` set (pm_listeners (rt_proxy_manager self)) \<subseteq> dom (lm_leases leases)"
    using pool that start_proxy_keys [of "rt_proxy_manager self"] by blast
  ultimately show ?thesis
    by (simp add: gate_ok_defs)
qed

lemma gate_ok_pool:
  assumes "gate_ok hmac ch now self" "pm_ok pool"
    and "fst ` set (pm_listeners pool) \<subseteq> fst ` set (pm_listeners (rt_proxy_manager self))"
  shows "gate_ok hmac ch now (self\<lparr>rt_proxy_manager := pool\<rparr>)"
  using assms(1,2) order_trans [OF assms(3)] by (simp add: gate_ok_defs)

lemma gate_ok_death:
  assumes ok: "gate_ok hmac ch t self" "t \<le> now" and death: "handle_death self nt = Some self'"
  shows "gate_ok hmac ch now self'"
proof -
  let ?key = "hex_encode (dt_fingerprint_hash nt)"
  let ?mid = "self\<lparr>rt_registry := (rt_registry self)(?key := None)\<rparr>"
  have mid: "gate_ok hmac ch t ?mid" using ok(1) by (auto simp: gate_ok_defs)
  show ?thesis
  proof (cases "rt_registry self ?key")
    case None
    with death have "self' = ?mid" by (simp add: handle_death_def Let_def)
    with gate_ok_time [OF mid ok(2)] show ?thesis by simp
  next
    case (Some reg)
    with death obtain leases res where
      rev: "revoke_agent_leases (rt_lease_manager self) (dt_fingerprint_hash nt) ''agent process exited'' =
        Some (leases, res)"
      by (auto simp: handle_death_def Let_def split: option.splits)
    let ?new = "?mid\<lparr>rt_lease_manager := leases\<rparr>"
    have new: "gate_ok hmac ch now ?new"
      using ostep.revoke_agent [OF rev] by (intro gate_ok_lease [OF mid ok(2)]) simp
    show ?thesis
    proof (cases res)
      case Inl
      with death Some rev have "self' = ?new" by (simp add: handle_death_def Let_def)
      with new show ?thesis by simp
    next
      case (Inr ids)
      with death Some rev have "self' = ?new\<lparr>rt_proxy_manager :=
          fold (\<lambda>i pool. fst (release_lease pool i)) ids (rt_proxy_manager self)\<rparr>"
        by (simp add: handle_death_def Let_def)
      moreover from ok(1) have "pm_ok (rt_proxy_manager self)" by (simp add: gate_ok_def)
      ultimately show ?thesis
        using gate_ok_pool [OF new release_all_ok, of "rt_proxy_manager self" ids]
          release_all_keys [of ids "rt_proxy_manager self"] by simp
    qed
  qed
qed

lemma validated_reload: "load_policies_from_dir fs toml dir = Inr ps \<Longrightarrow> p \<in> set ps \<Longrightarrow> validate_policy p = Inr ()"
  by (auto simp: load_policies_from_dir_def dest: load_files_validated split: if_splits sum.splits)

lemma verify_agent_pid: "verify_agent pv pid uid = Inr fp \<Longrightarrow> fp_pid fp = pid"
  by (auto simp: verify_agent_def split: option.splits sum.splits)

text \<open>What a section does: an invariant of the state, of what is left of the handler, and its effect on leases and listeners.\<close>

lemma request_begin_effect:
  assumes "request_begin env t self raw peer conn = (self', ts)"
  shows "\<exists>c. (c = rt_nonce_cache self \<or> (\<exists>n. \<not> lru_contains (gt_lru env) (rt_nonce_cache self) n \<and>
        c = lru_put (gt_lru env) n (rt_nonce_cache self))) \<and> self' = self\<lparr>rt_nonce_cache := c\<rparr> \<and>
    (\<forall>task \<in> set ts. (\<forall>leases. task_ok leases task) \<and> (\<forall>i. task \<noteq> Lease_Created i) \<and> (\<forall>ids. task \<noteq> Releasing ids))"
proof -
  have replay: "\<exists>c. (c = rt_nonce_cache self \<or> (\<exists>n. \<not> lru_contains (gt_lru env) (rt_nonce_cache self) n \<and>
        c = lru_put (gt_lru env) n (rt_nonce_cache self))) \<and> mid = self\<lparr>rt_nonce_cache := c\<rparr>"
    if "validate_replay env t self n stamp = (mid, r)" for n stamp mid r
    using that
  proof (cases rule: validate_replay_cases)
    case refused
    then show ?thesis by (intro exI [of _ "rt_nonce_cache self"]) simp
  next
    case (accepted ts)
    then show ?thesis by auto
  qed
  have quiet: ?thesis if "self' = self" "\<forall>task \<in> set ts. (\<forall>leases. task_ok leases task) \<and> (\<forall>i. task \<noteq> Lease_Created i) \<and> (\<forall>ids. task \<noteq> Releasing ids)"
    using that by (intro exI [of _ "rt_nonce_cache self"]) simp
  show ?thesis
  proof (cases "\<exists>request params. gt_from_slice env raw = Inr request \<and> jr_jsonrpc request = ''2.0'' \<and>
      jr_method request = ''cdp.register'' \<and> gt_register_params env (jr_params request) = Inr params")
    case True
    then obtain request params where req: "gt_from_slice env raw = Inr request" "jr_jsonrpc request = ''2.0''"
      "jr_method request = ''cdp.register''" "gt_register_params env (jr_params request) = Inr params" by blast
    obtain mid v where rep: "validate_replay env t self (rp_nonce params) (rp_timestamp params) = (mid, v)"
      by (cases "validate_replay env t self (rp_nonce params) (rp_timestamp params)")
    with assms req have "self' = mid" "\<forall>task \<in> set ts. (\<forall>leases. task_ok leases task) \<and> (\<forall>i. task \<noteq> Lease_Created i) \<and> (\<forall>ids. task \<noteq> Releasing ids)"
      by (cases v; auto simp: request_begin_def)+
    with replay [OF rep] show ?thesis by blast
  next
    case False
    with assms show ?thesis
      by (intro quiet) (auto simp: request_begin_def split: sum.splits if_splits outcome.splits)
  qed
qed

lemma task_step_ok:
  assumes "task_step env t' now self task = (self', ts)" "gate_ok hmac ch t self" "t \<le> now"
    and "task_ok (lm_leases (rt_lease_manager self)) task"
    and "env_hmac (gt_lease env) = hmac" "env_chrono (gt_lease env) = ch"
    and "creates_lease task \<longrightarrow> lm_leases (rt_lease_manager self) (lease_id_generate (env_id_random (gt_lease env))) = None"
  shows "gate_ok hmac ch now (self'\<lparr>rt_tasks := ts @ rt_tasks self'\<rparr>)"
proof -
  note ok = gate_ok_time [OF assms(2,3)]
  show ?thesis
  proof (cases task)
    case (Session_Checked params peer conn)
    obtain mid v where rep: "validate_replay env t' self (rc_nonce params) (rc_timestamp params) = (mid, v)"
      by (cases "validate_replay env t' self (rc_nonce params) (rc_timestamp params)")
    then have "gate_ok hmac ch now mid" using ok by (cases rule: validate_replay_cases) (auto simp: gate_ok_defs)
    with assms(1) Session_Checked rep show ?thesis by (cases v) (auto intro!: gate_ok_tasks simp: gate_ok_defs)
  next
    case (Fresh_Request params peer conn)
    have eng: "engine_ok (rt_policy_engine self)" using ok by (simp add: gate_ok_def)
    from assms(1) Fresh_Request have "self' = self" "\<forall>task \<in> set ts. task_ok (lm_leases (rt_lease_manager self)) task"
      by (auto split: option.splits outcome.splits sum.splits policy_decision.splits intro: approved_constraints_valid [OF eng])
    with ok show ?thesis by (auto intro!: gate_ok_tasks simp: gate_ok_defs)
  next
    case (Grant_Approved agent cref granted pname pcons)
    with assms(4) have valid: "constraints_valid pcons" by simp
    show ?thesis
    proof (cases "create_lease (gt_lease env) now (rt_lease_manager self) agent cref granted pcons pname ''auto''")
      case Panic
      with assms(1) Grant_Approved ok show ?thesis by simp
    next
      case (Ret x)
      obtain leases res where x: "x = (leases, res)" by (cases x)
      have "ostep hmac ch now (rt_lease_manager self) leases"
        using Ret x valid assms(5-7) Grant_Approved by (intro ostep.create [of "gt_lease env" now]) simp_all
      then have new: "gate_ok hmac ch now (self\<lparr>rt_lease_manager := leases\<rparr>)" by (rule gate_ok_lease [OF assms(2,3)])
      show ?thesis
      proof (cases res)
        case (Inl e)
        with assms(1) Grant_Approved Ret x new show ?thesis by simp
      next
        case (Inr l)
        with assms(1) Grant_Approved Ret x have "self' = self\<lparr>rt_lease_manager := leases\<rparr>" "ts = [Lease_Created (l_lease_id l)]" by auto
        moreover have "l_lease_id l \<in> dom (lm_leases leases)" using create_lease_stored [of "gt_lease env"] Ret x Inr by blast
        ultimately show ?thesis using new by (auto intro!: gate_ok_tasks simp: gate_ok_defs)
      qed
    qed
  next
    case (Lease_Created i)
    with assms(1) have self': "self' = self\<lparr>rt_proxy_manager := fst (start_proxy (rt_proxy_manager self) i)\<rparr>" "ts = []" by auto
    have "pm_ok (fst (start_proxy (rt_proxy_manager self) i))" using ok by (simp add: gate_ok_def start_proxy_ok)
    moreover have "fst ` set (pm_listeners (fst (start_proxy (rt_proxy_manager self) i))) \<subseteq> dom (lm_leases (rt_lease_manager self))"
    proof (rule order_trans [OF start_proxy_keys])
      show "insert i (fst ` set (pm_listeners (rt_proxy_manager self))) \<subseteq> dom (lm_leases (rt_lease_manager self))"
        using ok assms(4) Lease_Created by (simp add: gate_ok_defs domIff)
    qed
    ultimately show ?thesis using ok self' by (simp add: gate_ok_defs)
  next
    case (Deregistered fp)
    show ?thesis
    proof (cases "revoke_agent_leases (rt_lease_manager self) fp ''agent process exited''")
      case None
      with assms(1) Deregistered ok show ?thesis by simp
    next
      case (Some x)
      obtain leases res where x: "x = (leases, res)" by (cases x)
      have "gate_ok hmac ch now (self\<lparr>rt_lease_manager := leases\<rparr>)"
        using Some x by (intro gate_ok_lease [OF assms(2,3)] ostep.revoke_agent) simp
      with assms(1) Deregistered Some x show ?thesis by (cases res) (auto intro!: gate_ok_tasks simp: gate_ok_defs)
    qed
  next
    case (Releasing ids)
    show ?thesis
    proof (cases ids)
      case Nil
      with assms(1) Releasing ok show ?thesis by simp
    next
      case (Cons i js)
      have "gate_ok hmac ch now (self\<lparr>rt_proxy_manager := fst (release_lease (rt_proxy_manager self) i)\<rparr>)"
        using ok by (intro gate_ok_pool release_lease_keys) (simp_all add: gate_ok_def release_lease_ok)
      with assms(1) Releasing Cons show ?thesis by (auto intro!: gate_ok_tasks simp: gate_ok_defs)
    qed
  next
    case (Fresh_Registration params peer conn)
    with assms(1) consider "self' = self" "ts = []" | nt reg where "self' = self\<lparr>rt_monitors := nt # rt_monitors self\<rparr>" "ts = [Monitor_Spawned reg]"
      by (auto split: sum.splits option.splits)
    then show ?thesis
    proof cases
      case 1
      with ok show ?thesis by simp
    next
      case (2 nt reg)
      have "gate_ok hmac ch now (self\<lparr>rt_monitors := nt # rt_monitors self\<rparr>)" using ok by (simp add: gate_ok_defs)
      then show ?thesis unfolding 2 by (rule gate_ok_tasks) (use ok in \<open>simp add: gate_ok_defs\<close>)
    qed
  next
    case (Monitor_Spawned reg)
    with assms(1) have "self' = self\<lparr>rt_registry := (rt_registry self)(hex_encode (fp_fingerprint_hash (rg_fingerprint reg)) \<mapsto> reg)\<rparr>"
      "ts = []" by auto
    with ok show ?thesis by (simp add: gate_ok_defs)
  qed
qed

lemma gstep_ok:
  assumes "gstep ops hmac ch now self self'" "gate_ok hmac ch t self" "t \<le> now"
  shows "gate_ok hmac ch now self'"
  using assms(1)
proof cases
  case (request env t' raw peer conn r)
  note ok = gate_ok_time [OF assms(2,3)]
  from request(1) show ?thesis
  proof (cases rule: gate_handle_request_cases)
    case quiet
    with ok show ?thesis by (simp add: gate_ok_defs)
  next
    case (registered n reg)
    with ok show ?thesis by (simp add: gate_ok_defs)
  next
    case (leased n reg cref granted pname pcons sc reason leases res pool)
    have "constraints_valid pcons"
      using assms(2) by (intro approved_constraints_valid [OF _ leased(2)]) (simp add: gate_ok_def)
    then have "ostep hmac ch now (rt_lease_manager self) leases"
      using request by (intro ostep.create [OF leased(3)]) simp_all
    moreover have "pool = rt_proxy_manager self \<or>
        (\<exists>i. pool = fst (start_proxy (rt_proxy_manager self) i) \<and> i \<in> dom (lm_leases leases))"
      using leased(3,4) create_lease_stored by blast
    ultimately show ?thesis unfolding leased(5) by (rule gate_ok_leased [OF assms(2,3)])
  qed
next
  case disconnected
  with gate_ok_time [OF assms(2,3)] show ?thesis
    by (auto simp: gate_ok_defs disconnect_def split: option.splits if_splits)
next
  case (begun env t' raw peer conn self1 ts)
  obtain c where c: "self1 = self\<lparr>rt_nonce_cache := c\<rparr>" "\<forall>task \<in> set ts. \<forall>leases. task_ok leases task"
    using request_begin_effect [OF begun(2)] by blast
  have "gate_ok hmac ch now (self\<lparr>rt_nonce_cache := c\<rparr>)" using gate_ok_time [OF assms(2,3)] by (simp add: gate_ok_defs)
  then show ?thesis unfolding begun(1) c(1) using c(2) by (intro gate_ok_tasks) (auto simp: gate_ok_defs)
next
  case (noticed nt)
  with gate_ok_time [OF assms(2,3)] show ?thesis by (auto simp: death_begin_def gate_ok_defs Let_def)
next
  case (resumed task env t' self1 ts)
  have ok: "gate_ok hmac ch t (self\<lparr>rt_tasks := remove1 task (rt_tasks self)\<rparr>)"
  proof (rule gate_ok_tasks [OF assms(2)])
    have "\<forall>x \<in> set (rt_tasks self). task_ok (lm_leases (rt_lease_manager self)) x" using assms(2) by (simp add: gate_ok_defs)
    then show "\<forall>x \<in> set (remove1 task (rt_tasks self)). task_ok (lm_leases (rt_lease_manager self)) x"
      using set_remove1_subset [of task "rt_tasks self"] by blast
  qed
  have "task_ok (lm_leases (rt_lease_manager self)) task" using assms(2) resumed(2) by (simp add: gate_ok_defs)
  with task_step_ok [OF resumed(3) ok assms(3)] resumed(5-7) show ?thesis unfolding resumed(1) by simp
next
  case (death nt)
  have "gate_ok hmac ch t (self\<lparr>rt_monitors := remove1 nt (rt_monitors self)\<rparr>)"
    using assms(2) by (simp add: gate_ok_defs)
  then show ?thesis using assms(3) death(2) by (rule gate_ok_death)
next
  case (proxied px mgr0 ra i req leases)
  from handle_request_leases [OF proxied(2)] show ?thesis
    using proxied(1) gate_ok_time [OF assms(2,3)] gate_ok_lease [OF assms(2,3) ostep.use, of i leases] by auto
next
  case (sweep order)
  then show ?thesis using gate_ok_lease [OF assms(2,3) ostep.sweep, of order] by simp
next
  case (reloaded fs toml dir policies)
  with gate_ok_time [OF assms(2,3)] validated_reload [OF reloaded(2)] show ?thesis
    by (auto simp: gate_ok_defs engine_ok_def watcher_apply_def reload_def)
next
  case shutdown
  have "pm_ok (stop_all (rt_proxy_manager self))"
    using assms(2) pstep_ok [OF pstep.stop_all] by (simp add: gate_ok_def)
  with gate_ok_pool [OF gate_ok_time [OF assms(2,3)]] shutdown show ?thesis by (simp add: stop_all_keys)
qed

lemma gate_start_ok:
  assumes "gate_start fs create_dir toml dir approval lru_new entries_max key pconfig audit_tx = Inr self"
  shows "gate_ok hmac ch now self"
proof -
  from assms obtain engine where e: "engine_new fs create_dir toml dir approval = Inr engine"
    and self: "self = router_new lru_new entries_max key (manager_new key (Some audit_tx)) (proxy_manager_new pconfig) engine"
    by (auto simp: gate_start_def split: sum.splits)
  from e have "engine_ok engine"
    by (auto simp: engine_new_def engine_ok_def evaluator_new_def dest: validated_reload split: sum.splits if_splits)
  moreover have "pm_ok (proxy_manager_new pconfig)"
    by (simp add: pm_ok_def proxy_manager_new_def entries_ok_def channels_ok_def)
  moreover have "oreach hmac ch now (manager_new key (Some audit_tx))" by (rule oreach.init)
  ultimately show ?thesis
    unfolding self
    by (auto simp: gate_ok_defs router_new_def proxy_manager_new_def manager_new_def)
qed

lemma tsteps_ok:
  assumes "(tstep ops hmac ch)\<^sup>*\<^sup>* (t, self) (now, self')" "gate_ok hmac ch t self"
  shows "gate_ok hmac ch now self' \<and> t \<le> now"
  using assms
proof (induction "(now, self')" arbitrary: now self' rule: rtranclp_induct)
  case (step v)
  then show ?case by (cases v) (auto elim!: tstep.cases dest: gstep_ok)
qed simp

lemma greach_ok: "greach ops hmac ch now self \<Longrightarrow> gate_ok hmac ch now self"
  unfolding greach_def using gate_start_ok tsteps_ok by metis

section \<open>What a step does to leases and listeners\<close>

lemma start_proxy_running: "running (fst (start_proxy pool i)) s \<Longrightarrow> running pool s \<or> ps_lease_id s = i"
  by (auto simp: running_def start_proxy_def insert_listener_def stop_def Let_def split: option.splits)

lemma handle_death_effect:
  assumes "handle_death self nt = Some self'"
  obtains (unknown) "rt_registry self (hex_encode (dt_fingerprint_hash nt)) = None" "self' = self"
  | (failed) leases e where
      "revoke_agent_leases (rt_lease_manager self) (dt_fingerprint_hash nt) ''agent process exited'' =
         Some (leases, Inl e)" "rt_lease_manager self' = leases" "rt_proxy_manager self' = rt_proxy_manager self"
  | (revoked) leases ids where
      "revoke_agent_leases (rt_lease_manager self) (dt_fingerprint_hash nt) ''agent process exited'' =
         Some (leases, Inr ids)"
      "self' = self\<lparr>rt_registry := (rt_registry self)(hex_encode (dt_fingerprint_hash nt) := None),
         rt_lease_manager := leases,
         rt_proxy_manager := fold (\<lambda>i pool. fst (release_lease pool i)) ids (rt_proxy_manager self)\<rparr>"
proof (cases "rt_registry self (hex_encode (dt_fingerprint_hash nt))")
  case None
  with assms show thesis by (intro unknown) (simp_all add: handle_death_def Let_def fun_upd_idem)
next
  case (Some reg)
  with assms obtain leases res where
    "revoke_agent_leases (rt_lease_manager self) (dt_fingerprint_hash nt) ''agent process exited'' =
      Some (leases, res)"
    by (auto simp: handle_death_def Let_def split: option.splits)
  with Some assms failed revoked show thesis by (cases res) (auto simp: handle_death_def Let_def)
qed

lemma death_tasks: "handle_death self nt = Some self' \<Longrightarrow> rt_tasks self' = rt_tasks self"
  by (auto simp: handle_death_def Let_def split: if_splits option.splits sum.splits)

lemma task_step_effect:
  assumes "task_step env t' now self task = (self', ts)" "pm_ok (rt_proxy_manager self)"
    and "task_ok (lm_leases (rt_lease_manager self)) task"
    and "env_hmac (gt_lease env) = hmac" "env_chrono (gt_lease env) = ch"
    and "creates_lease task \<longrightarrow> lm_leases (rt_lease_manager self) (lease_id_generate (env_id_random (gt_lease env))) = None"
  shows "rt_lease_manager self' = rt_lease_manager self \<or> ostep hmac ch now (rt_lease_manager self) (rt_lease_manager self')"
    "rt_tasks self' = rt_tasks self"
    "running (rt_proxy_manager self') s \<Longrightarrow> running (rt_proxy_manager self) s \<or> task = Lease_Created (ps_lease_id s)"
    "Lease_Created j \<in> set ts \<Longrightarrow> lm_leases (rt_lease_manager self) j = None"
    "task = Releasing ids \<Longrightarrow> j \<in> set ids \<Longrightarrow>
      (\<exists>ids'. Releasing ids' \<in> set ts \<and> j \<in> set ids') \<or> (\<forall>s. running (rt_proxy_manager self') s \<longrightarrow> ps_lease_id s \<noteq> j)"
proof -
  have replay: "\<exists>c. mid = self\<lparr>rt_nonce_cache := c\<rparr>" if "validate_replay env t' self n stamp = (mid, r)" for n stamp mid r
    using that by (cases rule: validate_replay_cases) (auto intro: exI [of _ "rt_nonce_cache self"])
  show "rt_lease_manager self' = rt_lease_manager self \<or> ostep hmac ch now (rt_lease_manager self) (rt_lease_manager self')"
  proof (cases task)
    case (Grant_Approved agent cref granted pname pcons)
    with assms(1,3-6) show ?thesis
      by (auto split: outcome.splits sum.splits prod.splits intro!: ostep.create [of "gt_lease env" now])
  next
    case (Deregistered fp)
    with assms(1) show ?thesis
      by (auto split: option.splits sum.splits prod.splits intro!: ostep.revoke_agent)
  next
    case (Releasing ids)
    with assms(1) show ?thesis by (cases ids) auto
  qed (use assms(1) in \<open>auto split: sum.splits option.splits prod.splits outcome.splits policy_decision.splits dest: replay\<close>)
  show "rt_tasks self' = rt_tasks self"
    using assms(1) by (cases task; cases "(env, t', now, self, task)" rule: task_step.cases)
      (auto split: sum.splits option.splits prod.splits outcome.splits policy_decision.splits dest: replay)
  show "running (rt_proxy_manager self) s \<or> task = Lease_Created (ps_lease_id s)" if "running (rt_proxy_manager self') s"
  proof (cases task)
    case (Lease_Created i)
    with assms(1) that start_proxy_running [of "rt_proxy_manager self" i s] show ?thesis by auto
  next
    case (Releasing ids)
    with assms(1) that show ?thesis by (cases ids) (auto simp: release_lease_running [OF assms(2)])
  qed (use assms(1) that in \<open>auto split: sum.splits option.splits prod.splits outcome.splits policy_decision.splits dest: replay\<close>)
  show "lm_leases (rt_lease_manager self) j = None" if "Lease_Created j \<in> set ts"
  proof (cases task)
    case (Grant_Approved agent cref granted pname pcons)
    with assms(1) that obtain leases l where
      made: "create_lease (gt_lease env) now (rt_lease_manager self) agent cref granted pcons pname ''auto'' = Ret (leases, Inr l)"
      and "j = l_lease_id l" by (auto split: outcome.splits sum.splits prod.splits)
    with create_lease_id [OF made] assms(6) Grant_Approved show ?thesis by simp
  next
    case (Releasing ids)
    with assms(1) that show ?thesis by (cases ids) auto
  qed (use assms(1) that in \<open>auto split: sum.splits option.splits prod.splits outcome.splits policy_decision.splits\<close>)
  show "(\<exists>ids'. Releasing ids' \<in> set ts \<and> j \<in> set ids') \<or> (\<forall>s. running (rt_proxy_manager self') s \<longrightarrow> ps_lease_id s \<noteq> j)"
    if "task = Releasing ids" "j \<in> set ids"
  proof (cases ids)
    case Nil
    with that show ?thesis by simp
  next
    case (Cons i js)
    with assms(1) that show ?thesis by (cases "j = i") (auto simp: release_lease_running [OF assms(2)])
  qed
qed

lemma gstep_effect:
  assumes "gstep ops hmac ch now self self'" "gate_ok hmac ch t self" "t \<le> now"
  shows "(rt_lease_manager self' = rt_lease_manager self \<or>
      ostep hmac ch now (rt_lease_manager self) (rt_lease_manager self')) \<and>
    (\<forall>s. running (rt_proxy_manager self') s \<longrightarrow> running (rt_proxy_manager self) s \<or>
      lm_leases (rt_lease_manager self) (ps_lease_id s) = None \<or> Lease_Created (ps_lease_id s) \<in> set (rt_tasks self)) \<and>
    (\<forall>j. Lease_Created j \<in> set (rt_tasks self') \<longrightarrow>
      Lease_Created j \<in> set (rt_tasks self) \<or> lm_leases (rt_lease_manager self) j = None)"
  using assms(1)
proof cases
  case (request env t' raw peer conn r)
  from request(1) show ?thesis
  proof (cases rule: gate_handle_request_cases)
    case (leased n reg cref granted pname pcons sc reason leases res pool)
    have "constraints_valid pcons"
      using assms(2) by (intro approved_constraints_valid [OF _ leased(2)]) (simp add: gate_ok_def)
    then have "ostep hmac ch now (rt_lease_manager self) leases"
      using request by (intro ostep.create [OF leased(3)]) simp_all
    moreover have "running (rt_proxy_manager self) s \<or> lm_leases (rt_lease_manager self) (ps_lease_id s) = None"
      if "running pool s" for s
    proof (cases "pool = rt_proxy_manager self")
      case False
      with leased(4) obtain l where l: "res = Inr l" "pool = fst (start_proxy (rt_proxy_manager self) (l_lease_id l))"
        by auto
      have "l_lease_id l = lease_id_generate (env_id_random (gt_lease env))"
        using leased(3) unfolding l(1) by (rule create_lease_id)
      with request(5) start_proxy_running [of "rt_proxy_manager self" "l_lease_id l" s] that l(2)
      show ?thesis by auto
    qed (use that in simp)
    ultimately show ?thesis unfolding leased(5) by auto
  qed simp_all
next
  case (begun env t' raw peer conn self1 ts)
  from request_begin_effect [OF begun(2)] begun(1) show ?thesis by auto
next
  case (resumed task env t' self1 ts)
  let ?self = "self\<lparr>rt_tasks := remove1 task (rt_tasks self)\<rparr>"
  have hyps: "pm_ok (rt_proxy_manager ?self)" "task_ok (lm_leases (rt_lease_manager ?self)) task"
    "creates_lease task \<longrightarrow> lm_leases (rt_lease_manager ?self) (lease_id_generate (env_id_random (gt_lease env))) = None"
    using assms(2) resumed by (simp_all add: gate_ok_defs)
  note eff = task_step_effect [OF resumed(3) hyps(1,2) resumed(5,6) hyps(3)]
  have "rt_lease_manager self1 = rt_lease_manager self \<or> ostep hmac ch now (rt_lease_manager self) (rt_lease_manager self1)"
    using eff(1) by simp
  moreover have "running (rt_proxy_manager self) s \<or> Lease_Created (ps_lease_id s) \<in> set (rt_tasks self)"
    if "running (rt_proxy_manager self1) s" for s using eff(3) [OF that] resumed(2) by auto
  moreover have "Lease_Created j \<in> set (rt_tasks self) \<or> lm_leases (rt_lease_manager self) j = None"
    if "Lease_Created j \<in> set (ts @ rt_tasks self1)" for j
    using that eff(2) eff(4) [of j] set_remove1_subset [of task "rt_tasks self"] by auto
  ultimately show ?thesis unfolding resumed(1) by auto
next
  case (death nt)
  from death(2) show ?thesis
  proof (cases rule: handle_death_effect)
    case failed
    with ostep.revoke_agent [of "rt_lease_manager self"] show ?thesis by (auto simp: death_tasks [OF death(2)])
  next
    case (revoked leases ids)
    have "pm_ok (rt_proxy_manager self)" using assms(2) by (simp add: gate_ok_def)
    with ostep.revoke_agent [of "rt_lease_manager self"] revoked show ?thesis by (auto simp: release_all_running)
  qed simp
next
  case (proxied px mgr0 ra i req leases)
  from handle_request_leases [OF proxied(2)] proxied(1) show ?thesis by (auto intro: ostep.use)
next
  case (sweep order)
  then show ?thesis by (auto intro: ostep.sweep)
next
  case shutdown
  have "pm_ok (rt_proxy_manager self)" using assms(2) by (simp add: gate_ok_def)
  with shutdown show ?thesis by (simp add: stop_all_running)
qed (simp_all add: disconnect_def death_begin_def Let_def)

text \<open>
  A lease that is cut off: revoked, no request is about to start a listener for it, and a listener
  that still runs is on the list of those to be released.
\<close>

definition cut_off :: "string \<Rightarrow> 'c router \<Rightarrow> bool" where
  "cut_off i self \<longleftrightarrow> revoked_at (lm_leases (rt_lease_manager self)) i \<and> Lease_Created i \<notin> set (rt_tasks self) \<and>
     (\<forall>s. running (rt_proxy_manager self) s \<longrightarrow> ps_lease_id s = i \<longrightarrow>
        (\<exists>ids. Releasing ids \<in> set (rt_tasks self) \<and> i \<in> set ids))"

lemma ostep_revoked_at:
  assumes "oreach hmac ch t self" "ostep hmac ch now self self'" "revoked_at (lm_leases self) i"
  shows "revoked_at (lm_leases self') i"
proof -
  have tree: "lease_tree (leases_of (quiet self now))" using oreach_invariant [OF assms(1)] by simp
  have "revoked_at (leases_of w') i \<and> lease_tree (leases_of w')"
    if "(lstep hmac ch)\<^sup>*\<^sup>* (quiet self now) w'" for w'
    using that
  proof (induction rule: rtranclp_induct)
    case base
    with tree assms(3) show ?case by simp
  next
    case (step v v')
    then show ?case using lstep_tree lstep_revoked_at by blast
  qed
  from this [OF ostep_run [OF assms(2)]] show ?thesis by simp
qed

lemma gstep_revoked_at:
  assumes "gstep ops hmac ch now self self'" "gate_ok hmac ch t self" "t \<le> now" "revoked_at (lm_leases (rt_lease_manager self)) i"
  shows "revoked_at (lm_leases (rt_lease_manager self')) i"
proof -
  from assms(2) obtain t0 where t0: "oreach hmac ch t0 (rt_lease_manager self)" by (auto simp: gate_ok_def)
  show ?thesis using gstep_effect [OF assms(1-3)] assms(4) ostep_revoked_at [OF t0] by auto
qed

text \<open>A step keeps what is to be released, or has released it.\<close>

lemma gstep_releasing:
  assumes "gstep ops hmac ch now self self'" "gate_ok hmac ch t self" "Releasing ids \<in> set (rt_tasks self)" "i \<in> set ids"
  shows "(\<exists>ids'. Releasing ids' \<in> set (rt_tasks self') \<and> i \<in> set ids') \<or>
    (\<forall>s. running (rt_proxy_manager self') s \<longrightarrow> ps_lease_id s \<noteq> i)"
  using assms(1)
proof cases
  case (request env t' raw peer conn r)
  from request(1) have "rt_tasks self' = rt_tasks self" by (cases rule: gate_handle_request_cases) auto
  with assms(3,4) show ?thesis by auto
next
  case (begun env t' raw peer conn self1 ts)
  from request_begin_effect [OF begun(2)] begun(1) assms(3,4) show ?thesis by auto
next
  case (resumed task env t' self1 ts)
  let ?self = "self\<lparr>rt_tasks := remove1 task (rt_tasks self)\<rparr>"
  have hyps: "pm_ok (rt_proxy_manager ?self)" "task_ok (lm_leases (rt_lease_manager ?self)) task"
    "creates_lease task \<longrightarrow> lm_leases (rt_lease_manager ?self) (lease_id_generate (env_id_random (gt_lease env))) = None"
    using assms(2) resumed by (simp_all add: gate_ok_defs)
  note eff = task_step_effect [OF resumed(3) hyps(1,2) resumed(5,6) hyps(3)]
  show ?thesis
  proof (cases "task = Releasing ids")
    case True
    from eff(5) [OF True assms(4)] show ?thesis unfolding resumed(1) by auto
  next
    case False
    with assms(3) have "Releasing ids \<in> set (remove1 task (rt_tasks self))" by (simp add: in_set_remove1)
    with eff(2) assms(4) show ?thesis unfolding resumed(1) by auto
  qed
next
  case (death nt)
  with assms(3,4) show ?thesis by (auto simp: death_tasks [OF death(2)])
qed (use assms(3,4) in \<open>auto simp: disconnect_def death_begin_def Let_def\<close>)

lemma gstep_cut_off:
  assumes "gstep ops hmac ch now self self'" "gate_ok hmac ch t self" "t \<le> now" "cut_off i self"
  shows "cut_off i self'"
proof -
  note eff = gstep_effect [OF assms(1-3)]
  have stored: "lm_leases (rt_lease_manager self) i \<noteq> None" using assms(4) by (auto simp: cut_off_def revoked_at_def)
  have "revoked_at (lm_leases (rt_lease_manager self')) i"
    using gstep_revoked_at [OF assms(1-3)] assms(4) by (simp add: cut_off_def)
  moreover have "Lease_Created i \<notin> set (rt_tasks self')" using eff assms(4) stored by (auto simp: cut_off_def)
  moreover have "\<exists>ids. Releasing ids \<in> set (rt_tasks self') \<and> i \<in> set ids"
    if run: "running (rt_proxy_manager self') s" "ps_lease_id s = i" for s
  proof -
    from eff run assms(4) stored have "running (rt_proxy_manager self) s" by (auto simp: cut_off_def)
    with assms(4) run(2) obtain ids where "Releasing ids \<in> set (rt_tasks self)" "i \<in> set ids" by (auto simp: cut_off_def)
    from gstep_releasing [OF assms(1,2) this] run show ?thesis by auto
  qed
  ultimately show ?thesis by (simp add: cut_off_def)
qed

lemma tsteps_revoked_at:
  assumes "(tstep ops hmac ch)\<^sup>*\<^sup>* (t, self) (now, self')" "gate_ok hmac ch t self"
    and "revoked_at (lm_leases (rt_lease_manager self)) i"
  shows "revoked_at (lm_leases (rt_lease_manager self')) i"
  using assms
proof (induction "(now, self')" arbitrary: now self' rule: rtranclp_induct)
  case (step v)
  obtain t1 self1 where v: "v = (t1, self1)" by (cases v)
  with tsteps_ok [of ops hmac ch t self t1 self1] step have "gate_ok hmac ch t1 self1" by simp
  moreover from step(2) v have "t1 \<le> now" "gstep ops hmac ch now self1 self'" by (auto elim: tstep.cases)
  ultimately show ?case using gstep_revoked_at step(3) [OF v] step.prems by blast
qed simp

lemma tsteps_cut_off:
  assumes "(tstep ops hmac ch)\<^sup>*\<^sup>* (t, self) (now, self')" "gate_ok hmac ch t self" "cut_off i self"
  shows "cut_off i self'"
  using assms
proof (induction "(now, self')" arbitrary: now self' rule: rtranclp_induct)
  case (step v)
  obtain t1 self1 where v: "v = (t1, self1)" by (cases v)
  with tsteps_ok [of ops hmac ch t self t1 self1] step have "gate_ok hmac ch t1 self1" by simp
  moreover from step(2) v have "t1 \<le> now" "gstep ops hmac ch now self1 self'" by (auto elim: tstep.cases)
  ultimately show ?case using gstep_cut_off step(3) [OF v] step.prems by blast
qed simp

section \<open>A handler is a run of its sections\<close>

lemma resume_first:
  assumes "task_step env t now self task = (self1, ts)" "gt_lru env = ops"
    and "env_hmac (gt_lease env) = hmac" "env_chrono (gt_lease env) = ch"
    and "creates_lease task \<longrightarrow> lm_leases (rt_lease_manager self) (lease_id_generate (env_id_random (gt_lease env))) = None"
    and "(gstep ops hmac ch now)\<^sup>*\<^sup>* (self1\<lparr>rt_tasks := ts @ rt_tasks self1\<rparr>) self'"
  shows "(gstep ops hmac ch now)\<^sup>*\<^sup>* (self\<lparr>rt_tasks := task # rt_tasks self\<rparr>) self'"
proof -
  have "gstep ops hmac ch now (self\<lparr>rt_tasks := task # rt_tasks self\<rparr>) (self1\<lparr>rt_tasks := ts @ rt_tasks self1\<rparr>)"
    by (rule gstep.resumed [of task _ env t]) (use assms(1-5) in simp_all)
  then show ?thesis using assms(6) by (rule converse_rtranclp_into_rtranclp)
qed

lemma resume_last:
  assumes "task_step env t now self task = (self', [])" "gt_lru env = ops"
    and "env_hmac (gt_lease env) = hmac" "env_chrono (gt_lease env) = ch"
    and "creates_lease task \<longrightarrow> lm_leases (rt_lease_manager self) (lease_id_generate (env_id_random (gt_lease env))) = None"
  shows "(gstep ops hmac ch now)\<^sup>*\<^sup>* (self\<lparr>rt_tasks := task # rt_tasks self\<rparr>) self'"
  by (rule resume_first [OF assms]) simp

lemma registration_run:
  assumes "handle_register env t now self params peer conn = (self', r)" "gt_lru env = ops"
    and "env_hmac (gt_lease env) = hmac" "env_chrono (gt_lease env) = ch"
    and "validate_replay env t self (rp_nonce params) (rp_timestamp params) = (mid, Inr ())"
  shows "(gstep ops hmac ch now)\<^sup>*\<^sup>* (mid\<lparr>rt_tasks := Fresh_Registration params peer conn # rt_tasks mid\<rparr>) self'"
proof (cases "\<exists>fp. verify_agent (gt_process env) (peer_pid peer) (peer_uid peer) = Inr fp \<and> gt_clone_pidfd env (peer_pid peer) = None")
  case True
  then obtain fp where fp: "verify_agent (gt_process env) (peer_pid peer) (peer_uid peer) = Inr fp"
    "gt_clone_pidfd env (peer_pid peer) = None" by blast
  let ?nt = "\<lparr>dt_pid = peer_pid peer, dt_fingerprint_hash = fp_fingerprint_hash fp\<rparr>"
  let ?reg = "\<lparr>rg_fingerprint = fp, rg_agent_id = rp_agent_id params, rg_agent_version = rp_agent_version params,
    rg_capabilities_granted = rp_capabilities params, rg_connection_id = conn, rg_registered_at = now\<rparr>"
  let ?mid = "mid\<lparr>rt_monitors := ?nt # rt_monitors mid\<rparr>"
  have self': "self' = ?mid\<lparr>rt_registry := (rt_registry mid)(hex_encode (fp_fingerprint_hash fp) \<mapsto> ?reg)\<rparr>"
    using assms(1,5) fp by (auto simp: handle_register_def Let_def)
  show ?thesis
  proof (rule resume_first [of env t])
    show "task_step env t now mid (Fresh_Registration params peer conn) = (?mid, [Monitor_Spawned ?reg])" using fp by simp
    show "(gstep ops hmac ch now)\<^sup>*\<^sup>* (?mid\<lparr>rt_tasks := [Monitor_Spawned ?reg] @ rt_tasks ?mid\<rparr>) self'"
      unfolding append_Cons append_Nil
      by (rule resume_last [of env t]) (use assms(2-4) self' in simp_all)
  qed (use assms(2-4) in simp_all)
next
  case False
  with assms(1,5) have "self' = mid" "task_step env t now mid (Fresh_Registration params peer conn) = (mid, [])"
    by (auto simp: handle_register_def Let_def split: sum.splits option.splits)
  with assms(2-4) show ?thesis by (intro resume_last [of env t]) simp_all
qed

lemma grant_run:
  assumes "grant_lease env now self agent cref granted pname pcons = (self', r)" "gt_lru env = ops"
    and "env_hmac (gt_lease env) = hmac" "env_chrono (gt_lease env) = ch"
    and "lm_leases (rt_lease_manager self) (lease_id_generate (env_id_random (gt_lease env))) = None"
  shows "(gstep ops hmac ch now)\<^sup>*\<^sup>* (self\<lparr>rt_tasks := Grant_Approved agent cref granted pname pcons # rt_tasks self\<rparr>) self'"
proof (cases "create_lease (gt_lease env) now (rt_lease_manager self) agent cref granted pcons pname ''auto''")
  case Panic
  with assms show ?thesis by (intro resume_last [of env 0]) (simp_all add: grant_lease_def)
next
  case (Ret x)
  obtain leases res where x: "x = (leases, res)" by (cases x)
  show ?thesis
  proof (cases res)
    case (Inl e)
    with assms Ret x show ?thesis
      by (intro resume_last [of env 0]) (simp_all add: grant_lease_def)
  next
    case (Inr l)
    let ?mid = "self\<lparr>rt_lease_manager := leases\<rparr>"
    have self': "self' = ?mid\<lparr>rt_proxy_manager := fst (start_proxy (rt_proxy_manager self) (l_lease_id l))\<rparr>"
      using assms(1) Ret x Inr by (auto simp: grant_lease_def Let_def split: prod.splits sum.splits)
    show ?thesis
    proof (rule resume_first [of env 0])
      show "task_step env 0 now self (Grant_Approved agent cref granted pname pcons) = (?mid, [Lease_Created (l_lease_id l)])"
        using Ret x Inr by simp
      show "(gstep ops hmac ch now)\<^sup>*\<^sup>* (?mid\<lparr>rt_tasks := [Lease_Created (l_lease_id l)] @ rt_tasks ?mid\<rparr>) self'"
        unfolding append_Cons append_Nil
        by (rule resume_last [of env 0]) (use assms(2-4) self' in simp_all)
    qed (use assms(2-5) in simp_all)
  qed
qed

lemma credential_run:
  assumes "handle_request_credential env t now self params peer conn = (self', r)" "gt_lru env = ops"
    and "env_hmac (gt_lease env) = hmac" "env_chrono (gt_lease env) = ch"
    and "lm_leases (rt_lease_manager self) (lease_id_generate (env_id_random (gt_lease env))) = None"
  shows "(gstep ops hmac ch now)\<^sup>*\<^sup>* (self\<lparr>rt_tasks := Session_Checked params peer conn # rt_tasks self\<rparr>) self'"
proof (cases "validate_replay env t self (rc_nonce params) (rc_timestamp params)" rule: prod.exhaust)
  fix mid v
  assume rep: "validate_replay env t self (rc_nonce params) (rc_timestamp params) = (mid, v)"
  then show ?thesis
  proof (cases rule: validate_replay_cases)
    case refused
    with assms rep show ?thesis
      by (cases v) (auto intro!: resume_last [of env t] simp: handle_request_credential_def)
  next
    case (accepted ts)
    have rest: "(gstep ops hmac ch now)\<^sup>*\<^sup>* (mid\<lparr>rt_tasks := [Fresh_Request params peer conn] @ rt_tasks mid\<rparr>) self'"
    proof (cases "self' = mid \<and> task_step env t now mid (Fresh_Request params peer conn) = (mid, [])")
      case True
      with assms(2-4) show ?thesis unfolding append_Cons append_Nil by (intro resume_last [of env t]) simp_all
    next
      case False
      with assms(1) rep accepted(1) obtain reg granted pname pcons where reg: "find_registration env mid peer conn = Some reg"
        and dec: "evaluate_with_approval (gt_gui env) (rt_policy_engine mid) (registration_info reg)
            (rc_credential_ref params) (scope_of_request (rc_scope params)) (rc_reason params) =
              Ret (Inr (AutoApprove granted pname pcons))"
        and grant: "grant_lease env now mid (registration_info reg) (rc_credential_ref params) granted pname pcons = (self', r)"
        by (auto simp: handle_request_credential_def split: outcome.splits sum.splits policy_decision.splits option.splits)
      show ?thesis unfolding append_Cons append_Nil
      proof (rule resume_first [of env t])
        show "task_step env t now mid (Fresh_Request params peer conn) =
          (mid, [Grant_Approved (registration_info reg) (rc_credential_ref params) granted pname pcons])" using reg dec by simp
        show "(gstep ops hmac ch now)\<^sup>*\<^sup>* (mid\<lparr>rt_tasks :=
            [Grant_Approved (registration_info reg) (rc_credential_ref params) granted pname pcons] @ rt_tasks mid\<rparr>) self'"
          unfolding append_Cons append_Nil using assms(2-5) accepted(6) by (intro grant_run [OF grant]) simp_all
      qed (use assms(2-4) in simp_all)
    qed
    have "task_step env t now self (Session_Checked params peer conn) = (mid, [Fresh_Request params peer conn])"
      using rep accepted(1) by simp
    then show ?thesis using assms(2-4) _ rest by (rule resume_first) simp
  qed
qed

text \<open>
  The sections compose to the handlers: an uninterrupted request is a run of sections that ends in the
  same state.
\<close>

lemma request_is_run_of_sections:
  assumes "gate_handle_request env t now self raw peer conn = (self', r)" "gt_lru env = ops"
    and "env_hmac (gt_lease env) = hmac" "env_chrono (gt_lease env) = ch"
    and "lm_leases (rt_lease_manager self) (lease_id_generate (env_id_random (gt_lease env))) = None"
  shows "(gstep ops hmac ch now)\<^sup>*\<^sup>* self self'"
proof (cases "self' = self")
  case False
  then obtain request where req: "gt_from_slice env raw = Inr request" "jr_jsonrpc request = ''2.0''"
    using assms(1) by (auto simp: gate_handle_request_def Let_def split: sum.splits if_splits)
  have first: ?thesis if "request_begin env t self raw peer conn = (mid, ts)" "(gstep ops hmac ch now)\<^sup>*\<^sup>* (mid\<lparr>rt_tasks := ts @ rt_tasks mid\<rparr>) self'" for mid ts
    using gstep.begun [OF that(1) assms(2)] that(2) by (rule converse_rtranclp_into_rtranclp)
  show ?thesis
  proof (cases "jr_method request = ''cdp.register''")
    case True
    with assms(1) req False obtain params r' where
      par: "gt_register_params env (jr_params request) = Inr params" "handle_register env t now self params peer conn = (self', r')"
      by (auto simp: gate_handle_request_def Let_def split: sum.splits prod.splits)
    obtain mid v where rep: "validate_replay env t self (rp_nonce params) (rp_timestamp params) = (mid, v)"
      by (cases "validate_replay env t self (rp_nonce params) (rp_timestamp params)")
    from rep have v: "v = Inr ()"
    proof (cases rule: validate_replay_cases)
      case refused
      with par(2) False rep show ?thesis by (cases v) (auto simp: handle_register_def)
    qed
    have "request_begin env t self raw peer conn = (mid, [Fresh_Registration params peer conn])"
      using req True par(1) rep v by (simp add: request_begin_def)
    then show ?thesis
      by (rule first) (use registration_run [OF par(2) assms(2-4)] rep v in \<open>simp only: append_Cons append_Nil\<close>)
  next
    case other: False
    with assms(1) req False obtain params r' where meth: "jr_method request = ''cdp.requestCredential''" and
      par: "gt_request_params env (jr_params request) = Inr params"
      "validate_session env self (jr_params request) peer conn = Ret (Inr ())"
      "handle_request_credential env t now self params peer conn = (self', r')"
      by (auto simp: gate_handle_request_def Let_def split: sum.splits prod.splits if_splits outcome.splits)
    have "request_begin env t self raw peer conn = (self, [Session_Checked params peer conn])"
      using req meth par(1,2) by (simp add: request_begin_def)
    then show ?thesis
      by (rule first) (use credential_run [OF par(3) assms(2-5)] in \<open>simp only: append_Cons append_Nil\<close>)
  qed
qed simp

lemma release_run:
  fixes env :: "'c gate_env"
  assumes "gt_lru env = ops" "env_hmac (gt_lease env) = hmac" "env_chrono (gt_lease env) = ch"
  shows "(gstep ops hmac ch now)\<^sup>*\<^sup>* (self\<lparr>rt_tasks := Releasing ids # rt_tasks self\<rparr>)
    (self\<lparr>rt_proxy_manager := fold (\<lambda>i pool. fst (release_lease pool i)) ids (rt_proxy_manager self)\<rparr>)"
proof (induction ids arbitrary: self)
  case Nil
  show ?case by (rule resume_last [of env 0]) (use assms in simp_all)
next
  case (Cons i ids)
  let ?self = "self\<lparr>rt_proxy_manager := fst (release_lease (rt_proxy_manager self) i)\<rparr>"
  have "task_step env 0 now self (Releasing (i # ids)) = (?self, [Releasing ids])" by simp
  then show ?case using assms
    by (rule resume_first) (use Cons [of ?self] in simp_all)
qed

lemma death_is_run_of_sections:
  fixes env :: "'c gate_env"
  assumes "handle_death (self\<lparr>rt_monitors := remove1 nt (rt_monitors self)\<rparr>) nt = Some self'" "nt \<in> set (rt_monitors self)"
    and "gt_lru env = ops" "env_hmac (gt_lease env) = hmac" "env_chrono (gt_lease env) = ch"
  shows "(gstep ops hmac ch now)\<^sup>*\<^sup>* self self'"
proof -
  let ?key = "hex_encode (dt_fingerprint_hash nt)"
  let ?mid = "self\<lparr>rt_monitors := remove1 nt (rt_monitors self), rt_registry := (rt_registry self)(?key := None)\<rparr>"
  have first: ?thesis if "(gstep ops hmac ch now)\<^sup>*\<^sup>* (death_begin self nt) self'"
    using gstep.noticed [OF assms(2)] that by (rule converse_rtranclp_into_rtranclp)
  show ?thesis
  proof (cases "rt_registry self ?key")
    case None
    with assms(1) have "death_begin self nt = self'" by (auto simp: death_begin_def handle_death_def Let_def)
    then show ?thesis by (intro first) simp
  next
    case (Some reg)
    have begun: "death_begin self nt = ?mid\<lparr>rt_tasks := Deregistered (dt_fingerprint_hash nt) # rt_tasks ?mid\<rparr>"
      using Some by (simp add: death_begin_def Let_def)
    obtain leases res where rev: "revoke_agent_leases (rt_lease_manager self) (dt_fingerprint_hash nt) ''agent process exited'' = Some (leases, res)"
      using assms(1) Some by (auto simp: handle_death_def Let_def split: option.splits)
    show ?thesis
    proof (rule first, unfold begun, cases res)
      case (Inl e)
      with assms(1) rev Some have "task_step env 0 now ?mid (Deregistered (dt_fingerprint_hash nt)) = (self', [])"
        by (simp add: handle_death_def Let_def)
      then show "(gstep ops hmac ch now)\<^sup>*\<^sup>* (?mid\<lparr>rt_tasks := Deregistered (dt_fingerprint_hash nt) # rt_tasks ?mid\<rparr>) self'"
        by (rule resume_last) (use assms(3-5) in simp_all)
    next
      case (Inr ids)
      let ?new = "?mid\<lparr>rt_lease_manager := leases\<rparr>"
      have step: "task_step env 0 now ?mid (Deregistered (dt_fingerprint_hash nt)) = (?new, [Releasing ids])" using rev Inr by simp
      have self': "self' = ?new\<lparr>rt_proxy_manager := fold (\<lambda>i pool. fst (release_lease pool i)) ids (rt_proxy_manager ?new)\<rparr>"
        using assms(1) rev Some Inr by (simp add: handle_death_def Let_def)
      have rest: "(gstep ops hmac ch now)\<^sup>*\<^sup>* (?new\<lparr>rt_tasks := [Releasing ids] @ rt_tasks ?new\<rparr>) self'"
        unfolding append_Cons append_Nil self' by (rule release_run [OF assms(3-5)])
      show "(gstep ops hmac ch now)\<^sup>*\<^sup>* (?mid\<lparr>rt_tasks := Deregistered (dt_fingerprint_hash nt) # rt_tasks ?mid\<rparr>) self'"
        by (rule resume_first [OF step assms(3-5) _ rest]) simp
    qed
  qed
qed

end
