(* ===== verification/Cdp_Gate_Config.thy ===== *)
theory Cdp_Gate_Config
  imports Cdp_Gate_Verify
begin

text \<open>
  The settings of the gate and what it puts on disk when it starts (\<open>config.rs\<close>, \<open>listener.rs\<close>
  and \<open>fingerprint.rs\<close> of \<open>crates/cdp-gate/src\<close>). The environment variables are a map; the TOML
  parser and the outcomes of file operations are arguments. The lemmas show which paths of
  loaded settings are expanded and which modes the socket and the fingerprint file get.
\<close>

section \<open>Settings\<close>

record tls_section =
  ts_enabled :: bool
  ts_bind_address :: string
  ts_cert_path :: string
  ts_key_path :: string
  ts_client_ca_path :: string

record gate_section =
  gs_socket_path :: string
  gs_log_level :: string
  gs_audit_log_path :: string
  gs_fingerprint_path :: string
  gs_tls :: tls_section

record bitwarden_section =
  bs_cli_path :: string
  bs_session_timeout_minutes :: u64

record file_section =
  fl_path :: string

record vault_section =
  vs_backend :: string
  vs_subprocess_sandbox :: bool
  vs_bitwarden :: bitwarden_section
  vs_file :: file_section

record approval_section =
  as_default_method :: string
  as_gui_command :: string
  as_timeout_seconds :: u64
  as_cooldown_seconds :: u64
  as_show_binary_hash :: bool
  as_label_reason_untrusted :: bool
  as_max_reason_length :: nat

record dns_section =
  ds_pin_at_lease_creation :: bool
  ds_allow_dynamic_dns :: bool

record security_proxy_section =
  sx_follow_redirects :: bool
  sx_strip_set_cookie :: bool
  sx_strip_auth_echo :: bool

record security_section =
  ss_max_delegation_depth :: u32
  ss_default_lease_ttl_seconds :: u64
  ss_max_lease_ttl_seconds :: u64
  ss_max_renewals_per_lease :: u32
  ss_max_cumulative_ttl_seconds :: u64
  ss_remote_max_ttl_seconds :: u64
  ss_remote_single_use :: bool
  ss_encrypted_memory :: bool
  ss_per_credential_keys :: bool
  ss_disable_core_dumps :: bool
  ss_require_binary_hash_for_auto :: bool
  ss_policy_signing :: bool
  ss_policy_signing_key :: string
  ss_nonce_window_seconds :: u64
  ss_nonce_max_entries :: nat
  ss_dns :: dns_section
  ss_proxy :: security_proxy_section

record proxy_section =
  ps_bind_address :: string
  ps_port_range :: string

record browser_section =
  br_sandbox_method :: string
  br_default_mode :: string
  br_mitm_ca_validity_hours :: u64
  br_mitm_ca_name_constrained :: bool
  br_kill_after_snapshot :: bool

record gate_config =
  gc_gate :: gate_section
  gc_vault :: vault_section
  gc_approval :: approval_section
  gc_security :: security_section
  gc_proxy :: proxy_section
  gc_browser :: browser_section

section \<open>Defaults\<close>

type_synonym env_vars = "string \<rightharpoonup> string"

definition default_socket_path :: "env_vars \<Rightarrow> string" where
  "default_socket_path vars =
     (case vars ''XDG_RUNTIME_DIR'' of
        Some xdg \<Rightarrow> xdg @ ''/cdp/gate.sock''
      | None \<Rightarrow> ''/run/cdp/gate.sock'')"

definition tls_section_default :: tls_section where
  "tls_section_default =
     \<lparr>ts_enabled = False, ts_bind_address = ''127.0.0.1'', ts_cert_path = ''~/.config/cdp/gate.crt'',
      ts_key_path = ''~/.config/cdp/gate.key'', ts_client_ca_path = ''~/.config/cdp/client-ca.crt''\<rparr>"

definition gate_section_default :: "env_vars \<Rightarrow> gate_section" where
  "gate_section_default vars =
     \<lparr>gs_socket_path = default_socket_path vars, gs_log_level = ''info'',
      gs_audit_log_path = ''~/.local/share/cdp/audit.jsonl'',
      gs_fingerprint_path = ''~/.config/cdp/gate.fingerprint'', gs_tls = tls_section_default\<rparr>"

definition bitwarden_section_default :: bitwarden_section where
  "bitwarden_section_default = \<lparr>bs_cli_path = ''/usr/bin/bw'', bs_session_timeout_minutes = 60\<rparr>"

definition file_section_default :: file_section where
  "file_section_default = \<lparr>fl_path = ''~/.config/cdp/dev-vault.json.enc''\<rparr>"

definition vault_section_default :: vault_section where
  "vault_section_default =
     \<lparr>vs_backend = ''bitwarden'', vs_subprocess_sandbox = True, vs_bitwarden = bitwarden_section_default,
      vs_file = file_section_default\<rparr>"

definition approval_section_default :: approval_section where
  "approval_section_default =
     \<lparr>as_default_method = ''gui'', as_gui_command = ''kdialog'', as_timeout_seconds = 30,
      as_cooldown_seconds = 5, as_show_binary_hash = True, as_label_reason_untrusted = True,
      as_max_reason_length = 200\<rparr>"

definition dns_section_default :: dns_section where
  "dns_section_default = \<lparr>ds_pin_at_lease_creation = True, ds_allow_dynamic_dns = False\<rparr>"

definition security_proxy_section_default :: security_proxy_section where
  "security_proxy_section_default =
     \<lparr>sx_follow_redirects = False, sx_strip_set_cookie = True, sx_strip_auth_echo = True\<rparr>"

definition security_section_default :: security_section where
  "security_section_default =
     \<lparr>ss_max_delegation_depth = 3, ss_default_lease_ttl_seconds = 3600, ss_max_lease_ttl_seconds = 86400,
      ss_max_renewals_per_lease = 3, ss_max_cumulative_ttl_seconds = 14400, ss_remote_max_ttl_seconds = 300,
      ss_remote_single_use = True, ss_encrypted_memory = True, ss_per_credential_keys = True,
      ss_disable_core_dumps = True, ss_require_binary_hash_for_auto = True, ss_policy_signing = False,
      ss_policy_signing_key = [], ss_nonce_window_seconds = 300, ss_nonce_max_entries = 100000,
      ss_dns = dns_section_default, ss_proxy = security_proxy_section_default\<rparr>"

definition proxy_section_default :: proxy_section where
  "proxy_section_default = \<lparr>ps_bind_address = ''127.0.0.1'', ps_port_range = ''19000-19999''\<rparr>"

definition browser_section_default :: browser_section where
  "browser_section_default =
     \<lparr>br_sandbox_method = ''bubblewrap'', br_default_mode = ''proxy_only'', br_mitm_ca_validity_hours = 24,
      br_mitm_ca_name_constrained = True, br_kill_after_snapshot = True\<rparr>"

definition gate_config_default :: "env_vars \<Rightarrow> gate_config" where
  "gate_config_default vars =
     \<lparr>gc_gate = gate_section_default vars, gc_vault = vault_section_default,
      gc_approval = approval_section_default, gc_security = security_section_default,
      gc_proxy = proxy_section_default, gc_browser = browser_section_default\<rparr>"

section \<open>Loading\<close>

text \<open>\<open>PathBuf::join\<close>: an absolute second path replaces the first.\<close>

definition path_join :: "string \<Rightarrow> string \<Rightarrow> string" where
  "path_join base rest =
     (if rest \<noteq> [] \<and> hd rest = CHR ''/'' then rest
      else if base = [] \<or> last base = CHR ''/'' then base @ rest
      else base @ CHR ''/'' # rest)"

definition expand_tilde :: "env_vars \<Rightarrow> string \<Rightarrow> string" where
  "expand_tilde vars path =
     (case strip_prefix ''~/'' path of
        Some rest \<Rightarrow> (case vars ''HOME'' of Some home \<Rightarrow> path_join home rest | None \<Rightarrow> path)
      | None \<Rightarrow>
          if path = ''~'' then (case vars ''HOME'' of Some home \<Rightarrow> home | None \<Rightarrow> path) else path)"

definition expand_tls :: "env_vars \<Rightarrow> tls_section \<Rightarrow> tls_section" where
  "expand_tls vars tls =
     tls\<lparr>ts_cert_path := expand_tilde vars (ts_cert_path tls), ts_key_path := expand_tilde vars (ts_key_path tls),
        ts_client_ca_path := expand_tilde vars (ts_client_ca_path tls)\<rparr>"

definition expand_gate :: "env_vars \<Rightarrow> gate_section \<Rightarrow> gate_section" where
  "expand_gate vars gate =
     gate\<lparr>gs_socket_path := expand_tilde vars (gs_socket_path gate),
         gs_audit_log_path := expand_tilde vars (gs_audit_log_path gate),
         gs_fingerprint_path := expand_tilde vars (gs_fingerprint_path gate),
         gs_tls := expand_tls vars (gs_tls gate)\<rparr>"

definition expand_paths :: "env_vars \<Rightarrow> gate_config \<Rightarrow> gate_config" where
  "expand_paths vars self =
     self\<lparr>gc_gate := expand_gate vars (gc_gate self),
         gc_vault := (gc_vault self)\<lparr>vs_file := \<lparr>fl_path = expand_tilde vars (fl_path (vs_file (gc_vault self)))\<rparr>\<rparr>\<rparr>"

text \<open>\<open>read\<close> is \<open>read_to_string\<close>, \<open>toml\<close> the parser with the defaults above for missing settings.\<close>

definition load_config_from ::
  "env_vars \<Rightarrow> (string \<Rightarrow> string + string) \<Rightarrow> (string \<Rightarrow> string + gate_config) \<Rightarrow> string \<Rightarrow> gate_error + gate_config" where
  "load_config_from vars rd toml path =
     (case rd path of
        Inl e \<Rightarrow> Inl (GateError_Config (''failed to read '' @ path @ '': '' @ e))
      | Inr contents \<Rightarrow>
     (case toml contents of
        Inl e \<Rightarrow> Inl (GateError_Config (''failed to parse config: '' @ e))
      | Inr config \<Rightarrow> Inr (expand_paths vars config)))"

definition load_config ::
  "env_vars \<Rightarrow> (string \<Rightarrow> bool) \<Rightarrow> (string \<Rightarrow> string + string) \<Rightarrow> (string \<Rightarrow> string + gate_config) \<Rightarrow> gate_error + gate_config" where
  "load_config vars ex rd toml =
     (let config_path = expand_tilde vars ''~/.config/cdp/gate.toml'' in
      if ex config_path
      then (case rd config_path of
              Inl e \<Rightarrow> Inl (GateError_Config (''failed to read '' @ config_path @ '': '' @ e))
            | Inr contents \<Rightarrow>
                (case toml contents of
                   Inl e \<Rightarrow> Inl (GateError_Config (''failed to parse config: '' @ e))
                 | Inr config \<Rightarrow> Inr (expand_paths vars config)))
      else Inr (expand_paths vars (gate_config_default vars)))"

section \<open>Socket and fingerprint file\<close>

text \<open>
  The file system as far as the start of the gate touches it: mode and text of every file, socket
  and directory that exists. The outcomes of the operations are given; \<open>fo_parent\<close> is
  \<open>Path::parent\<close>, and a new file has the mode that the mask of the process leaves. As POSIX has it,
  a file whose mode denies writing can be opened for writing only by the superuser.
\<close>

type_synonym disk = "string \<rightharpoonup> nat \<times> string"

datatype removal = Removed | Not_Found | Remove_Failed string

record fs_ops =
  fo_parent :: "string \<Rightarrow> string option"
  fo_remove :: "string \<Rightarrow> removal"
  fo_create_dir_all :: "string \<Rightarrow> string + unit"
  fo_set_permissions :: "string \<Rightarrow> string + unit"
  fo_bind :: "string \<Rightarrow> string + unit"
  fo_write :: "string \<Rightarrow> string + unit"
  fo_superuser :: bool
  fo_new_mode :: nat

definition chmod :: "disk \<Rightarrow> string \<Rightarrow> nat \<Rightarrow> disk" where
  "chmod dk path mode = (case dk path of None \<Rightarrow> dk | Some (_, text) \<Rightarrow> dk(path \<mapsto> (mode, text)))"

definition set_permissions ::
  "fs_ops \<Rightarrow> (string \<Rightarrow> gate_error) \<Rightarrow> disk \<Rightarrow> string \<Rightarrow> nat \<Rightarrow> disk \<times> (gate_error + unit)" where
  "set_permissions ops err dk path mode =
     (case fo_set_permissions ops path of
        Inl e \<Rightarrow> (dk, Inl (err e))
      | Inr _ \<Rightarrow> (chmod dk path mode, Inr ()))"

definition writable :: "fs_ops \<Rightarrow> disk \<Rightarrow> string \<Rightarrow> bool" where
  "writable ops dk path \<longleftrightarrow>
     (case dk path of None \<Rightarrow> True | Some (mode, _) \<Rightarrow> fo_superuser ops \<or> mode div 128 mod 2 = 1)"

definition write_file :: "fs_ops \<Rightarrow> disk \<Rightarrow> string \<Rightarrow> string \<Rightarrow> disk \<times> (string + unit)" where
  "write_file ops dk path text =
     (if \<not> writable ops dk path then (dk, Inl ''Permission denied (os error 13)'')
      else (case fo_write ops path of
              Inl e \<Rightarrow> (dk, Inl e)
            | Inr _ \<Rightarrow>
                (dk(path \<mapsto> (case dk path of None \<Rightarrow> fo_new_mode ops | Some (mode, _) \<Rightarrow> mode, text)), Inr ())))"

text \<open>\<open>mode_0700\<close>, \<open>mode_0600\<close> and \<open>mode_0400\<close> in octal.\<close>

definition mode_0700 :: nat where
  "mode_0700 = 7 * 64"

definition mode_0600 :: nat where
  "mode_0600 = 6 * 64"

definition mode_0400 :: nat where
  "mode_0400 = 4 * 64"

definition listener_parent :: "fs_ops \<Rightarrow> disk \<Rightarrow> string \<Rightarrow> disk \<times> (gate_error + unit)" where
  "listener_parent ops dk socket_path =
     (case fo_parent ops socket_path of
        None \<Rightarrow> (dk, Inr ())
      | Some parent \<Rightarrow>
          if dk parent \<noteq> None then (dk, Inr ())
          else (case fo_create_dir_all ops parent of
                  Inl e \<Rightarrow> (dk, Inl (GateError_Listener (''failed to create socket directory: '' @ e)))
                | Inr _ \<Rightarrow>
                    set_permissions ops (\<lambda>e. GateError_Listener (''failed to set directory permissions: '' @ e))
                      (dk(parent \<mapsto> (fo_new_mode ops, []))) parent mode_0700))"

definition listener_bind :: "fs_ops \<Rightarrow> disk \<Rightarrow> string \<Rightarrow> disk \<times> (gate_error + string)" where
  "listener_bind ops dk socket_path =
     (case fo_remove ops socket_path of
        Remove_Failed e \<Rightarrow> (dk, Inl (GateError_Listener (''failed to remove stale socket: '' @ e)))
      | _ \<Rightarrow>
     (case listener_parent ops (dk(socket_path := None)) socket_path of
        (dk, Inl e) \<Rightarrow> (dk, Inl e)
      | (dk, Inr _) \<Rightarrow>
     (case fo_bind ops socket_path of
        Inl e \<Rightarrow> (dk, Inl (GateError_Listener (''failed to bind socket at '' @ socket_path @ '': '' @ e)))
      | Inr _ \<Rightarrow>
     (case set_permissions ops (\<lambda>e. GateError_Listener (''failed to set socket permissions: '' @ e))
             (dk(socket_path \<mapsto> (fo_new_mode ops, []))) socket_path mode_0600 of
        (dk, Inl e) \<Rightarrow> (dk, Inl e)
      | (dk, Inr _) \<Rightarrow> (dk, Inr socket_path)))))"

text \<open>Dropping the listener removes the socket, whatever becomes of the removal.\<close>

definition listener_drop :: "fs_ops \<Rightarrow> disk \<Rightarrow> string \<Rightarrow> disk" where
  "listener_drop ops dk socket_path =
     (case fo_remove ops socket_path of Remove_Failed _ \<Rightarrow> dk | _ \<Rightarrow> dk(socket_path := None))"

text \<open>The credentials of the peer as the kernel gives them: process, user and group.\<close>

definition extract_peer_info :: "string + int \<times> u32 \<times> u32 \<Rightarrow> gate_error + peer_info" where
  "extract_peer_info creds =
     (case creds of
        Inl e \<Rightarrow> Inl (Syscall (''getsockopt(SO_PEERCRED) failed: '' @ e))
      | Inr (pid, uid, gid) \<Rightarrow>
          if pid < 0
          then Inl (Syscall (''SO_PEERCRED returned negative PID: -'' @ show_nat (nat (- pid))))
          else Inr \<lparr>peer_pid = of_int pid, peer_uid = uid, peer_gid = gid\<rparr>)"

definition listener_accept :: "string + (string + int \<times> u32 \<times> u32) \<Rightarrow> gate_error + peer_info" where
  "listener_accept accepted =
     (case accepted of
        Inl e \<Rightarrow> Inl (GateError_Listener (''accept failed: '' @ e))
      | Inr creds \<Rightarrow> extract_peer_info creds)"

record gate_fingerprint_file =
  gf_gate_pid :: u32
  gf_gate_binary_hash :: string
  gf_public_key :: string
  gf_socket_path :: string
  gf_started_at :: string

record gate_identity =
  gi_signing_key :: bytes
  gi_fingerprint_path :: string

text \<open>
  The process itself: its binary, its number, the time, and the codecs for the public key of a
  signing key, the file and errors.
\<close>

record self_env =
  se_process :: process_env
  se_exe :: "string + string"
  se_pid :: u32
  se_now :: string
  se_public_key :: "bytes \<Rightarrow> string"
  se_pretty :: "gate_fingerprint_file \<Rightarrow> string + string"
  se_show_error :: "gate_error \<Rightarrow> string"

definition fingerprint_parent :: "fs_ops \<Rightarrow> disk \<Rightarrow> string \<Rightarrow> disk \<times> (gate_error + unit)" where
  "fingerprint_parent ops dk fingerprint_path =
     (case fo_parent ops fingerprint_path of
        None \<Rightarrow> (dk, Inr ())
      | Some parent \<Rightarrow>
          (case (if dk parent \<noteq> None then (dk, Inr ())
                 else case fo_create_dir_all ops parent of
                        Inl e \<Rightarrow> (dk, Inl (GateError_Fingerprint (''failed to create dir: '' @ e)))
                      | Inr _ \<Rightarrow> (dk(parent \<mapsto> (fo_new_mode ops, [])), Inr ())) of
             (dk, Inl e) \<Rightarrow> (dk, Inl e)
           | (dk, Inr _) \<Rightarrow>
               set_permissions ops (\<lambda>e. GateError_Fingerprint (''failed to set dir permissions: '' @ e))
                 dk parent mode_0700))"

definition identity_create ::
  "fs_ops \<Rightarrow> self_env \<Rightarrow> disk \<Rightarrow> bytes \<Rightarrow> string \<Rightarrow> string \<Rightarrow> disk \<times> (gate_error + gate_identity)" where
  "identity_create ops env dk key_bytes fingerprint_path socket_path =
     (case se_exe env of
        Inl e \<Rightarrow> (dk, Inl (GateError_Fingerprint (''failed to read /proc/self/exe: '' @ e)))
      | Inr self_exe \<Rightarrow>
     (case hash_binary (se_process env) self_exe of
        Inl e \<Rightarrow> (dk, Inl (GateError_Fingerprint (''failed to hash gate binary: '' @ se_show_error env e)))
      | Inr gate_hash \<Rightarrow>
     (let fp = \<lparr>gf_gate_pid = se_pid env, gf_gate_binary_hash = ''sha256:'' @ hex_encode gate_hash,
                gf_public_key = se_public_key env key_bytes, gf_socket_path = socket_path,
                gf_started_at = se_now env\<rparr> in
      case fingerprint_parent ops dk fingerprint_path of
        (dk, Inl e) \<Rightarrow> (dk, Inl e)
      | (dk, Inr _) \<Rightarrow>
     (case se_pretty env fp of
        Inl e \<Rightarrow> (dk, Inl (GateError_Fingerprint (''failed to serialize fingerprint: '' @ e)))
      | Inr json \<Rightarrow>
     (case write_file ops dk fingerprint_path json of
        (dk, Inl e) \<Rightarrow> (dk, Inl (GateError_Fingerprint (''failed to write fingerprint file: '' @ e)))
      | (dk, Inr _) \<Rightarrow>
     (case set_permissions ops (\<lambda>e. GateError_Fingerprint (''failed to set file permissions: '' @ e))
             dk fingerprint_path mode_0400 of
        (dk, Inl e) \<Rightarrow> (dk, Inl e)
      | (dk, Inr _) \<Rightarrow>
          (dk, Inr \<lparr>gi_signing_key = key_bytes, gi_fingerprint_path = fingerprint_path\<rparr>)))))))"

definition identity_cleanup :: "fs_ops \<Rightarrow> disk \<Rightarrow> gate_identity \<Rightarrow> disk \<times> (gate_error + unit)" where
  "identity_cleanup ops dk self =
     (case fo_remove ops (gi_fingerprint_path self) of
        Remove_Failed e \<Rightarrow> (dk, Inl (GateError_Fingerprint (''failed to remove fingerprint file: '' @ e)))
      | _ \<Rightarrow> (dk(gi_fingerprint_path self := None), Inr ()))"

section \<open>Lemmas\<close>

text \<open>
  A path that expansion leaves alone, which is also one such as \<open>~user/x\<close>, and the seven fields that
  \<open>expand_paths\<close> rewrites. Other settings that hold paths, the client of the vault and the signing key of
  the policies, are not among them and stay as they are written.
\<close>

definition expanded :: "string \<Rightarrow> bool" where
  "expanded path \<longleftrightarrow> path \<noteq> ''~'' \<and> strip_prefix ''~/'' path = None"

definition expanded_fields :: "gate_config \<Rightarrow> string list" where
  "expanded_fields c =
     [gs_socket_path (gc_gate c), gs_audit_log_path (gc_gate c), gs_fingerprint_path (gc_gate c),
      ts_cert_path (gs_tls (gc_gate c)), ts_key_path (gs_tls (gc_gate c)), ts_client_ca_path (gs_tls (gc_gate c)),
      fl_path (vs_file (gc_vault c))]"

lemma expanded_hd: "path \<noteq> [] \<Longrightarrow> hd path \<noteq> CHR ''~'' \<Longrightarrow> expanded path"
  by (cases path) (auto simp: expanded_def)

lemma expand_tilde_expanded:
  assumes "vars ''HOME'' = Some home" "home \<noteq> []" "hd home \<noteq> CHR ''~''"
  shows "expanded (expand_tilde vars path)"
proof (cases "strip_prefix ''~/'' path")
  case None
  with assms show ?thesis
    by (cases "path = ''~''") (auto simp: expand_tilde_def expanded_hd, simp add: expanded_def)
next
  case (Some rest)
  have "path_join home rest \<noteq> []" "hd (path_join home rest) \<noteq> CHR ''~''"
    using assms(2,3) by (auto simp: path_join_def hd_append split: if_splits)
  with Some assms(1) show ?thesis by (simp add: expand_tilde_def expanded_hd)
qed

lemma expand_tilde_id: "expanded path \<Longrightarrow> expand_tilde vars path = path"
  by (simp add: expand_tilde_def expanded_def)

lemma expand_paths_ok:
  assumes "vars ''HOME'' = Some home" "home \<noteq> []" "hd home \<noteq> CHR ''~''"
  shows "\<forall>path \<in> set (expanded_fields (expand_paths vars c)). expanded path"
  using expand_tilde_expanded [where vars = vars, OF assms]
  by (simp add: expanded_fields_def expand_paths_def expand_gate_def expand_tls_def)

lemma expand_paths_id: "\<forall>path \<in> set (expanded_fields c). expanded path \<Longrightarrow> expand_paths vars c = c"
  by (simp add: expanded_fields_def expand_paths_def expand_gate_def expand_tls_def expand_tilde_id)

lemma load_config_Inr:
  "load_config vars ex rd toml = Inr c \<or> load_config_from vars rd toml path = Inr c \<Longrightarrow> \<exists>c0. c = expand_paths vars c0"
  by (auto simp: load_config_def load_config_from_def Let_def split: if_splits sum.splits)

lemma expand_paths_keeps:
  "vs_bitwarden (gc_vault (expand_paths vars c)) = vs_bitwarden (gc_vault c)"
  "gc_security (expand_paths vars c) = gc_security c"
  by (simp_all add: expand_paths_def)

lemma chmod_other: "path \<noteq> p \<Longrightarrow> chmod dk p mode path = dk path"
  by (simp add: chmod_def split: option.splits)

lemma set_permissions_cases:
  assumes "set_permissions ops err dk path mode = (dk', r)"
  shows "(r = Inr () \<and> dk' = chmod dk path mode) \<or> (dk' = dk \<and> (\<exists>e. r = Inl e))"
  using assms by (auto simp: set_permissions_def split: sum.splits)

lemma fingerprint_parent_keeps:
  assumes "fingerprint_parent ops dk path = (dk', r)" "fo_parent ops path \<noteq> Some path"
  shows "dk' path = dk path"
  using assms
  by (auto simp: fingerprint_parent_def set_permissions_def chmod_other split: option.splits if_splits sum.splits)

lemma write_file_Inr:
  "write_file ops dk path text = (dk', Inr ()) \<Longrightarrow> writable ops dk path \<and> (\<exists>mode. dk' path = Some (mode, text))"
  by (auto simp: write_file_def split: if_splits sum.splits)

lemma identity_create_Inr:
  assumes "identity_create ops env dk key path sock = (dk', Inr i)" "fo_parent ops path \<noteq> Some path"
  shows "writable ops dk path \<and> i = \<lparr>gi_signing_key = key, gi_fingerprint_path = path\<rparr> \<and>
    (\<exists>gate_hash js. se_pretty env \<lparr>gf_gate_pid = se_pid env, gf_gate_binary_hash = ''sha256:'' @ hex_encode gate_hash,
         gf_public_key = se_public_key env key, gf_socket_path = sock, gf_started_at = se_now env\<rparr> = Inr js \<and>
       dk' path = Some (mode_0400, js))"
proof -
  from assms(1) obtain gate_hash dk1 js dk2 where
    parent: "fingerprint_parent ops dk path = (dk1, Inr ())" and
    js: "se_pretty env \<lparr>gf_gate_pid = se_pid env, gf_gate_binary_hash = ''sha256:'' @ hex_encode gate_hash,
         gf_public_key = se_public_key env key, gf_socket_path = sock, gf_started_at = se_now env\<rparr> = Inr js" and
    wr: "write_file ops dk1 path js = (dk2, Inr ())" and
    i: "i = \<lparr>gi_signing_key = key, gi_fingerprint_path = path\<rparr>" "dk' = chmod dk2 path mode_0400"
    by (auto simp: identity_create_def Let_def set_permissions_def split: sum.splits prod.splits)
  from fingerprint_parent_keeps [OF parent assms(2)] write_file_Inr [OF wr]
  have "writable ops dk path" "\<exists>mode. dk2 path = Some (mode, js)" by (auto simp: writable_def)
  with i js show ?thesis by (auto simp: chmod_def)
qed

lemma read_only_blocks:
  assumes "\<exists>mode js. dk path = Some (mode, js) \<and> mode div 128 mod 2 \<noteq> 1" "fo_parent ops path \<noteq> Some path"
    and "\<not> fo_superuser ops"
  shows "\<exists>dk2 e. identity_create ops env dk key path sock = (dk2, Inl e) \<and> dk2 path = dk path"
proof -
  from assms(1,3) have no: "\<not> writable ops dk path" by (auto simp: writable_def)
  obtain dk2 r where run: "identity_create ops env dk key path sock = (dk2, r)"
    by (cases "identity_create ops env dk key path sock")
  from identity_create_Inr [of ops env dk key path sock dk2] run assms(2) no have "\<exists>e. r = Inl e"
    by (cases r) auto
  moreover have "dk2 path = dk path"
  proof (cases "fingerprint_parent ops dk path")
    case (Pair dk3 r3)
    from fingerprint_parent_keeps [OF Pair assms(2)] have "dk3 path = dk path" .
    moreover from this no have "\<not> writable ops dk3 path" by (simp add: writable_def)
    ultimately show ?thesis
      using run Pair by (auto simp: identity_create_def Let_def write_file_def split: sum.splits)
  qed
  ultimately show ?thesis using run by blast
qed

section \<open>Properties\<close>

text \<open>
  The seven fields of loaded settings are expanded when the home directory is known, whether the settings
  come from a file or are the defaults, and expanding them once more changes nothing.
\<close>

theorem loaded_paths_expanded:
  assumes "load_config vars ex rd toml = Inr c \<or> load_config_from vars rd toml path = Inr c" "vars ''HOME'' = Some home" "home \<noteq> []" "hd home \<noteq> CHR ''~''"
  shows "(\<forall>path \<in> set (expanded_fields c). expanded path) \<and> expand_paths vars c = c"
proof -
  from load_config_Inr [OF assms(1)] obtain c0 where "c = expand_paths vars c0" by blast
  with expand_paths_ok [where vars = vars, OF assms(2-4)] have "\<forall>path \<in> set (expanded_fields c). expanded path" by simp
  with expand_paths_id show ?thesis by blast
qed

text \<open>
  A gate that did not clean up cannot start again. The fingerprint file is made read-only when
  it is written; unless the gate runs as the superuser, every later attempt to write it fails,
  whatever the new process is, and leaves the old file, which names a process that is gone. Only
  the removal of the file, which happens at the end of an orderly shutdown, makes room.
\<close>

theorem stale_fingerprint_blocks_start:
  assumes "identity_create ops env dk key path sock = (dk1, Inr i)" "fo_parent ops path \<noteq> Some path"
    and "fo_parent ops2 path \<noteq> Some path" "\<not> fo_superuser ops2"
  shows "\<exists>dk2 e. identity_create ops2 env2 dk1 key2 path sock2 = (dk2, Inl e) \<and> dk2 path = dk1 path"
  using identity_create_Inr [OF assms(1,2)] by (intro read_only_blocks assms(3,4)) (auto simp: mode_0400_def)

text \<open>
  The socket a listener has bound is accessible to its owner only, and a directory created for it
  is private.
\<close>

lemma bound_socket_private:
  assumes "listener_bind ops dk path = (dk', Inr p)" "fo_parent ops path \<noteq> Some path"
  shows "p = path \<and> dk' path = Some (mode_0600, []) \<and>
    (\<forall>parent. fo_parent ops path = Some parent \<longrightarrow> dk parent = None \<longrightarrow> dk' parent = Some (mode_0700, []))"
  using assms
  by (auto simp: listener_bind_def listener_parent_def set_permissions_def chmod_def
      split: removal.splits option.splits if_splits sum.splits prod.splits)

section \<open>Witnesses\<close>

theorem loaded_paths_expanded_witness:
  "\<exists>c. load_config [''HOME'' \<mapsto> ''/home/u''] (\<lambda>_. False) (\<lambda>_. Inl []) (\<lambda>_. Inl []) = Inr c \<and>
    gs_audit_log_path (gc_gate c) = ''/home/u/.local/share/cdp/audit.jsonl'' \<and>
    (\<forall>path \<in> set (expanded_fields c). expanded path)"
proof -
  let ?vars = "[''HOME'' \<mapsto> ''/home/u'']" and ?c = "expand_paths [''HOME'' \<mapsto> ''/home/u''] (gate_config_default [''HOME'' \<mapsto> ''/home/u''])"
  have load: "load_config ?vars (\<lambda>_. False) (\<lambda>_. Inl []) (\<lambda>_. Inl []) = Inr ?c" by (simp add: load_config_def)
  have home: "?vars ''HOME'' = Some ''/home/u''" by simp
  have "(\<forall>path \<in> set (expanded_fields ?c). expanded path)"
    using loaded_paths_expanded [where vars = ?vars, OF disjI1 [OF load] home] by simp
  moreover have "gs_audit_log_path (gc_gate ?c) = ''/home/u/.local/share/cdp/audit.jsonl''"
    by (simp add: expand_paths_def expand_gate_def gate_config_default_def gate_section_default_def
        expand_tilde_def path_join_def)
  ultimately show ?thesis using load by blast
qed

definition start_fs :: fs_ops where
  "start_fs =
     \<lparr>fo_parent = (\<lambda>_. Some ''/d''), fo_remove = (\<lambda>_. Removed), fo_create_dir_all = (\<lambda>_. Inr ()),
      fo_set_permissions = (\<lambda>_. Inr ()), fo_bind = (\<lambda>_. Inr ()), fo_write = (\<lambda>_. Inr ()),
      fo_superuser = False, fo_new_mode = 420\<rparr>"

definition start_self :: self_env where
  "start_self =
     \<lparr>se_process = sample_process, se_exe = Inr ''/usr/bin/cdp-gate'', se_pid = 7, se_now = ''t'',
      se_public_key = (\<lambda>_. ''pk''), se_pretty = (\<lambda>_. Inr ''{}''), se_show_error = (\<lambda>_. ''e'')\<rparr>"

theorem stale_fingerprint_blocks_start_witness:
  "\<exists>dk1 i dk2 e. identity_create start_fs start_self Map.empty [] ''/d/f'' ''s'' = (dk1, Inr i) \<and>
    identity_create start_fs start_self dk1 [1] ''/d/f'' ''s'' = (dk2, Inl e)"
proof -
  have "identity_create start_fs start_self Map.empty [] ''/d/f'' ''s'' =
    ([''/d'' \<mapsto> (mode_0700, []), ''/d/f'' \<mapsto> (mode_0400, ''{}'')],
     Inr \<lparr>gi_signing_key = [], gi_fingerprint_path = ''/d/f''\<rparr>)"
    by (simp add: identity_create_def start_self_def sample_process_def hash_binary_def fingerprint_parent_def
        start_fs_def set_permissions_def chmod_def write_file_def writable_def Let_def)
  moreover from stale_fingerprint_blocks_start [OF this, of start_fs start_self "[1]" "''s''"]
  have "\<exists>dk2 e. identity_create start_fs start_self [''/d'' \<mapsto> (mode_0700, []), ''/d/f'' \<mapsto> (mode_0400, ''{}'')]
      [1] ''/d/f'' ''s'' = (dk2, Inl e)"
    by (auto simp: start_fs_def)
  ultimately show ?thesis by blast
qed

end
