(* ===== verification/Cdp_Vault.thy ===== *)
theory Cdp_Vault
  imports Cdp_Audit
begin

text \<open>
  The vault crate (\<open>crates/cdp-vault/src\<close>): framed messages, the Bitwarden backend with its
  command executor, the worker process that serves it and the manager on the side of the gate.
  JSON, base64, the cipher and the \<open>bw\<close> program are the fields of \<open>vault_env\<close>. A peer says what
  becomes of a written frame: the write fails, or some bytes arrive for the reader. The lemmas
  show that frames are read as they were written, that the worker answers commands one by one,
  and that the manager together with the worker does what the backend does.
\<close>

section \<open>Errors and references\<close>

datatype vault_error =
    Vault_Locked string
  | NotFound string
  | Vault_Subprocess string
  | Vault_Protocol string
  | BitwardenCli string
  | Vault_Decryption string
  | Vault_Io string
  | Vault_Sandbox string
  | Vault_Crypto string

fun vault_error_text :: "vault_error \<Rightarrow> string" where
  "vault_error_text (Vault_Locked s) = ''vault locked: '' @ s"
| "vault_error_text (NotFound s) = ''credential not found: '' @ s"
| "vault_error_text (Vault_Subprocess s) = ''subprocess error: '' @ s"
| "vault_error_text (Vault_Protocol s) = ''protocol error: '' @ s"
| "vault_error_text (BitwardenCli s) = ''bw CLI error: '' @ s"
| "vault_error_text (Vault_Decryption s) = ''decryption failed: '' @ s"
| "vault_error_text (Vault_Io s) = ''I/O error: '' @ s"
| "vault_error_text (Vault_Sandbox s) = ''sandbox error: '' @ s"
| "vault_error_text (Vault_Crypto s) = ''crypto error: '' @ s"

record credential_ref =
  cr_id :: string
  cr_name :: string
  cr_vault_type :: string

record encrypted_credential =
  ec_data :: bytes
  ec_nonce :: bytes

section \<open>Framed messages\<close>

definition MAX_MESSAGE_SIZE :: nat where
  "MAX_MESSAGE_SIZE = 16 * 1024 * 1024"

datatype vault_command =
    Init string
  | Unlock string
  | List_Credentials
  | Fetch string
  | Exists string

datatype vault_response =
    Response_Ok json
  | Response_Error string

text \<open>The bytes of the frame; \<open>len as u32\<close> keeps the low four bytes of the length.\<close>

definition write_message :: "bytes \<Rightarrow> string + bytes" where
  "write_message payload =
     (if MAX_MESSAGE_SIZE < length payload then Inl ''payload exceeds max message size''
      else Inr (be_bytes 4 (length payload) @ payload))"

text \<open>\<open>read_exact\<close> on a stream that holds the given bytes and then ends.\<close>

definition read_exact :: "nat \<Rightarrow> bytes \<Rightarrow> string + bytes \<times> bytes" where
  "read_exact n s = (if length s < n then Inl ''early eof'' else Inr (take n s, drop n s))"

definition u32_from_be_bytes :: "bytes \<Rightarrow> nat" where
  "u32_from_be_bytes bs = foldl (\<lambda>a b. a * 256 + unat b) 0 bs"

definition too_long :: "nat \<Rightarrow> vault_error" where
  "too_long len =
     Vault_Protocol (''message length '' @ show_nat len @ '' exceeds maximum allowed size '' @ show_nat MAX_MESSAGE_SIZE)"

definition read_message :: "bytes \<Rightarrow> vault_error + bytes \<times> bytes" where
  "read_message reader =
     (case read_exact 4 reader of
        Inl e \<Rightarrow> Inl (Vault_Io e)
      | Inr (len_buf, reader) \<Rightarrow>
          (let len = u32_from_be_bytes len_buf in
           if MAX_MESSAGE_SIZE < len then Inl (too_long len)
           else (case read_exact len reader of
                   Inl e \<Rightarrow> Inl (Vault_Io e)
                 | Inr (payload, reader) \<Rightarrow> Inr (payload, reader))))"

text \<open>
  The worker's own pair, on a blocking stream, whose end of file has another text.
\<close>

definition write_message_sync :: "bytes \<Rightarrow> string + bytes" where
  "write_message_sync payload =
     (if MAX_MESSAGE_SIZE < length payload then Inl ''payload exceeds max message size''
      else Inr (be_bytes 4 (length payload) @ payload))"

definition read_exact_sync :: "nat \<Rightarrow> bytes \<Rightarrow> string + bytes \<times> bytes" where
  "read_exact_sync n s = (if length s < n then Inl ''failed to fill whole buffer'' else Inr (take n s, drop n s))"

definition read_message_sync :: "bytes \<Rightarrow> vault_error + bytes \<times> bytes" where
  "read_message_sync reader =
     (case read_exact_sync 4 reader of
        Inl e \<Rightarrow> Inl (Vault_Io e)
      | Inr (len_buf, reader) \<Rightarrow>
          (let len = u32_from_be_bytes len_buf in
           if MAX_MESSAGE_SIZE < len then Inl (too_long len)
           else (case read_exact_sync len reader of
                   Inl e \<Rightarrow> Inl (Vault_Io e)
                 | Inr (payload, reader) \<Rightarrow> Inr (payload, reader))))"

section \<open>The Bitwarden backend\<close>

record bw_uri =
  bu_match_type :: "u32 option"
  bu_uri :: string

record bw_field =
  bf_name :: string
  bf_value :: string
  bf_field_type :: u32

record bw_login =
  bl_username :: "string option"
  bl_password :: "string option"
  bl_uris :: "bw_uri list option"

record bw_item =
  bi_id :: string
  bi_name :: string
  bi_item_type :: u32
  bi_login :: "bw_login option"
  bi_notes :: "string option"
  bi_fields :: "bw_field list option"

text \<open>
  What becomes of a run of the \<open>bw\<close> program: the results of spawning it, of writing to its
  input and of waiting for it, the latter with success, the text of the status, and standard
  output and error as \<open>from_utf8_lossy\<close> gives them.
\<close>

record bw_process =
  bp_spawn :: "string + unit"
  bp_write :: "string + unit"
  bp_wait :: "string + bool \<times> string \<times> string \<times> string"

record vault_env =
  ve_run :: "string \<Rightarrow> string list \<Rightarrow> (string \<times> string) list \<Rightarrow> bytes option \<Rightarrow> bw_process"
  ve_items :: "string \<Rightarrow> string + bw_item list"
  ve_item :: "string \<Rightarrow> string + bw_item"
  ve_seal :: "bytes \<Rightarrow> bytes \<Rightarrow> bytes \<Rightarrow> string + bytes"
  ve_nonce :: bytes
  ve_encode :: "bytes \<Rightarrow> string"
  ve_decode :: "string \<Rightarrow> string + bytes"
  ve_refs_to_value :: "credential_ref list \<Rightarrow> string + json"
  ve_refs_from_value :: "json \<Rightarrow> string + credential_ref list"
  ve_command_to_vec :: "vault_command \<Rightarrow> string + bytes"
  ve_command_from_slice :: "bytes \<Rightarrow> string + vault_command"
  ve_response_to_vec :: "vault_response \<Rightarrow> string + bytes"
  ve_response_from_slice :: "bytes \<Rightarrow> string + vault_response"
  ve_write :: "string + unit"

definition bw_execute ::
  "vault_env \<Rightarrow> string \<Rightarrow> string list \<Rightarrow> bytes option \<Rightarrow> (string \<times> string) list option \<Rightarrow> vault_error + string" where
  "bw_execute env cli_path args stdin_data env_vars =
     (let child = ve_run env cli_path args
        ((''BW_NOINTERACTION'', ''true'') # (case env_vars of None \<Rightarrow> [] | Some vars \<Rightarrow> vars)) stdin_data in
      case bp_spawn child of
        Inl e \<Rightarrow> Inl (Vault_Subprocess (''failed to spawn bw: '' @ e))
      | Inr _ \<Rightarrow>
     (case (case stdin_data of None \<Rightarrow> Inr () | Some _ \<Rightarrow> bp_write child) of
        Inl e \<Rightarrow> Inl (Vault_Subprocess (''write to bw stdin: '' @ e))
      | Inr _ \<Rightarrow>
     (case bp_wait child of
        Inl e \<Rightarrow> Inl (Vault_Subprocess (''wait_with_output: '' @ e))
      | Inr (success, status, stdout, stderr) \<Rightarrow>
          if \<not> success then Inl (BitwardenCli (''bw exited with '' @ status @ '': '' @ trim stderr))
          else Inr stdout)))"

record bitwarden_backend =
  bb_cli_path :: string
  bb_session_key :: "string option"
  bb_ipc_encrypt_key :: "bytes option"

definition bitwarden_new :: "string \<Rightarrow> bitwarden_backend" where
  "bitwarden_new cli_path = \<lparr>bb_cli_path = cli_path, bb_session_key = None, bb_ipc_encrypt_key = None\<rparr>"

definition set_ipc_key :: "bitwarden_backend \<Rightarrow> bytes \<Rightarrow> bitwarden_backend" where
  "set_ipc_key self key = self\<lparr>bb_ipc_encrypt_key := Some key\<rparr>"

definition bw_unlock :: "vault_env \<Rightarrow> bitwarden_backend \<Rightarrow> string \<Rightarrow> bitwarden_backend \<times> (vault_error + unit)" where
  "bw_unlock env self password =
     (case bw_execute env (bb_cli_path self) [''unlock'', ''--raw''] (Some (as_bytes password)) None of
        Inl e \<Rightarrow> (self, Inl e)
      | Inr output \<Rightarrow>
          (let session_key = trim output in
           if session_key = [] then (self, Inl (BitwardenCli ''bw unlock returned an empty session key''))
           else (self\<lparr>bb_session_key := Some session_key\<rparr>, Inr ())))"

text \<open>
  The session key is kept as the bytes of a string, so that reading it back as UTF-8, which the
  three operations do, cannot fail.
\<close>

definition require_session :: "bitwarden_backend \<Rightarrow> vault_error + string" where
  "require_session self =
     (case bb_session_key self of
        None \<Rightarrow> Inl (Vault_Locked ''vault is locked; call unlock first'')
      | Some session \<Rightarrow> Inr session)"

definition vault_type_name :: "u32 \<Rightarrow> string" where
  "vault_type_name item_type =
     (if item_type = 1 then ''login'' else if item_type = 2 then ''note'' else if item_type = 3 then ''card''
      else if item_type = 4 then ''identity'' else ''unknown'')"

definition bw_list :: "vault_env \<Rightarrow> bitwarden_backend \<Rightarrow> vault_error + credential_ref list" where
  "bw_list env self =
     (case require_session self of
        Inl e \<Rightarrow> Inl e
      | Inr session \<Rightarrow>
     (case bw_execute env (bb_cli_path self) [''list'', ''items'', ''--raw''] None (Some [(''BW_SESSION'', session)]) of
        Inl e \<Rightarrow> Inl e
      | Inr output \<Rightarrow>
     (case ve_items env output of
        Inl e \<Rightarrow> Inl (Vault_Protocol (''failed to parse bw list output: '' @ e))
      | Inr items \<Rightarrow>
          Inr (map (\<lambda>item. \<lparr>cr_id = bi_id item, cr_name = bi_name item,
                 cr_vault_type = vault_type_name (bi_item_type item)\<rparr>) items))))"

definition non_empty :: "string option \<Rightarrow> string option" where
  "non_empty s = (case s of Some t \<Rightarrow> if t \<noteq> [] then Some t else None | None \<Rightarrow> None)"

definition extract_credential_value :: "bw_item \<Rightarrow> vault_error + string" where
  "extract_credential_value item =
     (case Option.bind (bi_login item) (\<lambda>login. non_empty (bl_password login)) of
        Some password \<Rightarrow> Inr password
      | None \<Rightarrow>
     (case non_empty (bi_notes item) of
        Some notes \<Rightarrow> Inr notes
      | None \<Rightarrow>
     (case Option.bind (bi_fields item) (List.find (\<lambda>field. bf_value field \<noteq> [])) of
        Some field \<Rightarrow> Inr (bf_value field)
      | None \<Rightarrow>
          Inl (NotFound (''item '' @ CHR 0x27 # bi_id item @ CHR 0x27 # '' has no extractable credential value'')))))"

definition encrypt_value :: "vault_env \<Rightarrow> bitwarden_backend \<Rightarrow> bytes \<Rightarrow> vault_error + encrypted_credential" where
  "encrypt_value env self plaintext =
     (case bb_ipc_encrypt_key self of
        None \<Rightarrow> Inl (Vault_Locked ''IPC encryption key not set; Init not received'')
      | Some key \<Rightarrow>
     (case ve_seal env key (ve_nonce env) plaintext of
        Inl e \<Rightarrow> Inl (Vault_Decryption (''ChaCha20-Poly1305 encrypt: '' @ e))
      | Inr data \<Rightarrow> Inr \<lparr>ec_data = data, ec_nonce = ve_nonce env\<rparr>))"

definition bw_fetch :: "vault_env \<Rightarrow> bitwarden_backend \<Rightarrow> string \<Rightarrow> vault_error + encrypted_credential" where
  "bw_fetch env self ref_id =
     (case require_session self of
        Inl e \<Rightarrow> Inl e
      | Inr session \<Rightarrow>
     (case bw_execute env (bb_cli_path self) [''get'', ''item'', ref_id, ''--raw''] None
             (Some [(''BW_SESSION'', session)]) of
        Inl e \<Rightarrow> Inl e
      | Inr output \<Rightarrow>
     (case ve_item env output of
        Inl e \<Rightarrow> Inl (Vault_Protocol (''failed to parse bw get item output: '' @ e))
      | Inr item \<Rightarrow>
     (case extract_credential_value item of
        Inl e \<Rightarrow> Inl e
      | Inr value \<Rightarrow> encrypt_value env self (as_bytes value)))))"

text \<open>
  \<open>to_lowercase\<close> maps no character outside ASCII to one of the letters of the two texts in a
  place where they could match, so that lowering the ASCII letters gives the same answer.
\<close>

definition is_not_found_error :: "string \<Rightarrow> bool" where
  "is_not_found_error msg \<longleftrightarrow>
     (let lower = map ascii_lower msg in str_contains lower ''not found'' \<or> str_contains lower ''no items'')"

definition bw_exists :: "vault_env \<Rightarrow> bitwarden_backend \<Rightarrow> string \<Rightarrow> vault_error + bool" where
  "bw_exists env self ref_id =
     (case require_session self of
        Inl e \<Rightarrow> Inl e
      | Inr session \<Rightarrow>
     (case bw_execute env (bb_cli_path self) [''get'', ''item'', ref_id, ''--raw''] None
             (Some [(''BW_SESSION'', session)]) of
        Inr _ \<Rightarrow> Inr True
      | Inl (BitwardenCli msg) \<Rightarrow> if is_not_found_error msg then Inr False else Inl (BitwardenCli msg)
      | Inl e \<Rightarrow> Inl e))"

section \<open>The worker\<close>

definition respond_with :: "(vault_error + 'a) \<Rightarrow> ('a \<Rightarrow> json) \<Rightarrow> vault_response" where
  "respond_with r data = (case r of Inl e \<Rightarrow> Response_Error (vault_error_text e) | Inr x \<Rightarrow> Response_Ok (data x))"

definition fetch_payload :: "vault_env \<Rightarrow> encrypted_credential \<Rightarrow> json" where
  "fetch_payload env enc =
     JObject [(''data'', JString (ve_encode env (ec_data enc))), (''nonce'', JString (ve_encode env (ec_nonce enc)))]"

fun dispatch ::
  "vault_env \<Rightarrow> bitwarden_backend \<Rightarrow> vault_command \<Rightarrow> bitwarden_backend \<times> vault_response" where
  "dispatch env backend (Init key) =
     (case ve_decode env key of
        Inl e \<Rightarrow> (backend, Response_Error (''Init key base64 decode error: '' @ e))
      | Inr key_bytes \<Rightarrow>
          if length key_bytes = 32 then (set_ipc_key backend key_bytes, Response_Ok JNull)
          else (backend, Response_Error (''Init key must be 32 bytes, got '' @ show_nat (length key_bytes))))"
| "dispatch env backend (Unlock password) =
     (case bw_unlock env backend password of
        (backend', r) \<Rightarrow> (backend', respond_with r (\<lambda>_. JNull)))"
| "dispatch env backend List_Credentials =
     (backend, respond_with (bw_list env backend)
        (\<lambda>refs. case ve_refs_to_value env refs of Inl _ \<Rightarrow> JNull | Inr v \<Rightarrow> v))"
| "dispatch env backend (Fetch ref_id) =
     (backend, respond_with (bw_fetch env backend ref_id) (fetch_payload env))"
| "dispatch env backend (Exists ref_id) =
     (backend, respond_with (bw_exists env backend ref_id) JBool)"

definition answer :: "vault_env \<Rightarrow> bitwarden_backend \<Rightarrow> bytes \<Rightarrow> bitwarden_backend \<times> vault_response" where
  "answer env backend raw =
     (case ve_command_from_slice env raw of
        Inr cmd \<Rightarrow> dispatch env backend cmd
      | Inl e \<Rightarrow> (backend, Response_Error (''failed to deserialize command: '' @ e)))"

text \<open>
  One round of the command loop: the exit code, or the backend, the unread input and the frame
  that was written. The loop takes an environment for each round, and is still running when
  they are used up.
\<close>

definition worker_step ::
  "vault_env \<Rightarrow> bitwarden_backend \<Rightarrow> bytes \<Rightarrow> nat + bitwarden_backend \<times> bytes \<times> bytes" where
  "worker_step env backend input =
     (case read_message_sync input of
        Inl _ \<Rightarrow> Inl 0
      | Inr (raw, input) \<Rightarrow>
          (case answer env backend raw of
             (backend, response) \<Rightarrow>
               (case ve_response_to_vec env response of
                  Inl _ \<Rightarrow> Inl 1
                | Inr response_bytes \<Rightarrow>
                    (case write_message_sync response_bytes of
                       Inl _ \<Rightarrow> Inl 0
                     | Inr frame \<Rightarrow>
                         (case ve_write env of Inl _ \<Rightarrow> Inl 0 | Inr _ \<Rightarrow> Inr (backend, input, frame))))))"

fun worker_loop ::
  "vault_env list \<Rightarrow> bitwarden_backend \<Rightarrow> bytes \<Rightarrow> bytes \<times> (nat + bitwarden_backend \<times> bytes)" where
  "worker_loop [] backend input = ([], Inr (backend, input))"
| "worker_loop (env # envs) backend input =
     (case worker_step env backend input of
        Inl code \<Rightarrow> ([], Inl code)
      | Inr (backend, input, frame) \<Rightarrow>
          (case worker_loop envs backend input of (output, r) \<Rightarrow> (frame @ output, r)))"

text \<open>
  The worker once its sandbox was applied, or was not. The descriptors it closes and the one it
  duplicates to read from are in \<open>Cdp_Sandbox\<close>, where the whole start is composed.
\<close>

definition vault_worker_main ::
  "vault_error + unit \<Rightarrow> vault_env list \<Rightarrow> string \<Rightarrow> bytes \<Rightarrow> bytes \<times> (nat + bitwarden_backend \<times> bytes)" where
  "vault_worker_main sandbox envs bw_cli_path input =
     (case sandbox of
        Inl _ \<Rightarrow> ([], Inl 1)
      | Inr _ \<Rightarrow> worker_loop envs (bitwarden_new bw_cli_path) input)"

section \<open>The manager\<close>

datatype vault_status = Status_Locked | Status_Unlocked | Status_Crashed string

record subprocess_manager =
  sm_status :: vault_status
  sm_reader :: bytes
  sm_ipc_key :: bytes

type_synonym peer = "bytes \<Rightarrow> string + bytes"

definition send_command ::
  "vault_env \<Rightarrow> peer \<Rightarrow> subprocess_manager \<Rightarrow> vault_command \<Rightarrow> subprocess_manager \<times> (vault_error + vault_response)" where
  "send_command env peer self cmd =
     (case ve_command_to_vec env cmd of
        Inl e \<Rightarrow> (self, Inl (Vault_Protocol (''serialize command: '' @ e)))
      | Inr payload \<Rightarrow>
     (case sm_status self of
        Status_Crashed reason \<Rightarrow> (self, Inl (Vault_Locked (''subprocess crashed: '' @ reason)))
      | _ \<Rightarrow>
     (case (case write_message payload of Inl e \<Rightarrow> Inl e | Inr frame \<Rightarrow> peer frame) of
        Inl e \<Rightarrow>
          (self\<lparr>sm_status := Status_Crashed e\<rparr>, Inl (Vault_Subprocess (''write to vault subprocess: '' @ e)))
      | Inr incoming \<Rightarrow>
     (case read_message (sm_reader self @ incoming) of
        Inl e \<Rightarrow>
          (self\<lparr>sm_status := Status_Crashed (vault_error_text e)\<rparr>,
           Inl (Vault_Subprocess (''read from vault subprocess: '' @ vault_error_text e)))
      | Inr (raw, rest) \<Rightarrow>
          (self\<lparr>sm_reader := rest\<rparr>,
           (case ve_response_from_slice env raw of
              Inl e \<Rightarrow> Inl (Vault_Protocol (''deserialize response: '' @ e))
            | Inr response \<Rightarrow> Inr response))))))"

fun ok_or_err :: "vault_response \<Rightarrow> vault_error + json" where
  "ok_or_err (Response_Ok data) = Inr data"
| "ok_or_err (Response_Error message) = Inl (Vault_Subprocess message)"

text \<open>\<open>setup\<close> is the outcome of making the socket pair and spawning the worker.\<close>

definition sm_spawn ::
  "vault_env \<Rightarrow> peer \<Rightarrow> string + unit \<Rightarrow> bytes \<Rightarrow> vault_error + subprocess_manager" where
  "sm_spawn env peer setup ipc_key =
     (case setup of
        Inl e \<Rightarrow> Inl (Vault_Subprocess e)
      | Inr _ \<Rightarrow>
          (case send_command env peer \<lparr>sm_status = Status_Locked, sm_reader = [], sm_ipc_key = ipc_key\<rparr>
                  (Init (ve_encode env ipc_key)) of
             (_, Inl e) \<Rightarrow> Inl e
           | (manager, Inr _) \<Rightarrow> Inr manager))"

definition sm_unlock ::
  "vault_env \<Rightarrow> peer \<Rightarrow> subprocess_manager \<Rightarrow> string \<Rightarrow> subprocess_manager \<times> (vault_error + unit)" where
  "sm_unlock env peer self password =
     (case send_command env peer self (Unlock password) of
        (self, Inl e) \<Rightarrow> (self, Inl e)
      | (self, Inr _) \<Rightarrow> (self\<lparr>sm_status := Status_Unlocked\<rparr>, Inr ()))"

definition command_data ::
  "vault_env \<Rightarrow> peer \<Rightarrow> subprocess_manager \<Rightarrow> vault_command \<Rightarrow> subprocess_manager \<times> (vault_error + json)" where
  "command_data env peer self cmd =
     (case send_command env peer self cmd of
        (self, Inl e) \<Rightarrow> (self, Inl e)
      | (self, Inr response) \<Rightarrow> (self, ok_or_err response))"

definition sm_list_credentials ::
  "vault_env \<Rightarrow> peer \<Rightarrow> subprocess_manager \<Rightarrow> subprocess_manager \<times> (vault_error + credential_ref list)" where
  "sm_list_credentials env peer self =
     (case command_data env peer self List_Credentials of
        (self, Inl e) \<Rightarrow> (self, Inl e)
      | (self, Inr data) \<Rightarrow>
          (self, (case ve_refs_from_value env data of
                    Inl e \<Rightarrow> Inl (Vault_Protocol (''deserialize credential list: '' @ e))
                  | Inr refs \<Rightarrow> Inr refs)))"

definition decode_fetch :: "vault_env \<Rightarrow> json \<Rightarrow> vault_error + encrypted_credential" where
  "decode_fetch env data =
     (case Option.bind (json_get data ''data'') json_as_str of
        None \<Rightarrow> Inl (Vault_Protocol (''missing '' @ CHR 0x27 # ''data'' @ CHR 0x27 # '' in fetch response''))
      | Some data_b64 \<Rightarrow>
     (case Option.bind (json_get data ''nonce'') json_as_str of
        None \<Rightarrow> Inl (Vault_Protocol (''missing '' @ CHR 0x27 # ''nonce'' @ CHR 0x27 # '' in fetch response''))
      | Some nonce_b64 \<Rightarrow>
     (case ve_decode env data_b64 of
        Inl e \<Rightarrow> Inl (Vault_Protocol (''base64 decode '' @ CHR 0x27 # ''data'' @ CHR 0x27 # '': '' @ e))
      | Inr data_bytes \<Rightarrow>
     (case ve_decode env nonce_b64 of
        Inl e \<Rightarrow> Inl (Vault_Protocol (''base64 decode '' @ CHR 0x27 # ''nonce'' @ CHR 0x27 # '': '' @ e))
      | Inr nonce_bytes \<Rightarrow>
          if length nonce_bytes \<noteq> 12
          then Inl (Vault_Protocol (''nonce must be 12 bytes, got '' @ show_nat (length nonce_bytes)))
          else Inr \<lparr>ec_data = data_bytes, ec_nonce = nonce_bytes\<rparr>))))"

definition sm_fetch ::
  "vault_env \<Rightarrow> peer \<Rightarrow> subprocess_manager \<Rightarrow> string \<Rightarrow> subprocess_manager \<times> (vault_error + encrypted_credential)" where
  "sm_fetch env peer self ref_id =
     (case command_data env peer self (Fetch ref_id) of
        (self, Inl e) \<Rightarrow> (self, Inl e)
      | (self, Inr data) \<Rightarrow> (self, decode_fetch env data))"

definition sm_exists ::
  "vault_env \<Rightarrow> peer \<Rightarrow> subprocess_manager \<Rightarrow> string \<Rightarrow> subprocess_manager \<times> (vault_error + bool)" where
  "sm_exists env peer self ref_id =
     (case command_data env peer self (Exists ref_id) of
        (self, Inl e) \<Rightarrow> (self, Inl e)
      | (self, Inr (JBool found)) \<Rightarrow> (self, Inr found)
      | (self, Inr _) \<Rightarrow> (self, Inl (Vault_Protocol ''exists response is not a boolean'')))"

section \<open>Lemmas on frames\<close>

fun read_frames :: "(bytes \<Rightarrow> 'e + bytes \<times> bytes) \<Rightarrow> nat \<Rightarrow> bytes \<Rightarrow> 'e + bytes list \<times> bytes" where
  "read_frames rd 0 s = Inr ([], s)"
| "read_frames rd (Suc n) s =
     (case rd s of
        Inl e \<Rightarrow> Inl e
      | Inr (p, s) \<Rightarrow>
          (case read_frames rd n s of Inl e \<Rightarrow> Inl e | Inr (ps, s) \<Rightarrow> Inr (p # ps, s)))"

text \<open>
  What both ends rely on: a message within the limit can be written, what is written is read
  back whatever follows it, and nothing longer than the limit is ever read.
\<close>

locale message_stream =
  fixes wr :: "bytes \<Rightarrow> 'w + bytes" and rd :: "bytes \<Rightarrow> 'r + bytes \<times> bytes" and limit :: nat
  assumes writable: "length p \<le> limit \<Longrightarrow> \<exists>f. wr p = Inr f"
    and read_written: "wr p = Inr f \<Longrightarrow> rd (f @ rest) = Inr (p, rest)"
    and read_bounded: "rd s = Inr (p, rest) \<Longrightarrow> length p \<le> limit"
begin

lemma written_front:
  assumes "wr p = Inr f" "wr q = Inr g" "f @ x = g @ y"
  shows "p = q \<and> x = y"
  using read_written [OF assms(1), of x] read_written [OF assms(2), of y] assms(3) by simp

lemma read_frames_written:
  assumes "list_all2 (\<lambda>p f. wr p = Inr f) ps fs"
  shows "read_frames rd (length ps) (concat fs @ rest) = Inr (ps, rest)"
  using assms by (induction rule: list_all2_induct) (simp_all add: read_written)

end

sublocale message_stream \<subseteq> framing "\<lambda>p. projr (wr p)" "\<lambda>p. length p \<le> limit"
proof
  fix a b x y
  assume fits: "length a \<le> limit" "length b \<le> limit" and eq: "projr (wr a) @ x = projr (wr b) @ y"
  from fits obtain f g where "wr a = Inr f" "wr b = Inr g" using writable by blast
  with eq show "a = b \<and> x = y" by (intro written_front [of a f b g]) simp_all
qed

lemma u32_from_be_bytes_length: "n < 256 ^ 4 \<Longrightarrow> u32_from_be_bytes (be_bytes 4 n) = n"
  by (simp only: u32_from_be_bytes_def be_bytes_value mult_zero_left add_0 mod_less)

lemma read_message_frame:
  assumes "length p \<le> MAX_MESSAGE_SIZE"
  shows "read_message (length_prefixed 4 p @ rest) = Inr (p, rest)"
proof -
  from assms have "u32_from_be_bytes (be_bytes 4 (length p)) = length p"
    by (intro u32_from_be_bytes_length) (simp add: MAX_MESSAGE_SIZE_def order_le_less_trans)
  with assms show ?thesis by (simp add: read_message_def read_exact_def length_prefixed_def Let_def)
qed

lemma read_message_sync_Inr: "read_message_sync s = Inr r \<longleftrightarrow> read_message s = Inr r"
  by (auto simp: read_message_sync_def read_message_def read_exact_sync_def read_exact_def Let_def
      split: sum.splits if_splits)

lemma write_message_frame:
  "write_message p = (if length p \<le> MAX_MESSAGE_SIZE then Inr (length_prefixed 4 p)
     else Inl ''payload exceeds max message size'')"
  by (simp add: write_message_def length_prefixed_def)

lemma write_message_sync_eq: "write_message_sync = write_message"
  by (simp add: fun_eq_iff write_message_sync_def write_message_def)

interpretation async_messages: message_stream write_message read_message MAX_MESSAGE_SIZE
proof
  show "\<exists>f. write_message p = Inr f" if "length p \<le> MAX_MESSAGE_SIZE" for p
    using that by (simp add: write_message_frame)
  show "read_message (f @ rest) = Inr (p, rest)" if "write_message p = Inr f" for p f rest
    using that read_message_frame by (auto simp: write_message_frame split: if_splits)
  show "length p \<le> MAX_MESSAGE_SIZE" if "read_message s = Inr (p, rest)" for s p rest
    using that by (auto simp: read_message_def read_exact_def Let_def split: sum.splits if_splits)
qed

interpretation sync_messages: message_stream write_message_sync read_message_sync MAX_MESSAGE_SIZE
  unfolding write_message_sync_eq
  by unfold_locales
    (simp_all add: async_messages.writable async_messages.read_written async_messages.read_bounded read_message_sync_Inr)

section \<open>The worker answers in order\<close>

text \<open>
  The specification of the loop: the commands are answered one after another, each by the backend
  the earlier ones left. There is no specification when an answer cannot be written.
\<close>

fun serve :: "(vault_env \<times> bytes) list \<Rightarrow> bitwarden_backend \<Rightarrow> (bytes list \<times> bitwarden_backend) option" where
  "serve [] backend = Some ([], backend)"
| "serve ((env, raw) # rounds) backend =
     (case answer env backend raw of
        (backend, response) \<Rightarrow>
          (case ve_response_to_vec env response of
             Inl _ \<Rightarrow> None
           | Inr q \<Rightarrow>
               if MAX_MESSAGE_SIZE < length q \<or> isl (ve_write env) then None
               else map_option (\<lambda>(qs, backend). (q # qs, backend)) (serve rounds backend)))"

lemma serve_Cons:
  assumes "serve ((env, raw) # rounds) backend = Some (qs, b')"
  obtains b r q qs' where "answer env backend raw = (b, r)" "ve_response_to_vec env r = Inr q"
    "length q \<le> MAX_MESSAGE_SIZE" "ve_write env = Inr ()" "serve rounds b = Some (qs', b')" "qs = q # qs'"
  using assms
  by (cases "answer env backend raw"; cases "ve_write env") (auto split: sum.splits if_splits)

lemma worker_step_frame:
  assumes "length raw \<le> MAX_MESSAGE_SIZE" "answer env backend raw = (b, r)" "ve_response_to_vec env r = Inr q"
    "length q \<le> MAX_MESSAGE_SIZE" "ve_write env = Inr ()"
  shows "worker_step env backend (length_prefixed 4 raw @ rest) = Inr (b, rest, length_prefixed 4 q)"
proof -
  have "read_message_sync (length_prefixed 4 raw @ rest) = Inr (raw, rest)"
    using assms(1) by (simp add: read_message_sync_Inr read_message_frame)
  with assms show ?thesis by (simp add: worker_step_def write_message_sync_eq write_message_frame)
qed

lemma worker_loop_serve:
  assumes "serve rounds backend = Some (qs, b')" "\<forall>(env, raw) \<in> set rounds. length raw \<le> MAX_MESSAGE_SIZE"
  shows "worker_loop (map fst rounds) backend (concat (map (\<lambda>(env, raw). length_prefixed 4 raw) rounds) @ rest) =
    (concat (map (length_prefixed 4) qs), Inr (b', rest))"
  using assms
proof (induction rounds arbitrary: backend qs)
  case (Cons round rounds)
  obtain env raw where round: "round = (env, raw)" by (cases round)
  from Cons.prems(1)[unfolded round] show ?case
  proof (rule serve_Cons)
    fix b r q qs'
    assume step: "answer env backend raw = (b, r)" "ve_response_to_vec env r = Inr q"
      "length q \<le> MAX_MESSAGE_SIZE" "ve_write env = Inr ()" and rest: "serve rounds b = Some (qs', b')"
      and qs: "qs = q # qs'"
    from Cons.prems(2) round have "length raw \<le> MAX_MESSAGE_SIZE" by simp
    note worker_step_frame [OF this step]
    moreover from Cons.IH [OF rest] Cons.prems(2)
    have "worker_loop (map fst rounds) b (concat (map (\<lambda>(env, raw). length_prefixed 4 raw) rounds) @ rest) =
      (concat (map (length_prefixed 4) qs'), Inr (b', rest))" by simp
    ultimately show ?thesis by (simp add: round qs)
  qed
qed simp

lemma serve_lengths:
  "serve rounds backend = Some (qs, b') \<Longrightarrow> length qs = length rounds \<and> (\<forall>q \<in> set qs. length q \<le> MAX_MESSAGE_SIZE)"
proof (induction rounds arbitrary: backend qs)
  case (Cons round rounds)
  obtain env raw where round: "round = (env, raw)" by (cases round)
  from Cons.prems[unfolded round] show ?case
    by (rule serve_Cons) (use Cons.IH in \<open>fastforce simp: round\<close>)
qed simp

section \<open>The manager and the worker\<close>

text \<open>
  The documented laws of the codecs: what is encoded is decoded to itself. Commands and responses
  need not have an encoding.
\<close>

definition vault_env_ok :: "vault_env \<Rightarrow> bool" where
  "vault_env_ok env \<longleftrightarrow>
     (\<forall>c p. ve_command_to_vec env c = Inr p \<longrightarrow> ve_command_from_slice env p = Inr c) \<and>
     (\<forall>r p. ve_response_to_vec env r = Inr p \<longrightarrow> ve_response_from_slice env p = Inr r) \<and>
     (\<forall>bs. ve_decode env (ve_encode env bs) = Inr bs) \<and>
     (\<forall>refs. \<exists>v. ve_refs_to_value env refs = Inr v \<and> ve_refs_from_value env v = Inr refs) \<and>
     length (ve_nonce env) = 12"

text \<open>The peer of a manager is the worker with a given backend.\<close>

definition worker_peer :: "vault_env \<Rightarrow> bitwarden_backend \<Rightarrow> peer" where
  "worker_peer env backend frame =
     Inr (case worker_step env backend frame of Inl _ \<Rightarrow> [] | Inr (_, _, out) \<Rightarrow> out)"

text \<open>The command and its answer fit into messages, and the worker's socket takes the answer.\<close>

definition carried :: "vault_env \<Rightarrow> bitwarden_backend \<Rightarrow> vault_command \<Rightarrow> bool" where
  "carried env backend cmd \<longleftrightarrow>
     (case ve_command_to_vec env cmd of Inl _ \<Rightarrow> False | Inr p \<Rightarrow> length p \<le> MAX_MESSAGE_SIZE) \<and>
     (case ve_response_to_vec env (snd (dispatch env backend cmd)) of
        Inl _ \<Rightarrow> False | Inr q \<Rightarrow> length q \<le> MAX_MESSAGE_SIZE) \<and>
     \<not> isl (ve_write env)"

fun ready :: "subprocess_manager \<Rightarrow> bool" where
  "ready mgr \<longleftrightarrow> sm_reader mgr = [] \<and> (case sm_status mgr of Status_Crashed _ \<Rightarrow> False | _ \<Rightarrow> True)"

declare ready.simps [simp del]

lemma send_command_worker:
  assumes "vault_env_ok env" "carried env backend cmd" "ready mgr"
  shows "send_command env (worker_peer env backend) mgr cmd = (mgr, Inr (snd (dispatch env backend cmd)))"
proof -
  obtain b r where d: "dispatch env backend cmd = (b, r)" by (cases "dispatch env backend cmd")
  from assms(2) d obtain p q where
    pq: "ve_command_to_vec env cmd = Inr p" "length p \<le> MAX_MESSAGE_SIZE"
      "ve_response_to_vec env r = Inr q" "length q \<le> MAX_MESSAGE_SIZE" and wr: "ve_write env = Inr ()"
    by (cases "ve_write env") (auto simp: carried_def split: sum.splits)
  from assms(1) pq have "ve_command_from_slice env p = Inr cmd" and from_q: "ve_response_from_slice env q = Inr r"
    by (auto simp: vault_env_ok_def)
  with d have "answer env backend p = (b, r)" by (simp add: answer_def)
  from worker_step_frame [OF pq(2) this pq(3,4) wr, of "[]"]
  have peer: "worker_peer env backend (length_prefixed 4 p) = Inr (length_prefixed 4 q)"
    by (simp add: worker_peer_def)
  have read: "read_message (length_prefixed 4 q) = Inr (q, [])" using read_message_frame [OF pq(4), of "[]"] by simp
  from assms(3) have mgr: "sm_reader mgr = []" "mgr\<lparr>sm_reader := []\<rparr> = mgr" by (auto simp: ready.simps)
  from assms(3) show ?thesis
    by (auto simp: ready.simps send_command_def pq write_message_frame peer read mgr from_q d split: vault_status.splits)
qed

lemma decode_fetch_payload:
  assumes "vault_env_ok env" "length (ec_nonce c) = 12"
  shows "decode_fetch env (fetch_payload env c) = Inr c"
  using assms by (simp add: decode_fetch_def fetch_payload_def vault_env_ok_def)

lemma bw_fetch_nonce: "bw_fetch env backend ref_id = Inr c \<Longrightarrow> ec_nonce c = ve_nonce env"
  by (auto simp: bw_fetch_def encrypt_value_def split: sum.splits option.splits)

text \<open>A request whose failure is the failure of the backend, as text.\<close>

definition reported :: "(vault_error + 'a) \<Rightarrow> vault_error + 'a" where
  "reported r = (case r of Inl e \<Rightarrow> Inl (Vault_Subprocess (vault_error_text e)) | Inr x \<Rightarrow> Inr x)"

lemma command_data_worker:
  assumes "vault_env_ok env" "carried env backend cmd" "ready mgr"
  shows "command_data env (worker_peer env backend) mgr cmd = (mgr, ok_or_err (snd (dispatch env backend cmd)))"
  using send_command_worker [OF assms] by (simp add: command_data_def)

lemma ok_or_err_respond: "ok_or_err (respond_with r data) =
    (case r of Inl e \<Rightarrow> Inl (Vault_Subprocess (vault_error_text e)) | Inr x \<Rightarrow> Inr (data x))"
  by (simp add: respond_with_def split: sum.splits)

lemma sm_fetch_worker:
  assumes "vault_env_ok env" "carried env backend (Fetch ref_id)" "ready mgr"
  shows "sm_fetch env (worker_peer env backend) mgr ref_id = (mgr, reported (bw_fetch env backend ref_id))"
proof (cases "bw_fetch env backend ref_id")
  case (Inr c)
  from bw_fetch_nonce [OF this] assms(1) have "length (ec_nonce c) = 12" by (simp add: vault_env_ok_def)
  with Inr command_data_worker [OF assms] decode_fetch_payload [OF assms(1)] show ?thesis
    by (simp add: sm_fetch_def reported_def ok_or_err_respond)
qed (use command_data_worker [OF assms] in \<open>simp add: sm_fetch_def reported_def ok_or_err_respond\<close>)

lemma sm_exists_worker:
  assumes "vault_env_ok env" "carried env backend (Exists ref_id)" "ready mgr"
  shows "sm_exists env (worker_peer env backend) mgr ref_id = (mgr, reported (bw_exists env backend ref_id))"
  using command_data_worker [OF assms]
  by (simp add: sm_exists_def reported_def ok_or_err_respond split: sum.splits)

lemma sm_list_worker:
  assumes "vault_env_ok env" "carried env backend List_Credentials" "ready mgr"
  shows "sm_list_credentials env (worker_peer env backend) mgr = (mgr, reported (bw_list env backend))"
proof (cases "bw_list env backend")
  case (Inr refs)
  from assms(1) obtain v where "ve_refs_to_value env refs = Inr v" "ve_refs_from_value env v = Inr refs"
    unfolding vault_env_ok_def by blast
  with Inr command_data_worker [OF assms] show ?thesis
    by (simp add: sm_list_credentials_def reported_def ok_or_err_respond)
qed (use command_data_worker [OF assms] in \<open>simp add: sm_list_credentials_def reported_def ok_or_err_respond\<close>)

section \<open>Sessions\<close>

text \<open>
  A manager and the worker it has spawned, after any sequence of operations, each with its own
  environment: the \<open>bw\<close> program may answer differently every time.
\<close>

inductive vault_session :: "string \<Rightarrow> subprocess_manager \<Rightarrow> bitwarden_backend \<Rightarrow> bool" for cli where
  spawned: "vault_env_ok env \<Longrightarrow> length key = 32 \<Longrightarrow>
    carried env (bitwarden_new cli) (Init (ve_encode env key)) \<Longrightarrow>
    sm_spawn env (worker_peer env (bitwarden_new cli)) (Inr ()) key = Inr mgr \<Longrightarrow>
    vault_session cli mgr (fst (dispatch env (bitwarden_new cli) (Init (ve_encode env key))))"
| unlocked: "vault_session cli mgr b \<Longrightarrow> vault_env_ok env \<Longrightarrow> carried env b (Unlock password) \<Longrightarrow>
    sm_unlock env (worker_peer env b) mgr password = (mgr', r) \<Longrightarrow>
    vault_session cli mgr' (fst (dispatch env b (Unlock password)))"
| asked: "vault_session cli mgr b \<Longrightarrow> vault_env_ok env \<Longrightarrow> carried env b cmd \<Longrightarrow>
    cmd \<in> {List_Credentials, Fetch ref_id, Exists ref_id} \<Longrightarrow>
    command_data env (worker_peer env b) mgr cmd = (mgr', r) \<Longrightarrow>
    vault_session cli mgr' (fst (dispatch env b cmd))"

lemma sm_spawn_worker:
  assumes "vault_env_ok env" "carried env backend (Init (ve_encode env key))"
  shows "sm_spawn env (worker_peer env backend) (Inr ()) key =
    Inr \<lparr>sm_status = Status_Locked, sm_reader = [], sm_ipc_key = key\<rparr>"
  using send_command_worker [OF assms, of "\<lparr>sm_status = Status_Locked, sm_reader = [], sm_ipc_key = key\<rparr>"]
  by (simp add: sm_spawn_def ready.simps)

lemma dispatch_Init:
  assumes "vault_env_ok env" "length key = 32"
  shows "dispatch env b (Init (ve_encode env key)) = (set_ipc_key b key, Response_Ok JNull)"
  using assms by (simp add: vault_env_ok_def)

lemma bw_unlock_key: "bb_ipc_encrypt_key (fst (bw_unlock env b password)) = bb_ipc_encrypt_key b"
  by (simp add: bw_unlock_def Let_def split: sum.splits)

lemma vault_session_ok:
  "vault_session cli mgr b \<Longrightarrow> ready mgr \<and> bb_ipc_encrypt_key b = Some (sm_ipc_key mgr)"
proof (induction rule: vault_session.induct)
  case (spawned env key mgr)
  from spawned(4) sm_spawn_worker [OF spawned(1,3)]
  have "mgr = \<lparr>sm_status = Status_Locked, sm_reader = [], sm_ipc_key = key\<rparr>" by simp
  moreover have "bb_ipc_encrypt_key (fst (dispatch env (bitwarden_new cli) (Init (ve_encode env key)))) = Some key"
    unfolding dispatch_Init [OF spawned(1,2)] by (simp add: set_ipc_key_def)
  ultimately show ?case by (simp add: ready.simps)
next
  case (unlocked mgr b env password mgr' r)
  with send_command_worker [OF unlocked(2,3)] have "mgr' = mgr\<lparr>sm_status := Status_Unlocked\<rparr>"
    by (auto simp: sm_unlock_def)
  with unlocked bw_unlock_key [of env b password] show ?case
    by (auto simp: ready.simps split: prod.splits)
next
  case (asked mgr b env cmd ref_id mgr' r)
  with command_data_worker [OF asked(2,3)] have "mgr' = mgr" by simp
  with asked show ?case by auto
qed

lemma bw_fetch_Inr:
  assumes "bw_fetch env b ref_id = Inr c"
  obtains session out item v key data where "bb_session_key b = Some session"
    "bw_execute env (bb_cli_path b) [''get'', ''item'', ref_id, ''--raw''] None (Some [(''BW_SESSION'', session)]) = Inr out"
    "ve_item env out = Inr item" "extract_credential_value item = Inr v" "bb_ipc_encrypt_key b = Some key"
    "ve_seal env key (ve_nonce env) (as_bytes v) = Inr data" "c = \<lparr>ec_data = data, ec_nonce = ve_nonce env\<rparr>"
  using assms
  by (auto simp: bw_fetch_def require_session_def encrypt_value_def split: sum.splits option.splits)

text \<open>
  The vault holds a value under a reference when it is unlocked and the \<open>bw\<close> program, run with the
  session key, prints an item for the reference from which the value is extracted.
\<close>

definition bw_holds :: "vault_env \<Rightarrow> bitwarden_backend \<Rightarrow> string \<Rightarrow> string \<Rightarrow> bool" where
  "bw_holds env b ref_id v \<longleftrightarrow>
     (\<exists>session out item. bb_session_key b = Some session \<and>
        bw_execute env (bb_cli_path b) [''get'', ''item'', ref_id, ''--raw''] None (Some [(''BW_SESSION'', session)]) = Inr out \<and>
        ve_item env out = Inr item \<and> extract_credential_value item = Inr v)"

lemma session_fetch_holds:
  assumes "vault_session cli mgr b" "vault_env_ok env" "carried env b (Fetch ref_id)"
    and "\<And>k n p c. ve_seal env k n p = Inr c \<Longrightarrow> unseal k n c = Some p"
    and "sm_fetch env (worker_peer env b) mgr ref_id = (mgr', Inr c)"
  shows "\<exists>v. bw_holds env b ref_id v \<and> unseal (sm_ipc_key mgr) (ec_nonce c) (ec_data c) = Some (as_bytes v)"
proof -
  from vault_session_ok [OF assms(1)] have ready: "ready mgr" and key: "bb_ipc_encrypt_key b = Some (sm_ipc_key mgr)"
    by auto
  from sm_fetch_worker [OF assms(2,3) ready] assms(5) have "bw_fetch env b ref_id = Inr c"
    by (auto simp: reported_def split: sum.splits)
  then show ?thesis
  proof (rule bw_fetch_Inr)
    fix session out item v k data
    assume run: "bb_session_key b = Some session"
      "bw_execute env (bb_cli_path b) [''get'', ''item'', ref_id, ''--raw''] None (Some [(''BW_SESSION'', session)]) = Inr out"
      "ve_item env out = Inr item" "extract_credential_value item = Inr v" and k: "bb_ipc_encrypt_key b = Some k"
      and data: "ve_seal env k (ve_nonce env) (as_bytes v) = Inr data"
      and c: "c = \<lparr>ec_data = data, ec_nonce = ve_nonce env\<rparr>"
    from assms(4) [OF data] k key c have "unseal (sm_ipc_key mgr) (ec_nonce c) (ec_data c) = Some (as_bytes v)" by simp
    with run show ?thesis unfolding bw_holds_def by blast
  qed
qed

section \<open>Properties\<close>

text \<open>
  The worker is a server: on a stream of framed commands, each within the size limit, it
  stays in its loop and writes exactly one frame per command, in their order, the answers being
  those of the backend handling the commands one after another; reading the output as the
  manager does gives back the answers.
\<close>

theorem worker_answers_in_order:
  assumes "serve rounds (bitwarden_new cli) = Some (answers, b)"
    and "\<forall>(env, raw) \<in> set rounds. length raw \<le> MAX_MESSAGE_SIZE"
  shows "\<exists>out. vault_worker_main (Inr ()) (map fst rounds) cli
      (concat (map (\<lambda>(env, raw). length_prefixed 4 raw) rounds) @ rest) = (out, Inr (b, rest)) \<and>
    read_frames read_message (length rounds) out = Inr (answers, [])"
proof -
  from serve_lengths [OF assms(1)]
  have len: "length answers = length rounds" and fits: "\<forall>q \<in> set answers. length q \<le> MAX_MESSAGE_SIZE" by auto
  from fits have "list_all2 (\<lambda>p f. write_message p = Inr f) answers (map (length_prefixed 4) answers)"
    by (auto simp: list.rel_map write_message_frame intro!: list.rel_refl_strong)
  from async_messages.read_frames_written [OF this, of "[]"] len worker_loop_serve [OF assms, of rest] show ?thesis
    by (simp add: vault_worker_main_def)
qed

text \<open>
  C16. Refinement. In every session, listing, fetching and checking through the manager, the
  frames and the worker give what the backend gives, its errors as text, and leave the session
  ready, whenever the messages fit into frames.
\<close>

theorem manager_refines_backend:
  assumes "vault_session cli mgr b" "vault_env_ok env" "carried env b List_Credentials"
    and "carried env b (Fetch ref_id)" "carried env b (Exists ref_id)"
  shows "sm_list_credentials env (worker_peer env b) mgr = (mgr, reported (bw_list env b)) \<and>
    sm_fetch env (worker_peer env b) mgr ref_id = (mgr, reported (bw_fetch env b ref_id)) \<and>
    sm_exists env (worker_peer env b) mgr ref_id = (mgr, reported (bw_exists env b ref_id))"
  using vault_session_ok [OF assms(1)] assms
  by (simp add: sm_list_worker sm_fetch_worker sm_exists_worker)

text \<open>
  C20. End to end. What a session's manager fetches decrypts, with the manager's own key, to the
  value of the item that the \<open>bw\<close> program printed for the reference when it was run with the
  session key of the unlocked vault: without an earlier unlock nothing is fetched.
\<close>

theorem fetched_credential_decrypts:
  assumes "vault_session cli mgr b" "vault_env_ok env" "carried env b (Fetch ref_id)"
    and "\<And>k n p c. ve_seal env k n p = Inr c \<Longrightarrow> unseal k n c = Some p"
    and "sm_fetch env (worker_peer env b) mgr ref_id = (mgr', Inr c)"
  shows "\<exists>v. bw_holds env b ref_id v \<and> unseal (sm_ipc_key mgr) (ec_nonce c) (ec_data c) = Some (as_bytes v)"
  using assms by (rule session_fetch_holds)

text \<open>
  A refused password unlocks the manager. When the worker answers that unlocking failed, the
  manager's \<open>unlock\<close> nevertheless succeeds and its status is unlocked, while the backend is as it
  was, locked if it was locked.
\<close>

theorem unlock_ignores_refusal:
  assumes "vault_env_ok env" "carried env b (Unlock password)" "ready mgr"
    and "bw_unlock env b password = (b, Inl e)"
  shows "dispatch env b (Unlock password) = (b, Response_Error (vault_error_text e)) \<and>
    sm_unlock env (worker_peer env b) mgr password = (mgr\<lparr>sm_status := Status_Unlocked\<rparr>, Inr ())"
  using send_command_worker [OF assms(1-3)] assms(4) by (simp add: sm_unlock_def respond_with_def)

section \<open>Witnesses\<close>

definition of_bytes :: "bytes \<Rightarrow> string" where
  "of_bytes bs = map (\<lambda>b. char_of (unat b)) bs"

lemma of_char_unat: "of_char (char_of (unat b)) = (b :: u8)"
proof -
  have "of_char (char_of (unat b)) = (of_nat (of_char (char_of (unat b))) :: u8)" by (simp only: of_nat_of_char)
  also have "\<dots> = of_nat (unat b mod 256)" by simp
  also have "\<dots> = b" using unat_u8_less [of b] by simp
  finally show ?thesis .
qed

lemma unat_of_char: "unat (of_char c :: u8) = of_char c"
proof -
  have "(of_char c :: u8) = of_nat (of_char c)" by (simp only: of_nat_of_char)
  then show ?thesis by (simp only: unat_of_nat) simp
qed

lemma as_bytes_of_bytes [simp]: "as_bytes (of_bytes bs) = bs"
  by (simp add: as_bytes_def of_bytes_def comp_def of_char_unat)

lemma of_bytes_as_bytes [simp]: "of_bytes (as_bytes s) = s"
  by (simp add: as_bytes_def of_bytes_def comp_def unat_of_char)

lemma length_of_bytes [simp]: "length (of_bytes bs) = length bs"
  by (simp add: of_bytes_def)

text \<open>A program that unlocks with the key \<open>k\<close> and prints one item, whose password is \<open>pw\<close>.\<close>

definition sample_item :: bw_item where
  "sample_item =
     \<lparr>bi_id = ''i'', bi_name = ''n'', bi_item_type = 1,
      bi_login = Some \<lparr>bl_username = None, bl_password = Some ''pw'', bl_uris = None\<rparr>,
      bi_notes = None, bi_fields = None\<rparr>"

fun sample_command_to_vec :: "vault_command \<Rightarrow> string + bytes" where
  "sample_command_to_vec (Init s) = Inr (0 # as_bytes s)"
| "sample_command_to_vec (Unlock s) = Inr (1 # as_bytes s)"
| "sample_command_to_vec List_Credentials = Inr [2]"
| "sample_command_to_vec (Fetch s) = Inr (3 # as_bytes s)"
| "sample_command_to_vec (Exists s) = Inr (4 # as_bytes s)"

definition sample_command_from_slice :: "bytes \<Rightarrow> string + vault_command" where
  "sample_command_from_slice bs =
     (case bs of [] \<Rightarrow> Inl ''empty''
      | b # s \<Rightarrow> if b = 0 then Inr (Init (of_bytes s)) else if b = 1 then Inr (Unlock (of_bytes s))
          else if b = 2 then Inr List_Credentials else if b = 3 then Inr (Fetch (of_bytes s)) else Inr (Exists (of_bytes s)))"

text \<open>Only the answers that the sample gives have an encoding.\<close>

definition sample_fetched :: json where
  "sample_fetched = JObject [(''data'', JString ''pw''), (''nonce'', JString (of_bytes (replicate 12 0)))]"

definition sample_listed :: json where
  "sample_listed = JArray [JObject [(''id'', JString ''i''), (''name'', JString ''n''), (''vault_type'', JString ''login'')]]"

definition sample_response_to_vec :: "vault_response \<Rightarrow> string + bytes" where
  "sample_response_to_vec r =
     (case r of
        Response_Error m \<Rightarrow> Inr (0 # as_bytes m)
      | Response_Ok v \<Rightarrow>
          if v = JNull then Inr [1] else if v = JBool True then Inr [2] else if v = sample_fetched then Inr [3]
          else if v = sample_listed then Inr [4] else Inl ''none'')"

definition sample_response_from_slice :: "bytes \<Rightarrow> string + vault_response" where
  "sample_response_from_slice bs =
     (case bs of [] \<Rightarrow> Inl ''empty''
      | b # s \<Rightarrow> if b = 0 then Inr (Response_Error (of_bytes s)) else if b = 1 then Inr (Response_Ok JNull)
          else if b = 2 then Inr (Response_Ok (JBool True)) else if b = 3 then Inr (Response_Ok sample_fetched)
          else Inr (Response_Ok sample_listed))"

fun ref_to_value :: "credential_ref \<Rightarrow> json" where
  "ref_to_value r =
     JObject [(''id'', JString (cr_id r)), (''name'', JString (cr_name r)), (''vault_type'', JString (cr_vault_type r))]"

definition member :: "json \<Rightarrow> string \<Rightarrow> string" where
  "member v k = (case Option.bind (json_get v k) json_as_str of Some s \<Rightarrow> s | None \<Rightarrow> [])"

definition ref_from_value :: "json \<Rightarrow> credential_ref" where
  "ref_from_value v = \<lparr>cr_id = member v ''id'', cr_name = member v ''name'', cr_vault_type = member v ''vault_type''\<rparr>"

definition sample_vault :: vault_env where
  "sample_vault =
     \<lparr>ve_run = (\<lambda>cli args vars input. \<lparr>bp_spawn = Inr (), bp_write = Inr (),
        bp_wait = (if args = [''unlock'', ''--raw''] \<and> input \<noteq> Some (as_bytes ''pass'')
                   then Inr (False, ''exit status: 1'', [], ''Invalid master password.'')
                   else Inr (True, ''exit status: 0'', ''k'', []))\<rparr>),
      ve_items = (\<lambda>_. Inr [sample_item]), ve_item = (\<lambda>_. Inr sample_item), ve_seal = (\<lambda>k n p. Inr p),
      ve_nonce = replicate 12 0, ve_encode = of_bytes, ve_decode = (\<lambda>s. Inr (as_bytes s)),
      ve_refs_to_value = (\<lambda>refs. Inr (JArray (map ref_to_value refs))),
      ve_refs_from_value = (\<lambda>v. case v of JArray vs \<Rightarrow> Inr (map ref_from_value vs) | _ \<Rightarrow> Inl ''not a list''),
      ve_command_to_vec = sample_command_to_vec, ve_command_from_slice = sample_command_from_slice,
      ve_response_to_vec = sample_response_to_vec, ve_response_from_slice = sample_response_from_slice,
      ve_write = Inr ()\<rparr>"

lemma sample_command_codec: "sample_command_to_vec c = Inr p \<Longrightarrow> sample_command_from_slice p = Inr c"
  by (cases c) (auto simp: sample_command_from_slice_def)

lemma sample_response_codec: "sample_response_to_vec r = Inr p \<Longrightarrow> sample_response_from_slice p = Inr r"
  by (auto simp: sample_response_to_vec_def sample_response_from_slice_def split: vault_response.splits if_splits)

lemma ref_codec: "map (ref_from_value \<circ> ref_to_value) refs = refs"
  by (rule map_idI) (simp add: ref_from_value_def member_def)

lemma sample_vault_ok: "vault_env_ok sample_vault"
  using sample_command_codec sample_response_codec
  by (simp add: vault_env_ok_def sample_vault_def ref_codec)

definition sample_key :: bytes where
  "sample_key = replicate 32 0"

definition sample_mgr :: subprocess_manager where
  "sample_mgr = \<lparr>sm_status = Status_Locked, sm_reader = [], sm_ipc_key = sample_key\<rparr>"

definition sample_locked :: bitwarden_backend where
  "sample_locked = set_ipc_key (bitwarden_new ''bw'') sample_key"

definition sample_unlocked :: bitwarden_backend where
  "sample_unlocked = sample_locked\<lparr>bb_session_key := Some ''k''\<rparr>"

lemma sample_execute: "bw_execute sample_vault cli args input vars =
    (if args = [''unlock'', ''--raw''] \<and> input \<noteq> Some (as_bytes ''pass'')
     then Inl (BitwardenCli ''bw exited with exit status: 1: Invalid master password.'') else Inr ''k'')"
proof -
  have "trim ''Invalid master password.'' = ''Invalid master password.''" by code_simp
  then show ?thesis by (simp add: bw_execute_def sample_vault_def Let_def split: option.splits)
qed

lemma trim_k: "trim ''k'' = ''k''"
  by code_simp

lemma sample_unlocks: "bw_unlock sample_vault sample_locked ''pass'' = (sample_unlocked, Inr ())"
  by (simp add: bw_unlock_def sample_execute trim_k sample_unlocked_def)

lemma sample_refuses: "bw_unlock sample_vault sample_locked ''word'' =
    (sample_locked, Inl (BitwardenCli ''bw exited with exit status: 1: Invalid master password.''))"
  by (simp add: bw_unlock_def sample_execute as_bytes_def)

lemma sample_fetches: "bw_fetch sample_vault sample_unlocked ''i'' =
    Inr \<lparr>ec_data = as_bytes ''pw'', ec_nonce = replicate 12 0\<rparr>"
  by (simp add: bw_fetch_def require_session_def sample_unlocked_def sample_locked_def set_ipc_key_def sample_execute)
    (simp add: sample_vault_def sample_item_def extract_credential_value_def non_empty_def encrypt_value_def set_ipc_key_def)

lemma sample_payload: "fetch_payload sample_vault \<lparr>ec_data = as_bytes ''pw'', ec_nonce = replicate 12 0\<rparr> = sample_fetched"
  by (simp add: fetch_payload_def sample_fetched_def sample_vault_def)

lemma sample_dispatch:
  "dispatch sample_vault (bitwarden_new ''bw'') (Init (of_bytes sample_key)) = (sample_locked, Response_Ok JNull)"
  "dispatch sample_vault sample_locked (Unlock ''pass'') = (sample_unlocked, Response_Ok JNull)"
  "dispatch sample_vault sample_unlocked (Fetch ''i'') = (sample_unlocked, Response_Ok sample_fetched)"
  "dispatch sample_vault sample_unlocked (Exists ''i'') = (sample_unlocked, Response_Ok (JBool True))"
  "dispatch sample_vault sample_unlocked List_Credentials = (sample_unlocked, Response_Ok sample_listed)"
  subgoal by (simp add: sample_vault_def sample_locked_def sample_key_def)
  subgoal by (simp add: sample_unlocks respond_with_def)
  subgoal by (simp add: sample_fetches respond_with_def sample_payload)
  subgoal by (simp add: bw_exists_def require_session_def sample_unlocked_def sample_execute respond_with_def)
  subgoal
    by (simp add: bw_list_def require_session_def sample_unlocked_def sample_execute respond_with_def)
      (simp add: sample_vault_def sample_item_def vault_type_name_def sample_listed_def)
  done

lemma sample_carried:
  "carried sample_vault (bitwarden_new ''bw'') (Init (of_bytes sample_key))"
  "carried sample_vault sample_locked (Unlock ''pass'')"
  "carried sample_vault sample_unlocked (Fetch ''i'')"
  "carried sample_vault sample_unlocked (Exists ''i'')"
  "carried sample_vault sample_unlocked List_Credentials"
  unfolding carried_def sample_dispatch snd_conv
  by (simp_all add: sample_vault_def sample_response_to_vec_def sample_fetched_def sample_listed_def
      MAX_MESSAGE_SIZE_def sample_key_def as_bytes_def)

lemma sample_codec_fields: "ve_encode sample_vault = of_bytes"
  by (simp add: sample_vault_def)

lemma sample_session0: "vault_session ''bw'' sample_mgr sample_locked"
proof -
  have "carried sample_vault (bitwarden_new ''bw'') (Init (ve_encode sample_vault sample_key))"
    using sample_carried(1) by (simp add: sample_codec_fields)
  moreover from sm_spawn_worker [OF sample_vault_ok this]
  have "sm_spawn sample_vault (worker_peer sample_vault (bitwarden_new ''bw'')) (Inr ()) sample_key = Inr sample_mgr"
    by (simp add: sample_mgr_def)
  ultimately have "vault_session ''bw'' sample_mgr
      (fst (dispatch sample_vault (bitwarden_new ''bw'') (Init (ve_encode sample_vault sample_key))))"
    by (intro vault_session.spawned [OF sample_vault_ok]) (simp_all add: sample_key_def)
  then show ?thesis unfolding sample_codec_fields sample_dispatch by simp
qed

lemma sample_session: "vault_session ''bw'' (sample_mgr\<lparr>sm_status := Status_Unlocked\<rparr>) sample_unlocked"
proof -
  have "ready sample_mgr" by (simp add: sample_mgr_def ready.simps)
  from send_command_worker [OF sample_vault_ok sample_carried(2) this]
  have "sm_unlock sample_vault (worker_peer sample_vault sample_locked) sample_mgr ''pass'' =
      (sample_mgr\<lparr>sm_status := Status_Unlocked\<rparr>, Inr ())" by (simp add: sm_unlock_def)
  from vault_session.unlocked [OF sample_session0 sample_vault_ok sample_carried(2) this] show ?thesis
    unfolding sample_dispatch by simp
qed

theorem manager_refines_backend_witness:
  "sm_fetch sample_vault (worker_peer sample_vault sample_unlocked) (sample_mgr\<lparr>sm_status := Status_Unlocked\<rparr>) ''i'' =
     (sample_mgr\<lparr>sm_status := Status_Unlocked\<rparr>, Inr \<lparr>ec_data = as_bytes ''pw'', ec_nonce = replicate 12 0\<rparr>)"
  using manager_refines_backend [OF sample_session sample_vault_ok sample_carried(5,3,4)]
  by (simp add: sample_fetches reported_def)

theorem fetched_credential_decrypts_witness:
  "\<exists>v. bw_holds sample_vault sample_unlocked ''i'' v \<and> as_bytes ''pw'' = as_bytes v"
proof -
  have run: "sm_fetch sample_vault (worker_peer sample_vault sample_unlocked) (sample_mgr\<lparr>sm_status := Status_Unlocked\<rparr>) ''i'' =
     (sample_mgr\<lparr>sm_status := Status_Unlocked\<rparr>, Inr \<lparr>ec_data = as_bytes ''pw'', ec_nonce = replicate 12 0\<rparr>)"
    using sm_fetch_worker [OF sample_vault_ok sample_carried(3)] vault_session_ok [OF sample_session]
    by (simp add: sample_fetches reported_def)
  have seal: "ve_seal sample_vault k n p = Inr c \<Longrightarrow> Some c = Some p" for k n p c by (simp add: sample_vault_def)
  from fetched_credential_decrypts
    [where unseal = "\<lambda>k n c. Some c", OF sample_session sample_vault_ok sample_carried(3) seal run]
  show ?thesis by auto
qed

theorem unlock_ignores_refusal_witness:
  "snd (sm_unlock sample_vault (worker_peer sample_vault sample_locked) sample_mgr ''word'') = Inr ()"
proof -
  have "dispatch sample_vault sample_locked (Unlock ''word'') = (sample_locked,
      Response_Error (vault_error_text (BitwardenCli ''bw exited with exit status: 1: Invalid master password.'')))"
    by (simp add: sample_refuses respond_with_def)
  then have "carried sample_vault sample_locked (Unlock ''word'')"
    unfolding carried_def by (simp add: sample_vault_def sample_response_to_vec_def MAX_MESSAGE_SIZE_def as_bytes_def)
  moreover have "ready sample_mgr" by (simp add: sample_mgr_def ready.simps)
  ultimately show ?thesis using unlock_ignores_refusal [OF sample_vault_ok _ _ sample_refuses] by simp
qed

theorem worker_answers_in_order_witness:
  "\<exists>out. vault_worker_main (Inr ()) [sample_vault, sample_vault] ''bw''
      (concat (map (length_prefixed 4) [0 # as_bytes (of_bytes sample_key), 1 # as_bytes ''pass'']) @ [7]) =
        (out, Inr (sample_unlocked, [7])) \<and>
    read_frames read_message 2 out = Inr ([[1], [1]], [])"
proof -
  let ?rounds = "[(sample_vault, 0 # as_bytes (of_bytes sample_key)), (sample_vault, 1 # as_bytes ''pass'')]"
  have "answer sample_vault (bitwarden_new ''bw'') (0 # as_bytes (of_bytes sample_key)) = (sample_locked, Response_Ok JNull)"
    "answer sample_vault sample_locked (1 # as_bytes ''pass'') = (sample_unlocked, Response_Ok JNull)"
    unfolding answer_def
    using sample_dispatch(1,2) by (simp_all add: sample_vault_def sample_command_from_slice_def)
  then have "serve ?rounds (bitwarden_new ''bw'') = Some ([[1], [1]], sample_unlocked)"
    by (simp del: as_bytes_of_bytes)
      (simp add: sample_vault_def sample_response_to_vec_def MAX_MESSAGE_SIZE_def)
  moreover have "\<forall>(env, raw) \<in> set ?rounds. length raw \<le> MAX_MESSAGE_SIZE"
    by (simp add: MAX_MESSAGE_SIZE_def sample_key_def as_bytes_def)
  ultimately show ?thesis using worker_answers_in_order [of ?rounds "''bw''" "[[1], [1]]" sample_unlocked "[7]"]
    by (simp add: numeral_2_eq_2)
qed

end
