(* ===== verification/Cdp_Vault_File.thy ===== *)
theory Cdp_Vault_File
  imports Cdp_Vault
begin

text \<open>
  The file backend of the vault (\<open>crates/cdp-vault/src/file.rs\<close>): a file of salt, nonce and
  ciphertext that is decrypted when it is opened, and credentials that are encrypted again under a
  key of the session when they are fetched. Argon2, the cipher, JSON and the outcomes of file
  operations are the fields of \<open>file_env\<close>; the files are a map from paths to bytes. The lemmas
  show that an opened vault holds what was written to it and what a failing write leaves behind.
\<close>

section \<open>Definitions\<close>

definition SALT_LEN :: nat where
  "SALT_LEN = 16"

definition NONCE_LEN :: nat where
  "NONCE_LEN = 12"

definition MIN_FILE_LEN :: nat where
  "MIN_FILE_LEN = SALT_LEN + NONCE_LEN"

definition ARGON2_M_COST :: nat where
  "ARGON2_M_COST = 65536"

definition ARGON2_T_COST :: nat where
  "ARGON2_T_COST = 3"

definition ARGON2_P_COST :: nat where
  "ARGON2_P_COST = 1"

definition ARGON2_KEY_LEN :: nat where
  "ARGON2_KEY_LEN = 32"

record dev_credential =
  dc_value :: string
  dc_name :: string

type_synonym dev_credentials = "string \<rightharpoonup> dev_credential"

text \<open>
  \<open>fe_params\<close> builds the parameters of Argon2 from the three costs and the length of the key;
  \<open>fe_write\<close> says how many bytes reach the file and whether the write reports an error.
\<close>

record 'p file_env =
  fe_read :: "string \<Rightarrow> string + unit"
  fe_params :: "nat \<Rightarrow> nat \<Rightarrow> nat \<Rightarrow> nat \<Rightarrow> string + 'p"
  fe_hash :: "'p \<Rightarrow> bytes \<Rightarrow> bytes \<Rightarrow> string + bytes"
  fe_seal :: "bytes \<Rightarrow> bytes \<Rightarrow> bytes \<Rightarrow> string + bytes"
  fe_unseal :: "bytes \<Rightarrow> bytes \<Rightarrow> bytes \<Rightarrow> bytes option"
  fe_from_slice :: "bytes \<Rightarrow> string + dev_credentials"
  fe_to_vec :: "dev_credentials \<Rightarrow> string + bytes"
  fe_create_dir_all :: "string \<Rightarrow> string + unit"
  fe_open :: "string \<Rightarrow> string + unit"
  fe_write :: "nat \<times> (string + unit)"

type_synonym files = "string \<rightharpoonup> bytes"

record file_backend =
  fb_credentials :: dev_credentials
  fb_ipc_key :: bytes

definition derive_key :: "'p file_env \<Rightarrow> string \<Rightarrow> bytes \<Rightarrow> vault_error + bytes" where
  "derive_key env password salt =
     (case fe_params env ARGON2_M_COST ARGON2_T_COST ARGON2_P_COST ARGON2_KEY_LEN of
        Inl e \<Rightarrow> Inl (Vault_Decryption (''Argon2id params: '' @ e))
      | Inr params \<Rightarrow>
     (case fe_hash env params (as_bytes password) salt of
        Inl e \<Rightarrow> Inl (Vault_Decryption (''Argon2id hash_password_into: '' @ e))
      | Inr key \<Rightarrow> Inr key))"

definition chacha_encrypt :: "'p file_env \<Rightarrow> bytes \<Rightarrow> bytes \<Rightarrow> bytes \<Rightarrow> vault_error + bytes" where
  "chacha_encrypt env key nonce_bytes plaintext =
     (case fe_seal env key nonce_bytes plaintext of
        Inl e \<Rightarrow> Inl (Vault_Decryption (''ChaCha20-Poly1305 encrypt: '' @ e))
      | Inr ciphertext \<Rightarrow> Inr ciphertext)"

definition chacha_decrypt :: "'p file_env \<Rightarrow> bytes \<Rightarrow> bytes \<Rightarrow> bytes \<Rightarrow> vault_error + bytes" where
  "chacha_decrypt env key nonce_bytes ciphertext =
     (case fe_unseal env key nonce_bytes ciphertext of
        None \<Rightarrow> Inl (Vault_Decryption ''decryption failed (wrong password or corrupted file)'')
      | Some plaintext \<Rightarrow> Inr plaintext)"

definition open_dev_vault ::
  "'p file_env \<Rightarrow> files \<Rightarrow> string \<Rightarrow> string \<Rightarrow> bytes \<Rightarrow> vault_error + file_backend" where
  "open_dev_vault env fs path password ipc_key =
     (case fe_read env path of
        Inl e \<Rightarrow> Inl (Vault_Io e)
      | Inr _ \<Rightarrow>
     (case fs path of
        None \<Rightarrow> Inl (Vault_Io ''No such file or directory (os error 2)'')
      | Some file \<Rightarrow>
          if length file < MIN_FILE_LEN
          then Inl (Vault_Decryption (''file too short: '' @ show_nat (length file) @ '' bytes (minimum ''
                 @ show_nat MIN_FILE_LEN @ '')''))
          else (let salt = take SALT_LEN file; rest = drop SALT_LEN file;
                    nonce_bytes = take NONCE_LEN rest; ciphertext = drop NONCE_LEN rest in
                case derive_key env password salt of
                  Inl e \<Rightarrow> Inl e
                | Inr key \<Rightarrow>
               (case chacha_decrypt env key nonce_bytes ciphertext of
                  Inl e \<Rightarrow> Inl e
                | Inr plaintext \<Rightarrow>
               (case fe_from_slice env plaintext of
                  Inl e \<Rightarrow> Inl (Vault_Protocol (''failed to parse vault JSON: '' @ e))
                | Inr credentials \<Rightarrow> Inr \<lparr>fb_credentials = credentials, fb_ipc_key = ipc_key\<rparr>)))))"

text \<open>
  \<open>fe_create_dir_all\<close> is the outcome of creating the directories above the path. Opening the
  file truncates it before anything is written.
\<close>

definition create_dev_vault ::
  "'p file_env \<Rightarrow> files \<Rightarrow> string \<Rightarrow> string \<Rightarrow> dev_credentials \<Rightarrow> bytes \<Rightarrow> bytes \<Rightarrow> files \<times> (vault_error + unit)" where
  "create_dev_vault env fs path password credentials salt nonce_bytes =
     (case fe_to_vec env credentials of
        Inl e \<Rightarrow> (fs, Inl (Vault_Protocol (''serialize vault: '' @ e)))
      | Inr plaintext \<Rightarrow>
     (case derive_key env password salt of
        Inl e \<Rightarrow> (fs, Inl e)
      | Inr key \<Rightarrow>
     (case chacha_encrypt env key nonce_bytes plaintext of
        Inl e \<Rightarrow> (fs, Inl e)
      | Inr ciphertext \<Rightarrow>
     (case fe_create_dir_all env path of
        Inl e \<Rightarrow> (fs, Inl (Vault_Io e))
      | Inr _ \<Rightarrow>
     (let file_bytes = salt @ nonce_bytes @ ciphertext in
      case fe_open env path of
        Inl e \<Rightarrow> (fs, Inl (Vault_Io e))
      | Inr _ \<Rightarrow>
     (case fe_write env of
        (_, Inr _) \<Rightarrow> (fs(path \<mapsto> file_bytes), Inr ())
      | (written, Inl e) \<Rightarrow> (fs(path \<mapsto> take written file_bytes), Inl (Vault_Io e))))))))"

text \<open>\<open>ids\<close> lists the identifiers in the order of the hash map.\<close>

definition fb_list_credentials :: "string list \<Rightarrow> file_backend \<Rightarrow> credential_ref list" where
  "fb_list_credentials ids self =
     List.map_filter (\<lambda>i. map_option (\<lambda>cred. \<lparr>cr_id = i, cr_name = dc_name cred, cr_vault_type = ''dev''\<rparr>)
       (fb_credentials self i)) ids"

definition fb_fetch ::
  "'p file_env \<Rightarrow> bytes \<Rightarrow> file_backend \<Rightarrow> string \<Rightarrow> vault_error + encrypted_credential" where
  "fb_fetch env nonce self ref_id =
     (case fb_credentials self ref_id of
        None \<Rightarrow> Inl (NotFound (''credential '' @ CHR 0x27 # ref_id @ CHR 0x27 # '' not found in dev vault''))
      | Some cred \<Rightarrow>
          (case fe_seal env (fb_ipc_key self) nonce (as_bytes (dc_value cred)) of
             Inl e \<Rightarrow> Inl (Vault_Decryption (''encrypt credential: '' @ e))
           | Inr data \<Rightarrow> Inr \<lparr>ec_data = data, ec_nonce = nonce\<rparr>))"

definition fb_exists :: "file_backend \<Rightarrow> string \<Rightarrow> bool" where
  "fb_exists self ref_id \<longleftrightarrow> fb_credentials self ref_id \<noteq> None"

section \<open>Lemmas\<close>

text \<open>
  The documented laws: what is sealed opens with the same key and nonce, what is printed as JSON
  parses, and a file that is there can be read.
\<close>

definition file_env_ok :: "'p file_env \<Rightarrow> bool" where
  "file_env_ok env \<longleftrightarrow>
     (\<forall>k n p c. fe_seal env k n p = Inr c \<longrightarrow> fe_unseal env k n c = Some p) \<and>
     (\<forall>creds js. fe_to_vec env creds = Inr js \<longrightarrow> fe_from_slice env js = Inr creds) \<and>
     (\<forall>path. fe_read env path = Inr ())"

lemma create_dev_vault_Inr:
  assumes "create_dev_vault env fs path password creds salt nonce = (fs', Inr ())"
  obtains js key c where "fe_to_vec env creds = Inr js" "derive_key env password salt = Inr key"
    "fe_seal env key nonce js = Inr c" "fs' = fs(path \<mapsto> salt @ nonce @ c)"
  using assms
  by (auto simp: create_dev_vault_def chacha_encrypt_def Let_def split: sum.splits prod.splits)

section \<open>Properties\<close>

text \<open>
  C31. Round trip of the file vault. A vault that was written opens with the same password; it then
  holds exactly the credentials it was written with, and each of them is fetched as the ciphertext
  of its value under the key of the session, which decrypts to the value.
\<close>

theorem dev_vault_roundtrip:
  assumes "file_env_ok env" "length salt = SALT_LEN" "length nonce = NONCE_LEN"
    and "create_dev_vault env fs path password creds salt nonce = (fs', Inr ())"
  shows "\<exists>vault. open_dev_vault env fs' path password key = Inr vault \<and> fb_ipc_key vault = key \<and>
    (\<forall>i. fb_exists vault i \<longleftrightarrow> i \<in> dom creds) \<and>
    (\<forall>i n. case creds i of
       None \<Rightarrow> \<exists>text. fb_fetch env n vault i = Inl (NotFound text)
     | Some cred \<Rightarrow>
         (\<forall>d. fe_seal env key n (as_bytes (dc_value cred)) = Inr d \<longrightarrow>
            fb_fetch env n vault i = Inr \<lparr>ec_data = d, ec_nonce = n\<rparr> \<and>
            fe_unseal env key n d = Some (as_bytes (dc_value cred))))"
proof -
  from assms(4) obtain js k c where c: "fe_to_vec env creds = Inr js" "derive_key env password salt = Inr k"
    "fe_seal env k nonce js = Inr c" "fs' = fs(path \<mapsto> salt @ nonce @ c)"
    by (rule create_dev_vault_Inr)
  from assms(1) c have "fe_unseal env k nonce c = Some js" "fe_from_slice env js = Inr creds" "fe_read env path = Inr ()"
    by (auto simp: file_env_ok_def)
  with assms(2,3) c have opened: "open_dev_vault env fs' path password key =
      Inr \<lparr>fb_credentials = creds, fb_ipc_key = key\<rparr>"
    by (simp add: open_dev_vault_def MIN_FILE_LEN_def chacha_decrypt_def Let_def)
  show ?thesis
    using assms(1) unfolding opened file_env_ok_def
    by (auto simp: fb_exists_def fb_fetch_def split: option.splits)
qed

text \<open>
  A failing write destroys the vault that was there: the file is truncated when it is opened, and
  after a write of fewer bytes than the header the vault no longer opens with any password.
\<close>

lemma failed_write_destroys_vault:
  assumes "fe_to_vec env creds = Inr js" "derive_key env password salt = Inr k" "fe_seal env k nonce js = Inr c"
    and "fe_create_dir_all env path = Inr ()" "fe_open env path = Inr ()" "fe_read env path = Inr ()"
    and "fe_write env = (n, Inl e)" "n < MIN_FILE_LEN"
  shows "\<exists>fs' err. create_dev_vault env fs path password creds salt nonce = (fs', Inl (Vault_Io e)) \<and>
    open_dev_vault env fs' path password' key = Inl (Vault_Decryption err)"
proof -
  let ?file = "take n (salt @ nonce @ c)"
  have "length ?file < MIN_FILE_LEN" using assms(8) by simp
  then have "open_dev_vault env (fs(path \<mapsto> ?file)) path password' key =
      Inl (Vault_Decryption (''file too short: '' @ show_nat (length ?file) @ '' bytes (minimum ''
        @ show_nat MIN_FILE_LEN @ '')''))"
    by (simp add: open_dev_vault_def assms(6))
  moreover have "create_dev_vault env fs path password creds salt nonce = (fs(path \<mapsto> ?file), Inl (Vault_Io e))"
    by (simp add: create_dev_vault_def chacha_encrypt_def assms Let_def)
  ultimately show ?thesis by blast
qed

section \<open>Witnesses\<close>

definition sample_file_env :: "unit file_env" where
  "sample_file_env =
     \<lparr>fe_read = (\<lambda>_. Inr ()), fe_params = (\<lambda>_ _ _ _. Inr ()), fe_hash = (\<lambda>_ pw salt. Inr (take 32 (pw @ salt @ replicate 32 0))),
      fe_seal = (\<lambda>k n p. Inr (k @ p)), fe_unseal = (\<lambda>k n c. if take (length k) c = k then Some (drop (length k) c) else None),
      fe_from_slice = (\<lambda>js. if js = [1] then Inr [''i'' \<mapsto> \<lparr>dc_value = ''v'', dc_name = ''n''\<rparr>] else Inl ''bad''),
      fe_to_vec = (\<lambda>creds. if creds = [''i'' \<mapsto> \<lparr>dc_value = ''v'', dc_name = ''n''\<rparr>] then Inr [1] else Inl ''none''),
      fe_create_dir_all = (\<lambda>_. Inr ()), fe_open = (\<lambda>_. Inr ()), fe_write = (0, Inr ())\<rparr>"

theorem dev_vault_roundtrip_witness:
  "\<exists>vault. open_dev_vault sample_file_env [''p'' \<mapsto> replicate 28 0 @ (as_bytes ''secret'' @ replicate 26 0) @ [1]]
      ''p'' ''secret'' (replicate 32 7) = Inr vault \<and> fb_exists vault ''i'' \<and> \<not> fb_exists vault ''j''"
proof -
  have ok: "file_env_ok sample_file_env" by (auto simp: file_env_ok_def sample_file_env_def split: if_splits)
  have "take 32 (as_bytes ''secret'' @ replicate 16 0 @ replicate 32 0) = as_bytes ''secret'' @ replicate 26 0"
    by (simp add: as_bytes_def flip: replicate_add)
  moreover have "replicate 28 0 = replicate 16 0 @ replicate 12 (0 :: u8)" by (simp flip: replicate_add)
  ultimately have "create_dev_vault sample_file_env Map.empty ''p'' ''secret'' [''i'' \<mapsto> \<lparr>dc_value = ''v'', dc_name = ''n''\<rparr>]
      (replicate 16 0) (replicate 12 0) = ([''p'' \<mapsto> replicate 28 0 @ (as_bytes ''secret'' @ replicate 26 0) @ [1]], Inr ())"
    by (simp add: create_dev_vault_def derive_key_def chacha_encrypt_def sample_file_env_def Let_def)
  note run = this
  have "length (replicate 16 (0 :: u8)) = SALT_LEN" "length (replicate 12 (0 :: u8)) = NONCE_LEN"
    by (simp_all add: SALT_LEN_def NONCE_LEN_def)
  from dev_vault_roundtrip [OF ok this run, of "replicate 32 7"] obtain vault where
    "open_dev_vault sample_file_env [''p'' \<mapsto> replicate 28 0 @ (as_bytes ''secret'' @ replicate 26 0) @ [1]]
      ''p'' ''secret'' (replicate 32 7) = Inr vault"
    "\<forall>i. fb_exists vault i \<longleftrightarrow> i \<in> dom [''i'' \<mapsto> \<lparr>dc_value = ''v'', dc_name = ''n''\<rparr>]" by blast
  then show ?thesis by (intro exI [of _ vault] conjI) simp_all
qed

end
