(* ===== verification/Cdp_Gate_Main.thy ===== *)
theory Cdp_Gate_Main
  imports Cdp_Gate_System Cdp_Gate_Config Cdp_Vault_File
begin

text \<open>
  The start of the gate (\<open>gate_main\<close> of \<open>crates/cdp-gate/src/main.rs\<close>) and the credential
  providers it puts between the vault and the proxy. The start is one function over the file
  system; every early return of the code is a branch, with what it leaves on disk. The lemmas
  connect the vault to the requests the proxy sends.
\<close>

section \<open>Credential providers\<close>

datatype provider =
    No_Op
  | File_Vault file_backend
  | Worker_Vault subprocess_manager

definition noop_fetch_credential :: "(string \<Rightarrow> string) \<Rightarrow> string \<Rightarrow> proxy_error + (string \<times> bytes) list" where
  "noop_fetch_credential debug credential_ref =
     Inl (CredentialInjection (''vault not configured; cannot fetch credential '' @ debug credential_ref
       @ ''. Configure the vault backend to enable credential injection.''))"

text \<open>\<open>unseal\<close> is the cipher with the key of the provider; \<open>fetched\<close> what the vault gives.\<close>

definition vault_fetch_credential ::
  "(bytes \<Rightarrow> bytes \<Rightarrow> bytes option) \<Rightarrow> vault_error + encrypted_credential \<Rightarrow> proxy_error + (string \<times> bytes) list" where
  "vault_fetch_credential unseal fetched =
     (case fetched of
        Inl e \<Rightarrow> Inl (CredentialInjection (vault_error_text e))
      | Inr encrypted \<Rightarrow>
     (case unseal (ec_nonce encrypted) (ec_data encrypted) of
        None \<Rightarrow> Inl (CredentialInjection ''failed to decrypt credential from vault'')
      | Some plaintext \<Rightarrow> Inr [(''Authorization'', plaintext)]))"

fun fetch_credential ::
  "(string \<Rightarrow> string) \<Rightarrow> (bytes \<Rightarrow> bytes \<Rightarrow> bytes \<Rightarrow> bytes option)
   \<Rightarrow> (file_backend \<Rightarrow> string \<Rightarrow> vault_error + encrypted_credential)
   \<Rightarrow> (subprocess_manager \<Rightarrow> string \<Rightarrow> vault_error + encrypted_credential)
   \<Rightarrow> provider \<Rightarrow> string \<Rightarrow> string \<Rightarrow> proxy_error + (string \<times> bytes) list" where
  "fetch_credential debug unseal fb sm No_Op credential_ref lease_id = noop_fetch_credential debug credential_ref"
| "fetch_credential debug unseal fb sm (File_Vault v) credential_ref lease_id =
     vault_fetch_credential (unseal (fb_ipc_key v)) (fb v credential_ref)"
| "fetch_credential debug unseal fb sm (Worker_Vault m) credential_ref lease_id =
     vault_fetch_credential (unseal (sm_ipc_key m)) (sm m credential_ref)"

section \<open>Start\<close>

datatype start_error =
    Start_Gate gate_error
  | Start_Crypto crypto_error
  | Start_Io string
  | Start_Policy policy_error
  | Start_Vault vault_error
  | Start_No_Password
  | Start_Port_Range proxy_error
  | Start_Bind_Address string

text \<open>
  What the start meets: variables and settings, the file system, the policy directory, the two
  ways to open a vault, the parser of addresses, and the cache of nonces.
\<close>

record 'c start_env =
  st_vars :: env_vars
  st_exists :: "string \<Rightarrow> bool"
  st_read :: "string \<Rightarrow> string + string"
  st_toml :: "string \<Rightarrow> string + gate_config"
  st_ops :: fs_ops
  st_self :: self_env
  st_key_bytes :: bytes
  st_disable_core_dumps :: "crypto_error + unit"
  st_create_audit_dir :: "string \<Rightarrow> string + unit"
  st_policy_fs :: policy_fs
  st_create_policy_dir :: "string \<Rightarrow> string + policy_fs"
  st_policy_toml :: "string \<Rightarrow> string + policy_entry list"
  st_open_vault :: "string \<Rightarrow> string \<Rightarrow> vault_error + file_backend"
  st_spawn_vault :: "string \<Rightarrow> bool \<Rightarrow> vault_error + subprocess_manager"
  st_parse_ip :: "string \<Rightarrow> string + ip_addr"
  st_gate_key :: bytes
  st_lru_new :: "nat \<Rightarrow> 'c"
  st_audit_tx :: audit_channel

definition choose_provider :: "'c start_env \<Rightarrow> vault_section \<Rightarrow> start_error + provider" where
  "choose_provider env vault =
     (if vs_backend vault = ''file''
      then (let vault_path = expand_tilde (st_vars env) (fl_path (vs_file vault)) in
            if st_exists env vault_path
            then (case st_vars env ''CDP_DEV_VAULT_PASSWORD'' of
                    None \<Rightarrow> Inl Start_No_Password
                  | Some password \<Rightarrow>
                      (case st_open_vault env vault_path password of
                         Inl e \<Rightarrow> Inl (Start_Vault e)
                       | Inr backend \<Rightarrow> Inr (File_Vault backend)))
            else Inr No_Op)
      else if vs_backend vault = ''bitwarden''
      then (case st_spawn_vault env (bs_cli_path (vs_bitwarden vault)) (vs_subprocess_sandbox vault) of
              Inr manager \<Rightarrow> Inr (Worker_Vault manager)
            | Inl _ \<Rightarrow> Inr No_Op)
      else Inr No_Op)"

definition approval_of :: "approval_section \<Rightarrow> approval_config" where
  "approval_of a =
     \<lparr>ac_gui_command = as_gui_command a, ac_timeout_seconds = as_timeout_seconds a,
      ac_show_binary_hash = as_show_binary_hash a, ac_label_reason_untrusted = as_label_reason_untrusted a,
      ac_max_reason_length = as_max_reason_length a\<rparr>"

text \<open>The steps after the fingerprint file has been written, up to the router.\<close>

definition build_router :: "'c start_env \<Rightarrow> gate_config \<Rightarrow> start_error + provider \<times> 'c router" where
  "build_router env config =
     (case st_create_audit_dir env (expand_tilde (st_vars env) (gs_audit_log_path (gc_gate config))) of
        Inl e \<Rightarrow> Inl (Start_Io e)
      | Inr _ \<Rightarrow>
     (case engine_new (st_policy_fs env) (st_create_policy_dir env) (st_policy_toml env)
             (expand_tilde (st_vars env) ''~/.config/cdp/policies'') (approval_of (gc_approval config)) of
        Inl e \<Rightarrow> Inl (Start_Policy e)
      | Inr engine \<Rightarrow>
     (case choose_provider env (gc_vault config) of
        Inl e \<Rightarrow> Inl e
      | Inr prov \<Rightarrow>
     (case parse_port_range (ps_port_range (gc_proxy config)) of
        Inl e \<Rightarrow> Inl (Start_Port_Range e)
      | Inr (range_start, range_end) \<Rightarrow>
     (case st_parse_ip env (ps_bind_address (gc_proxy config)) of
        Inl e \<Rightarrow> Inl (Start_Bind_Address e)
      | Inr addr \<Rightarrow>
          Inr (prov, router_new (st_lru_new env) (ss_nonce_max_entries (gc_security config)) (st_gate_key env)
            (manager_new (st_gate_key env) (Some (st_audit_tx env)))
            (proxy_manager_new \<lparr>pcfg_bind_address = addr, pcfg_port_range_start = range_start,
               pcfg_port_range_end = range_end\<rparr>) engine))))))"

text \<open>
  The start up to the accept loop. An early return leaves the file system as it is at that point;
  the vault's worker, if there is one, is a process of its own.
\<close>

definition gate_main ::
  "'c start_env \<Rightarrow> disk \<Rightarrow> disk \<times> (start_error + gate_identity \<times> provider \<times> 'c router)" where
  "gate_main env dk =
     (case load_config (st_vars env) (st_exists env) (st_read env) (st_toml env) of
        Inl e \<Rightarrow> (dk, Inl (Start_Gate e))
      | Inr config \<Rightarrow>
     (case (if ss_disable_core_dumps (gc_security config) then st_disable_core_dumps env else Inr ()) of
        Inl e \<Rightarrow> (dk, Inl (Start_Crypto e))
      | Inr _ \<Rightarrow>
     (case identity_create (st_ops env) (st_self env) dk (st_key_bytes env)
             (gs_fingerprint_path (gc_gate config)) (gs_socket_path (gc_gate config)) of
        (dk, Inl e) \<Rightarrow> (dk, Inl (Start_Gate e))
      | (dk, Inr identity) \<Rightarrow>
     (case build_router env config of
        Inl e \<Rightarrow> (dk, Inl e)
      | Inr (prov, router) \<Rightarrow>
     (case listener_bind (st_ops env) dk (gs_socket_path (gc_gate config)) of
        (dk, Inl e) \<Rightarrow> (dk, Inl (Start_Gate e))
      | (dk, Inr _) \<Rightarrow> (dk, Inr (identity, prov, router)))))))"

text \<open>
  The task that writes the audit log: \<open>opened\<close> is the result of opening the file, with its content.
  A failed write is reported and the next event is taken; when the file cannot be opened or its last
  line cannot be read, all events are discarded.
\<close>

definition audit_task ::
  "audit_codec \<Rightarrow> audit_disk \<Rightarrow> string \<Rightarrow> string + string \<Rightarrow> (int \<times> audit_event_type \<times> audit_fields) list
   \<Rightarrow> string + string" where
  "audit_task cx disk path opened evs =
     (case opened of
        Inl e \<Rightarrow> Inl e
      | Inr content \<Rightarrow>
          (case logger_new cx path content of
             Inl _ \<Rightarrow> Inr content
           | Inr logger \<Rightarrow> Inr (lg_file (log_all cx disk logger evs))))"

text \<open>The orderly end: the listeners stop, then fingerprint file and socket are removed.\<close>

definition gate_shutdown ::
  "fs_ops \<Rightarrow> disk \<Rightarrow> gate_identity \<Rightarrow> string \<Rightarrow> 'c router \<Rightarrow> disk \<times> 'c router \<times> (gate_error + unit)" where
  "gate_shutdown ops dk identity socket_path self =
     (let self = self\<lparr>rt_proxy_manager := stop_all (rt_proxy_manager self)\<rparr> in
      case identity_cleanup ops dk identity of
        (dk, Inl e) \<Rightarrow> (listener_drop ops dk socket_path, self, Inl e)
      | (dk, Inr _) \<Rightarrow> (listener_drop ops dk socket_path, self, Inr ()))"

section \<open>What the proxy relies on in a vault\<close>

text \<open>
  A vault holds values under references. What it hands out for a reference decrypts with its
  key to the value it holds there.
\<close>

locale credential_vault =
  fixes usable :: "'b \<Rightarrow> string \<Rightarrow> bool" and holds :: "'b \<Rightarrow> string \<Rightarrow> string \<Rightarrow> bool"
    and fetch :: "'b \<Rightarrow> string \<Rightarrow> vault_error + encrypted_credential"
    and unseal :: "'b \<Rightarrow> bytes \<Rightarrow> bytes \<Rightarrow> bytes option"
  assumes fetch_holds: "usable b r \<Longrightarrow> fetch b r = Inr c \<Longrightarrow>
    \<exists>v. holds b r v \<and> unseal b (ec_nonce c) (ec_data c) = Some (as_bytes v)"
begin

lemma provided:
  assumes "usable b r" "vault_fetch_credential (unseal b) (fetch b r) = Inr hs"
  shows "\<exists>v. holds b r v \<and> hs = [(''Authorization'', as_bytes v)]"
proof (cases "fetch b r")
  case (Inl e)
  with assms(2) show ?thesis by (simp add: vault_fetch_credential_def)
next
  case (Inr c)
  from fetch_holds [OF assms(1) this] obtain v where
    "holds b r v" "unseal b (ec_nonce c) (ec_data c) = Some (as_bytes v)" by blast
  with assms(2) Inr show ?thesis by (auto simp: vault_fetch_credential_def)
qed

lemma refused:
  assumes "usable b r" "vault_fetch_credential (unseal b) (fetch b r) = Inl e"
  shows "\<exists>err. fetch b r = Inl err \<and> e = CredentialInjection (vault_error_text err)"
proof (cases "fetch b r")
  case (Inr c)
  from fetch_holds [OF assms(1) this] obtain v where
    "unseal b (ec_nonce c) (ec_data c) = Some (as_bytes v)" by blast
  with assms(2) Inr show ?thesis by (simp add: vault_fetch_credential_def)
qed (use assms(2) in \<open>simp add: vault_fetch_credential_def\<close>)

end

interpretation file_vault: credential_vault
  "\<lambda>(env :: 'p file_env, n :: bytes, v) r. file_env_ok env"
  "\<lambda>(env, n, v) r x. \<exists>cred. fb_credentials v r = Some cred \<and> dc_value cred = x"
  "\<lambda>(env, n, v) r. fb_fetch env n v r"
  "\<lambda>(env, n, v). fe_unseal env (fb_ipc_key v)"
  by unfold_locales (auto simp: fb_fetch_def file_env_ok_def split: option.splits sum.splits)

interpretation worker_vault: credential_vault
  "\<lambda>(env, unseal, mgr, b) r. (\<exists>cli. vault_session cli mgr b) \<and> vault_env_ok env \<and> carried env b (Fetch r) \<and>
     (\<forall>k n p c. ve_seal env k n p = Inr c \<longrightarrow> unseal k n c = Some p)"
  "\<lambda>(env, unseal, mgr, b). bw_holds env b"
  "\<lambda>(env, unseal, mgr, b) r. snd (sm_fetch env (worker_peer env b) mgr r)"
  "\<lambda>(env, unseal, mgr, b). unseal (sm_ipc_key mgr)"
proof (unfold_locales, goal_cases)
  case (1 x r c)
  obtain env unseal mgr b where x: "x = (env, unseal, mgr, b)" by (cases x)
  with 1 obtain cli mgr' where "vault_session cli mgr b" "vault_env_ok env" "carried env b (Fetch r)"
    "\<And>k n p c. ve_seal env k n p = Inr c \<Longrightarrow> unseal k n c = Some p"
    "sm_fetch env (worker_peer env b) mgr r = (mgr', Inr c)" by (auto simp: snd_def split: prod.splits)
  from session_fetch_holds [OF this] show ?case by (simp add: x)
qed

section \<open>Lemmas\<close>

lemma build_outbound_injected:
  "build_outbound env req body creds u h ips = Inr ob \<Longrightarrow>
     \<exists>v. inject_headers env (header_insert ''host'' v (strip_proxy_internal_headers (rq_headers req))) creds = Inr (ob_headers ob)"
  by (auto simp: build_outbound_def Let_def split: option.splits sum.splits list.splits)

text \<open>What the outbound request holds under each name once one credential header has been added.\<close>

lemma header_values_base:
  assumes "n \<notin> {HEADER_LEASE_TOKEN, HEADER_CHANNEL_BINDING, ''host''}"
  shows "header_values (header_insert ''host'' v (strip_proxy_internal_headers hs)) n = header_values hs n"
  using assms unfolding outbound_base by (auto simp: header_values_def intro!: filter_cong arg_cong [of _ _ "map snd"])

lemma header_values_snoc: "header_values (hs @ [(m, x)]) n = header_values hs n @ (if m = n then [x] else [])"
  by (simp add: header_values_def)

lemma execute_injected:
  assumes "execute_with_redirects env req body creds l i hops u h ips = (sent, aud, r)" "ob \<in> set sent"
  shows "\<exists>v. inject_headers env (header_insert ''host'' v (strip_proxy_internal_headers (rq_headers req))) creds =
    Inr (ob_headers ob)"
  using assms
proof (induction hops arbitrary: u h ips sent)
  case 0
  from 0(1) show ?case
    by (cases rule: execute_cases) (use 0(2) build_outbound_injected in auto)
next
  case (Suc hops)
  from Suc.prems(1) show ?case
    by (cases rule: execute_cases) (use Suc.prems(2) Suc.IH build_outbound_injected in auto)
qed

lemma inject_one: "inject_headers env hs [(name, v)] = Inr hs' \<Longrightarrow>
    \<exists>n x. px_header_name env name = Some n \<and> px_header_value env v = Some x \<and> hs' = hs @ [(n, x)]"
  by (auto split: option.splits)

lemma handle_request_fetched:
  assumes "handle_request px now mgr0 mgr ra i key req = Ret (leases, sent, aud, resp)" "ob \<in> set sent"
    and "lm_leases mgr i = Some l"
  shows "\<exists>creds v. px_fetch_credential px (l_credential_ref l) i = Inr creds \<and>
    inject_headers px (header_insert ''host'' v (strip_proxy_internal_headers (rq_headers req))) creds = Inr (ob_headers ob)"
proof -
  from handle_request_Ret [OF assms(1)] obtain r where
    run: "handle_request_inner px now mgr0 mgr ra i key req = Ret (leases, sent, aud, r)" by blast
  then show ?thesis
  proof (cases rule: handle_request_inner_cases)
    case (forwarded body l' host ips creds)
    from store.use_granted [OF forwarded(2)] assms(3) have "l_credential_ref l' = l_credential_ref l" by auto
    with forwarded execute_injected [OF forwarded(8) assms(2)] show ?thesis by auto
  qed (use assms(2) in simp_all)
qed

lemma handle_request_needs_credential:
  assumes "handle_request px now mgr0 mgr ra i key req = Ret (leases, sent, aud, resp)"
    and "\<And>l. lm_leases mgr i = Some l \<Longrightarrow> \<exists>e. px_fetch_credential px (l_credential_ref l) i = Inl e"
  shows "sent = []"
proof (rule ccontr)
  assume "sent \<noteq> []"
  then obtain ob where ob: "ob \<in> set sent" by (cases sent) auto
  from handle_request_Ret [OF assms(1)] obtain r where
    run: "handle_request_inner px now mgr0 mgr ra i key req = Ret (leases, sent, aud, r)" by blast
  then obtain l' where "use_lease now mgr i = (leases, Inr l')"
    by (cases rule: handle_request_inner_cases) (use ob in auto)
  from store.use_granted [OF this] obtain l where "lm_leases mgr i = Some l" by auto
  with handle_request_fetched [OF assms(1) ob this] assms(2) [OF this] show False by auto
qed

lemma audit_task_verifies:
  assumes "list_all (event_carried cx) evs" "disk_ok disk" "evs \<noteq> []" "terminated content"
    and "verify_chain cx (Inr content) = Inr Empty \<or> verify_chain cx (Inr content) = Inr (Valid n)"
    and "audit_task cx disk path (Inr content) evs = Inr written" "written \<noteq> content"
  shows "\<exists>n. verify_chain cx (Inr written) = Inr (Valid n)"
proof -
  from assms(6,7) obtain lg where lg: "logger_new cx path content = Inr lg" and out: "written = lg_file (log_all cx disk lg evs)"
    by (auto simp: audit_task_def split: sum.splits)
  obtain es where "log_holds cx lg es" by (rule logger_new_holds [OF lg assms(4,5)])
  from log_all_holds [OF assms(1,2) this] obtain new where
    new: "log_holds cx (log_all cx disk lg evs) (es @ new)" "map (\<lambda>e. (ae_timestamp e, ae_event e, ae_fields e)) new = evs" by blast
  then have "es @ new \<noteq> []" using assms(3) by auto
  from log_holds_verifies [OF new(1) this] out show ?thesis by blast
qed

text \<open>A log whose last line cannot be read loses every event of the run.\<close>

lemma unreadable_log_loses_events:
  "logger_new cx path content = Inl e \<Longrightarrow> audit_task cx disk path (Inr content) evs = Inr content"
  by (simp add: audit_task_def)

lemma build_router_gate_start:
  assumes "build_router env config = Inr (prov, router)"
  shows "\<exists>pconfig. gate_start (st_policy_fs env) (st_create_policy_dir env) (st_policy_toml env)
    (expand_tilde (st_vars env) ''~/.config/cdp/policies'') (approval_of (gc_approval config)) (st_lru_new env)
    (ss_nonce_max_entries (gc_security config)) (st_gate_key env) pconfig (st_audit_tx env) = Inr router"
  using assms by (auto simp: build_router_def gate_start_def split: sum.splits prod.splits)

text \<open>
  The vault of a gate whose backend is Bitwarden: the gate spawns the worker and fetches from it;
  it has no other command for it.
\<close>

inductive gate_session :: "string \<Rightarrow> subprocess_manager \<Rightarrow> bitwarden_backend \<Rightarrow> bool" for cli where
  spawned: "vault_env_ok env \<Longrightarrow> length key = 32 \<Longrightarrow>
    carried env (bitwarden_new cli) (Init (ve_encode env key)) \<Longrightarrow>
    sm_spawn env (worker_peer env (bitwarden_new cli)) (Inr ()) key = Inr mgr \<Longrightarrow>
    gate_session cli mgr (fst (dispatch env (bitwarden_new cli) (Init (ve_encode env key))))"
| fetched: "gate_session cli mgr b \<Longrightarrow> vault_env_ok env \<Longrightarrow> carried env b (Fetch ref_id) \<Longrightarrow>
    sm_fetch env (worker_peer env b) mgr ref_id = (mgr', r) \<Longrightarrow>
    gate_session cli mgr' (fst (dispatch env b (Fetch ref_id)))"

lemma gate_session_locked: "gate_session cli mgr b \<Longrightarrow> ready mgr \<and> bb_session_key b = None"
proof (induction rule: gate_session.induct)
  case (spawned env key mgr)
  from spawned(4) sm_spawn_worker [OF spawned(1,3)] have "ready mgr" by (auto simp: ready.simps)
  moreover have "bb_session_key (fst (dispatch env (bitwarden_new cli) (Init (ve_encode env key)))) = None"
    unfolding dispatch_Init [OF spawned(1,2)] by (simp add: set_ipc_key_def bitwarden_new_def)
  ultimately show ?case by simp
next
  case (fetched mgr b env ref_id mgr' r)
  with sm_fetch_worker [OF fetched(2,3)] show ?case by auto
qed

lemma locked_fetch:
  assumes "gate_session cli mgr b" "vault_env_ok env" "carried env b (Fetch ref_id)"
  shows "sm_fetch env (worker_peer env b) mgr ref_id =
    (mgr, Inl (Vault_Subprocess ''vault locked: vault is locked; call unlock first''))"
  using gate_session_locked [OF assms(1)] sm_fetch_worker [OF assms(2,3)]
  by (simp add: bw_fetch_def require_session_def reported_def)

section \<open>Properties\<close>

text \<open>
  C15. From the vault to the wire, for a gate whose vault is a file. Every request the proxy sends for
  a lease carries under \<open>authorization\<close> the value of the credential the lease refers to, as it is in the
  vault, after whatever values the agent has sent under that name itself; under every other name,
  except the host and the two headers of the proxy, it carries what the agent sent. So a lease whose
  credential is not in the vault sends nothing.
\<close>

theorem sent_with_stored_credential:
  assumes "file_env_ok fe"
    and "px_fetch_credential px = fetch_credential debug (fe_unseal fe) (fb_fetch fe n) sm (File_Vault v)"
    and "handle_request px now mgr0 mgr ra i key req = Ret (leases, sent, aud, resp)" "ob \<in> set sent"
    and "lm_leases mgr i = Some l" "px_header_name px ''Authorization'' = Some ''authorization''"
  shows "\<exists>cred x. fb_credentials v (l_credential_ref l) = Some cred \<and>
    px_header_value px (as_bytes (dc_value cred)) = Some x \<and>
    header_values (ob_headers ob) ''authorization'' = header_values (rq_headers req) ''authorization'' @ [x] \<and>
    (\<forall>n. n \<notin> {''authorization'', ''host'', HEADER_LEASE_TOKEN, HEADER_CHANNEL_BINDING} \<longrightarrow>
       header_values (ob_headers ob) n = header_values (rq_headers req) n)"
proof -
  let ?base = "\<lambda>h. header_insert ''host'' h (strip_proxy_internal_headers (rq_headers req))"
  from handle_request_fetched [OF assms(3-5)] obtain creds h where
    creds: "vault_fetch_credential (fe_unseal fe (fb_ipc_key v)) (fb_fetch fe n v (l_credential_ref l)) = Inr creds"
    and hs: "inject_headers px (?base h) creds = Inr (ob_headers ob)"
    unfolding assms(2) by auto
  from creds file_vault.provided [of "(fe, n, v)" "l_credential_ref l" creds] assms(1) obtain cred where
    cred: "fb_credentials v (l_credential_ref l) = Some cred" "creds = [(''Authorization'', as_bytes (dc_value cred))]" by auto
  from inject_one [OF hs [unfolded cred(2)]] assms(6) obtain x where
    x: "px_header_value px (as_bytes (dc_value cred)) = Some x" "ob_headers ob = ?base h @ [(''authorization'', x)]" by auto
  have "''authorization'' \<notin> {HEADER_LEASE_TOKEN, HEADER_CHANNEL_BINDING, ''host''}"
    by (simp add: HEADER_LEASE_TOKEN_def HEADER_CHANNEL_BINDING_def)
  note own = header_values_base [OF this, of h "rq_headers req"]
  have "header_values (ob_headers ob) ''authorization'' = header_values (rq_headers req) ''authorization'' @ [x]"
    unfolding x(2) header_values_snoc own by simp
  moreover have "header_values (ob_headers ob) m = header_values (rq_headers req) m"
    if "m \<notin> {''authorization'', ''host'', HEADER_LEASE_TOKEN, HEADER_CHANNEL_BINDING}" for m
    using header_values_base [of m h "rq_headers req"] that unfolding x(2) header_values_snoc by auto
  ultimately show ?thesis using cred(1) x(1) by blast
qed

text \<open>
  A gate with the Bitwarden backend forwards nothing. The gate spawns the worker and only ever
  fetches from it, so the vault is never unlocked and no proxied request reaches its target.
\<close>

theorem bitwarden_gate_forwards_nothing:
  assumes "gate_session cli m b" "vault_env_ok env"
    and "\<forall>l. lm_leases mgr i = Some l \<longrightarrow> carried env b (Fetch (l_credential_ref l))"
    and "px_fetch_credential px =
      fetch_credential debug unseal fb (\<lambda>m r. snd (sm_fetch env (worker_peer env b) m r)) (Worker_Vault m)"
    and "handle_request px now mgr0 mgr ra i key req = Ret (leases, sent, aud, resp)"
  shows "sent = []"
proof (rule handle_request_needs_credential [OF assms(5)])
  fix l
  assume "lm_leases mgr i = Some l"
  with assms(3) have "carried env b (Fetch (l_credential_ref l))" by blast
  from locked_fetch [OF assms(1,2) this] show "\<exists>e. px_fetch_credential px (l_credential_ref l) i = Inl e"
    by (simp add: assms(4) vault_fetch_credential_def)
qed

text \<open>
  A started gate is a state from which the runs of the gate begin, so everything shown of
  reachable gates holds of it, and its socket is accessible to its owner only.
\<close>

theorem gate_main_starts_run:
  assumes "gate_main env dk = (dk', Inr (identity, prov, router))"
    and "load_config (st_vars env) (st_exists env) (st_read env) (st_toml env) = Inr config"
    and "fo_parent (st_ops env) (gs_socket_path (gc_gate config)) \<noteq> Some (gs_socket_path (gc_gate config))"
  shows "greach ops hmac ch now router \<and> dk' (gs_socket_path (gc_gate config)) = Some (mode_0600, []) \<and>
    (prov = No_Op \<or> vs_backend (gc_vault config) \<in> {''file'', ''bitwarden''})"
proof -
  from assms(1,2) obtain dk1 where
    router: "build_router env config = Inr (prov, router)" and
    bound: "\<exists>p. listener_bind (st_ops env) dk1 (gs_socket_path (gc_gate config)) = (dk', Inr p)"
    by (auto simp: gate_main_def split: sum.splits if_splits prod.splits)
  from build_router_gate_start [OF router] obtain pconfig where
    "gate_start (st_policy_fs env) (st_create_policy_dir env) (st_policy_toml env)
       (expand_tilde (st_vars env) ''~/.config/cdp/policies'') (approval_of (gc_approval config)) (st_lru_new env)
       (ss_nonce_max_entries (gc_security config)) (st_gate_key env) pconfig (st_audit_tx env) = Inr router" by blast
  then have "greach ops hmac ch now router" unfolding greach_def by blast
  moreover from router have "prov = No_Op \<or> vs_backend (gc_vault config) \<in> {''file'', ''bitwarden''}"
    by (auto simp: build_router_def choose_provider_def Let_def split: sum.splits prod.splits if_splits option.splits)
  ultimately show ?thesis
    using bound bound_socket_private [OF _ assms(3)] by blast
qed

text \<open>
  A failed start blocks all later ones. When a start fails after the fingerprint file has been
  written, at a policy file, the vault or the port range, say, the file stays, read-only; unless
  the gate runs as the superuser, no later start with the same fingerprint path succeeds, even
  with the cause of the failure removed.
\<close>

theorem failed_start_blocks_restart:
  assumes "load_config (st_vars env) (st_exists env) (st_read env) (st_toml env) = Inr config"
    and "identity_create (st_ops env) (st_self env) dk (st_key_bytes env)
      (gs_fingerprint_path (gc_gate config)) (gs_socket_path (gc_gate config)) = (dk1, Inr identity)"
    and "build_router env config = Inl e" "st_disable_core_dumps env = Inr ()"
    and "fo_parent (st_ops env) (gs_fingerprint_path (gc_gate config)) \<noteq> Some (gs_fingerprint_path (gc_gate config))"
    and "load_config (st_vars env2) (st_exists env2) (st_read env2) (st_toml env2) = Inr config2"
    and "gs_fingerprint_path (gc_gate config2) = gs_fingerprint_path (gc_gate config)"
    and "fo_parent (st_ops env2) = fo_parent (st_ops env)" "\<not> fo_superuser (st_ops env2)"
  shows "gate_main env dk = (dk1, Inl e) \<and> (\<exists>dk2 e2. gate_main env2 dk1 = (dk2, Inl e2))"
proof
  show "gate_main env dk = (dk1, Inl e)"
    using assms(1-4) by (simp add: gate_main_def)
  from identity_create_Inr [OF assms(2,5)] assms(5,7-9) obtain dk2 e2 where
    "identity_create (st_ops env2) (st_self env2) dk1 (st_key_bytes env2)
      (gs_fingerprint_path (gc_gate config2)) (gs_socket_path (gc_gate config2)) = (dk2, Inl e2)"
    using read_only_blocks [of dk1 "gs_fingerprint_path (gc_gate config)" "st_ops env2" "st_self env2" "st_key_bytes env2"
        "gs_socket_path (gc_gate config2)"]
    by (auto simp: mode_0400_def)
  with assms(6) show "\<exists>dk2 e2. gate_main env2 dk1 = (dk2, Inl e2)"
    by (auto simp: gate_main_def split: sum.splits)
qed

section \<open>Witnesses\<close>

definition sample_vault_file :: file_backend where
  "sample_vault_file = \<lparr>fb_credentials = [''c'' \<mapsto> \<lparr>dc_value = ''v'', dc_name = ''n''\<rparr>], fb_ipc_key = [9]\<rparr>"

definition vault_proxy :: "provider \<Rightarrow> proxy_env" where
  "vault_proxy prov = sample_proxy\<lparr>px_header_name := (\<lambda>n. Some (map ascii_lower n)), px_fetch_credential :=
     fetch_credential id (fe_unseal sample_file_env) (fb_fetch sample_file_env [5])
       (\<lambda>m r. snd (sm_fetch sample_vault (worker_peer sample_vault sample_locked) m r)) prov\<rparr>"

lemma char_of_a: "char_of (97 :: nat) = CHR ''a''"
  by code_simp

lemma vault_proxy_fetch: "px_fetch_credential (vault_proxy prov) =
    fetch_credential id (fe_unseal sample_file_env) (fb_fetch sample_file_env [5])
      (\<lambda>m r. snd (sm_fetch sample_vault (worker_peer sample_vault sample_locked) m r)) prov"
  by (simp add: vault_proxy_def)

lemma sample_file_env_ok: "file_env_ok sample_file_env"
  by (auto simp: file_env_ok_def sample_file_env_def split: if_splits)

lemma sample_provides:
  "fetch_credential id (fe_unseal sample_file_env) (fb_fetch sample_file_env [5]) sm (File_Vault sample_vault_file) ''c'' i =
     Inr [(''Authorization'', as_bytes ''v'')]"
  by (simp add: fb_fetch_def sample_vault_file_def sample_file_env_def vault_fetch_credential_def)

lemma sample_vault_run:
  "\<exists>leases ob aud resp. handle_request (vault_proxy (File_Vault sample_vault_file)) 0 proxy_mgr proxy_mgr sample_peer ''01'' [7]
     sample_request = Ret (leases, [ob], aud, resp)"
proof -
  let ?px = "vault_proxy (File_Vault sample_vault_file)"
    and ?ob = "sample_outbound\<lparr>ob_headers := [(''host'', ''h''), (''authorization'', ''secret'')]\<rparr>"
    and ?l = "proxy_lease\<lparr>l_requests_used := 1\<rparr>"
  have parts: "px_hmac ?px = sample_hmac" "px_to_str ?px = ascii_to_str" "px_proc ?px = sample_proc"
    "px_lookup_host ?px = (\<lambda>_. Inr [V4 1])" "px_globs ?px = exact_globs" "px_from_slice ?px = (\<lambda>_. None)"
    "px_send ?px = (\<lambda>_. Inr \<lparr>us_status = 200, us_headers = [(''set-cookie'', ''x'')], us_body = Inr []\<rparr>)"
    by (simp_all add: vault_proxy_def sample_proxy_def)
  have build: "build_outbound ?px sample_request [] [(''Authorization'', as_bytes ''v'')] sample_uri ''h'' [V4 1] = Inr ?ob"
    by (simp add: build_outbound_def vault_proxy_def sample_proxy_def sample_request_def outbound_base sample_headers_def
        sample_outbound_def port_for_uri_def sample_uri_def char_of_a ascii_lower_def Let_def)
  have exec: "execute_with_redirects ?px sample_request [] [(''Authorization'', as_bytes ''v'')] ?l ''01''
      MAX_REDIRECT_HOPS sample_uri ''h'' [V4 1] =
    ([?ob], [], Inr (sanitize_response \<lparr>rs_status = 200, rs_headers = [(''set-cookie'', ''x'')], rs_body = []\<rparr>))"
    by (subst execute_with_redirects.simps) (simp add: build parts evaluate_redirect_def)
  have auth: "authenticate sample_hmac ascii_to_str sample_proc sample_peer sample_headers ''01'' proxy_lease [7] = Ret (Inr ())"
    using sample_authenticated by (simp add: authenticated_def proxy_mgr_leases sample_proxy_simps)
  have "resolve_and_verify (\<lambda>_. Inr [V4 1]) ?l ''h'' = Inr [V4 1]" "l_credential_ref ?l = ''c''" "l_granted_scope ?l = sample_scope"
    by (simp_all add: resolve_and_verify_def verify_pinned_ip_def proxy_lease_def lease1_def)
  then show ?thesis
    by (simp add: handle_request_def handle_request_inner_def get_lease_def proxy_mgr_leases parts auth sample_use
        sample_host sample_validate vault_proxy_fetch sample_provides exec collect_body_def sample_proxy_simps del: fetch_credential.simps)
qed

theorem sent_with_stored_credential_witness:
  "\<exists>leases ob aud resp. handle_request (vault_proxy (File_Vault sample_vault_file)) 0 proxy_mgr proxy_mgr sample_peer ''01''
     [7] sample_request = Ret (leases, [ob], aud, resp) \<and> header_values (ob_headers ob) ''authorization'' = [''secret'']"
proof -
  obtain leases ob aud resp where run: "handle_request (vault_proxy (File_Vault sample_vault_file)) 0 proxy_mgr proxy_mgr
     sample_peer ''01'' [7] sample_request = Ret (leases, [ob], aud, resp)" using sample_vault_run by blast
  have "lm_leases proxy_mgr ''01'' = Some proxy_lease" by (simp add: proxy_mgr_leases)
  moreover have "px_header_name (vault_proxy (File_Vault sample_vault_file)) ''Authorization'' = Some ''authorization''"
    by (simp add: vault_proxy_def char_of_a ascii_lower_def)
  moreover have "header_values (rq_headers sample_request) ''authorization'' = []"
    by (simp add: header_values_def sample_request_def sample_headers_def HEADER_LEASE_TOKEN_def HEADER_CHANNEL_BINDING_def)
  moreover have "px_header_value (vault_proxy (File_Vault sample_vault_file)) v = Some ''secret''" for v
    by (simp add: vault_proxy_def sample_proxy_def)
  ultimately have "header_values (ob_headers ob) ''authorization'' = [''secret'']"
    using sent_with_stored_credential [OF sample_file_env_ok vault_proxy_fetch run, of ob proxy_lease] by auto
  with run show ?thesis by blast
qed

lemma sample_gate_session: "gate_session ''bw'' sample_mgr sample_locked"
proof -
  have carried: "carried sample_vault (bitwarden_new ''bw'') (Init (ve_encode sample_vault sample_key))"
    using sample_carried(1) by (simp add: sample_codec_fields)
  from sm_spawn_worker [OF sample_vault_ok this] gate_session.spawned [OF sample_vault_ok _ this]
  have "gate_session ''bw'' sample_mgr
      (fst (dispatch sample_vault (bitwarden_new ''bw'') (Init (ve_encode sample_vault sample_key))))"
    by (simp add: sample_mgr_def sample_key_def)
  then show ?thesis unfolding sample_codec_fields sample_dispatch by simp
qed

theorem bitwarden_gate_forwards_nothing_witness:
  "\<exists>leases aud resp. handle_request (vault_proxy (Worker_Vault sample_mgr)) 0 proxy_mgr proxy_mgr sample_peer ''01''
     [7] sample_request = Ret (leases, [], aud, resp)"
proof -
  have "snd (dispatch sample_vault sample_locked (Fetch ''c'')) =
      Response_Error (vault_error_text (Vault_Locked ''vault is locked; call unlock first''))"
    by (simp add: bw_fetch_def require_session_def sample_locked_def set_ipc_key_def bitwarden_new_def respond_with_def)
  then have "carried sample_vault sample_locked (Fetch ''c'')"
    unfolding carried_def by (simp add: sample_vault_def sample_response_to_vec_def MAX_MESSAGE_SIZE_def as_bytes_def)
  then have carried: "\<forall>l. lm_leases proxy_mgr ''01'' = Some l \<longrightarrow> carried sample_vault sample_locked (Fetch (l_credential_ref l))"
    by (simp add: proxy_mgr_leases proxy_lease_def lease1_def)
  have "to_str_ok (px_to_str (vault_proxy (Worker_Vault sample_mgr)))"
    by (simp add: vault_proxy_def sample_proxy_simps ascii_to_str_ok)
  from handle_request_inner_no_panic [OF this] obtain a where
    "handle_request_inner (vault_proxy (Worker_Vault sample_mgr)) 0 proxy_mgr proxy_mgr sample_peer ''01'' [7] sample_request = Ret a"
    by (meson outcome.exhaust)
  then obtain leases sent aud resp where
    run: "handle_request (vault_proxy (Worker_Vault sample_mgr)) 0 proxy_mgr proxy_mgr sample_peer ''01'' [7] sample_request =
      Ret (leases, sent, aud, resp)"
    by (cases a; cases "snd (snd (snd a))") (auto simp: handle_request_def)
  from bitwarden_gate_forwards_nothing [OF sample_gate_session sample_vault_ok carried vault_proxy_fetch this]
  show ?thesis using run by blast
qed

definition sample_start :: "bool \<Rightarrow> nat list start_env" where
  "sample_start disk_full =
     \<lparr>st_vars = [''HOME'' \<mapsto> ''/h''], st_exists = (\<lambda>_. False), st_read = (\<lambda>_. Inl []), st_toml = (\<lambda>_. Inl []),
      st_ops = start_fs, st_self = start_self, st_key_bytes = [], st_disable_core_dumps = Inr (),
      st_create_audit_dir = (\<lambda>_. if disk_full then Inl ''No space left on device (os error 28)'' else Inr ()),
      st_policy_fs = \<lparr>fs_exists = (\<lambda>_. True), fs_is_dir = (\<lambda>_. True), fs_read_dir = (\<lambda>_. Inr []),
        fs_read_to_string = (\<lambda>_ _. Inl [])\<rparr>, st_create_policy_dir = (\<lambda>_. Inl []), st_policy_toml = (\<lambda>_. Inl []),
      st_open_vault = (\<lambda>_ _. Inl (NotFound [])), st_spawn_vault = (\<lambda>_ _. Inl (Vault_Subprocess [])),
      st_parse_ip = (\<lambda>_. Inr (V4 1)), st_gate_key = [7], st_lru_new = (\<lambda>_. []), st_audit_tx = \<lparr>tx_sent = [], tx_closed = False\<rparr>\<rparr>"

definition sample_config :: gate_config where
  "sample_config = expand_paths [''HOME'' \<mapsto> ''/h''] (gate_config_default [''HOME'' \<mapsto> ''/h''])"

lemma sample_settings_load: "load_config (st_vars (sample_start d)) (st_exists (sample_start d)) (st_read (sample_start d))
    (st_toml (sample_start d)) = Inr sample_config"
  by (simp add: sample_start_def sample_config_def load_config_def)

lemma sample_paths: "gs_fingerprint_path (gc_gate sample_config) = ''/h/.config/cdp/gate.fingerprint''"
    "gs_socket_path (gc_gate sample_config) = ''/run/cdp/gate.sock''"
  by (simp_all add: sample_config_def expand_paths_def expand_gate_def gate_config_default_def
      gate_section_default_def default_socket_path_def expand_tilde_def path_join_def)

lemma sample_identity: "\<exists>dk i. identity_create start_fs start_self Map.empty [] ''/h/.config/cdp/gate.fingerprint'' ''/run/cdp/gate.sock'' =
    (dk, Inr i)"
  by (simp add: identity_create_def start_self_def sample_process_def hash_binary_def fingerprint_parent_def
      start_fs_def set_permissions_def chmod_def write_file_def writable_def Let_def)

theorem failed_start_blocks_restart_witness:
  "\<exists>dk1 e dk2 e2. gate_main (sample_start True) Map.empty = (dk1, Inl e) \<and> gate_main (sample_start False) dk1 = (dk2, Inl e2)"
proof -
  obtain dk1 i where "identity_create start_fs start_self Map.empty [] ''/h/.config/cdp/gate.fingerprint'' ''/run/cdp/gate.sock'' =
    (dk1, Inr i)" using sample_identity by blast
  then have create: "identity_create (st_ops (sample_start True)) (st_self (sample_start True)) Map.empty
      (st_key_bytes (sample_start True)) (gs_fingerprint_path (gc_gate sample_config)) (gs_socket_path (gc_gate sample_config)) = (dk1, Inr i)"
    unfolding sample_paths by (simp add: sample_start_def)
  have fails: "build_router (sample_start True) sample_config = Inl (Start_Io ''No space left on device (os error 28)'')"
    by (simp add: build_router_def sample_start_def)
  have "gate_main (sample_start True) Map.empty = (dk1, Inl (Start_Io ''No space left on device (os error 28)'')) \<and>
      (\<exists>dk2 e2. gate_main (sample_start False) dk1 = (dk2, Inl e2))"
    by (rule failed_start_blocks_restart [OF sample_settings_load create fails _ _ sample_settings_load])
      (simp_all add: sample_paths sample_start_def start_fs_def)
  then show ?thesis by blast
qed

theorem gate_main_starts_run_witness:
  "\<exists>dk identity prov router. gate_main (sample_start False) Map.empty = (dk, Inr (identity, prov, router)) \<and>
     (\<forall>ops hmac ch. greach ops hmac ch 0 router) \<and> dk ''/run/cdp/gate.sock'' = Some (mode_0600, [])"
proof -
  have "show_nat 19000 = ''19000''" "show_nat 19999 = ''19999''" by (simp_all add: show_nat.simps digit_char_def char_of_def bit_0)
  with parse_port_range_roundtrip [of 19000 19999] have range: "parse_port_range ''19000-19999'' = Inr (19000, 19999)" by simp
  obtain dk1 i where create: "identity_create start_fs start_self Map.empty [] ''/h/.config/cdp/gate.fingerprint'' ''/run/cdp/gate.sock'' =
    (dk1, Inr i)" using sample_identity by blast
  have "\<exists>prov router. build_router (sample_start False) sample_config = Inr (prov, router)"
    by (simp add: build_router_def sample_start_def engine_new_def load_policies_from_dir_def toml_names_def
        map_filter_simps choose_provider_def sample_config_def gate_config_default_def expand_paths_def
        vault_section_default_def proxy_section_default_def range)
  then obtain prov router where built: "build_router (sample_start False) sample_config = Inr (prov, router)" by blast
  have "\<exists>dk2 p. listener_bind start_fs dk1 ''/run/cdp/gate.sock'' = (dk2, Inr p)"
    by (simp add: listener_bind_def listener_parent_def start_fs_def set_permissions_def split: prod.splits)
  then obtain dk2 p where bound: "listener_bind start_fs dk1 ''/run/cdp/gate.sock'' = (dk2, Inr p)" by blast
  have parts: "st_ops (sample_start False) = start_fs" "st_self (sample_start False) = start_self"
    "st_key_bytes (sample_start False) = []" "st_disable_core_dumps (sample_start False) = Inr ()"
    by (simp_all add: sample_start_def)
  have run: "gate_main (sample_start False) Map.empty = (dk2, Inr (i, prov, router))"
    unfolding gate_main_def sample_settings_load by (simp add: parts sample_paths create built bound)
  have parent: "fo_parent (st_ops (sample_start False)) (gs_socket_path (gc_gate sample_config)) \<noteq> Some (gs_socket_path (gc_gate sample_config))"
    by (simp add: sample_paths sample_start_def start_fs_def)
  from gate_main_starts_run [OF run sample_settings_load parent] run show ?thesis unfolding sample_paths by blast
qed

end
