(* ===== verification/Cdp_Token.thy ===== *)
theory Cdp_Token
  imports Cdp_Audit "HOL-Library.AList"
begin

text \<open>
  The token crate (\<open>crates/cdp-token\<close>): signed delegation tokens (\<open>issuer.rs\<close>), the list of revoked
  and used tokens (\<open>revocation.rs\<close>) and the attestation of agents by certificate or OpenID token
  (\<open>validator.rs\<close>). Base64, Ed25519, RSA, JSON and X.509 parsing, the network and the clock are
  arguments. The lemmas show that issued tokens verify, that verified tokens were issued when
  signatures cannot be forged, that an identifier is marked as used at most once before it expires, and what an
  attested identity rests on.
\<close>

section \<open>Errors and claims\<close>

datatype token_error =
    SigningKey string
  | InvalidClaims string
  | Token_Expired
  | Token_Revoked
  | AttestationFailed string
  | OidcVerification string
  | InvalidCertificate string
  | Token_Io string
  | Token_Crypto string
  | Serialization string

record token_claims =
  tc_iss :: string
  tc_sub :: string
  tc_aud :: string
  tc_exp :: int
  tc_iat :: int
  tc_jti :: string
  tc_scope :: "string list"
  tc_lease_id :: string
  tc_delegation_chain :: "string list"
  tc_single_use :: bool

text \<open>\<open>str::splitn\<close>: at most \<open>n\<close> parts, the last one with the rest of the text.\<close>

fun splitn :: "nat \<Rightarrow> char \<Rightarrow> string \<Rightarrow> string list" where
  "splitn 0 d s = []"
| "splitn (Suc 0) d s = [s]"
| "splitn (Suc (Suc n)) d s =
     (if d \<in> set s
      then takeWhile (\<lambda>c. c \<noteq> d) s # splitn (Suc n) d (tl (dropWhile (\<lambda>c. c \<noteq> d) s))
      else [s])"

section \<open>Issuing and verifying\<close>

text \<open>
  The crates behind the issuer: URL-safe base64 without padding, Ed25519, and \<open>serde\<close> for claims
  and for JSON values.
\<close>

record token_env =
  tk_encode :: "bytes \<Rightarrow> string"
  tk_decode :: "string \<Rightarrow> string + bytes"
  tk_verifying_key :: "bytes \<Rightarrow> bytes"
  tk_sign :: "bytes \<Rightarrow> bytes \<Rightarrow> bytes"
  tk_verify :: "bytes \<Rightarrow> bytes \<Rightarrow> bytes \<Rightarrow> bool"
  tk_claims_to_vec :: "token_claims \<Rightarrow> string + bytes"
  tk_claims_from_slice :: "bytes \<Rightarrow> string + token_claims"
  tk_claims_to_value :: "token_claims \<Rightarrow> string + json"
  tk_value_to_vec :: "json \<Rightarrow> string + bytes"
  tk_value_from_slice :: "bytes \<Rightarrow> string + json"

definition JWT_HEADER_B64 :: string where
  "JWT_HEADER_B64 = ''eyJhbGciOiJFZERTQSIsInR5cCI6IkpXVCJ9''"

record token_issuer =
  ti_secret_bytes :: bytes
  ti_verifying_key :: bytes

definition issuer_new :: "token_env \<Rightarrow> string + bytes \<Rightarrow> token_error + token_issuer" where
  "issuer_new env entropy =
     (case entropy of
        Inl e \<Rightarrow> Inl (SigningKey (''failed to generate entropy: '' @ e))
      | Inr secret \<Rightarrow> Inr \<lparr>ti_secret_bytes = secret, ti_verifying_key = tk_verifying_key env secret\<rparr>)"

definition issuer_from_key :: "token_env \<Rightarrow> bytes \<Rightarrow> token_error + token_issuer" where
  "issuer_from_key env secret_key_bytes =
     Inr \<lparr>ti_secret_bytes = secret_key_bytes, ti_verifying_key = tk_verifying_key env secret_key_bytes\<rparr>"

definition public_key_base64 :: "token_env \<Rightarrow> token_issuer \<Rightarrow> string" where
  "public_key_base64 env self = tk_encode env (ti_verifying_key self)"

definition sign_parts :: "token_env \<Rightarrow> token_issuer \<Rightarrow> bytes \<Rightarrow> token_error + string" where
  "sign_parts env self claims_json =
     (let claims_b64 = tk_encode env claims_json;
          signing_input = JWT_HEADER_B64 @ ''.'' @ claims_b64 in
      if length (ti_secret_bytes self) \<noteq> 32 then Inl (SigningKey ''stored key has wrong length'')
      else (let signature = tk_sign env (ti_secret_bytes self) (as_bytes signing_input);
                signature_b64 = tk_encode env signature in
            Inr (signing_input @ ''.'' @ signature_b64)))"

definition issue :: "token_env \<Rightarrow> token_issuer \<Rightarrow> token_claims \<Rightarrow> token_error + string" where
  "issue env self claims =
     (case tk_claims_to_vec env claims of
        Inl e \<Rightarrow> Inl (Serialization e)
      | Inr claims_json \<Rightarrow> sign_parts env self claims_json)"

definition sign_claims_value :: "token_env \<Rightarrow> token_issuer \<Rightarrow> json \<Rightarrow> token_error + string" where
  "sign_claims_value env self claims =
     (case tk_value_to_vec env claims of
        Inl e \<Rightarrow> Inl (Serialization e)
      | Inr claims_json \<Rightarrow> sign_parts env self claims_json)"

definition verify_token :: "token_env \<Rightarrow> int \<Rightarrow> token_issuer \<Rightarrow> string \<Rightarrow> token_error + token_claims" where
  "verify_token env now self token =
     (case splitn 3 (CHR ''.'') token of
        [header_b64, claims_b64, sig_b64] \<Rightarrow>
     (case tk_decode env header_b64 of
        Inl e \<Rightarrow> Inl (InvalidClaims (''invalid header encoding: '' @ e))
      | Inr header_json \<Rightarrow>
     (case tk_value_from_slice env header_json of
        Inl e \<Rightarrow> Inl (InvalidClaims (''header parse error: '' @ e))
      | Inr header \<Rightarrow>
     (if Option.bind (json_get header ''alg'') json_as_str \<noteq> Some ''EdDSA''
      then Inl (InvalidClaims ''unsupported algorithm; expected EdDSA'')
      else
     (let signing_input = header_b64 @ ''.'' @ claims_b64 in
      case tk_decode env sig_b64 of
        Inl e \<Rightarrow> Inl (InvalidClaims (''invalid signature encoding: '' @ e))
      | Inr sig_bytes \<Rightarrow>
     (if length sig_bytes \<noteq> 64 then Inl (InvalidClaims ''signature must be 64 bytes'')
      else if \<not> tk_verify env (ti_verifying_key self) (as_bytes signing_input) sig_bytes
      then Inl (Token_Crypto ''signature verification failed'')
      else
     (case tk_decode env claims_b64 of
        Inl e \<Rightarrow> Inl (InvalidClaims (''invalid claims encoding: '' @ e))
      | Inr claims_json \<Rightarrow>
     (case tk_claims_from_slice env claims_json of
        Inl e \<Rightarrow> Inl (Serialization (''claims parse error: '' @ e))
      | Inr claims \<Rightarrow> if tc_exp claims \<le> now then Inl Token_Expired else Inr claims)))))))
      | _ \<Rightarrow> Inl (InvalidClaims ''malformed JWT: expected 3 parts''))"

section \<open>The revocation list\<close>

type_synonym revocation_list = "string \<rightharpoonup> int"

definition revocation_new :: revocation_list where
  "revocation_new = Map.empty"

definition revoke_token :: "revocation_list \<Rightarrow> string \<Rightarrow> int \<Rightarrow> revocation_list" where
  "revoke_token self jti expires_at = self(jti \<mapsto> expires_at)"

definition is_token_revoked :: "revocation_list \<Rightarrow> string \<Rightarrow> bool" where
  "is_token_revoked self jti \<longleftrightarrow> self jti \<noteq> None"

definition check_and_mark_used ::
  "revocation_list \<Rightarrow> string \<Rightarrow> int \<Rightarrow> revocation_list \<times> (token_error + unit)" where
  "check_and_mark_used self jti expires_at =
     (if self jti \<noteq> None then (self, Inl Token_Revoked) else (self(jti \<mapsto> expires_at), Inr ()))"

definition cleanup :: "int \<Rightarrow> revocation_list \<Rightarrow> revocation_list" where
  "cleanup now self =
     (\<lambda>jti. case self jti of None \<Rightarrow> None | Some expires_at \<Rightarrow> if now < expires_at then Some expires_at else None)"

text \<open>
  \<open>order\<close> lists the identifiers in the order of the hash map; \<open>rfc3339\<close> and \<open>seconds\<close> are
  \<open>to_rfc3339\<close> and \<open>timestamp\<close> of \<open>chrono\<close>, in whose nanoseconds the times are given, and \<open>insert\<close>
  that of a JSON object.
\<close>

fun json_insert :: "string \<Rightarrow> json \<Rightarrow> json \<Rightarrow> json" where
  "json_insert key v (JObject members) = JObject (AList.update key v members)"
| "json_insert key v w = w"

definition to_signed_list ::
  "token_env \<Rightarrow> (int \<Rightarrow> string) \<Rightarrow> (int \<Rightarrow> int) \<Rightarrow> string list \<Rightarrow> string \<Rightarrow> int \<Rightarrow> revocation_list \<Rightarrow> token_issuer
   \<Rightarrow> token_error + string" where
  "to_signed_list env rfc3339 seconds order uuid now self issuer =
     (let payload = JObject (List.map_filter (\<lambda>jti. map_option (\<lambda>t. (jti, JString (rfc3339 t))) (self jti)) order);
          claims = \<lparr>tc_iss = ''cdp-gate-revocation'', tc_sub = ''revocation-list'', tc_aud = ''cdp-gate'',
            tc_exp = seconds (now + 5 * 60 * 10 ^ 9), tc_iat = seconds now, tc_jti = uuid,
            tc_scope = [''revocation''], tc_lease_id = ''internal'', tc_delegation_chain = [],
            tc_single_use = False\<rparr> in
      case tk_claims_to_value env claims of
        Inl e \<Rightarrow> Inl (Serialization e)
      | Inr claims_map \<Rightarrow> sign_claims_value env issuer (json_insert ''revoked_entries'' payload claims_map))"

section \<open>Attestation\<close>

datatype attestation_type = Mtls | Oidc | Enclave | SignedCode

record attestation_result =
  ar_identity :: string
  ar_attestation_type :: attestation_type
  ar_verified_at :: int
  ar_metadata :: "string \<rightharpoonup> string"

record trusted_issuer =
  tr_name :: string
  tr_issuer_url :: string
  tr_required_audience :: string

record oidc_config =
  oc_trusted_issuers :: "trusted_issuer list"
  oc_cache_jwks_seconds :: u64

definition default_jwks_cache_secs :: u64 where
  "default_jwks_cache_secs = 3600"

definition oidc_config_default :: oidc_config where
  "oidc_config_default = \<lparr>oc_trusted_issuers = [], oc_cache_jwks_seconds = default_jwks_cache_secs\<rparr>"

record jwk_key =
  jk_key_id :: "string option"
  jk_key_type :: string
  jk_n :: "string option"
  jk_e :: "string option"
  jk_alg :: "string option"

text \<open>
  What the X.509 parser finds in a certificate: the attributes of the subject, each with its
  object identifier and its text when it is a UTF-8 or printable string, and the extensions, each
  with its identifier and its names when it is a list of alternative names.
\<close>

datatype general_name = DnsName string | Rfc822Name string | Other_Name

record certificate =
  ce_subject :: "(string \<times> string option \<times> string option) list list"
  ce_extensions :: "(string \<times> general_name list option) list option"

definition OID_COMMON_NAME :: string where
  "OID_COMMON_NAME = ''2.5.4.3''"

definition OID_SUBJECT_ALT_NAME :: string where
  "OID_SUBJECT_ALT_NAME = ''2.5.29.17''"

definition attribute_text :: "string \<times> string option \<times> string option \<Rightarrow> string option" where
  "attribute_text atv =
     (case atv of (oid, utf8, printable) \<Rightarrow>
        if oid = OID_COMMON_NAME then (case utf8 of Some s \<Rightarrow> Some s | None \<Rightarrow> printable) else None)"

definition common_name :: "certificate \<Rightarrow> string" where
  "common_name cert =
     (case List.map_filter attribute_text (concat (ce_subject cert)) of [] \<Rightarrow> [] | cn # _ \<Rightarrow> cn)"

definition alt_names :: "certificate \<Rightarrow> general_name list" where
  "alt_names cert =
     concat (List.map_filter (\<lambda>(oid, names). if oid = OID_SUBJECT_ALT_NAME then names else None)
       (case ce_extensions cert of None \<Rightarrow> [] | Some exts \<Rightarrow> exts))"

fun dns_name :: "general_name \<Rightarrow> string option" where
  "dns_name (DnsName s) = Some s"
| "dns_name _ = None"

fun email_name :: "general_name \<Rightarrow> string option" where
  "email_name (Rfc822Name s) = Some s"
| "email_name _ = None"

definition verify_mtls_attestation ::
  "(bytes \<Rightarrow> string + certificate) \<Rightarrow> (bytes \<Rightarrow> bytes) \<Rightarrow> int \<Rightarrow> bytes \<Rightarrow> token_error + attestation_result" where
  "verify_mtls_attestation from_der sha256 now cert_der =
     (case from_der cert_der of
        Inl e \<Rightarrow> Inl (InvalidCertificate (''DER parse error: '' @ e))
      | Inr cert \<Rightarrow>
          (let cn = common_name cert;
               san_dns_names = List.map_filter dns_name (alt_names cert);
               san_emails = List.map_filter email_name (alt_names cert);
               fingerprint = hex_encode (sha256 cert_der);
               identity = (if cn \<noteq> [] then cn
                           else case san_dns_names of dns # _ \<Rightarrow> dns | [] \<Rightarrow> fingerprint);
               metadata = [''fingerprint'' \<mapsto> fingerprint];
               metadata = (if san_dns_names \<noteq> [] then metadata(''san_dns'' \<mapsto> join '','' san_dns_names)
                           else metadata);
               metadata = (if san_emails \<noteq> [] then metadata(''san_email'' \<mapsto> join '','' san_emails)
                           else metadata) in
           Inr \<lparr>ar_identity = identity, ar_attestation_type = Mtls, ar_verified_at = now,
                ar_metadata = metadata\<rparr>))"

text \<open>
  The surroundings of the OpenID check: base64, JSON, the integers of JSON, the request for the
  key set of an address, with the status, and RSA: building a key from modulus and exponent,
  parsing a signature, and verifying.
\<close>

record ('k, 's) oidc_env =
  oe_decode :: "string \<Rightarrow> string + bytes"
  oe_from_slice :: "bytes \<Rightarrow> string + json"
  oe_as_i64 :: "json \<Rightarrow> int option"
  oe_client :: "string + unit"
  oe_get :: "string \<Rightarrow> string + nat \<times> (string + jwk_key list)"
  oe_rsa_key :: "bytes \<Rightarrow> bytes \<Rightarrow> string + 'k"
  oe_signature :: "bytes \<Rightarrow> string + 's"
  oe_rsa_verify :: "'k \<Rightarrow> bytes \<Rightarrow> 's \<Rightarrow> bool"
  oe_debug :: "string \<Rightarrow> string"

definition find_jwk :: "jwk_key list \<Rightarrow> string option \<Rightarrow> jwk_key option" where
  "find_jwk keys kid =
     (case (case kid of
              Some k \<Rightarrow> List.find (\<lambda>key. jk_key_type key = ''RSA'' \<and> jk_key_id key = Some k) keys
            | None \<Rightarrow> None) of
        Some key \<Rightarrow> Some key
      | None \<Rightarrow> List.find (\<lambda>key. jk_key_type key = ''RSA'') keys)"

definition verify_rs256 ::
  "('k, 's) oidc_env \<Rightarrow> string \<Rightarrow> string \<Rightarrow> string \<Rightarrow> jwk_key \<Rightarrow> token_error + unit" where
  "verify_rs256 env header_b64 claims_b64 sig_b64 jwk =
     (case oe_decode env (case jk_n jwk of None \<Rightarrow> [] | Some n \<Rightarrow> n) of
        Inl e \<Rightarrow> Inl (OidcVerification (''JWK `n` decode: '' @ e))
      | Inr n_bytes \<Rightarrow>
     (case oe_decode env (case jk_e jwk of None \<Rightarrow> [] | Some e \<Rightarrow> e) of
        Inl e \<Rightarrow> Inl (OidcVerification (''JWK `e` decode: '' @ e))
      | Inr e_bytes \<Rightarrow>
     (case oe_rsa_key env n_bytes e_bytes of
        Inl e \<Rightarrow> Inl (OidcVerification (''RSA key construction: '' @ e))
      | Inr rsa_key \<Rightarrow>
     (case oe_decode env sig_b64 of
        Inl e \<Rightarrow> Inl (OidcVerification (''signature decode: '' @ e))
      | Inr sig_bytes \<Rightarrow>
     (case oe_signature env sig_bytes of
        Inl e \<Rightarrow> Inl (OidcVerification (''signature parse: '' @ e))
      | Inr signature \<Rightarrow>
          if oe_rsa_verify env rsa_key (as_bytes (header_b64 @ ''.'' @ claims_b64)) signature then Inr ()
          else Inl (OidcVerification ''RS256 signature verification failed''))))))"

text \<open>\<open>trim_end_matches\<close> of a character.\<close>

definition trim_end_char :: "char \<Rightarrow> string \<Rightarrow> string" where
  "trim_end_char d s = rev (dropWhile (\<lambda>c. c = d) (rev s))"

definition jwks_url :: "trusted_issuer \<Rightarrow> string" where
  "jwks_url trusted = trim_end_char (CHR ''/'') (tr_issuer_url trusted) @ ''/.well-known/jwks.json''"

fun audience_ok :: "json option \<Rightarrow> string \<Rightarrow> bool" where
  "audience_ok (Some (JString s)) required = (s = required)"
| "audience_ok (Some (JArray arr)) required = list_ex (\<lambda>v. json_as_str v = Some required) arr"
| "audience_ok _ required = False"

definition claim_str :: "json \<Rightarrow> string \<Rightarrow> string option" where
  "claim_str claims key = Option.bind (json_get claims key) json_as_str"

definition check_jwks ::
  "('k, 's) oidc_env \<Rightarrow> trusted_issuer \<Rightarrow> string option \<Rightarrow> string \<Rightarrow> string \<Rightarrow> string \<Rightarrow> token_error + unit" where
  "check_jwks env trusted kid header_b64 claims_b64 sig_b64 =
     (case oe_client env of
        Inl e \<Rightarrow> Inl (OidcVerification (''HTTP client error: '' @ e))
      | Inr _ \<Rightarrow>
     (case oe_get env (jwks_url trusted) of
        Inl e \<Rightarrow> Inl (OidcVerification (''JWKS fetch error: '' @ e))
      | Inr (status, body) \<Rightarrow>
          if \<not> (200 \<le> status \<and> status < 300)
          then Inl (OidcVerification (''JWKS endpoint returned HTTP '' @ show_nat status))
          else (case body of
                  Inl e \<Rightarrow> Inl (OidcVerification (''JWKS parse error: '' @ e))
                | Inr keys \<Rightarrow>
                    (case find_jwk keys kid of
                       None \<Rightarrow> Inl (OidcVerification ''no matching JWK found'')
                     | Some jwk \<Rightarrow> verify_rs256 env header_b64 claims_b64 sig_b64 jwk))))"

definition verify_oidc_attestation ::
  "('k, 's) oidc_env \<Rightarrow> int \<Rightarrow> int \<Rightarrow> oidc_config \<Rightarrow> string \<Rightarrow> token_error + attestation_result" where
  "verify_oidc_attestation env now later config token =
     (case splitn 3 (CHR ''.'') token of
        [header_b64, claims_b64, sig_b64] \<Rightarrow>
     (case oe_decode env header_b64 of
        Inl e \<Rightarrow> Inl (OidcVerification (''header decode: '' @ e))
      | Inr header_bytes \<Rightarrow>
     (case oe_from_slice env header_bytes of
        Inl e \<Rightarrow> Inl (OidcVerification (''header parse: '' @ e))
      | Inr header \<Rightarrow>
     (let alg = (case claim_str header ''alg'' of None \<Rightarrow> [] | Some a \<Rightarrow> a) in
      if alg \<noteq> ''RS256''
      then Inl (OidcVerification (''unsupported algorithm '' @ oe_debug env alg @ ''; only RS256 is accepted''))
      else
     (case oe_decode env claims_b64 of
        Inl e \<Rightarrow> Inl (OidcVerification (''claims decode: '' @ e))
      | Inr claims_bytes \<Rightarrow>
     (case oe_from_slice env claims_bytes of
        Inl e \<Rightarrow> Inl (OidcVerification (''claims parse: '' @ e))
      | Inr claims \<Rightarrow>
     (case claim_str claims ''iss'' of
        None \<Rightarrow> Inl (OidcVerification ''missing `iss` claim'')
      | Some iss \<Rightarrow>
     (case claim_str claims ''sub'' of
        None \<Rightarrow> Inl (OidcVerification ''missing `sub` claim'')
      | Some sub \<Rightarrow>
     (case Option.bind (json_get claims ''exp'') (oe_as_i64 env) of
        None \<Rightarrow> Inl (OidcVerification ''missing `exp` claim'')
      | Some exp_time \<Rightarrow>
     (case List.find (\<lambda>t. tr_issuer_url t = iss) (oc_trusted_issuers config) of
        None \<Rightarrow> Inl (OidcVerification (''issuer '' @ oe_debug env iss @ '' is not trusted''))
      | Some trusted \<Rightarrow>
     (if \<not> audience_ok (json_get claims ''aud'') (tr_required_audience trusted)
      then Inl (OidcVerification (''audience does not include '' @ oe_debug env (tr_required_audience trusted)))
      else if exp_time \<le> now then Inl Token_Expired
      else
     (case check_jwks env trusted (claim_str header ''kid'') header_b64 claims_b64 sig_b64 of
        Inl e \<Rightarrow> Inl e
      | Inr _ \<Rightarrow>
          Inr \<lparr>ar_identity = sub, ar_attestation_type = Oidc, ar_verified_at = later,
               ar_metadata = [''iss'' \<mapsto> iss, ''aud'' \<mapsto> tr_required_audience trusted]\<rparr>)))))))))))
      | _ \<Rightarrow> Inl (OidcVerification ''malformed JWT''))"

definition verify_enclave_attestation :: "bytes \<Rightarrow> token_error + attestation_result" where
  "verify_enclave_attestation evidence = Inl (AttestationFailed ''enclave attestation is not yet implemented'')"

definition verify_signed_code_attestation :: "bytes \<Rightarrow> token_error + attestation_result" where
  "verify_signed_code_attestation evidence =
     Inl (AttestationFailed ''signed-code attestation is not yet implemented'')"

section \<open>Lemmas\<close>

lemma dot_tail: "d \<notin> set x \<Longrightarrow> tl (dropWhile (\<lambda>c. c \<noteq> d) (x @ d # y)) = y"
  by (induction x) auto

lemma splitn_3:
  assumes "CHR ''.'' \<notin> set a" "CHR ''.'' \<notin> set b"
  shows "splitn 3 (CHR ''.'') (a @ ''.'' @ b @ ''.'' @ c) = [a, b, c]"
proof -
  have "takeWhile (\<lambda>c. c \<noteq> CHR ''.'') (x @ CHR ''.'' # y) = x"
    "dropWhile (\<lambda>c. c \<noteq> CHR ''.'') (x @ CHR ''.'' # y) = CHR ''.'' # y" if "CHR ''.'' \<notin> set x" for x y
    using that by (simp_all add: takeWhile_tail dropWhile_append3) (induction x; auto)+
  with assms show ?thesis by (simp add: numeral_3_eq_3)
qed

lemma splitn_3_parts:
  assumes "splitn 3 d s = [a, b, c]"
  shows "s = a @ d # b @ d # c \<and> d \<notin> set a \<and> d \<notin> set b"
proof -
  have cut: "x = takeWhile (\<lambda>c. c \<noteq> d) x @ d # tl (dropWhile (\<lambda>c. c \<noteq> d) x)" if "d \<in> set x" for x
  proof -
    from that have "dropWhile (\<lambda>c. c \<noteq> d) x \<noteq> []" "hd (dropWhile (\<lambda>c. c \<noteq> d) x) = d"
      using hd_dropWhile [of "\<lambda>c. c \<noteq> d" x] by auto
    then show ?thesis by (metis list.collapse takeWhile_dropWhile_id)
  qed
  have no: "d \<notin> set (takeWhile (\<lambda>c. c \<noteq> d) x)" for x using set_takeWhileD by fastforce
  let ?r = "tl (dropWhile (\<lambda>c. c \<noteq> d) s)"
  from assms have "d \<in> set s" "a = takeWhile (\<lambda>c. c \<noteq> d) s" "d \<in> set ?r"
    "b = takeWhile (\<lambda>c. c \<noteq> d) ?r" "c = tl (dropWhile (\<lambda>c. c \<noteq> d) ?r)"
    by (auto simp: numeral_3_eq_3 split: if_splits)
  with cut [of s] cut [of ?r] no show ?thesis by metis
qed

text \<open>
  What the issuer relies on: base64 decodes what it encodes and its alphabet has no dot, Ed25519
  accepts its own signatures of 64 bytes, claims survive serialisation, and the constant header
  is the encoding of an object that names the algorithm.
\<close>

definition token_env_ok :: "token_env \<Rightarrow> bool" where
  "token_env_ok env \<longleftrightarrow>
     (\<forall>bs. tk_decode env (tk_encode env bs) = Inr bs \<and> CHR ''.'' \<notin> set (tk_encode env bs)) \<and>
     (\<forall>k m. length (tk_sign env k m) = 64 \<and> tk_verify env (tk_verifying_key env k) m (tk_sign env k m)) \<and>
     (\<forall>c bs. tk_claims_to_vec env c = Inr bs \<longrightarrow> tk_claims_from_slice env bs = Inr c) \<and>
     (\<exists>h v. tk_decode env JWT_HEADER_B64 = Inr h \<and> tk_value_from_slice env h = Inr v \<and>
        Option.bind (json_get v ''alg'') json_as_str = Some ''EdDSA'')"

lemma header_no_dot: "CHR ''.'' \<notin> set JWT_HEADER_B64"
  by (simp add: JWT_HEADER_B64_def)

lemma verify_signed:
  assumes ok: "token_env_ok env" and self: "issuer_from_key env k = Inr self"
    and signed: "sign_parts env self js = Inr tok"
  shows "verify_token env now self tok =
    (case tk_claims_from_slice env js of
       Inl e \<Rightarrow> Inl (Serialization (''claims parse error: '' @ e))
     | Inr claims \<Rightarrow> if tc_exp claims \<le> now then Inl Token_Expired else Inr claims)"
proof -
  let ?input = "JWT_HEADER_B64 @ ''.'' @ tk_encode env js"
  from self have key: "ti_verifying_key self = tk_verifying_key env k" "ti_secret_bytes self = k"
    by (auto simp: issuer_from_key_def)
  with signed have tok: "tok = JWT_HEADER_B64 @ ''.'' @ tk_encode env js @ ''.'' @ tk_encode env (tk_sign env k (as_bytes ?input))"
    by (auto simp: sign_parts_def Let_def split: if_splits)
  from ok have b64: "\<And>bs. tk_decode env (tk_encode env bs) = Inr bs" "\<And>bs. CHR ''.'' \<notin> set (tk_encode env bs)"
    and sig: "\<And>m. length (tk_sign env k m) = 64" "\<And>m. tk_verify env (tk_verifying_key env k) m (tk_sign env k m)"
    by (auto simp: token_env_ok_def)
  from ok obtain h v where head: "tk_decode env JWT_HEADER_B64 = Inr h" "tk_value_from_slice env h = Inr v"
    "Option.bind (json_get v ''alg'') json_as_str = Some ''EdDSA''" by (auto simp: token_env_ok_def)
  have "splitn 3 (CHR ''.'') tok =
      [JWT_HEADER_B64, tk_encode env js, tk_encode env (tk_sign env k (as_bytes ?input))]"
    unfolding tok by (rule splitn_3 [OF header_no_dot b64(2)])
  then show ?thesis by (simp add: verify_token_def head b64(1) sig key Let_def)
qed

lemma verify_token_Inr:
  assumes "verify_token env now self tok = Inr c"
  obtains h p s js sig where "tok = h @ ''.'' @ p @ ''.'' @ s" "CHR ''.'' \<notin> set h" "CHR ''.'' \<notin> set p"
    "tk_decode env s = Inr sig" "tk_verify env (ti_verifying_key self) (as_bytes (h @ ''.'' @ p)) sig"
    "tk_decode env p = Inr js" "tk_claims_from_slice env js = Inr c" "now < tc_exp c"
proof -
  from assms obtain h p s where parts: "splitn 3 (CHR ''.'') tok = [h, p, s]"
    by (auto simp: verify_token_def split: list.splits)
  from splitn_3_parts [OF parts] have "tok = h @ ''.'' @ p @ ''.'' @ s" "CHR ''.'' \<notin> set h" "CHR ''.'' \<notin> set p"
    by auto
  with that assms parts show thesis
    by (auto simp: verify_token_def Let_def split: sum.splits if_splits)
qed

section \<open>Single-use tokens\<close>

text \<open>
  What is done to the list of used and revoked identifiers over time: identifiers are marked, revoked
  and pruned, each by one operation under the lock of the list. Nothing in the program says which task
  marks the identifier of a token it has verified, or when; so marking is an event of its own, with any
  identifier and expiry. \<open>accepted_marks\<close> lists the marks that succeed, with their times.
\<close>

datatype list_event = Mark string int | Revoke_Id string int | Prune

fun list_step :: "int \<Rightarrow> revocation_list \<Rightarrow> list_event \<Rightarrow> revocation_list \<times> string list" where
  "list_step now self (Mark jti expires_at) =
     (case check_and_mark_used self jti expires_at of
        (self, Inr _) \<Rightarrow> (self, [jti])
      | (self, Inl _) \<Rightarrow> (self, []))"
| "list_step now self (Revoke_Id jti expires_at) = (revoke_token self jti expires_at, [])"
| "list_step now self Prune = (cleanup now self, [])"

fun accepted_marks :: "revocation_list \<Rightarrow> (int \<times> list_event) list \<Rightarrow> (int \<times> string) list" where
  "accepted_marks self [] = []"
| "accepted_marks self ((now, ev) # rest) =
     (let (self, out) = list_step now self ev in map (Pair now) out @ accepted_marks self rest)"

text \<open>
  A registry of identifiers with a limit up to which each is kept: marking succeeds once, and
  pruning keeps what has not reached its limit.
\<close>

locale once_registry =
  fixes kept :: "'r \<Rightarrow> string \<Rightarrow> int option"
    and mark :: "'r \<Rightarrow> string \<Rightarrow> int \<Rightarrow> 'r \<times> (token_error + unit)"
    and prune :: "int \<Rightarrow> 'r \<Rightarrow> 'r"
  assumes mark_new: "kept r i = None \<Longrightarrow> mark r i t = (r', x) \<Longrightarrow> x = Inr () \<and> kept r' = (kept r)(i \<mapsto> t)"
    and mark_known: "kept r i \<noteq> None \<Longrightarrow> mark r i t = (r, Inl Token_Revoked)"
    and prune_keeps: "kept (prune now r) i = (case kept r i of None \<Rightarrow> None | Some t \<Rightarrow> if now < t then Some t else None)"
begin

lemma mark_twice:
  assumes "mark r i t = (r1, Inr ())" "now < t" "prune now r1 = r2"
  shows "mark r2 i t' = (r2, Inl Token_Revoked)"
proof -
  from assms(1) have "kept r i = None" using mark_known by (metis Inl_Inr_False prod.inject)
  with assms mark_new [of r i t r1 "Inr ()"] have "kept r2 i = Some t" by (auto simp: prune_keeps)
  then show ?thesis by (simp add: mark_known)
qed

lemma prune_mono: "kept r i = Some t \<Longrightarrow> now < t \<Longrightarrow> kept (prune now r) i = Some t"
  by (simp add: prune_keeps)

end

interpretation used: once_registry "\<lambda>r. r" check_and_mark_used cleanup
  by unfold_locales (auto simp: check_and_mark_used_def cleanup_def split: if_splits)

text \<open>The issuer reads times in whole seconds, the list in nanoseconds: a token that is verified now has not expired for the list.\<close>

lemma verified_before_expiry:
  "verify_token env (now div 10 ^ 9) issuer tok = Inr c \<Longrightarrow> now < tc_exp c * 10 ^ 9"
proof -
  assume "verify_token env (now div 10 ^ 9) issuer tok = Inr c"
  then have "now div 10 ^ 9 < tc_exp c" by (rule verify_token_Inr)
  then show ?thesis by (simp add: div_less_iff_less_mult)
qed

text \<open>The expiry with which an event enters an identifier into the list.\<close>

fun entered :: "string \<Rightarrow> list_event \<Rightarrow> int option" where
  "entered jti (Mark i expires_at) = (if i = jti then Some expires_at else None)"
| "entered jti (Revoke_Id i expires_at) = (if i = jti then Some expires_at else None)"
| "entered jti Prune = None"

lemma list_step_Mark:
  "list_step now self (Mark jti e) = (if self jti = None then (self(jti \<mapsto> e), [jti]) else (self, []))"
  by (simp add: check_and_mark_used_def)

text \<open>Up to \<open>expiry\<close> the list refuses the identifier.\<close>

definition spent :: "string \<Rightarrow> int \<Rightarrow> int \<Rightarrow> revocation_list \<Rightarrow> bool" where
  "spent jti expiry now self \<longleftrightarrow> expiry \<le> now \<or> (\<exists>e. self jti = Some e \<and> expiry \<le> e)"

lemma spent_later: "spent jti expiry now self \<Longrightarrow> now \<le> t \<Longrightarrow> spent jti expiry t self"
  by (auto simp: spent_def)

lemma spent_step:
  assumes "spent jti expiry now self" "\<forall>e. entered jti ev = Some e \<longrightarrow> expiry \<le> e" "list_step now self ev = (self', out)"
  shows "spent jti expiry now self' \<and> (now < expiry \<longrightarrow> jti \<notin> set out)"
proof (cases ev)
  case (Mark i e)
  with assms show ?thesis
    by (auto simp: list_step_Mark spent_def simp del: list_step.simps(1) split: if_splits)
next
  case (Revoke_Id i e)
  with assms show ?thesis by (cases "i = jti") (auto simp: spent_def revoke_token_def)
next
  case Prune
  with assms show ?thesis by (auto simp: spent_def used.prune_mono)
qed

lemma accepted_step:
  assumes "list_step now self ev = (self', out)" "jti \<in> set out" "\<forall>e. entered jti ev = Some e \<longrightarrow> expiry \<le> e"
  shows "out = [jti] \<and> spent jti expiry now self'"
  using assms by (cases ev) (auto simp: list_step_Mark spent_def simp del: list_step.simps(1) split: if_splits)

lemma spent_none:
  assumes "sorted (now # map fst evs)" "\<forall>(t, ev) \<in> set evs. \<forall>e. entered jti ev = Some e \<longrightarrow> expiry \<le> e" "spent jti expiry now self"
  shows "filter (\<lambda>(t, i). i = jti \<and> t < expiry) (accepted_marks self evs) = []"
  using assms
proof (induction self evs arbitrary: now rule: accepted_marks.induct)
  case (2 self t ev rest)
  obtain self' out where step: "list_step t self ev = (self', out)" by (cases "list_step t self ev")
  from "2.prems" have "spent jti expiry t self" by (auto intro: spent_later)
  from spent_step [OF this _ step] "2.prems"(2) have "spent jti expiry t self'" "t < expiry \<longrightarrow> jti \<notin> set out" by auto
  with "2.IH" [OF step [symmetric] refl, of t] "2.prems"(1,2) step show ?case by (auto simp: filter_empty_conv)
qed simp

lemma accepted_once:
  assumes "sorted (map fst evs)" "\<forall>(t, ev) \<in> set evs. \<forall>e. entered jti ev = Some e \<longrightarrow> expiry \<le> e"
  shows "length (filter (\<lambda>(t, i). i = jti \<and> t < expiry) (accepted_marks self evs)) \<le> 1"
  using assms
proof (induction self evs rule: accepted_marks.induct)
  case (2 self t ev rest)
  obtain self' out where step: "list_step t self ev = (self', out)" by (cases "list_step t self ev")
  show ?case
  proof (cases "jti \<in> set out")
    case True
    from accepted_step [OF step this] "2.prems"(2) have "out = [jti]" "spent jti expiry t self'" by auto
    moreover from spent_none [OF _ _ this(2), of rest] "2.prems"
    have "filter (\<lambda>(t, i). i = jti \<and> t < expiry) (accepted_marks self' rest) = []" by simp
    ultimately show ?thesis using step by simp
  next
    case False
    then have "filter (\<lambda>(s, i). i = jti \<and> s < expiry) (map (Pair t) out) = []" by (auto simp: filter_empty_conv)
    with "2.IH" [OF step [symmetric] refl] "2.prems" step show ?thesis by simp
  qed
qed simp

lemma find_jwk_Some: "find_jwk keys kid = Some jwk \<Longrightarrow> jwk \<in> set keys \<and> jk_key_type jwk = ''RSA''"
  by (auto simp: find_jwk_def find_Some_iff split: option.splits)

lemma check_jwks_Inr:
  assumes "check_jwks env trusted kid h p s = Inr ()"
  shows "\<exists>status keys jwk. oe_get env (jwks_url trusted) = Inr (status, Inr keys) \<and> jwk \<in> set keys \<and>
    jk_key_type jwk = ''RSA'' \<and> verify_rs256 env h p s jwk = Inr ()"
proof -
  from assms obtain status keys jwk where "oe_get env (jwks_url trusted) = Inr (status, Inr keys)"
    "find_jwk keys kid = Some jwk" "verify_rs256 env h p s jwk = Inr ()"
    by (auto simp: check_jwks_def split: sum.splits option.splits if_splits)
  with find_jwk_Some show ?thesis by blast
qed

section \<open>Properties\<close>

text \<open>
  A token that the issuer signs verifies with exactly the claims it was issued for until it
  expires, and is refused as expired from then on.
\<close>

theorem issue_then_verify:
  assumes "token_env_ok env" "issuer_from_key env k = Inr self" "issue env self claims = Inr tok"
  shows "verify_token env now self tok = (if tc_exp claims \<le> now then Inl Token_Expired else Inr claims)"
proof -
  from assms(3) obtain js where js: "tk_claims_to_vec env claims = Inr js" "sign_parts env self js = Inr tok"
    by (auto simp: issue_def split: sum.splits)
  from assms(1) js(1) have "tk_claims_from_slice env js = Inr claims" by (auto simp: token_env_ok_def)
  with verify_signed [OF assms(1,2) js(2)] show ?thesis by simp
qed

text \<open>
  A verified token was issued. When every message that has a valid signature is one that the
  issuer signed for a JSON text of a given set, the claims a token verifies with are the claims
  of such a text, and they have not expired.
\<close>

lemma verified_was_signed:
  assumes "token_env_ok env"
    and "\<And>m sig. tk_verify env (ti_verifying_key self) m sig \<Longrightarrow>
      \<exists>js \<in> texts. m = as_bytes (JWT_HEADER_B64 @ ''.'' @ tk_encode env js)"
    and "verify_token env now self tok = Inr claims"
  shows "\<exists>js \<in> texts. tk_claims_from_slice env js = Inr claims \<and> now < tc_exp claims"
  using assms(3)
proof (rule verify_token_Inr)
  fix h p s js sig
  assume h: "CHR ''.'' \<notin> set h" and p: "CHR ''.'' \<notin> set p" "tk_decode env p = Inr js"
    and sig: "tk_verify env (ti_verifying_key self) (as_bytes (h @ ''.'' @ p)) sig"
    and c: "tk_claims_from_slice env js = Inr claims" "now < tc_exp claims"
  from assms(2) [OF sig] obtain js' where js': "js' \<in> texts" "h @ ''.'' @ p = JWT_HEADER_B64 @ ''.'' @ tk_encode env js'"
    by auto
  have "p = tk_encode env js'"
    using js'(2) dot_tail [OF h, of p] dot_tail [OF header_no_dot, of "tk_encode env js'"] by simp
  with assms(1) p(2) have "js = js'" by (auto simp: token_env_ok_def)
  with js'(1) c show ?thesis by blast
qed

text \<open>
  C32. Single use. Take any sequence of marks, revocations and prunings in the order of time, on any
  list, in which every mark and revocation of an identifier gives it an expiry of at least \<open>expiry\<close>. Of the
  marks of the identifier before \<open>expiry\<close> at most one is accepted, however often the list is pruned.
\<close>

theorem token_marked_once:
  assumes "sorted (map fst evs)"
    and "\<forall>(t, ev) \<in> set evs. \<forall>e. entered jti ev = Some e \<longrightarrow> expiry \<le> e"
  shows "length (filter (\<lambda>(t, i). i = jti \<and> t < expiry) (accepted_marks self evs)) \<le> 1"
  using assms by (rule accepted_once)

text \<open>
  Both conditions are needed. A revocation replaces the expiry of an entry, also by an earlier one, and
  a pruning after that one admits the identifier again; and an identifier that is marked after its
  expiry is accepted again once the list has been pruned, so a caller that verifies a token before
  its expiry and marks it afterwards accepts it twice.
\<close>

lemma shorter_revocation_readmits:
  assumes "e \<le> t1"
  shows "snd (check_and_mark_used (cleanup t1 (revoke_token self jti e)) jti expires_at) = Inr ()"
  using assms by (simp add: check_and_mark_used_def cleanup_def revoke_token_def)

lemma late_mark_readmits:
  assumes "check_and_mark_used self jti expires_at = (self', Inr ())" "expires_at \<le> t1"
  shows "snd (check_and_mark_used (cleanup t1 self') jti expires_at) = Inr ()"
  using assms by (auto simp: check_and_mark_used_def cleanup_def split: if_splits)

text \<open>
  C34. An identity attested by OpenID is the subject of an unexpired token of a trusted issuer whose
  audience includes the required one, signed by an RSA key that was served at the address of
  that issuer.
\<close>

theorem oidc_attestation_sound:
  assumes "verify_oidc_attestation env now later config tok = Inr r"
  shows "\<exists>h p s claims_bytes claims trusted keys jwk e.
    tok = h @ ''.'' @ p @ ''.'' @ s \<and> oe_decode env p = Inr claims_bytes \<and>
    oe_from_slice env claims_bytes = Inr claims \<and> claim_str claims ''sub'' = Some (ar_identity r) \<and>
    trusted \<in> set (oc_trusted_issuers config) \<and> claim_str claims ''iss'' = Some (tr_issuer_url trusted) \<and>
    audience_ok (json_get claims ''aud'') (tr_required_audience trusted) \<and>
    Option.bind (json_get claims ''exp'') (oe_as_i64 env) = Some e \<and> now < e \<and>
    (\<exists>status. oe_get env (jwks_url trusted) = Inr (status, Inr keys)) \<and> jwk \<in> set keys \<and>
    jk_key_type jwk = ''RSA'' \<and> verify_rs256 env h p s jwk = Inr ()"
proof -
  from assms obtain h p s where parts: "splitn 3 (CHR ''.'') tok = [h, p, s]"
    by (auto simp: verify_oidc_attestation_def split: list.splits)
  with splitn_3_parts [OF parts] have tok: "tok = h @ ''.'' @ p @ ''.'' @ s" by simp
  note run = assms [unfolded verify_oidc_attestation_def parts list.case]
  obtain hb where hb: "oe_decode env h = Inr hb" using run by (auto split: sum.splits)
  note run = run [unfolded hb sum.case]
  obtain header where header: "oe_from_slice env hb = Inr header" using run by (auto split: sum.splits)
  note run = run [unfolded header sum.case Let_def]
  obtain cb where cb: "oe_decode env p = Inr cb" using run by (auto split: sum.splits if_splits)
  obtain claims where claims: "oe_from_slice env cb = Inr claims"
    using run by (auto simp: cb split: sum.splits if_splits)
  obtain iss sub where subj: "claim_str claims ''iss'' = Some iss" "claim_str claims ''sub'' = Some sub"
    using run by (auto simp: cb claims split: option.splits if_splits)
  obtain e trusted where e: "Option.bind (json_get claims ''exp'') (oe_as_i64 env) = Some e"
    and trusted: "List.find (\<lambda>t. tr_issuer_url t = iss) (oc_trusted_issuers config) = Some trusted"
    using run by (auto simp: cb claims subj split: option.splits if_splits)
  have res: "audience_ok (json_get claims ''aud'') (tr_required_audience trusted)" "now < e" "ar_identity r = sub"
    and jwks: "check_jwks env trusted (claim_str header ''kid'') h p s = Inr ()"
    using run by (auto simp: cb claims subj e trusted split: sum.splits if_splits)
  from check_jwks_Inr [OF jwks] obtain status keys jwk where
    "oe_get env (jwks_url trusted) = Inr (status, Inr keys)" "jwk \<in> set keys" "jk_key_type jwk = ''RSA''"
    "verify_rs256 env h p s jwk = Inr ()" by blast
  moreover from trusted have "trusted \<in> set (oc_trusted_issuers config)" "tr_issuer_url trusted = iss"
    by (auto simp: find_Some_iff)
  ultimately show ?thesis using tok cb claims subj e res by blast
qed

text \<open>
  A key identifier that matches no key does not stop the check: the first RSA key is used.
\<close>

lemma unknown_kid_falls_back:
  assumes "\<forall>key \<in> set keys. jk_key_id key \<noteq> Some kid"
  shows "find_jwk keys (Some kid) = find_jwk keys None"
proof -
  from assms have "List.find (\<lambda>key. jk_key_type key = ''RSA'' \<and> jk_key_id key = Some kid) keys = None"
    by (auto simp: find_None_iff)
  then show ?thesis by (simp add: find_jwk_def)
qed

text \<open>
  The signed revocation list is itself a token. It is signed with the key and the header of
  tokens, so, for a decoder of claims that ignores unknown members, it verifies for five minutes
  as a token of subject \<open>revocation-list\<close> that is not single-use.
\<close>

lemma signed_list_verifies_as_token:
  assumes "token_env_ok env" "issuer_from_key env k = Inr issuer"
    and "to_signed_list env rfc3339 seconds order uuid now self issuer = Inr tok"
    and "\<And>c v w bs. tk_claims_to_value env c = Inr v \<Longrightarrow>
      tk_value_to_vec env (json_insert ''revoked_entries'' w v) = Inr bs \<Longrightarrow> tk_claims_from_slice env bs = Inr c"
    and "at < seconds (now + 5 * 60 * 10 ^ 9)"
  shows "\<exists>claims. verify_token env at issuer tok = Inr claims \<and> tc_sub claims = ''revocation-list'' \<and>
    tc_aud claims = ''cdp-gate'' \<and> \<not> tc_single_use claims"
proof -
  let ?c = "\<lparr>tc_iss = ''cdp-gate-revocation'', tc_sub = ''revocation-list'', tc_aud = ''cdp-gate'',
    tc_exp = seconds (now + 5 * 60 * 10 ^ 9), tc_iat = seconds now, tc_jti = uuid, tc_scope = [''revocation''],
    tc_lease_id = ''internal'', tc_delegation_chain = [], tc_single_use = False\<rparr>"
  from assms(3) obtain v w bs where made: "tk_claims_to_value env ?c = Inr v"
    "tk_value_to_vec env (json_insert ''revoked_entries'' w v) = Inr bs" and tok: "sign_parts env issuer bs = Inr tok"
    by (auto simp: to_signed_list_def sign_claims_value_def Let_def split: sum.splits)
  have "tk_claims_from_slice env bs = Inr ?c" by (rule assms(4) [OF made])
  with verify_signed [OF assms(1,2) tok] assms(5) show ?thesis by simp
qed

section \<open>Witnesses\<close>

definition sample_claims :: token_claims where
  "sample_claims =
     \<lparr>tc_iss = ''g'', tc_sub = ''a'', tc_aud = ''b'', tc_exp = 10, tc_iat = 0, tc_jti = ''j'', tc_scope = [],
      tc_lease_id = ''01'', tc_delegation_chain = [], tc_single_use = True\<rparr>"

text \<open>
  A token environment: hexadecimal as the text encoding, a signature of 64 zero bytes, and a
  serialiser that knows one set of claims. The empty verifying key accepts one message only.
\<close>

definition sample_header :: json where
  "sample_header = JObject [(''alg'', JString ''EdDSA'')]"

definition sample_tokens :: token_env where
  "sample_tokens =
     \<lparr>tk_encode = hex_encode,
      tk_decode = (\<lambda>s. if s = JWT_HEADER_B64 then Inr [1]
                        else case decode_pairs s of Ret (Some bs) \<Rightarrow> Inr bs | _ \<Rightarrow> Inl ''bad''),
      tk_verifying_key = (\<lambda>_. [1]), tk_sign = (\<lambda>_ _. replicate 64 0),
      tk_verify = (\<lambda>vk m s. vk \<noteq> [] \<or> m = as_bytes (JWT_HEADER_B64 @ ''.'' @ hex_encode [5])),
      tk_claims_to_vec = (\<lambda>c. if c = sample_claims then Inr [5] else Inl ''unknown''),
      tk_claims_from_slice = (\<lambda>bs. if bs = [5] then Inr sample_claims else Inl ''unknown''),
      tk_claims_to_value = (\<lambda>_. Inl ''unknown''), tk_value_to_vec = (\<lambda>_. Inl ''unknown''),
      tk_value_from_slice = (\<lambda>_. Inr sample_header)\<rparr>"

lemma hex_encode_no_dot: "CHR ''.'' \<notin> set (hex_encode bs)"
proof -
  have digit: "digit_char n \<noteq> CHR ''.''" if "n < 16" for n
    using hex_digit_digit_char [OF that] by (auto simp: hex_digit_def)
  have "unat b div 16 < 16" for b :: u8 using unat_u8_less [of b] by simp
  then have "CHR ''.'' \<notin> set (hex_byte b)" for b
    using digit [of "unat b div 16"] digit [of "unat b mod 16"] by (auto simp: hex_byte_def)
  then show ?thesis by (induction bs) (auto simp: hex_encode_Cons hex_byte_def)
qed

lemma sample_decode: "tk_decode sample_tokens (hex_encode bs) = Inr bs"
proof -
  have "decode_pairs JWT_HEADER_B64 = Ret None" by code_simp
  then have "hex_encode bs \<noteq> JWT_HEADER_B64" using decode_pairs_hex_encode [of bs] by auto
  then show ?thesis by (simp add: sample_tokens_def decode_pairs_hex_encode)
qed

lemma sample_tokens_ok: "token_env_ok sample_tokens"
  using hex_encode_no_dot sample_decode
  by (auto simp: token_env_ok_def) (simp_all add: sample_tokens_def sample_header_def split: if_splits)

definition sample_issuer :: token_issuer where
  "sample_issuer = \<lparr>ti_secret_bytes = replicate 32 0, ti_verifying_key = [1]\<rparr>"

lemma sample_issuer_key: "issuer_from_key sample_tokens (replicate 32 0) = Inr sample_issuer"
  by (simp add: issuer_from_key_def sample_issuer_def sample_tokens_def)

definition sample_tok :: string where
  "sample_tok = JWT_HEADER_B64 @ ''.'' @ hex_encode [5] @ ''.'' @ hex_encode (replicate 64 0)"

lemma sample_issue: "issue sample_tokens sample_issuer sample_claims = Inr sample_tok"
  by (simp add: issue_def sign_parts_def sample_tokens_def sample_issuer_def sample_tok_def Let_def)

theorem issue_then_verify_witness:
  "verify_token sample_tokens 9 sample_issuer sample_tok = Inr sample_claims \<and>
   verify_token sample_tokens 10 sample_issuer sample_tok = Inl Token_Expired"
  using issue_then_verify [OF sample_tokens_ok sample_issuer_key sample_issue, of 9]
    issue_then_verify [OF sample_tokens_ok sample_issuer_key sample_issue, of 10]
  by (simp add: sample_claims_def)

lemma sample_verify:
  "verify_token sample_tokens now (sample_issuer\<lparr>ti_verifying_key := vk\<rparr>) sample_tok =
     (if 10 \<le> now then Inl Token_Expired else Inr sample_claims)"
proof -
  have "splitn 3 (CHR ''.'') sample_tok = [JWT_HEADER_B64, hex_encode [5], hex_encode (replicate 64 0)]"
    unfolding sample_tok_def by (rule splitn_3 [OF header_no_dot hex_encode_no_dot])
  moreover have "tk_decode sample_tokens JWT_HEADER_B64 = Inr [1]"
    "tk_value_from_slice sample_tokens bs = Inr sample_header" for bs by (simp_all add: sample_tokens_def)
  moreover have "Option.bind (json_get sample_header ''alg'') json_as_str = Some ''EdDSA''"
    by (simp add: sample_header_def)
  moreover have "tk_verify sample_tokens vk (as_bytes (JWT_HEADER_B64 @ ''.'' @ hex_encode [5])) x" for x
    by (simp add: sample_tokens_def)
  moreover have "tk_claims_from_slice sample_tokens [5] = Inr sample_claims" "tc_exp sample_claims = 10"
    by (simp_all add: sample_tokens_def sample_claims_def)
  ultimately show ?thesis by (simp add: verify_token_def sample_decode)
qed

lemma verified_was_signed_witness:
  "\<exists>js \<in> {[5]}. tk_claims_from_slice sample_tokens js = Inr sample_claims \<and> 9 < tc_exp sample_claims"
proof (rule verified_was_signed [OF sample_tokens_ok])
  show "verify_token sample_tokens 9 (sample_issuer\<lparr>ti_verifying_key := []\<rparr>) sample_tok = Inr sample_claims"
    by (simp add: sample_verify)
qed (simp add: sample_tokens_def)

theorem token_marked_once_witness:
  "length (filter (\<lambda>(t, i). i = ''j'' \<and> t < 10) (accepted_marks revocation_new
     [(0, Mark ''j'' 10), (1, Prune), (2, Mark ''j'' 10), (3, Revoke_Id ''j'' 12), (4, Prune), (5, Mark ''j'' 11)])) \<le> 1 \<and>
   accepted_marks revocation_new [(0, Mark ''j'' 10)] = [(0, ''j'')]"
proof
  show "length (filter (\<lambda>(t, i). i = ''j'' \<and> t < 10) (accepted_marks revocation_new
     [(0, Mark ''j'' 10), (1, Prune), (2, Mark ''j'' 10), (3, Revoke_Id ''j'' 12), (4, Prune), (5, Mark ''j'' 11)])) \<le> 1"
    by (rule token_marked_once) simp_all
  show "accepted_marks revocation_new [(0, Mark ''j'' 10)] = [(0, ''j'')]"
    by (simp add: check_and_mark_used_def revocation_new_def)
qed

definition sample_oidc :: "(unit, unit) oidc_env" where
  "sample_oidc =
     \<lparr>oe_decode = (\<lambda>s. Inr (as_bytes s)),
      oe_from_slice = (\<lambda>bs. Inr (if bs = as_bytes ''p''
        then JObject [(''iss'', JString ''i''), (''sub'', JString ''me''), (''aud'', JArray [JString ''x'', JString ''a'']),
          (''exp'', JNumber ''9'')]
        else JObject [(''alg'', JString ''RS256'')])),
      oe_as_i64 = (\<lambda>_. Some 9), oe_client = Inr (),
      oe_get = (\<lambda>url. if url = ''i/.well-known/jwks.json''
        then Inr (200, Inr [\<lparr>jk_key_id = None, jk_key_type = ''RSA'', jk_n = None, jk_e = None, jk_alg = None\<rparr>])
        else Inl ''no route''),
      oe_rsa_key = (\<lambda>_ _. Inr ()), oe_signature = (\<lambda>_. Inr ()), oe_rsa_verify = (\<lambda>_ _ _. True),
      oe_debug = (\<lambda>s. s)\<rparr>"

definition sample_oidc_config :: oidc_config where
  "sample_oidc_config =
     oidc_config_default\<lparr>oc_trusted_issuers := [\<lparr>tr_name = ''n'', tr_issuer_url = ''i'', tr_required_audience = ''a''\<rparr>]\<rparr>"

lemma sample_attest:
  "verify_oidc_attestation sample_oidc 5 5 sample_oidc_config ''h.p.s'' =
     Inr \<lparr>ar_identity = ''me'', ar_attestation_type = Oidc, ar_verified_at = 5,
          ar_metadata = [''iss'' \<mapsto> ''i'', ''aud'' \<mapsto> ''a'']\<rparr>"
proof -
  have "splitn 3 (CHR ''.'') ''h.p.s'' = [''h'', ''p'', ''s'']" by code_simp
  then show ?thesis
    by (simp add: verify_oidc_attestation_def sample_oidc_def sample_oidc_config_def oidc_config_default_def
        claim_str_def check_jwks_def jwks_url_def trim_end_char_def find_jwk_def verify_rs256_def as_bytes_def Let_def)
qed

theorem oidc_attestation_sound_witness:
  "\<exists>h p s claims_bytes claims. ''h.p.s'' = h @ ''.'' @ p @ ''.'' @ s \<and> oe_decode sample_oidc p = Inr claims_bytes \<and>
     oe_from_slice sample_oidc claims_bytes = Inr claims \<and> claim_str claims ''sub'' = Some ''me''"
proof -
  obtain r where r: "verify_oidc_attestation sample_oidc 5 5 sample_oidc_config ''h.p.s'' = Inr r" "ar_identity r = ''me''"
    using sample_attest by simp
  from oidc_attestation_sound [OF r(1)] show ?thesis unfolding r(2) by blast
qed

end
