(* ===== verification/Cdp_Gate_Tls.thy ===== *)
theory Cdp_Gate_Tls
  imports Cdp_Gate_Config Cdp_Proxy_Auth Cdp_Token
begin

text \<open>
  The listener for other agents (\<open>crates/cdp-gate/src/tls_listener.rs\<close>): its settings, the order
  in which binding and accepting can fail, and the identity that is read from the certificate of a
  client. Files, TLS and sockets are given by their outcomes. The lemmas say when the identity
  is the one the certificate states, and what happens otherwise.
\<close>

section \<open>Definitions\<close>

definition REMOTE_MAX_TTL_SECONDS :: u64 where
  "REMOTE_MAX_TTL_SECONDS = 300"

definition REMOTE_SINGLE_USE :: bool where
  "REMOTE_SINGLE_USE = True"

definition REMOTE_DELEGATION_ALLOWED :: bool where
  "REMOTE_DELEGATION_ALLOWED = False"

record tls_listener_config =
  tl_bind_address :: string
  tl_bind_port :: u16
  tl_server_cert_path :: string
  tl_server_key_path :: string
  tl_client_ca_cert_path :: string
  tl_require_client_cert :: bool

definition tls_config_new :: "string \<Rightarrow> string \<Rightarrow> string \<Rightarrow> tls_listener_config" where
  "tls_config_new server_cert_path server_key_path client_ca_cert_path =
     \<lparr>tl_bind_address = ''127.0.0.1'', tl_bind_port = 9443, tl_server_cert_path = server_cert_path,
      tl_server_key_path = server_key_path, tl_client_ca_cert_path = client_ca_cert_path,
      tl_require_client_cert = True\<rparr>"

record client_identity =
  ci_common_name :: "string option"
  ci_san_dns_names :: "string list"
  ci_san_emails :: "string list"
  ci_certificate_fingerprint :: string
  ci_issuer :: string

text \<open>
  \<open>te_pem_file\<close> opens a file of certificates and gives each of its entries; the remaining fields are the outcomes of building the verifier and the configuration, of parsing the
  address, and of binding.
\<close>

record tls_env =
  te_pem_file :: "string \<Rightarrow> string + (string + bytes) list"
  te_key_file :: "string \<Rightarrow> string + bytes"
  te_add_root :: "bytes \<Rightarrow> string + unit"
  te_client_verifier :: "bytes list \<Rightarrow> string + unit"
  te_single_cert :: "bytes list \<Rightarrow> bytes \<Rightarrow> string + unit"
  te_parse_addr :: "string \<Rightarrow> string + sock_addr"
  te_bind :: "sock_addr \<Rightarrow> string + unit"
  te_local_addr :: "string + sock_addr"
  te_show_addr :: "sock_addr \<Rightarrow> string"
  te_from_der :: "bytes \<Rightarrow> string + certificate"
  te_sha256 :: "bytes \<Rightarrow> bytes"

fun collect_certs :: "(string + bytes) list \<Rightarrow> string + bytes list" where
  "collect_certs [] = Inr []"
| "collect_certs (Inl e # _) = Inl e"
| "collect_certs (Inr c # cs) = (case collect_certs cs of Inl e \<Rightarrow> Inl e | Inr ds \<Rightarrow> Inr (c # ds))"

definition load_certs :: "tls_env \<Rightarrow> string \<Rightarrow> gate_error + bytes list" where
  "load_certs env path =
     (case te_pem_file env path of
        Inl e \<Rightarrow> Inl (GateError_Listener (''failed to read cert file '' @ path @ '': '' @ e))
      | Inr pems \<Rightarrow>
          (case collect_certs pems of
             Inl e \<Rightarrow> Inl (GateError_Listener (''PEM cert parse error: '' @ e))
           | Inr certs \<Rightarrow> Inr certs))"

definition load_private_key :: "tls_env \<Rightarrow> string \<Rightarrow> gate_error + bytes" where
  "load_private_key env path =
     (case te_key_file env path of
        Inl e \<Rightarrow> Inl (GateError_Listener (''failed to load private key from '' @ path @ '': '' @ e))
      | Inr key \<Rightarrow> Inr key)"

fun add_roots :: "tls_env \<Rightarrow> bytes list \<Rightarrow> gate_error + unit" where
  "add_roots env [] = Inr ()"
| "add_roots env (c # cs) =
     (case te_add_root env c of
        Inl e \<Rightarrow> Inl (GateError_Listener (''failed to add client CA cert: '' @ e))
      | Inr _ \<Rightarrow> add_roots env cs)"

text \<open>A bound listener, as far as the gate sees it: its address and the roots clients must chain to.\<close>

definition tls_bind :: "tls_env \<Rightarrow> tls_listener_config \<Rightarrow> gate_error + sock_addr \<times> bytes list" where
  "tls_bind env config =
     (case load_certs env (tl_server_cert_path config) of
        Inl e \<Rightarrow> Inl e
      | Inr server_certs \<Rightarrow>
     (case load_private_key env (tl_server_key_path config) of
        Inl e \<Rightarrow> Inl e
      | Inr server_key \<Rightarrow>
     (case load_certs env (tl_client_ca_cert_path config) of
        Inl e \<Rightarrow> Inl e
      | Inr client_ca_certs \<Rightarrow>
     (case add_roots env client_ca_certs of
        Inl e \<Rightarrow> Inl e
      | Inr _ \<Rightarrow>
     (case te_client_verifier env client_ca_certs of
        Inl e \<Rightarrow> Inl (GateError_Listener (''client verifier build failed: '' @ e))
      | Inr _ \<Rightarrow>
     (case te_single_cert env server_certs server_key of
        Inl e \<Rightarrow> Inl (GateError_Listener (''TLS config error: '' @ e))
      | Inr _ \<Rightarrow>
     (case te_parse_addr env (tl_bind_address config @ '':'' @ show_nat (unat (tl_bind_port config))) of
        Inl e \<Rightarrow> Inl (GateError_Listener (''invalid bind address: '' @ e))
      | Inr addr \<Rightarrow>
     (case te_bind env addr of
        Inl e \<Rightarrow> Inl (GateError_Listener (''failed to bind mTLS listener on '' @ te_show_addr env addr @ '': '' @ e))
      | Inr _ \<Rightarrow>
     (case te_local_addr env of
        Inl e \<Rightarrow> Inl (GateError_Listener (''local_addr failed: '' @ e))
      | Inr bind_addr \<Rightarrow> Inr (bind_addr, client_ca_certs))))))))))"

definition parse_cert_fields :: "tls_env \<Rightarrow> int \<Rightarrow> bytes \<Rightarrow> string \<times> string list \<times> string list \<times> string" where
  "parse_cert_fields env now cert_der =
     (case verify_mtls_attestation (te_from_der env) (te_sha256 env) now cert_der of
        Inr result \<Rightarrow>
          (ar_identity result,
           (case ar_metadata result ''san_dns'' of Some s \<Rightarrow> split_on (CHR '','') s | None \<Rightarrow> []),
           (case ar_metadata result ''san_email'' of Some s \<Rightarrow> split_on (CHR '','') s | None \<Rightarrow> []),
           (case ar_metadata result ''issuer'' of Some s \<Rightarrow> s | None \<Rightarrow> ''unknown''))
      | Inl _ \<Rightarrow> ([], [], [], ''unknown''))"

definition extract_client_identity :: "tls_env \<Rightarrow> int \<Rightarrow> bytes list option \<Rightarrow> string + client_identity" where
  "extract_client_identity env now peer_certificates =
     (case peer_certificates of
        None \<Rightarrow> Inl ''no peer certificates in mTLS stream''
      | Some [] \<Rightarrow> Inl ''empty certificate chain''
      | Some (cert_der # _) \<Rightarrow>
          (case parse_cert_fields env now cert_der of
             (cn, san_dns_names, san_emails, issuer) \<Rightarrow>
               Inr \<lparr>ci_common_name = (if cn = [] then None else Some cn), ci_san_dns_names = san_dns_names,
                    ci_san_emails = san_emails, ci_certificate_fingerprint = hex_encode (te_sha256 env cert_der),
                    ci_issuer = issuer\<rparr>))"

text \<open>
  \<open>accepted\<close> is the outcome of accepting a connection, with the address of the peer, and
  \<open>handshake\<close> that of TLS, with the certificates of the peer.
\<close>

definition tls_accept ::
  "tls_env \<Rightarrow> int \<Rightarrow> string + sock_addr \<Rightarrow> (sock_addr \<Rightarrow> string + bytes list option) \<Rightarrow> gate_error + client_identity" where
  "tls_accept env now accepted handshake =
     (case accepted of
        Inl e \<Rightarrow> Inl (GateError_Listener (''TCP accept failed: '' @ e))
      | Inr peer_addr \<Rightarrow>
     (case handshake peer_addr of
        Inl e \<Rightarrow> Inl (GateError_Listener (''TLS handshake failed from '' @ te_show_addr env peer_addr @ '': '' @ e))
      | Inr certs \<Rightarrow>
     (case extract_client_identity env now certs of
        Inl e \<Rightarrow> Inl (AgentVerification (Client_Identity e))
      | Inr identity \<Rightarrow> Inr identity)))"

section \<open>Lemmas\<close>

definition cert_dns :: "certificate \<Rightarrow> string list" where
  "cert_dns cert = List.map_filter dns_name (alt_names cert)"

definition cert_emails :: "certificate \<Rightarrow> string list" where
  "cert_emails cert = List.map_filter email_name (alt_names cert)"

text \<open>The name under which a certificate is attested: common name, first DNS name or fingerprint.\<close>

definition attested_name :: "tls_env \<Rightarrow> bytes \<Rightarrow> certificate \<Rightarrow> string" where
  "attested_name env cert_der cert =
     (if common_name cert \<noteq> [] then common_name cert
      else case cert_dns cert of dns # _ \<Rightarrow> dns | [] \<Rightarrow> hex_encode (te_sha256 env cert_der))"

lemma attested_certificate:
  assumes "te_from_der env cert_der = Inr cert"
  shows "parse_cert_fields env now cert_der =
    (attested_name env cert_der cert,
     (if cert_dns cert = [] then [] else split_on (CHR '','') (join '','' (cert_dns cert))),
     (if cert_emails cert = [] then [] else split_on (CHR '','') (join '','' (cert_emails cert))), ''unknown'')"
  using assms
  by (simp add: parse_cert_fields_def verify_mtls_attestation_def attested_name_def cert_dns_def cert_emails_def Let_def)

section \<open>Properties\<close>

text \<open>
  The identity of a client is that of its certificate when no alternative name contains a
  comma: the DNS names and addresses are those of the certificate in their order, and the
  fingerprint is the hash of the certificate. The common name is the one of the certificate
  only if it has one; otherwise it is the first DNS name, or the fingerprint.
\<close>

theorem client_identity_of_certificate:
  assumes "te_from_der env cert_der = Inr cert"
    and "\<forall>name \<in> set (cert_dns cert) \<union> set (cert_emails cert). CHR '','' \<notin> set name"
  shows "extract_client_identity env now (Some (cert_der # chain)) =
    Inr \<lparr>ci_common_name = (if attested_name env cert_der cert = [] then None else Some (attested_name env cert_der cert)),
      ci_san_dns_names = cert_dns cert, ci_san_emails = cert_emails cert,
      ci_certificate_fingerprint = hex_encode (te_sha256 env cert_der), ci_issuer = ''unknown''\<rparr>"
  using assms(2) attested_certificate [OF assms(1)]
  by (simp add: extract_client_identity_def split_on_join)

text \<open>
  A comma in an alternative name makes names that the certificate does not have: a client whose
  certificate authority lets it put a comma into one DNS name is known under two others.
\<close>

lemma comma_forges_names:
  assumes "te_from_der env cert_der = Inr cert" "cert_dns cert = [a @ CHR '','' # b]"
    and "CHR '','' \<notin> set a" "CHR '','' \<notin> set b"
  shows "\<exists>i. extract_client_identity env now (Some (cert_der # chain)) = Inr i \<and> ci_san_dns_names i = [a, b]"
  using attested_certificate [OF assms(1)] assms(2-)
  by (simp add: extract_client_identity_def split_on_append_sep split_on_no_sep_id)

section \<open>Witnesses\<close>

definition sample_cert :: certificate where
  "sample_cert =
     \<lparr>ce_subject = [[(OID_COMMON_NAME, Some ''agent'', None)]],
      ce_extensions = Some [(OID_SUBJECT_ALT_NAME, Some [DnsName ''a.example'', Rfc822Name ''m@a''])]\<rparr>"

definition sample_tls :: tls_env where
  "sample_tls =
     \<lparr>te_pem_file = (\<lambda>_. Inr []), te_key_file = (\<lambda>_. Inr []), te_add_root = (\<lambda>_. Inr ()),
      te_client_verifier = (\<lambda>_. Inr ()), te_single_cert = (\<lambda>_ _. Inr ()),
      te_parse_addr = (\<lambda>_. Inl []), te_bind = (\<lambda>_. Inr ()), te_local_addr = Inl [], te_show_addr = (\<lambda>_. []),
      te_from_der = (\<lambda>_. Inr sample_cert), te_sha256 = (\<lambda>b. b)\<rparr>"

theorem client_identity_of_certificate_witness:
  "\<exists>i. extract_client_identity sample_tls 0 (Some [[255]]) = Inr i \<and> ci_common_name i = Some ''agent'' \<and>
     ci_san_dns_names i = [''a.example''] \<and> ci_san_emails i = [''m@a'']"
proof -
  have cert: "te_from_der sample_tls [255] = Inr sample_cert" by (simp add: sample_tls_def)
  have names: "cert_dns sample_cert = [''a.example'']" "cert_emails sample_cert = [''m@a'']" "common_name sample_cert = ''agent''"
    by (simp_all add: cert_dns_def cert_emails_def common_name_def alt_names_def sample_cert_def map_filter_simps attribute_text_def)
  from client_identity_of_certificate [OF cert, of 0 "[]"] show ?thesis by (simp add: names attested_name_def)
qed

end
