(* ===== verification/Cdp_Proxy_Mitm.thy ===== *)
theory Cdp_Proxy_Mitm
  imports Cdp_Proxy_Scope Cdp_Browser_Cookies
begin

text \<open>
  TLS interception (\<open>crates/cdp-proxy/src/mitm.rs\<close>): which tunnels are intercepted, and what the
  bytes of an intercepted connection look like on the other side. Certificates, TLS and sockets
  are the results of their operations in \<open>mitm_env\<close>; the two copying loops are functions of the
  reads they see. The lemmas give the exact effect of the two header functions on a message and
  show where that effect is not what the functions are for.
\<close>

section \<open>Header functions\<close>

definition CRLF :: bytes where
  "CRLF = [13, 10]"

text \<open>\<open>windows(n).position\<close> for a non-empty pattern: the first place where the pattern occurs.\<close>

fun window_pos :: "bytes \<Rightarrow> bytes \<Rightarrow> nat option" where
  "window_pos sep [] = None"
| "window_pos sep (b # bs) =
     (if take (length sep) (b # bs) = sep then Some 0 else map_option Suc (window_pos sep bs))"

definition find_header_end :: "bytes \<Rightarrow> nat option" where
  "find_header_end data = map_option (\<lambda>p. p + 4) (window_pos (CRLF @ CRLF) data)"

definition inject_cookie_header :: "bytes \<Rightarrow> string \<Rightarrow> bytes" where
  "inject_cookie_header data cookie_value =
     (case find_header_end data of
        Some pos \<Rightarrow>
          (let insert_at = pos - 4 in
           take insert_at data @ as_bytes ''Cookie: '' @ as_bytes cookie_value @ CRLF @ drop insert_at data)
      | None \<Rightarrow> data)"

lemma window_pos_bound: "window_pos sep bs = Some p \<Longrightarrow> sep \<noteq> [] \<Longrightarrow> p + length sep \<le> length bs"
proof (induction sep bs arbitrary: p rule: window_pos.induct)
  case (2 sep b bs)
  show ?case
  proof (cases "take (length sep) (b # bs) = sep")
    case True
    with 2 show ?thesis by (metis add_0 length_take min.cobounded1 option.inject window_pos.simps(2))
  next
    case False
    with 2 show ?thesis by auto
  qed
qed simp

function filter_header_lines :: "(bytes \<Rightarrow> bool) \<Rightarrow> bytes \<Rightarrow> bytes" where
  "filter_header_lines keep_line rest =
     (if rest = [] then []
      else (case window_pos CRLF rest of
              Some p \<Rightarrow>
                (let line = take p rest in
                 (if keep_line line then line @ CRLF else []) @ filter_header_lines keep_line (drop (p + 2) rest))
            | None \<Rightarrow> if keep_line rest then rest else []))"
  by pat_completeness auto
termination by (relation "measure (\<lambda>(_, rest). length rest)") auto

declare filter_header_lines.simps [simp del]

definition to_ascii_lowercase :: "bytes \<Rightarrow> bytes" where
  "to_ascii_lowercase = map (\<lambda>b. if 65 \<le> b \<and> b \<le> 90 then b + 32 else b)"

definition keeps_line :: "bytes \<Rightarrow> bool" where
  "keeps_line line \<longleftrightarrow>
     take (length (as_bytes ''set-cookie:'')) (to_ascii_lowercase line) \<noteq> as_bytes ''set-cookie:''"

definition strip_set_cookie :: "bytes \<Rightarrow> bytes" where
  "strip_set_cookie data =
     (case find_header_end data of
        Some header_end_pos \<Rightarrow>
          filter_header_lines keeps_line (take header_end_pos data) @ drop header_end_pos data
      | None \<Rightarrow> data)"

section \<open>Connections\<close>

text \<open>\<open>str::rsplit_once\<close>.\<close>

definition rsplit_once :: "char \<Rightarrow> string \<Rightarrow> (string \<times> string) option" where
  "rsplit_once d s =
     (if d \<in> set s
      then Some (rev (tl (dropWhile (\<lambda>c. c \<noteq> d) (rev s))), rev (takeWhile (\<lambda>c. c \<noteq> d) (rev s)))
      else None)"

definition quoted :: "string \<Rightarrow> string" where
  "quoted s = CHR 0x27 # s @ [CHR 0x27]"

definition parse_connect_target :: "string \<Rightarrow> proxy_error + string \<times> u16" where
  "parse_connect_target authority =
     (case rsplit_once (CHR '':'') authority of
        None \<Rightarrow> Inl (Upstream (''CONNECT authority missing port: '' @ quoted authority))
      | Some (host, port_str) \<Rightarrow>
          (case parse_uint 65535 port_str of
             None \<Rightarrow> Inl (Upstream (''CONNECT authority has invalid port: '' @ quoted authority))
           | Some port \<Rightarrow> Inr (host, of_nat port)))"

record mitm_proxy =
  mp_cookie_store :: cookie_store
  mp_allowed_origins :: "string set"

text \<open>
  \<open>me_write_200\<close> writes the answer to the agent; the other fields are the certificate, the
  handshakes and the connection to an address. \<open>Connecting\<close> to an address and what is written to
  each side are recorded.
\<close>

record mitm_env =
  me_write_200 :: "string + unit"
  me_issue_leaf_cert :: "string \<Rightarrow> string + unit"
  me_server_config :: "string + unit"
  me_accept :: "string + unit"
  me_connect :: "string \<Rightarrow> string + unit"
  me_server_name :: "string \<Rightarrow> bool"
  me_handshake :: "string \<Rightarrow> string + unit"

datatype mitm_io = Connecting string | To_Agent bytes | To_Upstream bytes

text \<open>
  The reads of the two directions in the order in which they complete. The empty read is the end
  of a stream, and a read or a write that fails ends its direction in the same way; the first
  direction to end, ends both.
\<close>

datatype read = Agent_Read bytes | Upstream_Read bytes

definition agent_to_upstream :: "string option \<Rightarrow> bytes \<Rightarrow> bytes" where
  "agent_to_upstream cookie_hdr data =
     (case cookie_hdr of Some hdr \<Rightarrow> inject_cookie_header data hdr | None \<Rightarrow> data)"

fun forward_with_interception :: "string option \<Rightarrow> read list \<Rightarrow> mitm_io list" where
  "forward_with_interception cookie_header [] = []"
| "forward_with_interception cookie_header (Agent_Read data # reads) =
     (if data = [] then []
      else To_Upstream (agent_to_upstream cookie_header data) # forward_with_interception cookie_header reads)"
| "forward_with_interception cookie_header (Upstream_Read data # reads) =
     (if data = [] then []
      else To_Agent (strip_set_cookie data) # forward_with_interception cookie_header reads)"

definition established :: bytes where
  "established = as_bytes ''HTTP/1.1 200 Connection Established'' @ CRLF @ CRLF"

definition upstream_addr :: "string \<Rightarrow> u16 \<Rightarrow> string" where
  "upstream_addr host port = host @ '':'' @ show_nat (unat port)"

definition intercept ::
  "mitm_env \<Rightarrow> mitm_proxy \<Rightarrow> string \<Rightarrow> u16 \<Rightarrow> read list \<Rightarrow> mitm_io list \<times> (proxy_error + unit)" where
  "intercept env self host port reads =
     (case me_write_200 env of
        Inl e \<Rightarrow> ([], Inl (Upstream (''write 200 to agent: '' @ e)))
      | Inr _ \<Rightarrow>
     (let sent = [To_Agent established] in
      case me_issue_leaf_cert env host of
        Inl e \<Rightarrow> (sent, Inl (Upstream (''issue leaf cert: '' @ e)))
      | Inr _ \<Rightarrow>
     (case me_server_config env of
        Inl e \<Rightarrow> (sent, Inl (Upstream (''build server TLS config: '' @ e)))
      | Inr _ \<Rightarrow>
     (case me_accept env of
        Inl e \<Rightarrow> (sent, Inl (Upstream (''TLS accept from agent: '' @ e)))
      | Inr _ \<Rightarrow>
     (let sent = sent @ [Connecting (upstream_addr host port)] in
      case me_connect env (upstream_addr host port) of
        Inl e \<Rightarrow> (sent, Inl (Upstream (''connect to upstream '' @ upstream_addr host port @ '': '' @ e)))
      | Inr _ \<Rightarrow>
     (if \<not> me_server_name env host then (sent, Inl (Upstream (''invalid server name: '' @ host)))
      else (case me_handshake env host of
              Inl e \<Rightarrow> (sent, Inl (Upstream (''upstream TLS handshake: '' @ e)))
            | Inr _ \<Rightarrow>
                (let cookie_header = build_cookie_header (mp_cookie_store self) (''https://'' @ host) in
                 (sent @ forward_with_interception cookie_header reads, Inr ())))))))))"

text \<open>A tunnel copies the bytes; the empty read is passed on as the half-close of the other side.\<close>

fun copy_bidirectional :: "read list \<Rightarrow> mitm_io list" where
  "copy_bidirectional [] = []"
| "copy_bidirectional (Agent_Read data # reads) = To_Upstream data # copy_bidirectional reads"
| "copy_bidirectional (Upstream_Read data # reads) = To_Agent data # copy_bidirectional reads"

definition tunnel ::
  "mitm_env \<Rightarrow> string \<Rightarrow> u16 \<Rightarrow> read list \<Rightarrow> mitm_io list \<times> (proxy_error + unit)" where
  "tunnel env host port reads =
     (let sent = [Connecting (upstream_addr host port)] in
      case me_connect env (upstream_addr host port) of
        Inl e \<Rightarrow> (sent, Inl (Upstream (''tunnel connect to '' @ upstream_addr host port @ '': '' @ e)))
      | Inr _ \<Rightarrow>
     (case me_write_200 env of
        Inl e \<Rightarrow> (sent, Inl (Upstream (''write 200 (tunnel): '' @ e)))
      | Inr _ \<Rightarrow> (sent @ To_Agent established # copy_bidirectional reads, Inr ())))"

definition handle_connect ::
  "mitm_env \<Rightarrow> mitm_proxy \<Rightarrow> string \<Rightarrow> u16 \<Rightarrow> read list \<Rightarrow> mitm_io list \<times> (proxy_error + unit)" where
  "handle_connect env self host port reads =
     (if host \<in> mp_allowed_origins self then intercept env self host port reads
      else tunnel env host port reads)"

section \<open>Lemmas\<close>

lemma length_CRLF [simp]: "length CRLF = 2"
  by (simp add: CRLF_def)

text \<open>A head of lines: each line followed by a line end.\<close>

definition head :: "bytes list \<Rightarrow> bytes" where
  "head ls = concat (map (\<lambda>l. l @ CRLF) ls)"

lemma head_simps [simp]: "head [] = []" "head (l # ls) = l @ CRLF @ head ls"
  by (simp_all add: head_def)

definition line_ok :: "bytes \<Rightarrow> bool" where
  "line_ok l \<longleftrightarrow> l \<noteq> [] \<and> 13 \<notin> set l"

lemma window_pos_skip:
  "13 \<notin> set l \<Longrightarrow> window_pos (13 # sep) (l @ bs) = map_option (\<lambda>p. length l + p) (window_pos (13 # sep) bs)"
proof (induction l)
  case Nil
  show ?case by (cases "window_pos (13 # sep) bs") simp_all
next
  case (Cons b l)
  then have "b \<noteq> 13" "13 \<notin> set l" by auto
  with Cons.IH show ?case by (simp add: option.map_comp comp_def)
qed

lemma window_pos_line: "13 \<notin> set l \<Longrightarrow> window_pos CRLF (l @ CRLF @ bs) = Some (length l)"
  unfolding CRLF_def by (simp add: window_pos_skip)

lemma window_pos_head:
  assumes "ls \<noteq> []" "\<forall>l \<in> set ls. line_ok l"
  shows "window_pos (CRLF @ CRLF) (head ls @ CRLF @ body) = Some (length (head ls) - 2)"
  using assms
proof (induction ls)
  case (Cons l ls)
  have skip: "window_pos (CRLF @ CRLF) (l @ bs) = map_option (\<lambda>p. length l + p) (window_pos (CRLF @ CRLF) bs)" for bs
    using Cons.prems window_pos_skip [of l "10 # CRLF"] by (simp add: CRLF_def line_ok_def)
  show ?case
  proof (cases ls)
    case Nil
    have "window_pos (CRLF @ CRLF) (CRLF @ CRLF @ body) = Some 0" by (simp add: CRLF_def)
    with Nil show ?thesis by (simp add: skip)
  next
    case (Cons m ms)
    with Cons.prems have "line_ok m" by simp
    then obtain b bs where m: "m = b # bs" "b \<noteq> 13" by (cases m) (auto simp: line_ok_def)
    have "window_pos (CRLF @ CRLF) (CRLF @ head ls @ CRLF @ body) =
        map_option (\<lambda>p. p + 2) (window_pos (CRLF @ CRLF) (head ls @ CRLF @ body))"
      using Cons m by (simp add: CRLF_def option.map_comp comp_def)
    with Cons.IH Cons.prems Cons show ?thesis by (simp add: skip)
  qed
qed simp

lemma find_header_end_head:
  assumes "ls \<noteq> []" "\<forall>l \<in> set ls. line_ok l"
  shows "find_header_end (head ls @ CRLF @ body) = Some (length (head ls) + 2)"
proof -
  have "2 \<le> length (head ls)" using assms(1) by (cases ls) simp_all
  with window_pos_head [OF assms] show ?thesis by (simp add: find_header_end_def)
qed

lemma filter_header_lines_Cons:
  assumes "13 \<notin> set l"
  shows "filter_header_lines k (l @ CRLF @ rest) = (if k l then l @ CRLF else []) @ filter_header_lines k rest"
proof -
  have ne: "l @ CRLF @ rest \<noteq> []" by (simp add: CRLF_def)
  show ?thesis
    unfolding filter_header_lines.simps [of k "l @ CRLF @ rest"] if_not_P [OF ne]
    by (simp add: window_pos_line [OF assms] Let_def)
qed

lemma filter_header_lines_head:
  "\<forall>l \<in> set ls. line_ok l \<Longrightarrow> filter_header_lines k (head ls @ rest) = head (filter k ls) @ filter_header_lines k rest"
  by (induction ls) (simp_all add: filter_header_lines_Cons line_ok_def)

lemma filter_header_lines_end: "k [] \<Longrightarrow> filter_header_lines k CRLF = CRLF"
  using filter_header_lines_Cons [of "[]" k "[]"] by (simp add: filter_header_lines.simps [of k "[]"])

lemma keeps_empty [simp]: "keeps_line []"
  by (simp add: keeps_line_def to_ascii_lowercase_def as_bytes_def)

lemma rsplit_once_append:
  assumes "d \<notin> set t"
  shows "rsplit_once d (s @ d # t) = Some (s, t)"
proof -
  have "takeWhile (\<lambda>c. c \<noteq> d) (rev t @ d # rev s) = rev t"
    "dropWhile (\<lambda>c. c \<noteq> d) (rev t @ d # rev s) = d # rev s"
    using assms by (simp_all add: takeWhile_append dropWhile_append)
  then show ?thesis by (simp add: rsplit_once_def)
qed

lemma colon_notin_show_nat: "CHR '':'' \<notin> set (show_nat n)"
  using show_nat_plain [of "CHR '':''" n] by (auto simp: of_char_def)

section \<open>Properties\<close>

text \<open>
  On a message that is read at once, stripping removes exactly the lines of the head that begin
  with \<open>Set-Cookie:\<close> in any case, and leaves every other line and the body as they are.
\<close>

theorem strip_set_cookie_exact:
  assumes "ls \<noteq> []" "\<forall>l \<in> set ls. line_ok l"
  shows "strip_set_cookie (head ls @ CRLF @ body) = head (filter keeps_line ls) @ CRLF @ body"
proof -
  have "take (length (head ls) + 2) (head ls @ CRLF @ body) = head ls @ CRLF"
    "drop (length (head ls) + 2) (head ls @ CRLF @ body) = body" by simp_all
  with find_header_end_head [OF assms] filter_header_lines_head [OF assms(2)] show ?thesis
    by (simp add: strip_set_cookie_def filter_header_lines_end)
qed

theorem strip_set_cookie_exact_witness:
  "strip_set_cookie (head [as_bytes ''HTTP/1.1 200 OK'', as_bytes ''SET-Cookie: s=1'', as_bytes ''Server: x''] @
      CRLF @ as_bytes ''Set-Cookie: body'') =
    head [as_bytes ''HTTP/1.1 200 OK'', as_bytes ''Server: x''] @ CRLF @ as_bytes ''Set-Cookie: body''"
proof -
  let ?ls = "[as_bytes ''HTTP/1.1 200 OK'', as_bytes ''SET-Cookie: s=1'', as_bytes ''Server: x'']"
  have "\<forall>l \<in> set ?ls. line_ok l" by (simp add: line_ok_def as_bytes_def)
  from strip_set_cookie_exact [OF _ this, of "as_bytes ''Set-Cookie: body''"] show ?thesis
    by (simp add: keeps_line_def to_ascii_lowercase_def as_bytes_def)
qed

text \<open>
  The head of a response need not arrive in one read. When no read contains the end of the head
  within itself, nothing is stripped: the agent receives every byte, \<open>Set-Cookie\<close> lines included.
\<close>

lemma split_head_is_not_stripped:
  assumes "\<forall>data \<in> set datas. data \<noteq> [] \<and> window_pos (CRLF @ CRLF) data = None"
  shows "forward_with_interception hdr (map Upstream_Read datas) = map To_Agent datas"
  using assms by (induction datas) (simp_all add: strip_set_cookie_def find_header_end_def)

text \<open>
  The injected cookie is not a header. On a request that is read at once it is appended to the
  text of the last header line, and the line end that follows it ends the head early, so that
  the body begins with two bytes that the agent did not send.
\<close>

theorem injected_cookie_extends_last_header:
  assumes "\<forall>l \<in> set (ls @ [l]). line_ok l"
  shows "inject_cookie_header (head (ls @ [l]) @ CRLF @ body) v =
    head (ls @ [l @ as_bytes ''Cookie: '' @ as_bytes v]) @ CRLF @ CRLF @ body"
proof -
  have head_app: "head (xs @ [x]) = head xs @ x @ CRLF" for xs x by (simp add: head_def)
  have "find_header_end (head (ls @ [l]) @ CRLF @ body) = Some (length (head ls) + length l + 4)"
    using find_header_end_head [of "ls @ [l]" body] assms by (simp add: head_app)
  then show ?thesis by (simp add: inject_cookie_header_def head_app Let_def)
qed

theorem injected_cookie_extends_last_header_witness:
  "inject_cookie_header (head [as_bytes ''GET / HTTP/1.1'', as_bytes ''Host: a''] @ CRLF @ []) ''s=1'' =
    head [as_bytes ''GET / HTTP/1.1'', as_bytes ''Host: aCookie: s=1''] @ CRLF @ CRLF"
proof -
  have "\<forall>l \<in> set ([as_bytes ''GET / HTTP/1.1''] @ [as_bytes ''Host: a'']). line_ok l"
    by (simp add: line_ok_def as_bytes_def)
  from injected_cookie_extends_last_header [OF this, of "[]" "''s=1''"] show ?thesis
    by (simp add: as_bytes_def)
qed

text \<open>
  The cookie goes into bodies too: every read that contains an empty line gets it, whether or not
  the read belongs to the body of a request.
\<close>

lemma cookie_injected_into_body:
  assumes "window_pos (CRLF @ CRLF) data = Some p" "data \<noteq> []"
  shows "forward_with_interception (Some v) [Agent_Read data] =
    [To_Upstream (take p data @ as_bytes ''Cookie: '' @ as_bytes v @ CRLF @ drop p data)]"
  using assms by (simp add: agent_to_upstream_def inject_cookie_header_def find_header_end_def Let_def)

text \<open>
  The address the proxy writes for a host and a port parses back to them; an authority with no
  port is refused.
\<close>

lemma parse_connect_target_roundtrip:
  "parse_connect_target (upstream_addr host port) = Inr (host, port)"
proof -
  have "CHR '':'' \<notin> set (show_nat (unat port))" by (rule colon_notin_show_nat)
  from rsplit_once_append [OF this, of host] show ?thesis
    using unsigned_less [of port, where 'a = nat] by (simp add: parse_connect_target_def upstream_addr_def parse_uint_show_nat)
qed

end
