(* ===== verification/Cdp_Proxy_Ca.thy ===== *)
theory Cdp_Proxy_Ca
  imports Cdp_Proxy_Mitm "HOL-Library.Sublist"
begin

text \<open>
  The certificate authority of TLS interception (\<open>crates/cdp-proxy/src/mitm_ca.rs\<close>). The crate that
  makes keys and certificates and the arithmetic of the \<open>time\<close> crate are arguments; certificate
  parameters are the fields that the code sets. The lemmas show for which names certificates are
  signed, that they lie within the name constraints of the authority, and how the cache behaves.
\<close>

section \<open>Keys and certificates\<close>

datatype key_usage = KeyCertSign | CrlSign | DigitalSignature | KeyEncipherment

record certificate_params =
  cp_subject_alt_names :: "string list"
  cp_common_name :: "string option"
  cp_organization_name :: "string option"
  cp_is_ca :: bool
  cp_key_usages :: "key_usage list"
  cp_server_auth :: bool
  cp_not_before :: int
  cp_not_after :: int
  cp_permitted_subtrees :: "string list option"

text \<open>
  \<open>rc_default\<close> and \<open>rc_new\<close> make parameters, the latter for a list of names; \<open>rc_add_hours\<close> is the sum of a time and a duration
  in hours, \<open>None\<close> when it panics.
\<close>

record ('key, 'cert) rcgen =
  rc_default :: certificate_params
  rc_new :: "string list \<Rightarrow> string + certificate_params"
  rc_self_signed :: "certificate_params \<Rightarrow> 'key \<Rightarrow> string + 'cert"
  rc_signed_by :: "certificate_params \<Rightarrow> 'key \<Rightarrow> 'cert \<Rightarrow> 'key \<Rightarrow> string + 'cert"
  rc_cert_der :: "'cert \<Rightarrow> bytes"
  rc_key_der :: "'key \<Rightarrow> bytes"
  rc_add_hours :: "int \<Rightarrow> int \<Rightarrow> int option"

section \<open>The authority\<close>

record ('key, 'cert) mitm_ca =
  ca_cert_der :: bytes
  ca_cert :: 'cert
  ca_key :: 'key
  ca_allowed_origins :: "string list"
  ca_leaf_cache :: "string \<rightharpoonup> bytes \<times> bytes"
  ca_validity_hours :: u64

definition ca_params :: "certificate_params \<Rightarrow> string list \<Rightarrow> int \<Rightarrow> int \<Rightarrow> certificate_params" where
  "ca_params params allowed_origins now expires =
     params\<lparr>cp_common_name := Some ''CDP MITM CA'', cp_organization_name := Some ''CDP Gate'',
       cp_is_ca := True, cp_key_usages := [KeyCertSign, CrlSign, DigitalSignature],
       cp_not_before := now, cp_not_after := expires, cp_permitted_subtrees := Some allowed_origins\<rparr>"

text \<open>\<open>key\<close> is the outcome of the generation of a key pair, \<open>now\<close> the clock; \<open>None\<close> is a panic.\<close>

definition ca_generate ::
  "('key, 'cert) rcgen \<Rightarrow> string + 'key \<Rightarrow> int \<Rightarrow> string list \<Rightarrow> u64 \<Rightarrow> (proxy_error + ('key, 'cert) mitm_ca) option" where
  "ca_generate rc key now allowed_origins validity_hours =
     (if allowed_origins = [] then Some (Inl (Upstream ''MitmCa: allowed_origins must not be empty''))
      else
     (case key of
        Inl e \<Rightarrow> Some (Inl (Upstream (''CA keygen: '' @ e)))
      | Inr k \<Rightarrow>
     (case rc_add_hours rc now (sint validity_hours) of
        None \<Rightarrow> None
      | Some expires \<Rightarrow>
     (case rc_self_signed rc (ca_params (rc_default rc) allowed_origins now expires) k of
        Inl e \<Rightarrow> Some (Inl (Upstream (''CA self-sign: '' @ e)))
      | Inr cert \<Rightarrow>
          Some (Inr \<lparr>ca_cert_der = rc_cert_der rc cert, ca_cert = cert, ca_key = k,
            ca_allowed_origins = allowed_origins, ca_leaf_cache = Map.empty, ca_validity_hours = validity_hours\<rparr>)))))"

definition ends_with :: "string \<Rightarrow> string \<Rightarrow> bool" where
  "ends_with s t \<longleftrightarrow> suffix t s"

definition ca_is_allowed :: "('key, 'cert) mitm_ca \<Rightarrow> string \<Rightarrow> bool" where
  "ca_is_allowed self origin = list_ex (\<lambda>o'. o' = origin \<or> ends_with origin (CHR ''.'' # o')) (ca_allowed_origins self)"

definition leaf_params :: "certificate_params \<Rightarrow> string \<Rightarrow> int \<Rightarrow> int \<Rightarrow> certificate_params" where
  "leaf_params params origin now expires =
     params\<lparr>cp_common_name := Some origin, cp_is_ca := False,
       cp_server_auth := True, cp_key_usages := [DigitalSignature, KeyEncipherment],
       cp_not_before := now, cp_not_after := expires\<rparr>"

definition issue_leaf_cert ::
  "('key, 'cert) rcgen \<Rightarrow> string + 'key \<Rightarrow> int \<Rightarrow> ('key, 'cert) mitm_ca \<Rightarrow> string
   \<Rightarrow> ((proxy_error + bytes \<times> bytes) \<times> ('key, 'cert) mitm_ca) option" where
  "issue_leaf_cert rc key now self origin =
     (if \<not> ca_is_allowed self origin then Some (Inl (ScopeViolation (Origin_Not_Allowed origin)), self)
      else
     (case ca_leaf_cache self origin of
        Some leaf \<Rightarrow> Some (Inr leaf, self)
      | None \<Rightarrow>
     (case key of
        Inl e \<Rightarrow> Some (Inl (Upstream (''leaf keygen for '' @ quoted origin @ '': '' @ e)), self)
      | Inr k \<Rightarrow>
     (case rc_new rc [origin] of
        Inl e \<Rightarrow> Some (Inl (Upstream (''leaf cert params for '' @ quoted origin @ '': '' @ e)), self)
      | Inr params \<Rightarrow>
     (case rc_add_hours rc now (sint (ca_validity_hours self)) of
        None \<Rightarrow> None
      | Some expires \<Rightarrow>
     (case rc_signed_by rc (leaf_params params origin now expires) k (ca_cert self) (ca_key self) of
        Inl e \<Rightarrow> Some (Inl (Upstream (''leaf sign for '' @ quoted origin @ '': '' @ e)), self)
      | Inr cert \<Rightarrow>
          (let leaf = (rc_cert_der rc cert, rc_key_der rc k) in
           Some (Inr leaf, self\<lparr>ca_leaf_cache := (ca_leaf_cache self)(origin \<mapsto> leaf)\<rparr>))))))))"

text \<open>
  The answer of the authority as the interception sees it, with the text of an error; the pair is
  only used for the handshake with the agent. A panic ends the task of the connection.
\<close>

definition leaf_answer ::
  "('key, 'cert) rcgen \<Rightarrow> string + 'key \<Rightarrow> int \<Rightarrow> ('key, 'cert) mitm_ca \<Rightarrow> (proxy_error \<Rightarrow> string) \<Rightarrow> string
   \<Rightarrow> (string + unit) option" where
  "leaf_answer rc key now ca show_error host =
     (case issue_leaf_cert rc key now ca host of
        None \<Rightarrow> None
      | Some (Inl e, _) \<Rightarrow> Some (Inl (show_error e))
      | Some (Inr _, _) \<Rightarrow> Some (Inr ()))"

section \<open>Runs of an authority\<close>

text \<open>
  The authorities that can be reached from one generated at \<open>t0\<close>: certificates are issued at later
  and later times, with whatever outcome.
\<close>

inductive ca_run :: "('key, 'cert) rcgen \<Rightarrow> int \<Rightarrow> string list \<Rightarrow> u64 \<Rightarrow> int \<Rightarrow> ('key, 'cert) mitm_ca \<Rightarrow> bool"
  for rc t0 allowed_origins validity_hours where
  generated: "ca_generate rc key t0 allowed_origins validity_hours = Some (Inr ca) \<Longrightarrow>
     ca_run rc t0 allowed_origins validity_hours t0 ca"
| issued: "ca_run rc t0 allowed_origins validity_hours t ca \<Longrightarrow> t \<le> now \<Longrightarrow>
     issue_leaf_cert rc key now ca origin = Some (result, ca') \<Longrightarrow>
     ca_run rc t0 allowed_origins validity_hours now ca'"

text \<open>
  A name lies within a DNS subtree when it is the name of the subtree with any number of labels
  added on the left.
\<close>

definition labels :: "string \<Rightarrow> string list" where
  "labels = split_on (CHR ''.'')"

definition within_subtree :: "string \<Rightarrow> string \<Rightarrow> bool" where
  "within_subtree subtree name \<longleftrightarrow> suffix (labels subtree) (labels name)"

definition within_constraints :: "certificate_params \<Rightarrow> string \<Rightarrow> bool" where
  "within_constraints params name \<longleftrightarrow>
     (case cp_permitted_subtrees params of None \<Rightarrow> True | Some subtrees \<Rightarrow> list_ex (\<lambda>s. within_subtree s name) subtrees)"

text \<open>What a leaf is: a certificate for one name, signed with the key of the authority at \<open>now\<close>.\<close>

definition leaf_of ::
  "('key, 'cert) rcgen \<Rightarrow> ('key, 'cert) mitm_ca \<Rightarrow> string \<Rightarrow> int \<Rightarrow> certificate_params \<Rightarrow> bytes \<times> bytes \<Rightarrow> bool" where
  "leaf_of rc ca origin now params leaf \<longleftrightarrow>
     (\<exists>k cert base expires. rc_new rc [origin] = Inr base \<and> params = leaf_params base origin now expires \<and>
        rc_add_hours rc now (sint (ca_validity_hours ca)) = Some expires \<and>
        rc_signed_by rc params k (ca_cert ca) (ca_key ca) = Inr cert \<and> leaf = (rc_cert_der rc cert, rc_key_der rc k))"

section \<open>Lemmas\<close>

lemma labels_append: "labels (a @ CHR ''.'' # b) = labels a @ labels b"
  unfolding labels_def by (induction a) (auto split: list.splits)

lemma labels_inject: "labels a = labels b \<longleftrightarrow> a = b"
  unfolding labels_def by (metis join_split_on)

lemma labels_join: "xs \<noteq> [] \<Longrightarrow> \<forall>x \<in> set xs. CHR ''.'' \<notin> set x \<Longrightarrow> labels (join ''.'' xs) = xs"
  unfolding labels_def by (rule split_on_join)

lemma subdomain_iff: "o' = origin \<or> ends_with origin (CHR ''.'' # o') \<longleftrightarrow> within_subtree o' origin"
proof
  assume "o' = origin \<or> ends_with origin (CHR ''.'' # o')"
  then show "within_subtree o' origin"
    by (auto simp: ends_with_def within_subtree_def suffix_def labels_append)
next
  assume "within_subtree o' origin"
  then obtain xs where xs: "labels origin = xs @ labels o'" by (auto simp: within_subtree_def suffix_def)
  show "o' = origin \<or> ends_with origin (CHR ''.'' # o')"
  proof (cases "xs = []")
    case True
    with xs show ?thesis by (simp add: labels_inject)
  next
    case False
    have "set xs \<subseteq> set (labels origin)" by (simp add: xs)
    then have "labels (join ''.'' xs) = xs"
      using False by (intro labels_join) (auto simp: labels_def dest: split_on_no_sep)
    then have "labels origin = labels (join ''.'' xs @ CHR ''.'' # o')" by (simp add: labels_append xs)
    then show ?thesis by (auto simp: labels_inject ends_with_def suffix_def)
  qed
qed

lemma ca_is_allowed_iff: "ca_is_allowed ca origin \<longleftrightarrow> (\<exists>o' \<in> set (ca_allowed_origins ca). within_subtree o' origin)"
  by (auto simp: ca_is_allowed_def list_ex_iff subdomain_iff)

lemma leaf_ofI:
  assumes "rc_new rc [origin] = Inr base" "rc_add_hours rc now (sint (ca_validity_hours ca)) = Some expires"
    "rc_signed_by rc (leaf_params base origin now expires) k (ca_cert ca) (ca_key ca) = Inr cert"
  shows "leaf_of rc ca origin now (leaf_params base origin now expires) (rc_cert_der rc cert, rc_key_der rc k)"
  using assms unfolding leaf_of_def by blast

lemma issue_leaf_cert_cases:
  assumes "issue_leaf_cert rc key now ca origin = Some (result, ca')"
  obtains (refused) e where "result = Inl e" "ca' = ca"
  | (cached) leaf where "result = Inr leaf" "ca' = ca" "ca_is_allowed ca origin" "ca_leaf_cache ca origin = Some leaf"
  | (fresh) leaf params where "result = Inr leaf" "ca_is_allowed ca origin" "leaf_of rc ca origin now params leaf"
      "ca_leaf_cache ca origin = None" "ca' = ca\<lparr>ca_leaf_cache := (ca_leaf_cache ca)(origin \<mapsto> leaf)\<rparr>"
proof -
  have "(\<exists>e. result = Inl e) \<and> ca' = ca \<or>
     (\<exists>leaf. result = Inr leaf \<and> ca' = ca \<and> ca_is_allowed ca origin \<and> ca_leaf_cache ca origin = Some leaf) \<or>
     (\<exists>leaf params. result = Inr leaf \<and> ca_is_allowed ca origin \<and> leaf_of rc ca origin now params leaf \<and>
        ca_leaf_cache ca origin = None \<and> ca' = ca\<lparr>ca_leaf_cache := (ca_leaf_cache ca)(origin \<mapsto> leaf)\<rparr>)"
    using assms
    by (auto simp: issue_leaf_cert_def Let_def dest!: leaf_ofI split: if_splits option.splits sum.splits)
  then show thesis using that by blast
qed

text \<open>Issuing keeps everything but the cache, and the cache only grows.\<close>

lemma issue_keeps:
  assumes "issue_leaf_cert rc key now ca origin = Some (result, ca')"
  shows "ca_cert ca' = ca_cert ca" and "ca_key ca' = ca_key ca" and "ca_allowed_origins ca' = ca_allowed_origins ca"
    and "ca_validity_hours ca' = ca_validity_hours ca" and "ca_leaf_cache ca \<subseteq>\<^sub>m ca_leaf_cache ca'"
proof -
  have "\<exists>m. ca' = ca\<lparr>ca_leaf_cache := m\<rparr> \<and> ca_leaf_cache ca \<subseteq>\<^sub>m m"
    using assms
  proof (cases rule: issue_leaf_cert_cases)
    case (fresh leaf params)
    then show ?thesis by (intro exI [of _ "(ca_leaf_cache ca)(origin \<mapsto> leaf)"]) (auto simp: map_le_def)
  qed (auto intro!: exI [of _ "ca_leaf_cache ca"])
  then show "ca_cert ca' = ca_cert ca" and "ca_key ca' = ca_key ca" and "ca_allowed_origins ca' = ca_allowed_origins ca"
    and "ca_validity_hours ca' = ca_validity_hours ca" and "ca_leaf_cache ca \<subseteq>\<^sub>m ca_leaf_cache ca'" by auto
qed

lemma issued_leaf_cached:
  assumes "issue_leaf_cert rc key now ca origin = Some (Inr leaf, ca')"
  shows "ca_is_allowed ca' origin \<and> ca_leaf_cache ca' origin = Some leaf"
  using assms by (cases rule: issue_leaf_cert_cases) (simp_all add: ca_is_allowed_def)

lemma cached_leaf_returned:
  assumes "ca_is_allowed ca origin" "ca_leaf_cache ca origin = Some leaf"
  shows "issue_leaf_cert rc key now ca origin = Some (Inr leaf, ca)"
  using assms by (simp add: issue_leaf_cert_def)

lemma leaf_of_cong:
  assumes "ca_cert ca' = ca_cert ca" "ca_key ca' = ca_key ca" "ca_validity_hours ca' = ca_validity_hours ca"
  shows "leaf_of rc ca' = leaf_of rc ca"
  using assms by (simp add: leaf_of_def fun_eq_iff)

text \<open>The invariant of a run: the certificate of the authority, and what the cache holds.\<close>

definition ca_inv :: "('key, 'cert) rcgen \<Rightarrow> int \<Rightarrow> string list \<Rightarrow> u64 \<Rightarrow> int \<Rightarrow> ('key, 'cert) mitm_ca \<Rightarrow> bool" where
  "ca_inv rc t0 allowed_origins validity_hours t ca \<longleftrightarrow>
     ca_allowed_origins ca = allowed_origins \<and> ca_validity_hours ca = validity_hours \<and> t0 \<le> t \<and>
     (\<exists>expires. rc_add_hours rc t0 (sint validity_hours) = Some expires \<and>
        rc_self_signed rc (ca_params (rc_default rc) allowed_origins t0 expires) (ca_key ca) = Inr (ca_cert ca)) \<and>
     (\<forall>origin leaf. ca_leaf_cache ca origin = Some leaf \<longrightarrow>
        (\<exists>at params. t0 \<le> at \<and> at \<le> t \<and> leaf_of rc ca origin at params leaf))"

lemma ca_run_inv:
  assumes "ca_run rc t0 allowed_origins validity_hours t ca"
  shows "ca_inv rc t0 allowed_origins validity_hours t ca"
  using assms
proof induction
  case (generated key ca)
  then show ?case by (auto simp: ca_generate_def ca_inv_def split: if_splits option.splits sum.splits)
next
  case (issued t ca now key origin result ca')
  note keeps = issue_keeps [OF issued.hyps(3)]
  have le: "t0 \<le> now" using issued.IH issued.hyps(2) by (simp add: ca_inv_def)
  have cache: "\<exists>at params. t0 \<le> at \<and> at \<le> now \<and> leaf_of rc ca n at params l"
    if "ca_leaf_cache ca n = Some l" for n l
    using issued.IH that order_trans [OF _ issued.hyps(2)] unfolding ca_inv_def by blast
  have "\<exists>at params. t0 \<le> at \<and> at \<le> now \<and> leaf_of rc ca n at params l" if "ca_leaf_cache ca' n = Some l" for n l
    using issued.hyps(3)
  proof (cases rule: issue_leaf_cert_cases)
    case (fresh leaf params)
    show ?thesis
    proof (cases "n = origin")
      case True
      with fresh that have "leaf_of rc ca n now params l" by simp
      with le show ?thesis by blast
    qed (use fresh that cache in simp)
  qed (use that cache in simp)+
  with issued.IH le show ?case unfolding ca_inv_def keeps leaf_of_cong [OF keeps(1,2,4)] by blast
qed

lemma issued_leaf_of:
  assumes "ca_run rc t0 allowed_origins validity_hours t ca" "t \<le> now"
    "issue_leaf_cert rc key now ca origin = Some (Inr leaf, ca')"
  shows "ca_is_allowed ca origin \<and> (\<exists>at params. t0 \<le> at \<and> at \<le> now \<and> leaf_of rc ca origin at params leaf)"
proof -
  from issued_leaf_cached [OF assms(3)] have "ca_is_allowed ca' origin" "ca_leaf_cache ca' origin = Some leaf" by simp_all
  moreover note keeps = issue_keeps [OF assms(3)]
  ultimately show ?thesis
    using ca_run_inv [OF ca_run.issued [OF assms]]
    unfolding ca_inv_def ca_is_allowed_def keeps leaf_of_cong [OF keeps(1,2,4)] by blast
qed

text \<open>
  The interception decides by its own list of hosts, without subdomains, and has answered the agent
  before it asks the authority; a host the authority does not know ends the connection.
\<close>

lemma intercept_unknown_to_authority:
  assumes "\<not> ca_is_allowed ca host" "leaf_answer rc key now ca show_error host = Some (me_issue_leaf_cert env host)"
    "host \<in> mp_allowed_origins self" "me_write_200 env = Inr ()"
  shows "handle_connect env self host port reads =
    ([To_Agent established], Inl (Upstream (''issue leaf cert: '' @ show_error (ScopeViolation (Origin_Not_Allowed host)))))"
proof -
  from assms(1,2) have "me_issue_leaf_cert env host = Inl (show_error (ScopeViolation (Origin_Not_Allowed host)))"
    by (simp add: leaf_answer_def issue_leaf_cert_def)
  with assms(3,4) show ?thesis by (simp add: handle_connect_def intercept_def Let_def)
qed

section \<open>Properties\<close>

text \<open>
  C17. Every certificate that an authority returns, fresh or from its cache, is signed with the key of the
  authority, is not itself an authority, and names only hosts within the name constraints of the
  authority's own certificate. The hypothesis on the parameters is documented behaviour of the
  crate that makes them: the names of new parameters are the given ones.
\<close>

theorem leaf_within_name_constraints:
  fixes rc :: "('key, 'cert) rcgen"
  assumes "\<And>names params. rc_new rc names = Inr params \<Longrightarrow> cp_subject_alt_names params = names"
    and "ca_run rc t0 allowed_origins validity_hours t ca" "t \<le> now"
    and "issue_leaf_cert rc key now ca origin = Some (Inr leaf, ca')"
  shows "\<exists>authority params k cert.
    rc_self_signed rc authority (ca_key ca) = Inr (ca_cert ca) \<and> cp_permitted_subtrees authority = Some allowed_origins \<and>
    rc_signed_by rc params k (ca_cert ca) (ca_key ca) = Inr cert \<and> leaf = (rc_cert_der rc cert, rc_key_der rc k) \<and>
    \<not> cp_is_ca params \<and> cp_subject_alt_names params = [origin] \<and> within_constraints authority origin"
proof -
  from ca_run_inv [OF assms(2)] obtain expires where
    ca: "rc_self_signed rc (ca_params (rc_default rc) allowed_origins t0 expires) (ca_key ca) = Inr (ca_cert ca)"
      "ca_allowed_origins ca = allowed_origins"
    by (auto simp: ca_inv_def)
  from issued_leaf_of [OF assms(2-4)] obtain at params where
    leaf: "ca_is_allowed ca origin" "leaf_of rc ca origin at params leaf" by blast
  from leaf(2) obtain base k cert end_time where
    "rc_new rc [origin] = Inr base" "params = leaf_params base origin at end_time"
    "rc_signed_by rc params k (ca_cert ca) (ca_key ca) = Inr cert" "leaf = (rc_cert_der rc cert, rc_key_der rc k)"
    unfolding leaf_of_def by blast
  moreover from this have "cp_subject_alt_names params = [origin]" "\<not> cp_is_ca params"
    using assms(1) [of "[origin]" base] by (simp_all add: leaf_params_def)
  moreover have "within_constraints (ca_params (rc_default rc) allowed_origins t0 expires) origin"
    using leaf(1) ca(2) by (auto simp: within_constraints_def ca_params_def ca_is_allowed_iff list_ex_iff)
  moreover have "cp_permitted_subtrees (ca_params (rc_default rc) allowed_origins t0 expires) = Some allowed_origins"
    by (simp add: ca_params_def)
  ultimately show ?thesis using ca(1) by blast
qed

text \<open>A crate that signs by pairing parameters and key.\<close>

definition pairing_rcgen :: "(nat, certificate_params \<times> nat) rcgen" where
  "pairing_rcgen =
     (let base = (\<lambda>names. \<lparr>cp_subject_alt_names = names, cp_common_name = None, cp_organization_name = None,
            cp_is_ca = False, cp_key_usages = [], cp_server_auth = False, cp_not_before = 0, cp_not_after = 0,
            cp_permitted_subtrees = None\<rparr>) in
      \<lparr>rc_default = base [], rc_new = (\<lambda>names. Inr (base names)), rc_self_signed = (\<lambda>p k. Inr (p, k)),
       rc_signed_by = (\<lambda>p k c ck. Inr (p, ck)), rc_cert_der = (\<lambda>(p, k). [of_nat k]), rc_key_der = (\<lambda>k. [of_nat k]),
       rc_add_hours = (\<lambda>t h. Some (t + 3600 * h))\<rparr>)"

definition example_ca :: "(nat, certificate_params \<times> nat) mitm_ca" where
  "example_ca = projr (the (ca_generate pairing_rcgen (Inr 7) 0 [''example.com''] 24))"

lemma example_ca_run: "ca_run pairing_rcgen 0 [''example.com''] 24 0 example_ca"
  by (rule ca_run.generated [of _ "Inr 7"])
    (simp add: example_ca_def ca_generate_def pairing_rcgen_def Let_def)

lemma example_leaf:
  "issue_leaf_cert pairing_rcgen (Inr 8) 60 example_ca ''api.example.com'' =
     Some (Inr ([7], [8]), example_ca\<lparr>ca_leaf_cache := [''api.example.com'' \<mapsto> ([7], [8])]\<rparr>)"
  by (simp add: issue_leaf_cert_def example_ca_def ca_generate_def pairing_rcgen_def Let_def ca_is_allowed_def
      ends_with_def suffix_def)

theorem leaf_within_name_constraints_witness:
  "\<exists>authority. cp_permitted_subtrees authority = Some [''example.com''] \<and> within_constraints authority ''api.example.com''"
  using leaf_within_name_constraints [OF _ example_ca_run _ example_leaf]
  by (auto simp: pairing_rcgen_def Let_def)

text \<open>
  A certificate that is issued after the authority was generated is valid for longer than the
  certificate of the authority, and from then on it is returned at any time, also when it has
  expired.
\<close>

theorem leaf_outlives_authority:
  fixes rc :: "('key, 'cert) rcgen"
  assumes "\<And>t h t'. rc_add_hours rc t h = Some t' \<Longrightarrow> t' = t + 3600 * h"
    and "ca_run rc t0 allowed_origins validity_hours t ca" "t \<le> now" "t0 < now" "ca_leaf_cache ca origin = None"
    and "issue_leaf_cert rc key now ca origin = Some (Inr leaf, ca')"
  shows "(\<exists>authority params. rc_self_signed rc authority (ca_key ca) = Inr (ca_cert ca) \<and>
      leaf_of rc ca origin now params leaf \<and> cp_not_after authority < cp_not_after params) \<and>
    issue_leaf_cert rc key' later ca' origin = Some (Inr leaf, ca')"
proof -
  from ca_run_inv [OF assms(2)] obtain expires where
    ca: "rc_add_hours rc t0 (sint validity_hours) = Some expires" "ca_validity_hours ca = validity_hours"
      "rc_self_signed rc (ca_params (rc_default rc) allowed_origins t0 expires) (ca_key ca) = Inr (ca_cert ca)"
    by (auto simp: ca_inv_def)
  from assms(6,5) obtain params where leaf: "leaf_of rc ca origin now params leaf"
    by (cases rule: issue_leaf_cert_cases) auto
  then have "cp_not_after params = now + 3600 * sint validity_hours"
    using assms(1) ca(2) by (auto simp: leaf_of_def leaf_params_def)
  moreover have "cp_not_after (ca_params (rc_default rc) allowed_origins t0 expires) = t0 + 3600 * sint validity_hours"
    using assms(1) [OF ca(1)] by (simp add: ca_params_def)
  ultimately have "\<exists>authority params. rc_self_signed rc authority (ca_key ca) = Inr (ca_cert ca) \<and>
      leaf_of rc ca origin now params leaf \<and> cp_not_after authority < cp_not_after params"
    using ca(3) leaf assms(4) by (metis add_strict_right_mono)
  moreover have "issue_leaf_cert rc key' later ca' origin = Some (Inr leaf, ca')"
    using issued_leaf_cached [OF assms(6)] by (simp add: cached_leaf_returned)
  ultimately show ?thesis by blast
qed

theorem leaf_outlives_authority_witness:
  "\<exists>authority params. rc_self_signed pairing_rcgen authority (ca_key example_ca) = Inr (ca_cert example_ca) \<and>
     leaf_of pairing_rcgen example_ca ''api.example.com'' 60 params ([7], [8]) \<and>
     cp_not_after authority < cp_not_after params"
  by (rule conjunct1 [OF leaf_outlives_authority [OF _ example_ca_run _ _ _ example_leaf]])
    (simp_all add: pairing_rcgen_def Let_def example_ca_def ca_generate_def)

end
