(* ===== verification/Cdp_Proxy_Server.thy ===== *)
theory Cdp_Proxy_Server
  imports Cdp_Proxy_Http Cdp_Proxy_Manager "HOL-Library.Multiset"
begin

text \<open>
  The server behind a listener (\<open>ProxyServer\<close> in \<open>crates/cdp-proxy/src/http.rs\<close>): binding, the loop that
  accepts connections until the shutdown signal, and the tasks of the connections, which nothing
  ends but their peers. A step relation interleaves them with the operations of the lease
  manager. The lemmas show what is served after the signal and after a revocation.
\<close>

section \<open>The accept loop\<close>

definition proxy_server_new :: "string \<Rightarrow> sock_addr \<Rightarrow> nat \<Rightarrow> proxy_server" where
  "proxy_server_new lease_id bind_addr shutdown = \<lparr>ps_lease_id = lease_id, ps_bind_addr = bind_addr, ps_shutdown = shutdown\<rparr>"

text \<open>What wakes the loop; when signal and connection are both ready, the signal comes first.\<close>

datatype server_event = Shutdown_Signal | Accepted sock_addr | Accept_Failed string

fun accept_loop :: "server_event list \<Rightarrow> sock_addr list \<times> (proxy_error + unit) option" where
  "accept_loop [] = ([], None)"
| "accept_loop (Shutdown_Signal # events) = ([], Some (Inr ()))"
| "accept_loop (Accepted remote_addr # events) = apfst (Cons remote_addr) (accept_loop events)"
| "accept_loop (Accept_Failed e # events) = accept_loop events"

definition server_run :: "string option \<Rightarrow> server_event list \<Rightarrow> sock_addr list \<times> (proxy_error + unit) option" where
  "server_run bind_error events =
     (case bind_error of
        Some e \<Rightarrow> ([], Some (Inl (ProxyError_Io e)))
      | None \<Rightarrow> accept_loop events)"

section \<open>A server among the other tasks\<close>

record serving =
  sv_listening :: bool
  sv_connections :: "sock_addr list"
  sv_leases :: lease_manager
  sv_in_flight :: "outbound list list"
  sv_sent :: "outbound list"
  sv_now :: int

text \<open>
  A connection carries any number of requests, each handled for the lease of the server. The read
  for authentication may have seen an older store. When a request has been counted, the lease is
  not looked at again: resolution, the fetch of the credential, the connection and each redirect
  wait, and meanwhile the request is in flight with what it is still going to send, one outbound
  request after the other; it may end early. Other tasks work on the same leases in between.
\<close>

inductive serve_step :: "hmac_fun \<Rightarrow> chrono \<Rightarrow> proxy_env \<Rightarrow> string \<Rightarrow> bytes \<Rightarrow> serving \<Rightarrow> serving \<Rightarrow> bool"
  for hmac ch env lease_id gate_key where
  accepted: "sv_listening s \<Longrightarrow>
     serve_step hmac ch env lease_id gate_key s (s\<lparr>sv_connections := sv_connections s @ [remote_addr]\<rparr>)"
| shutdown: "serve_step hmac ch env lease_id gate_key s (s\<lparr>sv_listening := False\<rparr>)"
| closed: "serve_step hmac ch env lease_id gate_key s (s\<lparr>sv_connections := remove1 remote_addr (sv_connections s)\<rparr>)"
| request: "remote_addr \<in> set (sv_connections s) \<Longrightarrow>
     handle_request env (sv_now s) mgr0 (sv_leases s) remote_addr lease_id gate_key req = Ret (leases, sent, aud, resp) \<Longrightarrow>
     serve_step hmac ch env lease_id gate_key s (s\<lparr>sv_leases := leases, sv_in_flight := sent # sv_in_flight s\<rparr>)"
| forwarded: "sv_in_flight s = before @ (ob # obs) # behind \<Longrightarrow>
     serve_step hmac ch env lease_id gate_key s (s\<lparr>sv_in_flight := before @ obs # behind, sv_sent := sv_sent s @ [ob]\<rparr>)"
| ended: "sv_in_flight s = before @ obs # behind \<Longrightarrow>
     serve_step hmac ch env lease_id gate_key s (s\<lparr>sv_in_flight := before @ behind\<rparr>)"
| other: "sv_now s \<le> now \<Longrightarrow> ostep hmac ch now (sv_leases s) leases \<Longrightarrow>
     serve_step hmac ch env lease_id gate_key s (s\<lparr>sv_leases := leases, sv_now := now\<rparr>)"

section \<open>Lemmas\<close>

lemma accept_loop_until_shutdown:
  "accept_loop (events @ Shutdown_Signal # later) = accept_loop (events @ [Shutdown_Signal])"
  by (induction events rule: accept_loop.induct) simp_all

lemma accept_loop_result: "snd (accept_loop events) = (if Shutdown_Signal \<in> set events then Some (Inr ()) else None)"
  by (induction events rule: accept_loop.induct) simp_all

text \<open>
  The port is handed out before the server has bound it: a server that fails to bind ends, and its
  port stays in the pool and with the lease.
\<close>

lemma failed_bind_keeps_port:
  assumes "start_proxy self lease_id = (self', Inr port)"
  shows "port_for_lease self' lease_id = Some port \<and> server_run (Some e) events = ([], Some (Inl (ProxyError_Io e)))"
  using assms by (auto simp: start_proxy_def Let_def insert_listener_port server_run_def split: option.splits)

lemma revoked_request_sends_nothing:
  assumes "handle_request env now mgr0 mgr ra i key req = Ret (mgr', sent, aud, resp)" "revoked_at (lm_leases mgr) i"
  shows "mgr' = mgr \<and> sent = []"
proof -
  from assms(2) have "use_lease now mgr i \<noteq> (mgr', Inr l)" for l
    by (auto simp: revoked_at_def is_revoked_def dest!: store.use_granted simp: is_active_def)
  moreover obtain r where "handle_request_inner env now mgr0 mgr ra i key req = Ret (mgr', sent, aud, r)"
    using handle_request_Ret [OF assms(1)] by blast
  ultimately show ?thesis by (cases rule: handle_request_inner_cases [rotated]) auto
qed

text \<open>All that has been sent or is going to be sent for requests that were counted.\<close>

definition pending :: "serving \<Rightarrow> outbound multiset" where
  "pending s = mset (concat (sv_in_flight s))"

lemma serve_step_revoked:
  assumes "serve_step hmac ch env lease_id gate_key s s'" "oreach hmac ch (sv_now s) (sv_leases s)"
    and "revoked_at (lm_leases (sv_leases s)) lease_id"
  shows "\<exists>sent. sv_sent s' = sv_sent s @ sent \<and> mset sent + pending s' \<subseteq># pending s \<and>
    oreach hmac ch (sv_now s') (sv_leases s') \<and> revoked_at (lm_leases (sv_leases s')) lease_id"
  using assms(1)
proof cases
  case (request remote_addr mgr0 req leases sent aud resp)
  from revoked_request_sends_nothing [OF request(3) assms(3)] request(1) assms(2,3) show ?thesis by (simp add: pending_def)
next
  case (other now leases)
  have "lstep hmac ch (quiet (sv_leases s) (sv_now s)) (quiet (sv_leases s) now)"
    using lstep.tick [of "quiet (sv_leases s) (sv_now s)" now hmac ch] other(2) by simp
  then have "reachable hmac ch (quiet (sv_leases s) now)" using oreach_reachable [OF assms(2)] reachable_step by blast
  with steps_revoked_at [OF ostep_run [OF other(3)]] assms(3) oreach.step [OF assms(2) other(2,3)] other(1) show ?thesis
    by (simp add: pending_def)
qed (use assms(2,3) in \<open>simp_all add: pending_def\<close>)

section \<open>Properties\<close>

text \<open>
  C8. A revoked lease falls silent: whatever is sent for it after the revocation, on new connections or on those
  that were accepted before, belongs to a request that had been counted before the revocation and
  was still in flight, and is what was left to send of it. Once these have ended nothing more is
  sent; the end of the listener is not needed.
\<close>

theorem revoked_lease_silences_connections:
  assumes "(serve_step hmac ch env lease_id gate_key)\<^sup>*\<^sup>* s s'" "oreach hmac ch (sv_now s) (sv_leases s)"
    and "revoked_at (lm_leases (sv_leases s)) lease_id"
  shows "\<exists>sent. sv_sent s' = sv_sent s @ sent \<and>
    mset sent + mset (concat (sv_in_flight s')) \<subseteq># mset (concat (sv_in_flight s))"
proof -
  have "\<exists>sent. sv_sent s' = sv_sent s @ sent \<and> mset sent + pending s' \<subseteq># pending s \<and>
      oreach hmac ch (sv_now s') (sv_leases s') \<and> revoked_at (lm_leases (sv_leases s')) lease_id"
    using assms
  proof (induction rule: rtranclp_induct)
    case (step u v)
    then obtain sent where u: "sv_sent u = sv_sent s @ sent" "mset sent + pending u \<subseteq># pending s"
      "oreach hmac ch (sv_now u) (sv_leases u)" "revoked_at (lm_leases (sv_leases u)) lease_id" by auto
    from serve_step_revoked [OF step.hyps(2) u(3,4)] obtain more where v: "sv_sent v = sv_sent u @ more"
      "mset more + pending v \<subseteq># pending u" "oreach hmac ch (sv_now v) (sv_leases v)" "revoked_at (lm_leases (sv_leases v)) lease_id"
      by auto
    have "mset sent + (mset more + pending v) \<subseteq># pending s"
      using subset_mset.add_left_mono [OF v(2), of "mset sent"] u(2) by (rule subset_mset.order_trans)
    with u(1) v show ?case by (intro exI [of _ "sent @ more"]) (simp add: add.assoc)
  qed (simp_all add: pending_def)
  then show ?thesis by (auto simp: pending_def)
qed

text \<open>
  The shutdown signal alone does not end connections: after it a request on a connection that was
  accepted before is still forwarded.
\<close>

theorem stopped_server_serves_connections:
  "\<exists>s. (serve_step hmac ch sample_proxy ''01'' [7])\<^sup>*\<^sup>*
      \<lparr>sv_listening = True, sv_connections = [], sv_leases = proxy_mgr, sv_in_flight = [], sv_sent = [], sv_now = 0\<rparr> s \<and>
     \<not> sv_listening s \<and> sv_sent s = [sample_outbound]"
proof -
  let ?s0 = "\<lparr>sv_listening = True, sv_connections = [], sv_leases = proxy_mgr, sv_in_flight = [], sv_sent = [], sv_now = 0\<rparr>"
  let ?s2 = "?s0\<lparr>sv_connections := [sample_peer], sv_listening := False\<rparr>"
  let ?leases = "insert_lease ''01'' (proxy_lease\<lparr>l_requests_used := 1\<rparr>) proxy_mgr"
  obtain resp where run: "handle_request sample_proxy 0 proxy_mgr proxy_mgr sample_peer ''01'' [7] sample_request =
      Ret (?leases, [sample_outbound], [], resp)"
    by (simp add: handle_request_def sample_run)
  have "serve_step hmac ch sample_proxy ''01'' [7] ?s0 (?s0\<lparr>sv_connections := [sample_peer]\<rparr>)"
    using serve_step.accepted [of ?s0 hmac ch sample_proxy "''01''" "[7]" sample_peer] by simp
  moreover have "serve_step hmac ch sample_proxy ''01'' [7] (?s0\<lparr>sv_connections := [sample_peer]\<rparr>) ?s2"
    using serve_step.shutdown [of hmac ch sample_proxy "''01''" "[7]" "?s0\<lparr>sv_connections := [sample_peer]\<rparr>"] by simp
  moreover have "serve_step hmac ch sample_proxy ''01'' [7] ?s2 (?s2\<lparr>sv_leases := ?leases, sv_in_flight := [[sample_outbound]]\<rparr>)"
    using serve_step.request [of sample_peer ?s2 sample_proxy proxy_mgr "''01''" "[7]" sample_request ?leases
        "[sample_outbound]" "[]" resp hmac ch] run by simp
  moreover have "serve_step hmac ch sample_proxy ''01'' [7] (?s2\<lparr>sv_leases := ?leases, sv_in_flight := [[sample_outbound]]\<rparr>)
      (?s2\<lparr>sv_leases := ?leases, sv_in_flight := [[]], sv_sent := [sample_outbound]\<rparr>)"
    using serve_step.forwarded [of "?s2\<lparr>sv_leases := ?leases, sv_in_flight := [[sample_outbound]]\<rparr>" "[]" sample_outbound "[]" "[]"
        hmac ch sample_proxy "''01''" "[7]"] by simp
  ultimately have "(serve_step hmac ch sample_proxy ''01'' [7])\<^sup>*\<^sup>* ?s0
      (?s2\<lparr>sv_leases := ?leases, sv_in_flight := [[]], sv_sent := [sample_outbound]\<rparr>)"
    by (iprover intro: converse_rtranclp_into_rtranclp rtranclp.rtrancl_refl)
  then show ?thesis by (intro exI conjI) (assumption, simp_all)
qed

theorem revoked_lease_silences_connections_witness:
  "\<exists>leases aud resp.
     handle_request sample_proxy 0 mgr3 mgr3 sample_peer ''01'' [7] sample_request = Ret (leases, [], aud, resp)"
proof -
  let ?s = "\<lparr>sv_listening = False, sv_connections = [sample_peer], sv_leases = mgr3, sv_in_flight = [], sv_sent = [], sv_now = 0\<rparr>"
  let ?run = "handle_request sample_proxy 0 mgr3 mgr3 sample_peer ''01'' [7] sample_request"
  have "?run \<noteq> Panic"
    using handle_request_inner_no_panic [of sample_proxy] ascii_to_str_ok
    by (auto simp: handle_request_def sample_proxy_simps split: outcome.splits sum.splits)
  then obtain leases sent aud resp where run: "?run = Ret (leases, sent, aud, resp)" by (cases ?run) auto
  let ?s1 = "?s\<lparr>sv_leases := leases, sv_in_flight := sent # sv_in_flight ?s\<rparr>"
  from run have "serve_step sample_hmac sample_chrono sample_proxy ''01'' [7] ?s ?s1"
    by (intro serve_step.request) simp_all
  then have "(serve_step sample_hmac sample_chrono sample_proxy ''01'' [7])\<^sup>*\<^sup>* ?s ?s1" by (rule r_into_rtranclp)
  from revoked_lease_silences_connections [OF this] mgr3_reach mgr3_facts(2) have "sent = []"
    by (simp add: revoked_at_def is_revoked_def)
  with run show ?thesis by blast
qed

end
