(* ===== verification/Cdp_Browser_Login.thy ===== *)
theory Cdp_Browser_Login
  imports Cdp_Vault Cdp_Browser_Cookies "HOL-Library.Sublist"
begin

text \<open>
  Logging in with a browser (\<open>crates/cdp-browser/src\<close>: \<open>sandbox.rs\<close>, \<open>snapshot.rs\<close>): starting the
  sandboxed browser, the framed messages to it and the sequence of commands that ends with the
  cookies. JSON, processes and sockets are arguments; a \<open>round\<close> says for one command what becomes of
  the written bytes and what arrives within a number of seconds. The lemmas show which
  commands the browser sees, when a login succeeds, and what a late answer does to it.
\<close>

section \<open>Commands and answers\<close>

definition BROWSER_MAX_MESSAGE_SIZE :: nat where
  "BROWSER_MAX_MESSAGE_SIZE = 16 * 1024 * 1024"

record sandbox_config =
  sc_bwrap_path :: string
  sc_chromium_path :: string
  sc_enable_seccomp :: bool
  sc_enable_pid_namespace :: bool
  sc_enable_net_namespace :: bool

definition sandbox_config_default :: sandbox_config where
  "sandbox_config_default =
     \<lparr>sc_bwrap_path = ''/usr/bin/bwrap'', sc_chromium_path = ''/usr/bin/chromium'', sc_enable_seccomp = True,
      sc_enable_pid_namespace = True, sc_enable_net_namespace = False\<rparr>"

datatype success_indicator_msg =
    Msg_UrlChange string | Msg_CookiePresent string | Msg_SelectorAppears string

datatype browser_command =
    Navigate (cmd_url: string)
  | FillCredentials (cmd_username: string) (cmd_password: string) (cmd_username_selector: string)
      (cmd_password_selector: string)
  | Submit (cmd_selector: string)
  | WaitForLogin (cmd_success_indicator: success_indicator_msg)
  | ExtractCookies
  | Enter2Fa (cmd_code: string)
  | Shutdown

datatype browser_response =
    Resp_Ok "json option"
  | Resp_Error string
  | Resp_TwoFaRequired string

definition browser_write_message :: "bytes \<Rightarrow> browser_error + bytes" where
  "browser_write_message payload =
     (if BROWSER_MAX_MESSAGE_SIZE < length payload
      then Inl (Protocol (''payload size '' @ show_nat (length payload) @ '' exceeds max '' @ show_nat BROWSER_MAX_MESSAGE_SIZE))
      else Inr (be_bytes 4 (length payload) @ payload))"

definition browser_read_message :: "bytes \<Rightarrow> browser_error + bytes \<times> bytes" where
  "browser_read_message reader =
     (case read_exact 4 reader of
        Inl e \<Rightarrow> Inl (Browser_Io e)
      | Inr (len_buf, reader) \<Rightarrow>
          (let len = u32_from_be_bytes len_buf in
           if BROWSER_MAX_MESSAGE_SIZE < len
           then Inl (Protocol (''declared message length '' @ show_nat len @ '' exceeds maximum ''
                  @ show_nat BROWSER_MAX_MESSAGE_SIZE))
           else (case read_exact len reader of
                   Inl e \<Rightarrow> Inl (Browser_Io e)
                 | Inr (payload, reader) \<Rightarrow> Inr (payload, reader))))"

section \<open>The sandboxed process\<close>

text \<open>
  The process: the bytes that have arrived and were not read, all bytes written to it, the commands
  it was sent (whether or not they were written completely) and the processes to which the signal to
  kill them was sent. What becomes of a signal the program does not know: an error is logged, and the
  process is not waited for.
\<close>

record sandboxed_process =
  sp_child_pid :: int
  sp_reader :: bytes
  sp_written :: bytes
  sp_commands :: "browser_command list"
  sp_signals :: "int list"

text \<open>
  The parent: its open descriptors of the pair of sockets and the processes it started. \<open>se_spawn\<close>
  starts a program with arguments and added environment and returns the process id, if there is one.
\<close>

record sandbox_env =
  se_socketpair :: "string + nat \<times> nat"
  se_exists :: "string \<Rightarrow> bool"
  se_spawn :: "string \<Rightarrow> string list \<Rightarrow> (string \<times> string) list \<Rightarrow> string + u32 option"
  se_set_nonblocking :: "string option"
  se_from_std :: "string option"

record spawn_effect =
  sf_open :: "nat list"
  sf_running :: "u32 option list"

definition chromium_args :: "string list" where
  "chromium_args =
     [''--headless=new'', ''--no-sandbox'', ''--disable-gpu'', ''--remote-debugging-port=0'', ''--enable-automation'',
      ''--disable-extensions'', ''--disable-default-apps'']"

definition bwrap_args :: "sandbox_config \<Rightarrow> nat \<Rightarrow> string list" where
  "bwrap_args self child_fd =
     [''--ro-bind'', ''/'', ''/'', ''--dev'', ''/dev'', ''--proc'', ''/proc'', ''--tmpfs'', ''/tmp'']
     @ (if sc_enable_pid_namespace self then [''--unshare-pid''] else [])
     @ (if sc_enable_net_namespace self then [''--unshare-net''] else [])
     @ [''--unshare-user'', ''--die-with-parent'', ''--setenv'', ''CDP_BROWSER_FD'', show_nat child_fd]
     @ (if sc_enable_seccomp self then [''--setenv'', ''CDP_BROWSER_SECCOMP'', ''1''] else [])
     @ sc_chromium_path self # chromium_args"

definition spawn_with_bwrap :: "sandbox_env \<Rightarrow> sandbox_config \<Rightarrow> nat \<Rightarrow> browser_error + u32 option" where
  "spawn_with_bwrap se self child_fd =
     (case se_spawn se (sc_bwrap_path self) (bwrap_args self child_fd) [] of
        Inl e \<Rightarrow> Inl (Subprocess (''bwrap spawn: '' @ e))
      | Inr child \<Rightarrow> Inr child)"

definition unshare_args :: "sandbox_config \<Rightarrow> string list" where
  "unshare_args self =
     (if sc_enable_pid_namespace self then [''--pid'', ''--fork''] else [])
     @ (if sc_enable_net_namespace self then [''--net''] else [])
     @ sc_chromium_path self # chromium_args"

definition unshare_env :: "sandbox_config \<Rightarrow> nat \<Rightarrow> (string \<times> string) list" where
  "unshare_env self child_fd =
     (''CDP_BROWSER_FD'', show_nat child_fd) # (if sc_enable_seccomp self then [(''CDP_BROWSER_SECCOMP'', ''1'')] else [])"

definition spawn_with_unshare :: "sandbox_env \<Rightarrow> sandbox_config \<Rightarrow> nat \<Rightarrow> browser_error + u32 option" where
  "spawn_with_unshare se self child_fd =
     (case se_spawn se ''unshare'' (unshare_args self) (unshare_env self child_fd) of
        Inl e \<Rightarrow> Inl (Subprocess (''unshare spawn: '' @ e))
      | Inr child \<Rightarrow> Inr child)"

definition sandbox_spawn :: "sandbox_env \<Rightarrow> sandbox_config \<Rightarrow> spawn_effect \<times> (browser_error + sandboxed_process)" where
  "sandbox_spawn se self =
     (case se_socketpair se of
        Inl e \<Rightarrow> (\<lparr>sf_open = [], sf_running = []\<rparr>, Inl (Sandbox (''socketpair: '' @ e)))
      | Inr (parent_fd, child_fd) \<Rightarrow>
     (case (if se_exists se (sc_bwrap_path self) then spawn_with_bwrap se self child_fd
            else spawn_with_unshare se self child_fd) of
        Inl e \<Rightarrow> (\<lparr>sf_open = [parent_fd, child_fd], sf_running = []\<rparr>, Inl e)
      | Inr child \<Rightarrow>
     (case se_set_nonblocking se of
        Some e \<Rightarrow> (\<lparr>sf_open = [], sf_running = [child]\<rparr>, Inl (Browser_Io e))
      | None \<Rightarrow>
     (case se_from_std se of
        Some e \<Rightarrow> (\<lparr>sf_open = [], sf_running = [child]\<rparr>, Inl (Subprocess (''UnixStream::from_std: '' @ e)))
      | None \<Rightarrow>
     (case child of
        None \<Rightarrow> (\<lparr>sf_open = [], sf_running = [child]\<rparr>, Inl (Subprocess ''child has no PID''))
      | Some pid \<Rightarrow>
          (\<lparr>sf_open = [parent_fd], sf_running = [child]\<rparr>,
           Inr \<lparr>sp_child_pid = sint pid, sp_reader = [], sp_written = [], sp_commands = [], sp_signals = []\<rparr>))))))"

text \<open>
  \<open>kill\<close> sends the signal twice, by the process id and through the handle of the child, and dropping the
  process sends it once more. It goes to the process that was started, \<open>bwrap\<close> or \<open>unshare\<close>, not to the
  browser below it.
\<close>

definition sandbox_kill :: "sandboxed_process \<Rightarrow> sandboxed_process" where
  "sandbox_kill self = self\<lparr>sp_signals := sp_signals self @ [sp_child_pid self, sp_child_pid self]\<rparr>"

definition sandbox_drop :: "sandboxed_process \<Rightarrow> sandboxed_process" where
  "sandbox_drop self = self\<lparr>sp_signals := sp_signals self @ [sp_child_pid self]\<rparr>"

text \<open>
  What happens to one command. The frame is written, or the write fails or does not finish after
  some bytes; \<open>rd_arrives\<close> are the bytes that arrive within the given seconds, and
  \<open>rd_ends\<close> says that the stream has ended by then. The result \<open>None\<close> is a command that was not
  finished when its time was over: it is dropped, and with it the part of the answer it had read.
\<close>

datatype write_outcome = Written | Write_Failed nat string | Write_Blocked nat

record round =
  rd_write :: write_outcome
  rd_arrives :: "u64 \<Rightarrow> bytes"
  rd_ends :: "u64 \<Rightarrow> bool"

record browser_env =
  be_command_to_vec :: "browser_command \<Rightarrow> string + bytes"
  be_response_from_slice :: "bytes \<Rightarrow> string + browser_response"
  be_cookies_from_value :: "json \<Rightarrow> string + cookie list"
  be_from_utf8 :: "bytes \<Rightarrow> string option"
  be_rounds :: "nat \<Rightarrow> round"

definition receive ::
  "browser_env \<Rightarrow> u64 \<Rightarrow> round \<Rightarrow> sandboxed_process \<Rightarrow> sandboxed_process \<times> (browser_error + browser_response) option" where
  "receive be seconds r self =
     (let arrived = sp_reader self @ rd_arrives r seconds in
      case browser_read_message arrived of
        Inl (Browser_Io e) \<Rightarrow>
          (self\<lparr>sp_reader := []\<rparr>, if rd_ends r seconds then Some (Inl (Browser_Io e)) else None)
      | Inl e \<Rightarrow> (self\<lparr>sp_reader := drop 4 arrived\<rparr>, Some (Inl e))
      | Inr (raw, rest) \<Rightarrow>
          (self\<lparr>sp_reader := rest\<rparr>,
           Some (case be_response_from_slice be raw of
                   Inl e \<Rightarrow> Inl (Protocol (''deserialize response: '' @ e))
                 | Inr response \<Rightarrow> Inr response)))"

definition browser_send_command ::
  "browser_env \<Rightarrow> u64 \<Rightarrow> sandboxed_process \<Rightarrow> browser_command
   \<Rightarrow> sandboxed_process \<times> (browser_error + browser_response) option" where
  "browser_send_command be seconds self cmd =
     (let r = be_rounds be (length (sp_commands self));
          self = self\<lparr>sp_commands := sp_commands self @ [cmd]\<rparr> in
      case be_command_to_vec be cmd of
        Inl e \<Rightarrow> (self, Some (Inl (Protocol (''serialize command: '' @ e))))
      | Inr payload \<Rightarrow>
     (case browser_write_message payload of
        Inl e \<Rightarrow> (self, Some (Inl e))
      | Inr frame \<Rightarrow>
     (case rd_write r of
        Write_Failed n e \<Rightarrow> (self\<lparr>sp_written := sp_written self @ take n frame\<rparr>, Some (Inl (Browser_Io e)))
      | Write_Blocked n \<Rightarrow> (self\<lparr>sp_written := sp_written self @ take n frame\<rparr>, None)
      | Written \<Rightarrow> receive be seconds r (self\<lparr>sp_written := sp_written self @ frame\<rparr>))))"

section \<open>The login\<close>

datatype success_indicator = UrlChange string | CookiePresent string | SelectorAppears string

fun to_msg :: "success_indicator \<Rightarrow> success_indicator_msg" where
  "to_msg (UrlChange pattern) = Msg_UrlChange pattern"
| "to_msg (CookiePresent name) = Msg_CookiePresent name"
| "to_msg (SelectorAppears selector) = Msg_SelectorAppears selector"

datatype two_factor_trigger = UrlPattern string | Selector string

record two_factor_detector =
  tf_trigger :: two_factor_trigger
  tf_input_selector :: string
  tf_submit_selector :: string

record snapshot_config =
  sn_login_url :: string
  sn_username_selector :: string
  sn_password_selector :: string
  sn_submit_selector :: string
  sn_success_indicator :: success_indicator
  sn_twofa_detector :: "two_factor_detector option"
  sn_timeout_seconds :: u64
  sn_sandbox_config :: sandbox_config

definition snapshot_config_default :: snapshot_config where
  "snapshot_config_default =
     \<lparr>sn_login_url = [], sn_username_selector = ''input[name=username],input[type=email]'',
      sn_password_selector = ''input[type=password]'',
      sn_submit_selector = ''button[type=submit],input[type=submit]'',
      sn_success_indicator = UrlChange [], sn_twofa_detector = None, sn_timeout_seconds = 30,
      sn_sandbox_config = sandbox_config_default\<rparr>"

record login_credential =
  lc_username :: string
  lc_password :: bytes

fun cmd_name :: "browser_command \<Rightarrow> string" where
  "cmd_name (Navigate url) = ''Navigate''"
| "cmd_name (FillCredentials u p us ps) = ''FillCredentials''"
| "cmd_name (Submit selector) = ''Submit''"
| "cmd_name (WaitForLogin indicator) = ''WaitForLogin''"
| "cmd_name ExtractCookies = ''ExtractCookies''"
| "cmd_name (Enter2Fa code) = ''Enter2FA''"
| "cmd_name Shutdown = ''Shutdown''"

definition expect_ok :: "browser_response \<Rightarrow> browser_error + unit" where
  "expect_ok response =
     (case response of
        Resp_Ok _ \<Rightarrow> Inr ()
      | Resp_Error message \<Rightarrow> Inl (Login (''browser error: '' @ message))
      | Resp_TwoFaRequired hint \<Rightarrow> Inl (TwoFactor (''unexpected 2FA challenge: '' @ hint)))"

definition send_expect_ok ::
  "browser_env \<Rightarrow> snapshot_config \<Rightarrow> sandboxed_process \<Rightarrow> browser_command \<Rightarrow> sandboxed_process \<times> (browser_error + unit)" where
  "send_expect_ok be self process cmd =
     (case browser_send_command be (sn_timeout_seconds self) process cmd of
        (process, None) \<Rightarrow>
          (process, Inl (Timeout (''command '' @ CHR 0x22 # cmd_name cmd @ CHR 0x22 # '' timed out'')))
      | (process, Some (Inl e)) \<Rightarrow> (process, Inl e)
      | (process, Some (Inr response)) \<Rightarrow> (process, expect_ok response))"

definition twofa_indicator :: "two_factor_detector \<Rightarrow> success_indicator_msg" where
  "twofa_indicator detector =
     (case tf_trigger detector of UrlPattern pattern \<Rightarrow> Msg_UrlChange pattern | Selector selector \<Rightarrow> Msg_SelectorAppears selector)"

definition twofa_detected :: "(browser_error + browser_response) option \<Rightarrow> bool" where
  "twofa_detected response =
     (case response of
        Some (Inr (Resp_TwoFaRequired _)) \<Rightarrow> True
      | Some (Inr (Resp_Ok _)) \<Rightarrow> True
      | _ \<Rightarrow> False)"

definition try_handle_twofa ::
  "browser_env \<Rightarrow> snapshot_config \<Rightarrow> sandboxed_process \<Rightarrow> two_factor_detector \<Rightarrow> (browser_error + string) option
   \<Rightarrow> sandboxed_process \<times> (browser_error + bool)" where
  "try_handle_twofa be self process detector twofa_callback =
     (case browser_send_command be 5 process (WaitForLogin (twofa_indicator detector)) of
        (process, response) \<Rightarrow>
     (if \<not> twofa_detected response then (process, Inr False)
      else
     (case twofa_callback of
        None \<Rightarrow> (process, Inl (TwoFactor ''2FA challenge detected but no callback provided''))
      | Some (Inl e) \<Rightarrow> (process, Inl e)
      | Some (Inr code) \<Rightarrow>
     (case send_expect_ok be self process (Enter2Fa code) of
        (process, Inl e) \<Rightarrow> (process, Inl e)
      | (process, Inr _) \<Rightarrow> (process, Inr True)))))"

definition parse_cookies :: "browser_env \<Rightarrow> browser_response \<Rightarrow> browser_error + cookie list" where
  "parse_cookies be response =
     (case response of
        Resp_Ok (Some data) \<Rightarrow>
          (case be_cookies_from_value be data of
             Inl e \<Rightarrow> Inl (CookieExtraction (''deserialize cookies: '' @ e))
           | Inr cookies \<Rightarrow>
               if cookies = [] then Inl (CookieExtraction ''no cookies returned by browser'') else Inr cookies)
      | Resp_Ok None \<Rightarrow> Inl (CookieExtraction ''browser returned Ok but no cookie data'')
      | Resp_Error message \<Rightarrow> Inl (CookieExtraction (''browser error extracting cookies: '' @ message))
      | Resp_TwoFaRequired _ \<Rightarrow> Inl (CookieExtraction ''unexpected 2FA challenge during cookie extraction''))"

definition extract_cookies ::
  "browser_env \<Rightarrow> snapshot_config \<Rightarrow> sandboxed_process \<Rightarrow> sandboxed_process \<times> (browser_error + cookie list)" where
  "extract_cookies be self process =
     (case browser_send_command be (sn_timeout_seconds self) process ExtractCookies of
        (process, None) \<Rightarrow> (process, Inl (Timeout ''ExtractCookies timed out''))
      | (process, Some (Inl e)) \<Rightarrow> (process, Inl e)
      | (process, Some (Inr response)) \<Rightarrow> (process, parse_cookies be response))"

text \<open>A step that is only taken when the step before it succeeded.\<close>

definition and_then ::
  "'p \<times> ('e + 'a) \<Rightarrow> ('p \<Rightarrow> 'a \<Rightarrow> 'p \<times> ('e + 'b)) \<Rightarrow> 'p \<times> ('e + 'b)" where
  "and_then r f = (case r of (p, Inl e) \<Rightarrow> (p, Inl e) | (p, Inr a) \<Rightarrow> f p a)"

definition fill_command :: "snapshot_config \<Rightarrow> login_credential \<Rightarrow> string \<Rightarrow> browser_command" where
  "fill_command self credential password_str =
     FillCredentials (lc_username credential) password_str (sn_username_selector self) (sn_password_selector self)"

definition utf8_password :: "browser_env \<Rightarrow> login_credential \<Rightarrow> browser_error + string" where
  "utf8_password be credential =
     (case be_from_utf8 be (lc_password credential) of
        None \<Rightarrow> Inl (Login ''password contains invalid UTF-8'')
      | Some s \<Rightarrow> Inr s)"

definition run_login_flow ::
  "browser_env \<Rightarrow> snapshot_config \<Rightarrow> sandboxed_process \<Rightarrow> login_credential \<Rightarrow> (browser_error + string) option
   \<Rightarrow> sandboxed_process \<times> (browser_error + cookie list)" where
  "run_login_flow be self process credential twofa_callback =
     and_then (send_expect_ok be self process (Navigate (sn_login_url self))) (\<lambda>process _.
     and_then (process, utf8_password be credential) (\<lambda>process password_str.
     and_then (send_expect_ok be self process (fill_command self credential password_str)) (\<lambda>process _.
     and_then (send_expect_ok be self process (Submit (sn_submit_selector self))) (\<lambda>process _.
     and_then (case sn_twofa_detector self of
                 None \<Rightarrow> (process, Inr False)
               | Some detector \<Rightarrow> try_handle_twofa be self process detector twofa_callback) (\<lambda>process _.
     and_then (send_expect_ok be self process (WaitForLogin (to_msg (sn_success_indicator self)))) (\<lambda>process _.
     extract_cookies be self process))))))"

text \<open>
  \<open>in_time\<close> says whether the sandbox was started within its time. The result has the process, when
  there was one, as it is left behind.
\<close>

definition capture ::
  "browser_env \<Rightarrow> sandbox_env \<Rightarrow> bool \<Rightarrow> snapshot_config \<Rightarrow> login_credential \<Rightarrow> (browser_error + string) option
   \<Rightarrow> sandboxed_process option \<times> (browser_error + cookie list)" where
  "capture be se in_time self credential twofa_callback =
     (if \<not> in_time then (None, Inl (Timeout ''browser spawn timed out''))
      else
     (case sandbox_spawn se (sn_sandbox_config self) of
        (_, Inl e) \<Rightarrow> (None, Inl e)
      | (_, Inr process) \<Rightarrow>
          (case run_login_flow be self process credential twofa_callback of
             (process, r) \<Rightarrow> (Some (sandbox_drop (sandbox_kill process)), r))))"

section \<open>Lemmas\<close>

lemma BROWSER_MAX_eq: "BROWSER_MAX_MESSAGE_SIZE = MAX_MESSAGE_SIZE"
  by (simp add: BROWSER_MAX_MESSAGE_SIZE_def MAX_MESSAGE_SIZE_def)

lemma browser_read_message_Inr: "browser_read_message s = Inr r \<longleftrightarrow> read_message s = Inr r"
  by (auto simp: browser_read_message_def read_message_def BROWSER_MAX_eq Let_def split: sum.splits if_splits)

lemma browser_write_message_Inr: "browser_write_message p = Inr f \<longleftrightarrow> write_message p = Inr f"
  by (auto simp: browser_write_message_def write_message_def BROWSER_MAX_eq)

interpretation browser_messages: message_stream browser_write_message browser_read_message MAX_MESSAGE_SIZE
  by unfold_locales
    (simp_all add: browser_read_message_Inr browser_write_message_Inr
      async_messages.writable async_messages.read_written async_messages.read_bounded)

lemma browser_read_empty: "browser_read_message [] = Inl (Browser_Io ''early eof'')"
  by (simp add: browser_read_message_def read_exact_def)

subsection \<open>Commands\<close>

lemma receive_keeps:
  "sp_commands (fst (receive be d r p)) = sp_commands p" "sp_child_pid (fst (receive be d r p)) = sp_child_pid p"
  "sp_signals (fst (receive be d r p)) = sp_signals p"
  by (auto simp: receive_def Let_def split: sum.splits browser_error.splits)

lemma send_command_commands: "sp_commands (fst (browser_send_command be d p cmd)) = sp_commands p @ [cmd]"
  by (auto simp: browser_send_command_def Let_def receive_keeps split: sum.splits write_outcome.splits)

text \<open>No step of the login changes the process id or sends a signal.\<close>

definition same_process :: "sandboxed_process \<Rightarrow> sandboxed_process \<Rightarrow> bool" where
  "same_process p q \<longleftrightarrow> sp_child_pid q = sp_child_pid p \<and> sp_signals q = sp_signals p"

lemma same_process_refl [simp]: "same_process p p"
  by (simp add: same_process_def)

lemma same_process_trans: "same_process p q \<Longrightarrow> same_process q u \<Longrightarrow> same_process p u"
  by (simp add: same_process_def)

lemma send_command_same: "same_process p (fst (browser_send_command be d p cmd))"
  by (auto simp: same_process_def browser_send_command_def Let_def receive_keeps split: sum.splits write_outcome.splits)

lemma send_expect_ok_same: "same_process p (fst (send_expect_ok be self p cmd))"
  using send_command_same [of p be "sn_timeout_seconds self" cmd]
  by (auto simp: send_expect_ok_def split: prod.splits option.splits sum.splits)

lemma extract_cookies_same: "same_process p (fst (extract_cookies be self p))"
  using send_command_same [of p be "sn_timeout_seconds self" ExtractCookies]
  by (auto simp: extract_cookies_def split: prod.splits option.splits sum.splits)

lemma try_handle_twofa_same: "same_process p (fst (try_handle_twofa be self p d cb))"
proof -
  obtain q r where q: "browser_send_command be 5 p (WaitForLogin (twofa_indicator d)) = (q, r)"
    by (cases "browser_send_command be 5 p (WaitForLogin (twofa_indicator d))")
  with send_command_same [of p be 5 "WaitForLogin (twofa_indicator d)"] have "same_process p q" by simp
  moreover have "same_process q u" if "send_expect_ok be self q (Enter2Fa code) = (u, s)" for code u s
    using send_expect_ok_same [of q be self "Enter2Fa code"] that by simp
  ultimately show ?thesis
    by (auto simp: try_handle_twofa_def q intro: same_process_trans split: option.splits sum.splits prod.splits)
qed

lemma and_then_same:
  assumes "same_process p (fst r)" "\<And>q a. r = (q, Inr a) \<Longrightarrow> same_process q (fst (f q a))"
  shows "same_process p (fst (and_then r f))"
  using assms by (cases r) (auto simp: and_then_def intro: same_process_trans split: sum.splits)

lemma run_login_flow_same: "same_process p (fst (run_login_flow be self p credential cb))"
  unfolding run_login_flow_def
  by (intro and_then_same)
    (auto simp: send_expect_ok_same extract_cookies_same try_handle_twofa_same split: option.splits)

lemma send_expect_ok_commands: "sp_commands (fst (send_expect_ok be self p cmd)) = sp_commands p @ [cmd]"
  using send_command_commands [of be "sn_timeout_seconds self" p cmd]
  by (auto simp: send_expect_ok_def split: prod.splits option.splits sum.splits)

lemma extract_cookies_commands: "sp_commands (fst (extract_cookies be self p)) = sp_commands p @ [ExtractCookies]"
  using send_command_commands [of be "sn_timeout_seconds self" p ExtractCookies]
  by (auto simp: extract_cookies_def split: prod.splits option.splits sum.splits)

text \<open>
  What a part of the login sends: all of a script when it succeeds, the beginning of one when it fails.
\<close>

definition follows :: "sandboxed_process \<Rightarrow> browser_command list set \<Rightarrow> sandboxed_process \<times> (browser_error + 'a) \<Rightarrow> bool" where
  "follows p scripts result \<longleftrightarrow>
     (\<exists>cs. sp_commands (fst result) = sp_commands p @ cs \<and>
        (case snd result of Inr _ \<Rightarrow> cs \<in> scripts | Inl _ \<Rightarrow> (\<exists>ds. cs @ ds \<in> scripts)))"

definition in_turn :: "'a list set \<Rightarrow> 'a list set \<Rightarrow> 'a list set" where
  "in_turn A B = {a @ b |a b. a \<in> A \<and> b \<in> B}"

lemma in_turn_simps [simp]:
  "in_turn {a} {b} = {a @ b}" "in_turn {[]} B = B" "in_turn A {[]} = A" "in_turn A B = {} \<longleftrightarrow> A = {} \<or> B = {}"
  by (auto simp: in_turn_def)

lemma in_turnI: "a \<in> A \<Longrightarrow> b \<in> B \<Longrightarrow> a @ b \<in> in_turn A B"
  by (auto simp: in_turn_def)

lemma follows_refl: "follows p {[]} (p, r)"
  by (auto simp: follows_def split: sum.splits)

lemma followsI: "sp_commands (fst r) = sp_commands p @ cs \<Longrightarrow> cs \<in> scripts \<Longrightarrow> follows p scripts r"
  unfolding follows_def by (intro exI [of _ cs]) (auto split: sum.splits intro: exI [of _ "[]"])

lemma follows_and_then:
  assumes "follows p A r" "B \<noteq> {}" "\<And>q a. r = (q, Inr a) \<Longrightarrow> follows q B (f q a)"
  shows "follows p (in_turn A B) (and_then r f)"
proof -
  obtain q s where r: "r = (q, s)" by (cases r)
  from assms(1) obtain cs where cs: "sp_commands q = sp_commands p @ cs"
    "case s of Inr _ \<Rightarrow> cs \<in> A | Inl _ \<Rightarrow> (\<exists>ds. cs @ ds \<in> A)" by (auto simp: follows_def r)
  show ?thesis
  proof (cases s)
    case (Inl e)
    with cs obtain ds where "cs @ ds \<in> A" by auto
    moreover from assms(2) obtain b where "b \<in> B" by blast
    ultimately have "cs @ (ds @ b) \<in> in_turn A B" using in_turnI [of "cs @ ds" A b B] by simp
    then have "\<exists>es. cs @ es \<in> in_turn A B" by blast
    with Inl cs(1) show ?thesis by (simp add: follows_def and_then_def r)
  next
    case (Inr a)
    with assms(3) r have "follows q B (f q a)" by simp
    then obtain ds where ds: "sp_commands (fst (f q a)) = sp_commands q @ ds"
      "case snd (f q a) of Inr _ \<Rightarrow> ds \<in> B | Inl _ \<Rightarrow> (\<exists>es. ds @ es \<in> B)" unfolding follows_def by blast
    from cs(2) Inr have A: "cs \<in> A" by simp
    have "case snd (f q a) of Inr _ \<Rightarrow> cs @ ds \<in> in_turn A B | Inl _ \<Rightarrow> (\<exists>es. (cs @ ds) @ es \<in> in_turn A B)"
      using ds(2) in_turnI [OF A, of _ B] by (auto split: sum.splits)
    with ds(1) cs(1) Inr show ?thesis by (simp add: follows_def and_then_def r)
  qed
qed

definition twofa_scripts :: "two_factor_detector option \<Rightarrow> (browser_error + string) option \<Rightarrow> browser_command list set" where
  "twofa_scripts detector twofa_callback =
     (case detector of
        None \<Rightarrow> {[]}
      | Some d \<Rightarrow>
          (let probe = WaitForLogin (twofa_indicator d) in
           {[probe]} \<union> {[probe, Enter2Fa code] |code. twofa_callback = Some (Inr code)}))"

definition login_scripts ::
  "snapshot_config \<Rightarrow> login_credential \<Rightarrow> string \<Rightarrow> (browser_error + string) option \<Rightarrow> browser_command list set" where
  "login_scripts self credential password_str twofa_callback =
     {[Navigate (sn_login_url self), fill_command self credential password_str, Submit (sn_submit_selector self)]
      @ twofa @ [WaitForLogin (to_msg (sn_success_indicator self)), ExtractCookies]
      |twofa. twofa \<in> twofa_scripts (sn_twofa_detector self) twofa_callback}"

lemma twofa_scripts_not_empty [simp]: "twofa_scripts detector twofa_callback \<noteq> {}"
  by (simp add: twofa_scripts_def Let_def split: option.splits)

lemma login_scripts_in_turn:
  "login_scripts self credential s twofa_callback =
     in_turn {[Navigate (sn_login_url self)]} (in_turn {[]} (in_turn {[fill_command self credential s]}
       (in_turn {[Submit (sn_submit_selector self)]} (in_turn (twofa_scripts (sn_twofa_detector self) twofa_callback)
       (in_turn {[WaitForLogin (to_msg (sn_success_indicator self))]} {[ExtractCookies]})))))"
  by (auto simp: login_scripts_def in_turn_def)

lemma try_handle_twofa_follows:
  "follows p (twofa_scripts (Some detector) twofa_callback) (try_handle_twofa be self p detector twofa_callback)"
proof -
  let ?probe = "WaitForLogin (twofa_indicator detector)"
  obtain q resp where q: "browser_send_command be 5 p ?probe = (q, resp)" by (cases "browser_send_command be 5 p ?probe")
  with send_command_commands [of be 5 p ?probe] have cs: "sp_commands q = sp_commands p @ [?probe]" by simp
  have "follows p (twofa_scripts (Some detector) twofa_callback) (q, r)" for r :: "browser_error + bool"
    by (rule followsI [of _ _ "[?probe]"]) (simp_all add: cs twofa_scripts_def Let_def)
  moreover have "follows p (twofa_scripts (Some detector) (Some (Inr code))) (u, r)"
    if "send_expect_ok be self q (Enter2Fa code) = (u, s)" for u s code and r :: "browser_error + bool"
    using send_expect_ok_commands [of be self q "Enter2Fa code"] that
    by (intro followsI [of _ _ "[?probe, Enter2Fa code]"]) (simp_all add: cs twofa_scripts_def Let_def)
  ultimately show ?thesis
    by (auto simp: try_handle_twofa_def q split: option.splits sum.splits prod.splits)
qed

lemma run_login_flow_follows:
  assumes "be_from_utf8 be (lc_password credential) = Some s"
  shows "follows p (login_scripts self credential s twofa_callback) (run_login_flow be self p credential twofa_callback)"
proof -
  have ok: "follows q {[cmd]} (send_expect_ok be self q cmd)" for q cmd
    by (rule followsI [of _ _ "[cmd]"]) (simp_all add: send_expect_ok_commands)
  have ex: "follows q {[ExtractCookies]} (extract_cookies be self q)" for q
    by (rule followsI [of _ _ "[ExtractCookies]"]) (simp_all add: extract_cookies_commands)
  have tf: "follows q (twofa_scripts (sn_twofa_detector self) twofa_callback)
     (case sn_twofa_detector self of None \<Rightarrow> (q, Inr False) | Some d \<Rightarrow> try_handle_twofa be self q d twofa_callback)" for q
    by (cases "sn_twofa_detector self")
      (use try_handle_twofa_follows in \<open>auto intro: followsI simp: twofa_scripts_def\<close>)
  show ?thesis
    unfolding run_login_flow_def login_scripts_in_turn
    by (intro follows_and_then ok ex tf follows_refl) (auto simp: utf8_password_def assms ok)
qed

subsection \<open>Answers in step\<close>

text \<open>
  \<open>prompt be d i a\<close>: command \<open>i\<close> is written, and what arrives within \<open>d\<close> seconds is one frame with the
  answer \<open>a\<close>. \<open>sendable\<close>: a command can be serialised within the limit.
\<close>

definition prompt :: "browser_env \<Rightarrow> u64 \<Rightarrow> nat \<Rightarrow> browser_response \<Rightarrow> bool" where
  "prompt be d i a \<longleftrightarrow> rd_write (be_rounds be i) = Written \<and>
     (\<exists>payload. browser_write_message payload = Inr (rd_arrives (be_rounds be i) d) \<and>
        be_response_from_slice be payload = Inr a)"

definition sendable :: "browser_env \<Rightarrow> browser_command \<Rightarrow> bool" where
  "sendable be cmd \<longleftrightarrow> (\<exists>payload frame. be_command_to_vec be cmd = Inr payload \<and> browser_write_message payload = Inr frame)"

text \<open>
  The process against the commands \<open>cs\<close>: they were sent to it, the bytes written are their frames, and no
  bytes are left to read.
\<close>

definition command_frame :: "browser_env \<Rightarrow> browser_command \<Rightarrow> bytes" where
  "command_frame be cmd =
     (case be_command_to_vec be cmd of
        Inl _ \<Rightarrow> []
      | Inr payload \<Rightarrow> (case browser_write_message payload of Inl _ \<Rightarrow> [] | Inr f \<Rightarrow> f))"

definition in_step :: "browser_env \<Rightarrow> sandboxed_process \<Rightarrow> browser_command list \<Rightarrow> bool" where
  "in_step be p cs \<longleftrightarrow> sp_reader p = [] \<and> sp_commands p = cs \<and> sp_written p = concat (map (command_frame be) cs)"

lemma send_prompt:
  assumes "sendable be cmd" "in_step be p cs" "prompt be d (length cs) a"
  obtains q where "browser_send_command be d p cmd = (q, Some (Inr a))" "in_step be q (cs @ [cmd])"
proof -
  let ?r = "be_rounds be (length cs)"
  from assms(1) obtain payload frame where w: "be_command_to_vec be cmd = Inr payload" "browser_write_message payload = Inr frame"
    by (auto simp: sendable_def)
  from assms(3) obtain answer where
    a: "browser_write_message answer = Inr (rd_arrives ?r d)" "be_response_from_slice be answer = Inr a" "rd_write ?r = Written"
    by (auto simp: prompt_def)
  from browser_messages.read_written [OF a(1), of "[]"] have rd: "browser_read_message (rd_arrives ?r d) = Inr (answer, [])"
    by simp
  from assms(2) have p: "sp_commands p = cs" "sp_reader p = []" "sp_written p = concat (map (command_frame be) cs)"
    by (simp_all add: in_step_def)
  show thesis
    by (rule that [of "fst (browser_send_command be d p cmd)"])
      (simp_all add: browser_send_command_def receive_def Let_def w a p rd in_step_def command_frame_def)
qed

text \<open>A probe without an answer within its five seconds, and a stream that has not ended.\<close>

lemma send_unanswered:
  assumes "sendable be cmd" "in_step be p cs" "rd_write (be_rounds be (length cs)) = Written"
    "rd_arrives (be_rounds be (length cs)) d = []" "\<not> rd_ends (be_rounds be (length cs)) d"
  obtains q where "browser_send_command be d p cmd = (q, None)" "in_step be q (cs @ [cmd])"
proof -
  from assms(1) obtain payload frame where w: "be_command_to_vec be cmd = Inr payload" "browser_write_message payload = Inr frame"
    by (auto simp: sendable_def)
  from assms(2) have p: "sp_commands p = cs" "sp_reader p = []" "sp_written p = concat (map (command_frame be) cs)"
    by (simp_all add: in_step_def)
  show thesis
    by (rule that [of "fst (browser_send_command be d p cmd)"])
      (simp_all add: browser_send_command_def receive_def Let_def w assms(3-5) p browser_read_empty in_step_def command_frame_def)
qed

text \<open>
  The login as a conversation, without bytes, frames and times: the state is the list of commands sent so
  far, and \<open>ans i\<close> is the answer to command \<open>i\<close>.
\<close>

definition ask ::
  "(nat \<Rightarrow> browser_response) \<Rightarrow> browser_command \<Rightarrow> browser_command list \<Rightarrow> browser_command list \<times> (browser_error + unit)" where
  "ask ans cmd cs = (cs @ [cmd], expect_ok (ans (length cs)))"

lemma expect_ok_Ok: "expect_ok (Resp_Ok data) = Inr ()"
  by (simp add: expect_ok_def)

definition twofa_spec ::
  "two_factor_detector option \<Rightarrow> (browser_error + string) option \<Rightarrow> (nat \<Rightarrow> browser_response) \<Rightarrow> browser_command list
   \<Rightarrow> browser_command list \<times> (browser_error + bool)" where
  "twofa_spec detector twofa_callback ans cs =
     (case detector of
        None \<Rightarrow> (cs, Inr False)
      | Some d \<Rightarrow>
          (let cs' = cs @ [WaitForLogin (twofa_indicator d)] in
           if \<not> twofa_detected (Some (Inr (ans (length cs)))) then (cs', Inr False)
           else (case twofa_callback of
                   None \<Rightarrow> (cs', Inl (TwoFactor ''2FA challenge detected but no callback provided''))
                 | Some (Inl e) \<Rightarrow> (cs', Inl e)
                 | Some (Inr code) \<Rightarrow> and_then (ask ans (Enter2Fa code) cs') (\<lambda>cs _. (cs, Inr True)))))"

definition login_with ::
  "browser_env \<Rightarrow> snapshot_config \<Rightarrow> login_credential \<Rightarrow> (nat \<Rightarrow> browser_response)
   \<Rightarrow> (browser_command list \<Rightarrow> browser_command list \<times> (browser_error + bool))
   \<Rightarrow> browser_command list \<Rightarrow> browser_command list \<times> (browser_error + cookie list)" where
  "login_with be self credential ans twofa cs =
     and_then (ask ans (Navigate (sn_login_url self)) cs) (\<lambda>cs _.
     and_then (cs, utf8_password be credential) (\<lambda>cs password_str.
     and_then (ask ans (fill_command self credential password_str) cs) (\<lambda>cs _.
     and_then (ask ans (Submit (sn_submit_selector self)) cs) (\<lambda>cs _.
     and_then (twofa cs) (\<lambda>cs _.
     and_then (ask ans (WaitForLogin (to_msg (sn_success_indicator self))) cs) (\<lambda>cs _.
     (cs @ [ExtractCookies], parse_cookies be (ans (length cs)))))))))"

definition login_spec ::
  "browser_env \<Rightarrow> snapshot_config \<Rightarrow> login_credential \<Rightarrow> (browser_error + string) option \<Rightarrow> (nat \<Rightarrow> browser_response)
   \<Rightarrow> browser_command list \<times> (browser_error + cookie list)" where
  "login_spec be self credential twofa_callback ans =
     login_with be self credential ans (twofa_spec (sn_twofa_detector self) twofa_callback ans) []"

text \<open>A part of the login and its specification: the same result, and the process in step with the commands.\<close>

definition refines ::
  "browser_env \<Rightarrow> sandboxed_process \<times> (browser_error + 'a) \<Rightarrow> browser_command list \<times> (browser_error + 'a) \<Rightarrow> bool" where
  "refines be r s \<longleftrightarrow> snd r = snd s \<and> in_step be (fst r) (fst s)"

lemma refines_and_then:
  assumes "refines be r s" "\<And>q cs a. s = (cs, Inr a) \<Longrightarrow> in_step be q cs \<Longrightarrow> refines be (f q a) (g cs a)"
  shows "refines be (and_then r f) (and_then s g)"
  using assms by (cases r; cases s) (auto simp: refines_def and_then_def split: sum.splits)

lemma refines_here: "in_step be p cs \<Longrightarrow> refines be (p, r) (cs, r)"
  by (simp add: refines_def)

lemma refines_ask:
  assumes "sendable be cmd" "in_step be p cs" "prompt be (sn_timeout_seconds self) (length cs) (ans (length cs))"
  shows "refines be (send_expect_ok be self p cmd) (ask ans cmd cs)"
proof -
  from send_prompt [OF assms] obtain q where
    "browser_send_command be (sn_timeout_seconds self) p cmd = (q, Some (Inr (ans (length cs))))" "in_step be q (cs @ [cmd])" .
  then show ?thesis by (simp add: refines_def send_expect_ok_def ask_def)
qed

lemma refines_extract_cookies:
  assumes "sendable be ExtractCookies" "in_step be p cs" "prompt be (sn_timeout_seconds self) (length cs) (ans (length cs))"
  shows "refines be (extract_cookies be self p) (cs @ [ExtractCookies], parse_cookies be (ans (length cs)))"
proof -
  from send_prompt [OF assms] obtain q where
    "browser_send_command be (sn_timeout_seconds self) p ExtractCookies = (q, Some (Inr (ans (length cs))))"
    "in_step be q (cs @ [ExtractCookies])" .
  then show ?thesis by (simp add: refines_def extract_cookies_def)
qed

lemma refines_try_handle_twofa:
  assumes "sendable be (WaitForLogin (twofa_indicator d))" "\<And>code. twofa_callback = Some (Inr code) \<Longrightarrow> sendable be (Enter2Fa code)"
    and "prompt be 5 (length cs) (ans (length cs))"
    and "prompt be (sn_timeout_seconds self) (Suc (length cs)) (ans (Suc (length cs)))" "in_step be p cs"
  shows "refines be (try_handle_twofa be self p d twofa_callback) (twofa_spec (Some d) twofa_callback ans cs)"
proof -
  let ?probe = "WaitForLogin (twofa_indicator d)"
  from send_prompt [OF assms(1,5,3)] obtain q where
    q: "browser_send_command be 5 p ?probe = (q, Some (Inr (ans (length cs))))" "in_step be q (cs @ [?probe])" .
  have code: "refines be (send_expect_ok be self q (Enter2Fa code)) (ask ans (Enter2Fa code) (cs @ [?probe]))"
    if "twofa_callback = Some (Inr code)" for code
    using assms(2,4) q(2) that by (intro refines_ask) simp_all
  show ?thesis
  proof (cases "twofa_detected (Some (Inr (ans (length cs))))")
    case True
    show ?thesis
    proof (cases "\<exists>code. twofa_callback = Some (Inr code)")
      case second: True
      then obtain code where cb: "twofa_callback = Some (Inr code)" by blast
      from code [OF cb] q True cb show ?thesis
        by (auto simp: refines_def try_handle_twofa_def twofa_spec_def and_then_def split: prod.splits sum.splits)
    next
      case False
      with True q show ?thesis
        by (auto simp: refines_def try_handle_twofa_def twofa_spec_def split: option.splits sum.splits)
    qed
  next
    case False
    with q show ?thesis by (simp add: refines_def try_handle_twofa_def twofa_spec_def Let_def)
  qed
qed

lemma and_then_Inr: "and_then (p, Inr a) f = f p a"
  by (simp add: and_then_def)

lemma refines_ask_then:
  assumes "sendable be cmd" "in_step be p cs" "prompt be (sn_timeout_seconds self) (length cs) (ans (length cs))"
    and "\<And>q. in_step be q (cs @ [cmd]) \<Longrightarrow> refines be (f q ()) (g (cs @ [cmd]) ())"
  shows "refines be (and_then (send_expect_ok be self p cmd) f) (and_then (ask ans cmd cs) g)"
  by (rule refines_and_then [OF refines_ask [where self = self and ans = ans, OF assms(1-3)]]) (simp add: ask_def assms(4))

text \<open>The commands that a login may send can be sent.\<close>

definition script_sendable ::
  "browser_env \<Rightarrow> snapshot_config \<Rightarrow> login_credential \<Rightarrow> string \<Rightarrow> (browser_error + string) option \<Rightarrow> bool" where
  "script_sendable be self credential password_str twofa_callback \<longleftrightarrow>
     (\<forall>script \<in> login_scripts self credential password_str twofa_callback. list_all (sendable be) script)"

lemma script_sendableD:
  assumes "script_sendable be self credential s twofa_callback"
  shows "sendable be (Navigate (sn_login_url self))" "sendable be (fill_command self credential s)"
    "sendable be (Submit (sn_submit_selector self))" "sendable be (WaitForLogin (to_msg (sn_success_indicator self)))"
    "sendable be ExtractCookies"
    "sn_twofa_detector self = Some d \<Longrightarrow> sendable be (WaitForLogin (twofa_indicator d))"
    "sn_twofa_detector self = Some d \<Longrightarrow> twofa_callback = Some (Inr code) \<Longrightarrow> sendable be (Enter2Fa code)"
proof -
  have all: "list_all (sendable be) ([Navigate (sn_login_url self), fill_command self credential s, Submit (sn_submit_selector self)]
      @ twofa @ [WaitForLogin (to_msg (sn_success_indicator self)), ExtractCookies])"
    if "twofa \<in> twofa_scripts (sn_twofa_detector self) twofa_callback" for twofa
    using assms that unfolding script_sendable_def login_scripts_def by blast
  obtain twofa where "twofa \<in> twofa_scripts (sn_twofa_detector self) twofa_callback"
    using twofa_scripts_not_empty by blast
  from all [OF this] show "sendable be (Navigate (sn_login_url self))" "sendable be (fill_command self credential s)"
    "sendable be (Submit (sn_submit_selector self))" "sendable be (WaitForLogin (to_msg (sn_success_indicator self)))"
    "sendable be ExtractCookies" by simp_all
  show "sendable be (WaitForLogin (twofa_indicator d))" if "sn_twofa_detector self = Some d"
    using all [of "[WaitForLogin (twofa_indicator d)]"] that by (simp add: twofa_scripts_def Let_def)
  show "sendable be (Enter2Fa code)" if "sn_twofa_detector self = Some d" "twofa_callback = Some (Inr code)"
    using all [of "[WaitForLogin (twofa_indicator d), Enter2Fa code]"] that by (simp add: twofa_scripts_def Let_def)
qed

lemma run_login_flow_with:
  assumes "script_sendable be self credential s twofa_callback" "be_from_utf8 be (lc_password credential) = Some s" "in_step be p []"
    and first: "\<And>i. i < 3 \<Longrightarrow> prompt be (sn_timeout_seconds self) i (ans i)"
    and twofa: "\<And>q cs. length cs = 3 \<Longrightarrow> in_step be q cs \<Longrightarrow> refines be (case sn_twofa_detector self of None \<Rightarrow> (q, Inr False)
       | Some d \<Rightarrow> try_handle_twofa be self q d twofa_callback) (tw cs)"
    and rest: "\<And>cs cs' b. length cs = 3 \<Longrightarrow> tw cs = (cs', Inr b) \<Longrightarrow>
       prompt be (sn_timeout_seconds self) (length cs') (ans (length cs')) \<and>
       prompt be (sn_timeout_seconds self) (Suc (length cs')) (ans (Suc (length cs')))"
  shows "refines be (run_login_flow be self p credential twofa_callback) (login_with be self credential ans tw [])"
proof -
  note send = script_sendableD [OF assms(1)]
  have pw: "utf8_password be credential = Inr s" by (simp add: utf8_password_def assms(2))
  have last: "refines be (and_then (send_expect_ok be self q (WaitForLogin (to_msg (sn_success_indicator self)))) (\<lambda>process _.
        extract_cookies be self process))
      (and_then (ask ans (WaitForLogin (to_msg (sn_success_indicator self))) cs) (\<lambda>cs _.
        (cs @ [ExtractCookies], parse_cookies be (ans (length cs)))))"
    if "tw cs3 = (cs, Inr b)" "length cs3 = 3" "in_step be q cs" for q cs cs3 b
    using rest [OF that(2,1)] that(3) by (intro refines_ask_then refines_extract_cookies send) simp_all
  show ?thesis
    unfolding run_login_flow_def login_with_def pw and_then_Inr
    by (rule refines_ask_then [OF send(1) assms(3)], simp add: first, rule refines_ask_then [OF send(2)], assumption,
        simp add: first, rule refines_ask_then [OF send(3)], assumption, simp add: first,
        rule refines_and_then, rule twofa, simp, assumption, rule last, assumption, simp, assumption)
qed

lemma run_login_flow_refines:
  assumes "script_sendable be self credential s twofa_callback" "be_from_utf8 be (lc_password credential) = Some s" "in_step be p []"
    and "\<And>i. i < 7 \<Longrightarrow> prompt be (sn_timeout_seconds self) i (ans i)" "prompt be 5 3 (ans 3)"
  shows "refines be (run_login_flow be self p credential twofa_callback) (login_spec be self credential twofa_callback ans)"
  unfolding login_spec_def
proof (rule run_login_flow_with [OF assms(1-3)])
  fix q cs assume cs: "length cs = 3" "in_step be q cs"
  show "refines be (case sn_twofa_detector self of None \<Rightarrow> (q, Inr False)
      | Some d \<Rightarrow> try_handle_twofa be self q d twofa_callback) (twofa_spec (sn_twofa_detector self) twofa_callback ans cs)"
  proof (cases "sn_twofa_detector self")
    case None
    with cs show ?thesis by (simp add: refines_def twofa_spec_def)
  next
    case (Some d)
    with cs script_sendableD(6,7) [OF assms(1) Some] assms(4) [of 4] assms(5)
    show ?thesis by (simp add: refines_try_handle_twofa)
  qed
next
  fix cs cs' b assume "length cs = 3" "twofa_spec (sn_twofa_detector self) twofa_callback ans cs = (cs', Inr b)"
  then have "length cs' \<le> 5"
    by (auto simp: twofa_spec_def and_then_def ask_def Let_def split: option.splits sum.splits if_splits)
  with assms(4) show "prompt be (sn_timeout_seconds self) (length cs') (ans (length cs')) \<and>
      prompt be (sn_timeout_seconds self) (Suc (length cs')) (ans (Suc (length cs')))" by simp
qed (simp add: assms(4))

subsection \<open>Starting and stopping\<close>

lemma spawned_process:
  assumes "sandbox_spawn se self = (eff, Inr p)"
  shows "\<exists>pid. in_step be p [] \<and> sf_running eff = [Some pid] \<and> sp_child_pid p = sint pid \<and> sp_signals p = []"
  using assms by (auto simp: sandbox_spawn_def in_step_def split: sum.splits option.splits prod.splits)

text \<open>
  When the program cannot be started both descriptors stay open: they are closed by nothing, since
  they were taken out of the values that own them.
\<close>

lemma failed_start_leaks_descriptors:
  assumes "se_socketpair se = Inr (parent_fd, child_fd)"
    "\<And>program args env. \<exists>e. se_spawn se program args env = Inl e"
  shows "\<exists>e. sandbox_spawn se self = (\<lparr>sf_open = [parent_fd, child_fd], sf_running = []\<rparr>, Inl (Subprocess e))"
proof -
  obtain e1 where e1: "se_spawn se (sc_bwrap_path self) (bwrap_args self child_fd) [] = Inl e1" using assms(2) by blast
  obtain e2 where e2: "se_spawn se ''unshare'' (unshare_args self) (unshare_env self child_fd) = Inl e2" using assms(2) by blast
  show ?thesis by (simp add: sandbox_spawn_def spawn_with_bwrap_def spawn_with_unshare_def assms(1) e1 e2)
qed

text \<open>A browser that was started is left running when the socket cannot be set up.\<close>

lemma failed_setup_leaves_browser:
  assumes "se_socketpair se = Inr fds" "se_exists se (sc_bwrap_path self)"
    "se_spawn se (sc_bwrap_path self) (bwrap_args self (snd fds)) [] = Inr child" "se_set_nonblocking se = Some e"
  shows "sandbox_spawn se self = (\<lparr>sf_open = [], sf_running = [child]\<rparr>, Inl (Browser_Io e))"
  using assms by (cases fds) (simp add: sandbox_spawn_def spawn_with_bwrap_def)

text \<open>
  The fallback forks below \<open>unshare\<close> without asking that the child ends with it, so that
  killing the process that was started does not end the browser.
\<close>

lemma unshare_without_kill_child:
  assumes "sc_chromium_path self = ''/usr/bin/chromium''"
  shows "''--kill-child'' \<notin> set (unshare_args self)"
  using assms by (simp add: unshare_args_def chromium_args_def)

lemma capture_spawned:
  assumes "sandbox_spawn se (sn_sandbox_config self) = (eff, Inr p)"
  shows "capture be se True self credential twofa_callback =
    (let (process, r) = run_login_flow be self p credential twofa_callback in (Some (sandbox_drop (sandbox_kill process)), r))"
  by (simp add: capture_def assms)

section \<open>Properties\<close>

text \<open>
  C18. A login with a password that is text, once the sandbox and its socket are set up: whatever the
  browser answers, or does not, the process that was started, and no other, is sent the signal to kill
  it at the end, and the commands that were sent are the beginning of the login script: nothing but
  the page address before the password, a code only after the probe for it, and the whole script when
  there are cookies.
\<close>

theorem login_script_followed:
  assumes "capture be se in_time self credential twofa_callback = (Some process, result)"
    and "be_from_utf8 be (lc_password credential) = Some password_str"
  shows "(\<exists>eff p0 pid. sandbox_spawn se (sn_sandbox_config self) = (eff, Inr p0) \<and> sf_running eff = [Some pid] \<and>
      set (sp_signals process) = {sint pid}) \<and>
    (\<exists>script \<in> login_scripts self credential password_str twofa_callback.
       prefix (sp_commands process) script \<and> (isl result \<or> sp_commands process = script))"
proof -
  from assms(1) obtain eff p0 p where p0: "sandbox_spawn se (sn_sandbox_config self) = (eff, Inr p0)"
    and p: "run_login_flow be self p0 credential twofa_callback = (p, result)" "process = sandbox_drop (sandbox_kill p)"
    by (auto simp: capture_def split: if_splits prod.splits sum.splits)
  from spawned_process [OF p0, of be] obtain pid where
    pid: "in_step be p0 []" "sf_running eff = [Some pid]" "sp_child_pid p0 = sint pid" "sp_signals p0 = []" by blast
  from run_login_flow_follows [OF assms(2), of p0 self twofa_callback] p(1) pid(1)
  have "case result of Inr _ \<Rightarrow> sp_commands p \<in> login_scripts self credential password_str twofa_callback
    | Inl _ \<Rightarrow> (\<exists>ds. sp_commands p @ ds \<in> login_scripts self credential password_str twofa_callback)"
    by (simp add: follows_def in_step_def)
  then have "\<exists>script \<in> login_scripts self credential password_str twofa_callback.
      prefix (sp_commands process) script \<and> (isl result \<or> sp_commands process = script)"
    unfolding p(2) sandbox_kill_def sandbox_drop_def by (cases result) (auto simp: prefix_def)
  moreover have "same_process p0 p" using run_login_flow_same [of p0 be self credential twofa_callback] p(1) by simp
  then have "set (sp_signals process) = {sint pid}"
    using pid(3,4) by (simp add: p(2) sandbox_kill_def sandbox_drop_def same_process_def)
  ultimately show ?thesis using p0 pid(2) by blast
qed

text \<open>
  C19. When the commands of the login can be serialised within the size limit and the browser answers
  each of them with one frame in time, the login over the byte stream does what the conversation of
  its specification does, in which the answers are read by number: it sends the same commands, the
  bytes written are their frames, and it has the same result.
\<close>

theorem login_refines_spec:
  assumes "sandbox_spawn se (sn_sandbox_config self) = (eff, Inr p)"
    and "be_from_utf8 be (lc_password credential) = Some password_str"
    and "script_sendable be self credential password_str twofa_callback"
    and "\<And>i. i < 7 \<Longrightarrow> prompt be (sn_timeout_seconds self) i (ans i)" "prompt be 5 3 (ans 3)"
  shows "\<exists>process. capture be se True self credential twofa_callback =
      (Some process, snd (login_spec be self credential twofa_callback ans)) \<and>
    sp_commands process = fst (login_spec be self credential twofa_callback ans) \<and>
    sp_written process = concat (map (command_frame be) (sp_commands process))"
proof -
  obtain q r where q: "run_login_flow be self p credential twofa_callback = (q, r)"
    by (cases "run_login_flow be self p credential twofa_callback")
  from spawned_process [OF assms(1), of be] have "in_step be p []" by blast
  from run_login_flow_refines [OF assms(3,2) this assms(4,5)] q show ?thesis
    by (simp add: capture_spawned [OF assms(1)] refines_def in_step_def sandbox_kill_def sandbox_drop_def)
qed

text \<open>
  When the answer to the probe for a second factor comes after its five seconds, it is taken for
  the answer to the next command: the login is confirmed, or refused, by the answer to the probe,
  and the cookies are looked for in the confirmation of the login.
\<close>

theorem late_probe_answer_shifts:
  assumes "sandbox_spawn se (sn_sandbox_config self) = (eff, Inr p)"
    "script_sendable be self credential password_str twofa_callback"
    "be_from_utf8 be (lc_password credential) = Some password_str" "sn_twofa_detector self = Some d"
    "\<And>i. i < 3 \<Longrightarrow> prompt be (sn_timeout_seconds self) i (Resp_Ok None)"
    "rd_write (be_rounds be 3) = Written" "rd_arrives (be_rounds be 3) 5 = []" "\<not> rd_ends (be_rounds be 3) 5"
    "prompt be (sn_timeout_seconds self) 4 probe_answer" "prompt be (sn_timeout_seconds self) 5 login_answer"
  shows "snd (capture be se True self credential twofa_callback) =
    (case expect_ok probe_answer of Inl e \<Rightarrow> Inl e | Inr _ \<Rightarrow> parse_cookies be login_answer)"
proof -
  let ?ans = "\<lambda>i. if i < 3 then Resp_Ok None else if i = 4 then probe_answer else login_answer"
  let ?tw = "\<lambda>cs. (cs @ [WaitForLogin (twofa_indicator d)], Inr False)"
  have "refines be (run_login_flow be self p credential twofa_callback) (login_with be self credential ?ans ?tw [])"
  proof (rule run_login_flow_with [OF assms(2,3)])
    show "refines be (case sn_twofa_detector self of None \<Rightarrow> (q, Inr False)
        | Some d \<Rightarrow> try_handle_twofa be self q d twofa_callback) (?tw cs)" if "length cs = 3" "in_step be q cs" for q cs
    proof -
      from send_unanswered [OF script_sendableD(6) [OF assms(2,4)] that(2)] assms(6-8) that(1) obtain u where
        "browser_send_command be 5 q (WaitForLogin (twofa_indicator d)) = (u, None)"
        "in_step be u (cs @ [WaitForLogin (twofa_indicator d)])" by auto
      then show ?thesis by (simp add: refines_def try_handle_twofa_def twofa_detected_def assms(4))
    qed
  qed (use assms(5,9,10) spawned_process [OF assms(1), of be] in auto)
  then have "snd (run_login_flow be self p credential twofa_callback) = snd (login_with be self credential ?ans ?tw [])"
    by (simp add: refines_def)
  also have "\<dots> = (case expect_ok probe_answer of Inl e \<Rightarrow> Inl e | Inr _ \<Rightarrow> parse_cookies be login_answer)"
    by (simp add: login_with_def and_then_def ask_def expect_ok_Ok utf8_password_def assms(3) split: sum.splits)
  finally show ?thesis
    by (cases "run_login_flow be self p credential twofa_callback") (simp add: capture_spawned [OF assms(1)])
qed

text \<open>
  An example: a command is its name and its texts, the answer \<open>[0]\<close> confirms and \<open>[1]\<close> carries a cookie.
\<close>

definition indicator_text :: "success_indicator_msg \<Rightarrow> string" where
  "indicator_text m = (case m of Msg_UrlChange t \<Rightarrow> ''url '' @ t | Msg_CookiePresent t \<Rightarrow> ''cookie '' @ t | Msg_SelectorAppears t \<Rightarrow> ''selector '' @ t)"

fun command_text :: "browser_command \<Rightarrow> string" where
  "command_text (Navigate url) = ''navigate '' @ url"
| "command_text (FillCredentials u p us ps) = ''fill '' @ join '' '' [u, p, us, ps]"
| "command_text (Submit selector) = ''submit '' @ selector"
| "command_text (WaitForLogin m) = ''wait '' @ indicator_text m"
| "command_text ExtractCookies = ''extract''"
| "command_text (Enter2Fa code) = ''code '' @ code"
| "command_text Shutdown = ''shutdown''"

definition example_sandbox :: sandbox_env where
  "example_sandbox =
     \<lparr>se_socketpair = Inr (8, 9), se_exists = (\<lambda>_. True), se_spawn = (\<lambda>_ _ _. Inr (Some 4711)),
      se_set_nonblocking = None, se_from_std = None\<rparr>"

definition example_browser :: "(nat \<Rightarrow> u64 \<Rightarrow> bytes) \<Rightarrow> browser_env" where
  "example_browser arrives =
     \<lparr>be_command_to_vec = (\<lambda>cmd. Inr (as_bytes (command_text cmd))),
      be_response_from_slice = (\<lambda>p. Inr (if p = [1] then Resp_Ok (Some JNull) else Resp_Ok None)),
      be_cookies_from_value = (\<lambda>_. Inr [cookie_session ''sid'' ''abc'' ''example.com'']),
      be_from_utf8 = (\<lambda>_. Some ''secret''),
      be_rounds = (\<lambda>i. \<lparr>rd_write = Written, rd_arrives = arrives i, rd_ends = (\<lambda>_. False)\<rparr>)\<rparr>"

definition example_login :: "two_factor_detector option \<Rightarrow> snapshot_config" where
  "example_login detector = snapshot_config_default\<lparr>sn_login_url := ''https://example.com'', sn_twofa_detector := detector\<rparr>"

definition example_detector :: two_factor_detector where
  "example_detector = \<lparr>tf_trigger = UrlPattern ''/2fa'', tf_input_selector = ''#code'', tf_submit_selector = ''#go''\<rparr>"

definition example_user :: login_credential where
  "example_user = \<lparr>lc_username = ''alice'', lc_password = [115]\<rparr>"

definition frame :: "bytes \<Rightarrow> bytes" where
  "frame p = be_bytes 4 (length p) @ p"

lemma example_spawned:
  "sandbox_spawn example_sandbox (sn_sandbox_config (example_login detector)) =
     (\<lparr>sf_open = [8], sf_running = [Some 4711]\<rparr>,
      Inr \<lparr>sp_child_pid = 4711, sp_reader = [], sp_written = [], sp_commands = [], sp_signals = []\<rparr>)"
  by (simp add: sandbox_spawn_def spawn_with_bwrap_def example_sandbox_def)

lemma example_sendable:
  "detector \<in> {None, Some example_detector} \<Longrightarrow>
     script_sendable (example_browser arrives) (example_login detector) example_user ''secret'' None"
  by (auto simp: script_sendable_def login_scripts_def twofa_scripts_def sendable_def example_browser_def browser_write_message_def
      example_login_def example_detector_def example_user_def snapshot_config_default_def fill_command_def twofa_indicator_def
      indicator_text_def BROWSER_MAX_MESSAGE_SIZE_def as_bytes_def Let_def)

lemma example_prompt:
  "arrives i d = frame [b] \<Longrightarrow> prompt (example_browser arrives) d i (if b = 1 then Resp_Ok (Some JNull) else Resp_Ok None)"
  unfolding prompt_def
  by (auto simp: example_browser_def browser_write_message_def frame_def BROWSER_MAX_MESSAGE_SIZE_def intro!: exI [of _ "[b]"])

lemma example_conversation:
  assumes "\<And>i. ans i = (if i = 4 then Resp_Ok (Some JNull) else Resp_Ok None)"
  shows "login_spec (example_browser arrives) (example_login None) example_user None ans =
    ([Navigate ''https://example.com'', fill_command (example_login None) example_user ''secret'',
      Submit (sn_submit_selector (example_login None)), WaitForLogin (Msg_UrlChange []), ExtractCookies],
     Inr [cookie_session ''sid'' ''abc'' ''example.com''])"
  by (simp add: login_spec_def login_with_def twofa_spec_def and_then_def ask_def expect_ok_Ok utf8_password_def parse_cookies_def
      example_login_def snapshot_config_default_def example_browser_def assms)

theorem login_refines_spec_witness:
  "\<exists>process. capture (example_browser (\<lambda>i _. frame [if i = 4 then 1 else 0])) example_sandbox True (example_login None)
      example_user None = (Some process, Inr [cookie_session ''sid'' ''abc'' ''example.com'']) \<and>
    length (sp_commands process) = 5 \<and> hd (sp_commands process) = Navigate ''https://example.com''"
proof -
  let ?arrives = "\<lambda>(i :: nat) (_ :: u64). frame [if i = 4 then 1 else 0]"
  let ?ans = "\<lambda>i :: nat. if i = 4 then Resp_Ok (Some JNull) else Resp_Ok None"
  have p: "prompt (example_browser ?arrives) d i (?ans i)" for d i
    using example_prompt [of ?arrives i d "if i = 4 then 1 else 0"] by (cases "i = 4") simp_all
  have pw: "be_from_utf8 (example_browser ?arrives) (lc_password example_user) = Some ''secret''"
    by (simp add: example_browser_def)
  have none: "None \<in> {None, Some example_detector}" by simp
  from login_refines_spec [OF example_spawned pw example_sendable [OF none] p p] example_conversation [of ?ans ?arrives]
  show ?thesis by auto
qed

theorem late_probe_answer_shifts_witness:
  "snd (capture (example_browser (\<lambda>i d. if i = 3 \<and> d = 5 then [] else frame [if i = 6 then 1 else 0])) example_sandbox True
      (example_login (Some example_detector)) example_user None) =
    Inl (CookieExtraction ''browser returned Ok but no cookie data'')"
proof -
  let ?arrives = "\<lambda>(i :: nat) (d :: u64). if i = 3 \<and> d = 5 then [] else frame [if i = 6 then 1 else 0]"
  have p: "prompt (example_browser ?arrives) d i (Resp_Ok None)" if "i \<noteq> 3" "i \<noteq> 6" for d i
    using example_prompt [of ?arrives i d 0] that by simp
  have det: "Some example_detector \<in> {None, Some example_detector}" by simp
  have "snd (capture (example_browser ?arrives) example_sandbox True (example_login (Some example_detector)) example_user None) =
    (case expect_ok (Resp_Ok None) of Inl e \<Rightarrow> Inl e | Inr _ \<Rightarrow> parse_cookies (example_browser ?arrives) (Resp_Ok None))"
    by (rule late_probe_answer_shifts [OF example_spawned example_sendable [OF det], where d = example_detector])
      (use p in \<open>simp_all add: example_browser_def example_login_def\<close>)
  then show ?thesis by (simp add: expect_ok_def parse_cookies_def)
qed

theorem login_script_followed_witness:
  "\<exists>process. capture (example_browser (\<lambda>_ _. [])) example_sandbox True (example_login None) example_user None =
      (Some process, Inl (Timeout (''command '' @ CHR 0x22 # ''Navigate'' @ CHR 0x22 # '' timed out''))) \<and>
    set (sp_signals process) = {4711}"
proof -
  let ?be = "example_browser (\<lambda>_ _. [])" and ?self = "example_login None"
  let ?r = "capture ?be example_sandbox True ?self example_user None"
  have none: "None \<in> {None, Some example_detector}" by simp
  from spawned_process [OF example_spawned] obtain p0 where
    p0: "sandbox_spawn example_sandbox (sn_sandbox_config ?self) = (\<lparr>sf_open = [8], sf_running = [Some 4711]\<rparr>, Inr p0)" "in_step ?be p0 []"
    using example_spawned [of None] by metis
  from send_unanswered [OF script_sendableD(1) [OF example_sendable [OF none]] p0(2), of "sn_timeout_seconds ?self"] obtain q where
    "browser_send_command ?be (sn_timeout_seconds ?self) p0 (Navigate (sn_login_url ?self)) = (q, None)"
    by (auto simp: example_browser_def)
  then obtain process where r: "?r = (Some process, Inl (Timeout (''command '' @ CHR 0x22 # ''Navigate'' @ CHR 0x22 # '' timed out'')))"
    by (simp add: capture_spawned [OF p0(1)] run_login_flow_def and_then_def send_expect_ok_def)
  have "be_from_utf8 (example_browser (\<lambda>_ _. [])) (lc_password example_user) = Some ''secret''" by (simp add: example_browser_def)
  from login_script_followed [OF r this] example_spawned [of None] have "set (sp_signals process) = {4711}" by auto
  with r show ?thesis by blast
qed

end
