(* ===== verification/Cdp_Policy_Watcher.thy ===== *)
theory Cdp_Policy_Watcher
  imports Cdp_Gate_System
begin

text \<open>
  The watcher of the policy directory (\<open>crates/cdp-policy/src/watcher.rs\<close>): the loop over batches
  of file system events, the search for the process that changed a file, and the reload. Events, the
  process table and the channel are arguments, one record for each turn of the loop. A second model
  follows the notification instances of the turns, since each turn opens one of its own.
\<close>

section \<open>Who changed a file\<close>

definition KNOWN_EDITORS :: "string list" where
  "KNOWN_EDITORS =
     [''vim'', ''nvim'', ''nano'', ''code'', ''kate'', ''gedit'', ''emacs'', ''helix'', ''subl'', ''micro'', ''vi'']"

definition is_known_editor :: "string \<Rightarrow> bool" where
  "is_known_editor binary_path =
     (case file_name binary_path of Some name \<Rightarrow> name \<in> set KNOWN_EDITORS | None \<Rightarrow> False)"

text \<open>
  The process table: the names in \<open>/proc\<close>, the targets of the links in the descriptor directory of
  a process, and the target of its \<open>exe\<close> link; \<open>None\<close> is an error.
\<close>

record watch_proc =
  wp_canonicalize :: "string \<Rightarrow> string option"
  wp_read_proc :: "string list option"
  wp_read_fds :: "u32 \<Rightarrow> string option list option"
  wp_read_exe :: "u32 \<Rightarrow> string option"

fun scan_processes :: "watch_proc \<Rightarrow> string \<Rightarrow> string list \<Rightarrow> (u32 \<times> string) option" where
  "scan_processes wp target [] = None"
| "scan_processes wp target (name # names) =
     (case parse_uint (2 ^ 32 - 1) name of
        None \<Rightarrow> scan_processes wp target names
      | Some pid \<Rightarrow>
          (case wp_read_fds wp (of_nat pid) of
             None \<Rightarrow> scan_processes wp target names
           | Some links \<Rightarrow>
               if Some target \<in> set links
               then Some (of_nat pid, case wp_read_exe wp (of_nat pid) of
                      Some binary \<Rightarrow> binary
                    | None \<Rightarrow> ''/proc/'' @ show_nat pid @ ''/exe'')
               else scan_processes wp target names))"

definition identify_modifier :: "watch_proc \<Rightarrow> string \<Rightarrow> (u32 \<times> string) option" where
  "identify_modifier wp file_path =
     (case wp_read_proc wp of
        None \<Rightarrow> None
      | Some names \<Rightarrow>
          scan_processes wp (case wp_canonicalize wp file_path of Some t \<Rightarrow> t | None \<Rightarrow> file_path) names)"

section \<open>The loop\<close>

record event_info =
  ei_mask :: nat
  ei_name :: "string option"

text \<open>
  What one turn meets: whether the blocking task panicked, the three calls on the notification
  instance, the process table, the directory when it is read, and whether the receiver is alive.
\<close>

record watch_turn =
  wt_join :: "string option"
  wt_init :: "string option"
  wt_add :: "string option"
  wt_read :: "string + event_info list"
  wt_proc :: watch_proc
  wt_fs :: policy_fs
  wt_receiver :: bool

definition read_inotify_events :: "watch_turn \<Rightarrow> string \<Rightarrow> policy_error + event_info list" where
  "read_inotify_events w dir =
     (case wt_init w of
        Some e \<Rightarrow> Inl (Watcher (''inotify init failed in thread: '' @ e))
      | None \<Rightarrow>
     (case wt_add w of
        Some e \<Rightarrow> Inl (Watcher (''failed to add inotify watch in thread on '' @ dir @ '': '' @ e))
      | None \<Rightarrow>
     (case wt_read w of
        Inl e \<Rightarrow> Inl (Watcher (''inotify read error: '' @ e))
      | Inr evs \<Rightarrow> Inr evs)))"

text \<open>The alerts of a turn: the files changed by a process that is not a known editor.\<close>

definition alerts :: "watch_proc \<Rightarrow> string \<Rightarrow> event_info list \<Rightarrow> (u32 \<times> string \<times> string) list" where
  "alerts wp dir evs =
     List.map_filter (\<lambda>ev. case ei_name ev of
         None \<Rightarrow> None
       | Some n \<Rightarrow>
           (let path = (if dir \<noteq> [] \<and> last dir = CHR ''/'' then dir @ n else dir @ CHR ''/'' # n) in
            case identify_modifier wp path of
              Some (pid, binary) \<Rightarrow> if is_known_editor binary then None else Some (pid, binary, path)
            | None \<Rightarrow> None)) evs"

text \<open>
  The result lists the policy sets that were sent and the alerts; the last component is \<open>None\<close> when
  the loop still waits after the given turns.
\<close>

fun watch_loop ::
  "(string \<Rightarrow> string + policy_entry list) \<Rightarrow> string \<Rightarrow> watch_turn list
   \<Rightarrow> policy_entry list list \<times> (u32 \<times> string \<times> string) list \<times> (policy_error + unit) option" where
  "watch_loop toml dir [] = ([], [], None)"
| "watch_loop toml dir (w # ws) =
     (case wt_join w of
        Some e \<Rightarrow> ([], [], Some (Inl (Watcher (''spawn_blocking panicked: '' @ e))))
      | None \<Rightarrow>
     (case read_inotify_events w dir of
        Inl (Watcher msg) \<Rightarrow>
          ([], [], Some (if str_contains msg ''channel closed'' then Inr () else Inl (Watcher msg)))
      | Inl e \<Rightarrow> ([], [], Some (Inl e))
      | Inr evs \<Rightarrow>
     (let warned = alerts (wt_proc w) dir evs in
      case load_policies_from_dir (wt_fs w) toml dir of
        Inr new \<Rightarrow>
          if wt_receiver w
          then (let (sent, more, r) = watch_loop toml dir ws in (new # sent, warned @ more, r))
          else ([], warned, Some (Inr ()))
      | Inl e \<Rightarrow> (let (sent, more, r) = watch_loop toml dir ws in (sent, warned @ more, r)))))"

definition watch ::
  "string option \<Rightarrow> string option \<Rightarrow> (string \<Rightarrow> string + policy_entry list) \<Rightarrow> string \<Rightarrow> watch_turn list
   \<Rightarrow> policy_entry list list \<times> (u32 \<times> string \<times> string) list \<times> (policy_error + unit) option" where
  "watch init add toml dir ws =
     (case init of
        Some e \<Rightarrow> ([], [], Some (Inl (Watcher (''inotify init failed: '' @ e))))
      | None \<Rightarrow>
     (case add of
        Some e \<Rightarrow> ([], [], Some (Inl (Watcher (''failed to add watch on '' @ dir @ '': '' @ e))))
      | None \<Rightarrow> watch_loop toml dir ws))"

section \<open>Instances and events\<close>

text \<open>
  The kinds of changes that the notification interface tells apart, as far as they concern the files of a
  directory: writing, creating and deleting a file, moving one in or out, changing its attributes,
  and changes it does not report at all, such as those of the target of a link. An instance queues
  those of the mask it was given.
\<close>

datatype change_kind = MODIFY | CREATE | DELETE | MOVED_TO | MOVED_FROM | ATTRIB | UNREPORTED

definition WATCH_MASK :: "change_kind list" where
  "WATCH_MASK = [MODIFY, CREATE, DELETE, MOVED_TO]"

text \<open>
  Each turn creates a notification instance, waits on it for an event, drops it, and then lets the
  writes settle and reads the directory; policies that load are sent, and when they do not load the
  previous ones stay. An error of the instance, or a receiver that is gone, ends the watcher. Changes
  happen at any time; only those of the mask that happen while an instance exists are noticed. Reading
  the directory is one step. \<open>ws_policies\<close> is the set that was sent last. The label of a step is the
  kind of the change it is, if it is one.
\<close>

datatype watch_phase = Opening | Waiting "change_kind list" | Settling | Ended

record watch_state =
  ws_phase :: watch_phase
  ws_dir :: policy_fs
  ws_policies :: "policy_entry list"

definition noticed :: "change_kind \<Rightarrow> watch_phase \<Rightarrow> watch_phase" where
  "noticed k p = (case p of Waiting ks \<Rightarrow> if k \<in> set WATCH_MASK then Waiting (ks @ [k]) else p | _ \<Rightarrow> p)"

inductive wstep ::
  "(string \<Rightarrow> string + policy_entry list) \<Rightarrow> string \<Rightarrow> change_kind option \<Rightarrow> watch_state \<Rightarrow> watch_state \<Rightarrow> bool"
  for toml dir where
  open_instance: "ws_phase s = Opening \<Longrightarrow> wstep toml dir None s (s\<lparr>ws_phase := Waiting []\<rparr>)"
| read_events: "ws_phase s = Waiting (k # ks) \<Longrightarrow> wstep toml dir None s (s\<lparr>ws_phase := Settling\<rparr>)"
| reloaded: "ws_phase s = Settling \<Longrightarrow> load_policies_from_dir (ws_dir s) toml dir = Inr new \<Longrightarrow>
    wstep toml dir None s (s\<lparr>ws_phase := Opening, ws_policies := new\<rparr>)"
| reload_failed: "ws_phase s = Settling \<Longrightarrow> load_policies_from_dir (ws_dir s) toml dir = Inl e \<Longrightarrow>
    wstep toml dir None s (s\<lparr>ws_phase := Opening\<rparr>)"
| ended: "wstep toml dir None s (s\<lparr>ws_phase := Ended\<rparr>)"
| change: "wstep toml dir (Some k) s (s\<lparr>ws_dir := fs, ws_phase := noticed k (ws_phase s)\<rparr>)"

inductive_cases wstep_cases: "wstep toml dir k s s'"

text \<open>
  The steps of a run whose changes write, create or delete files or move them in, and never fall between
  the reading of the directory and the next instance.
\<close>

definition quiet_step ::
  "(string \<Rightarrow> string + policy_entry list) \<Rightarrow> string \<Rightarrow> watch_state \<Rightarrow> watch_state \<Rightarrow> bool" where
  "quiet_step toml dir s s' \<longleftrightarrow>
     wstep toml dir None s s' \<or>
     (\<exists>k. wstep toml dir (Some k) s s' \<and> ws_phase s \<noteq> Opening \<and> k \<in> {MODIFY, CREATE, DELETE, MOVED_TO})"

definition any_step ::
  "(string \<Rightarrow> string + policy_entry list) \<Rightarrow> string \<Rightarrow> watch_state \<Rightarrow> watch_state \<Rightarrow> bool" where
  "any_step toml dir s s' \<longleftrightarrow> (\<exists>k. wstep toml dir k s s')"

text \<open>Unless events are to be handled or the watcher has ended, what was sent last is what the directory holds, if it loads.\<close>

definition up_to_date :: "(string \<Rightarrow> string + policy_entry list) \<Rightarrow> string \<Rightarrow> watch_state \<Rightarrow> bool" where
  "up_to_date toml dir s \<longleftrightarrow>
     (ws_phase s \<in> {Opening, Waiting []} \<longrightarrow>
        (\<forall>ps. load_policies_from_dir (ws_dir s) toml dir = Inr ps \<longrightarrow> ws_policies s = ps))"

section \<open>Lemmas\<close>

text \<open>Every set that is sent passed validation, and a directory that does not load changes nothing.\<close>

lemma watch_loop_sent:
  assumes "watch_loop toml dir ws = (sent, warned, r)" "es \<in> set sent"
  shows "\<exists>w \<in> set ws. load_policies_from_dir (wt_fs w) toml dir = Inr es"
  using assms
proof (induction ws arbitrary: sent warned r)
  case (Cons w ws)
  obtain sent' more r' where rest: "watch_loop toml dir ws = (sent', more, r')" by (cases "watch_loop toml dir ws")
  from Cons.prems rest have "load_policies_from_dir (wt_fs w) toml dir = Inr es \<or> es \<in> set sent'"
    by (auto simp: Let_def split: option.splits sum.splits policy_error.splits if_splits)
  with Cons.IH [OF rest] show ?case by auto
qed simp

lemma watcher_apply_keeps_engine_ok:
  assumes "engine_ok e" "\<forall>es \<in> set xs. \<forall>p \<in> set es. validate_policy p = Inr ()"
  shows "engine_ok (watcher_apply e xs)"
  using assms
proof (induction xs arbitrary: e)
  case (Cons es xs)
  let ?e = "e\<lparr>eng_evaluator := reload (eng_evaluator e) es\<rparr>"
  have "engine_ok ?e" using Cons.prems(2) by (simp add: engine_ok_def reload_def)
  with Cons.IH [of ?e] Cons.prems(2) show ?case by (simp add: watcher_apply_def)
qed (simp add: watcher_apply_def)

lemma watcher_keeps_engine_ok:
  assumes "engine_ok engine" "watch_loop toml dir ws = (sent, warned, r)"
  shows "engine_ok (watcher_apply engine sent)"
  using watch_loop_sent [OF assms(2)] validated_reload
  by (intro watcher_apply_keeps_engine_ok assms(1)) blast

lemma broken_directory_keeps_policies:
  "wt_join w = None \<Longrightarrow> read_inotify_events w dir = Inr evs \<Longrightarrow> load_policies_from_dir (wt_fs w) toml dir = Inl e \<Longrightarrow>
     fst (watch_loop toml dir (w # ws)) = fst (watch_loop toml dir ws)"
  by (simp add: Let_def split: prod.splits)

lemma quiet_step_up_to_date:
  assumes "quiet_step toml dir s s'" "up_to_date toml dir s"
  shows "up_to_date toml dir s'"
  using assms unfolding quiet_step_def
  by (auto simp: up_to_date_def noticed_def WATCH_MASK_def elim!: wstep_cases split: watch_phase.splits)

lemma quiet_run_up_to_date: "(quiet_step toml dir)\<^sup>*\<^sup>* s s' \<Longrightarrow> up_to_date toml dir s \<Longrightarrow> up_to_date toml dir s'"
  by (induction rule: rtranclp_induct) (auto intro: quiet_step_up_to_date)

lemma any_step_validated:
  assumes "any_step toml dir s s'" "\<forall>p \<in> set (ws_policies s). validate_policy p = Inr ()"
  shows "\<forall>p \<in> set (ws_policies s'). validate_policy p = Inr ()"
  using assms unfolding any_step_def by (auto elim!: wstep_cases dest: validated_reload)

lemma any_run_validated:
  assumes "(any_step toml dir)\<^sup>*\<^sup>* s s'" "\<forall>p \<in> set (ws_policies s). validate_policy p = Inr ()"
  shows "\<forall>p \<in> set (ws_policies s'). validate_policy p = Inr ()"
  using assms by (induction rule: rtranclp_induct) (simp, metis any_step_validated)

text \<open>What is missed: any change between two instances, and a file that is moved out while the watcher waits.\<close>

lemma change_between_turns_missed:
  assumes "ws_phase s = Opening"
  shows "(any_step toml dir)\<^sup>*\<^sup>* s (s\<lparr>ws_dir := fs, ws_phase := Waiting []\<rparr>)"
proof -
  let ?t = "s\<lparr>ws_dir := fs, ws_phase := Opening\<rparr>"
  from wstep.change [of toml dir k s fs] assms have "any_step toml dir s ?t" by (auto simp: any_step_def noticed_def)
  moreover have "any_step toml dir ?t (?t\<lparr>ws_phase := Waiting []\<rparr>)"
    unfolding any_step_def by (intro exI [of _ None] wstep.open_instance) simp
  ultimately show ?thesis by (auto intro: converse_rtranclp_into_rtranclp)
qed

lemma moved_file_missed:
  assumes "ws_phase s = Waiting []"
  shows "wstep toml dir (Some MOVED_FROM) s (s\<lparr>ws_dir := fs, ws_phase := Waiting []\<rparr>)"
  using wstep.change [of toml dir MOVED_FROM s fs] assms by (simp add: noticed_def WATCH_MASK_def)

section \<open>Properties\<close>

text \<open>
  C37. The watcher follows the directory. It starts with the policies of the directory in force, and the
  files of the directory are written, created, deleted and moved in, but not between a reading of the
  directory and the next notification instance. Whenever the watcher then waits and no event is
  queued, the policies it sent last are those the directory holds, if the directory loads.
\<close>

theorem watcher_current_when_quiet:
  assumes "ws_phase s = Opening" "load_policies_from_dir (ws_dir s) toml dir = Inr (ws_policies s)"
    and "(quiet_step toml dir)\<^sup>*\<^sup>* s s'" "ws_phase s' = Waiting []"
    and "load_policies_from_dir (ws_dir s') toml dir = Inr policies"
  shows "ws_policies s' = policies"
proof -
  have "up_to_date toml dir s" using assms(2) by (simp add: up_to_date_def)
  from quiet_run_up_to_date [OF assms(3) this] assms(4,5) show ?thesis by (simp add: up_to_date_def)
qed

text \<open>A policy file that is deleted while the watcher waits: the turn that follows takes its entries out of force.\<close>

definition empty_fs :: policy_fs where
  "empty_fs = sample_fs\<lparr>fs_read_dir := (\<lambda>_. Inr [])\<rparr>"

lemma empty_fs_loads: "load_policies_from_dir empty_fs toml ''d'' = Inr []"
  by (simp add: load_policies_from_dir_def empty_fs_def sample_fs_def toml_names_def)

lemma watcher_current_when_quiet_witness:
  "\<exists>s'. (quiet_step (\<lambda>_. Inr [sample_entry]) ''d'')\<^sup>*\<^sup>*
       \<lparr>ws_phase = Opening, ws_dir = sample_fs, ws_policies = [sample_entry, sample_entry]\<rparr> s' \<and>
     ws_phase s' = Waiting [] \<and> ws_dir s' = empty_fs \<and> ws_policies s' = []"
proof -
  let ?toml = "\<lambda>_ :: string. Inr [sample_entry] :: string + policy_entry list"
  let ?st = "\<lambda>p fs es. \<lparr>ws_phase = p, ws_dir = fs, ws_policies = es\<rparr>"
  let ?Q = "quiet_step ?toml ''d''"
  let ?es = "[sample_entry, sample_entry]"
  have "?Q (?st Opening sample_fs ?es) (?st (Waiting []) sample_fs ?es)"
    using wstep.open_instance [of "?st Opening sample_fs ?es" ?toml "''d''"] by (simp add: quiet_step_def)
  moreover have "?Q (?st (Waiting []) sample_fs ?es) (?st (Waiting [DELETE]) empty_fs ?es)"
    using wstep.change [of ?toml "''d''" DELETE "?st (Waiting []) sample_fs ?es" empty_fs]
    by (auto simp: quiet_step_def noticed_def WATCH_MASK_def)
  moreover have "?Q (?st (Waiting [DELETE]) empty_fs ?es) (?st Settling empty_fs ?es)"
    using wstep.read_events [of "?st (Waiting [DELETE]) empty_fs ?es" DELETE "[]" ?toml "''d''"] by (simp add: quiet_step_def)
  moreover have "?Q (?st Settling empty_fs ?es) (?st Opening empty_fs [])"
    using wstep.reloaded [of "?st Settling empty_fs ?es" ?toml "''d''" "[]"] by (simp add: quiet_step_def empty_fs_loads)
  moreover have "?Q (?st Opening empty_fs []) (?st (Waiting []) empty_fs [])"
    using wstep.open_instance [of "?st Opening empty_fs []" ?toml "''d''"] by (simp add: quiet_step_def)
  ultimately have run: "?Q\<^sup>*\<^sup>* (?st Opening sample_fs ?es) (?st (Waiting []) empty_fs [])"
    by (iprover intro: converse_rtranclp_into_rtranclp rtranclp.rtrancl_refl)
  have current: "ws_policies (?st (Waiting []) empty_fs []) = []"
    by (rule watcher_current_when_quiet [OF _ _ run]) (simp_all add: sample_load empty_fs_loads)
  show ?thesis by (intro exI conjI, rule run, simp, simp, rule current)
qed

end
