(* ===== verification/Cdp_Gate_Run.thy ===== *)
theory Cdp_Gate_Run
  imports Cdp_Gate_System
begin

text \<open>
  A concrete run of the gate on which the properties are evaluated: it starts with one automatic
  policy, an agent registers, asks for a credential and is granted a lease, and uses it through
  the proxy. The cache of nonces is a list, and the clock, the parsers and the process table are
  functions that know just this run.
\<close>

section \<open>Surroundings\<close>

definition list_lru :: "string list lru_ops" where
  "list_lru = \<lparr>lru_contains = (\<lambda>c k. k \<in> set c), lru_put = (\<lambda>k c. take 10000 (k # c))\<rparr>"

lemma list_lru_ok: "lru_ok list_lru (\<lambda>c. c) 10000"
  by (simp add: lru_ok_def list_lru_def)

definition run_entry :: policy_entry where
  "run_entry =
     (sample_auto_entry (replicate 32 2) None)\<lparr>pe_allow := (pe_allow sample_entry)
        \<lparr>al_forbidden_paths := [''/b''], al_max_ttl_seconds := Some 100, al_max_requests_per_lease := Some 1\<rparr>\<rparr>"

definition run_approval :: approval_config where
  "run_approval = eng_approval_config sample_engine"

definition run_engine :: policy_engine where
  "run_engine = \<lparr>eng_evaluator = evaluator_new [run_entry, run_entry], eng_policy_dir = ''d'',
     eng_approval_config = run_approval\<rparr>"

definition run_tx :: audit_channel where
  "run_tx = \<lparr>tx_sent = [], tx_closed = True\<rparr>"

definition run_pconfig :: proxy_config where
  "run_pconfig = \<lparr>pcfg_bind_address = V4 0x7F000001, pcfg_port_range_start = 19000, pcfg_port_range_end = 19000\<rparr>"

definition run_token :: string where
  "run_token = generate_session_token sample_hmac [7] (replicate 32 2) [9]"

definition register_request :: json_rpc_request where
  "register_request = \<lparr>jr_jsonrpc = ''2.0'', jr_method = ''cdp.register'', jr_params = JNull, jr_id = JNull\<rparr>"

definition credential_request :: json_rpc_request where
  "credential_request = \<lparr>jr_jsonrpc = ''2.0'', jr_method = ''cdp.requestCredential'',
     jr_params = JObject [(''session_token'', JString (''cdp_sess_'' @ run_token))], jr_id = JNull\<rparr>"

definition run_register :: register_params where
  "run_register = \<lparr>rp_agent_id = ''a'', rp_agent_version = ''1'', rp_capabilities = [], rp_attestation = None,
     rp_nonce = ''n1'', rp_timestamp = ''t''\<rparr>"

definition run_request :: request_credential_params where
  "run_request = \<lparr>rc_session_token = ''cdp_sess_'' @ run_token, rc_credential_ref = ''c'',
     rc_scope = \<lparr>rsc_hosts = [''h''], rsc_methods = [''GET''], rsc_paths = [''/a''], rsc_ttl_seconds = None,
       rsc_max_requests = None\<rparr>, rc_reason = ''r'', rc_nonce = ''n2'', rc_timestamp = ''t''\<rparr>"

definition run_env :: "string list gate_env" where
  "run_env =
     \<lparr>gt_lru = list_lru, gt_uuid_version = (\<lambda>_. Some 4), gt_rfc3339 = (\<lambda>_. Some 0),
      gt_process = sample_process\<lparr>pv_sha256 := (\<lambda>_. replicate 32 2)\<rparr>, gt_clone_pidfd = (\<lambda>_. None),
      gt_lease = sample_env 1, gt_gui = sample_gui,
      gt_from_slice = (\<lambda>bs. Inr (if bs = [1] then register_request else credential_request)),
      gt_register_params = (\<lambda>_. Inr run_register), gt_request_params = (\<lambda>_. Inr run_request),
      gt_show = (\<lambda>_. []), gt_order = (\<lambda>_. [hex_encode (replicate 32 2)])\<rparr>"

definition run_peer :: peer_info where
  "run_peer = \<lparr>peer_pid = 7, peer_uid = 1000, peer_gid = 0\<rparr>"

section \<open>States\<close>

definition gate0 :: "string list router" where
  "gate0 = router_new (\<lambda>_. []) 0 [7] (manager_new [7] (Some run_tx)) (proxy_manager_new run_pconfig) run_engine"

definition run_registration :: agent_registration where
  "run_registration =
     \<lparr>rg_fingerprint = \<lparr>fp_uid = 1000, fp_pid = 7, fp_binary_path = ''/bin/a'', fp_binary_hash = replicate 32 2,
        fp_start_time = 5, fp_fingerprint_hash = replicate 32 2\<rparr>,
      rg_agent_id = ''a'', rg_agent_version = ''1'', rg_capabilities_granted = [], rg_connection_id = [9],
      rg_registered_at = 0\<rparr>"

definition run_death :: death_notification where
  "run_death = \<lparr>dt_pid = 7, dt_fingerprint_hash = replicate 32 2\<rparr>"

definition gate1 :: "string list router" where
  "gate1 = gate0\<lparr>rt_nonce_cache := [''n1''], rt_monitors := [run_death],
     rt_registry := [hex_encode (replicate 32 2) \<mapsto> run_registration]\<rparr>"

definition run_scope :: scope where
  "run_scope = sample_scope\<lparr>scope_ttl_seconds := Some 100, scope_max_requests := Some 1\<rparr>"

definition run_lease :: lease where
  "run_lease = proxy_lease\<lparr>l_granted_scope := run_scope, l_delegation_allowed := False\<rparr>"

definition run_mgr :: lease_manager where
  "run_mgr = index_lease (replicate 32 2) ''01'' (insert_lease ''01'' run_lease (manager_new [7] (Some run_tx)))"

definition run_pool :: proxy_manager where
  "run_pool = fst (start_proxy (proxy_manager_new run_pconfig) ''01'')"

definition gate2 :: "string list router" where
  "gate2 = gate1\<lparr>rt_nonce_cache := [''n2'', ''n1''], rt_lease_manager := run_mgr, rt_proxy_manager := run_pool\<rparr>"

section \<open>The run\<close>

lemma gate0_start:
  "gate_start sample_fs (\<lambda>_. Inl []) (\<lambda>_. Inr [run_entry]) ''d'' run_approval (\<lambda>_. []) 0 [7] run_pconfig run_tx =
     Inr gate0"
proof -
  have "load_policies_from_dir sample_fs (\<lambda>_. Inr [run_entry]) ''d'' = Inr [run_entry, run_entry]" by code_simp
  then show ?thesis
    by (simp add: gate_start_def engine_new_def gate0_def run_engine_def sample_fs_def)
qed

lemma run_verify:
  "verify_agent (sample_process\<lparr>pv_sha256 := (\<lambda>_. replicate 32 2)\<rparr>) 7 1000 = Inr (rg_fingerprint run_registration)"
  using sample_start_time [of "\<lambda>_. replicate 32 2"]
  by (simp add: verify_agent_def sample_process_def read_binary_path_def hash_binary_def compute_fingerprint_def
      run_registration_def)

lemma run_replay:
  "validate_replay run_env 0 self n ''t'' =
     (if n \<in> set (rt_nonce_cache self) then (self, Inl (Replay (Duplicate_Nonce n)))
      else (self\<lparr>rt_nonce_cache := take 10000 (n # rt_nonce_cache self)\<rparr>, Inr ()))"
  by (simp add: validate_replay_def run_env_def list_lru_def sample_env_def sample_chrono_def)

lemma run_registers:
  "gate_handle_request run_env 0 0 gate0 [1] run_peer [9] =
     (gate1, Ret (rpc_success JNull (Registered \<lparr>rr_status = ''registered'',
        rr_agent_fingerprint = hex_encode (replicate 32 2), rr_session_token = ''cdp_sess_'' @ run_token,
        rr_capabilities_granted = []\<rparr>)))"
proof -
  have "gt_from_slice run_env [1] = Inr register_request" "gt_register_params run_env (jr_params register_request) = Inr run_register"
    "jr_jsonrpc register_request = ''2.0''" "jr_method register_request = ''cdp.register''" "jr_id register_request = JNull"
    by (simp_all add: run_env_def register_request_def)
  moreover have "handle_register run_env 0 0 gate0 run_register run_peer [9] =
      (gate1, Inr (Registered \<lparr>rr_status = ''registered'', rr_agent_fingerprint = hex_encode (replicate 32 2),
         rr_session_token = ''cdp_sess_'' @ run_token, rr_capabilities_granted = []\<rparr>))"
  proof -
    have "rp_nonce run_register = ''n1''" "rp_timestamp run_register = ''t''" "rt_nonce_cache gate0 = []"
      "gt_process run_env = sample_process\<lparr>pv_sha256 := (\<lambda>_. replicate 32 2)\<rparr>" "peer_pid run_peer = 7"
      "peer_uid run_peer = 1000" "gt_clone_pidfd run_env = (\<lambda>_. None)" "env_hmac (gt_lease run_env) = sample_hmac"
      "rt_gate_key gate0 = [7]" "fp_fingerprint_hash (rg_fingerprint run_registration) = replicate 32 2"
      "rp_capabilities run_register = []" "rt_monitors gate0 = []" "rt_registry gate0 = Map.empty"
      by (simp_all add: run_register_def gate0_def router_new_def run_env_def run_peer_def sample_env_def
          run_registration_def)
    then show ?thesis
      by (simp add: handle_register_def run_replay run_verify Let_def flip: run_token_def)
        (simp add: gate1_def run_death_def run_registration_def run_register_def)
  qed
  ultimately show ?thesis by (simp add: gate_handle_request_def respond_def Let_def)
qed

lemma run_intersect: "intersect_scope (scope_of_request (rc_scope run_request)) (pe_allow run_entry) = Some run_scope"
proof -
  have "path_matches_glob ''/a'' ''/b'' = False" by code_simp
  then show ?thesis
    by (simp add: intersect_scope_def narrow_list_def min_option_def merge_body_constraints_def any_glob_matches_def
        run_entry_def sample_auto_entry_def sample_entry_def run_request_def scope_of_request_def scope_default_def
        run_scope_def sample_scope_def Let_def)
qed

lemma run_hash: "hash_matches (registration_info run_registration) ''c'' run_entry = Ret True"
  by code_simp

lemma run_decision:
  "evaluate_with_approval sample_gui run_engine (registration_info run_registration) ''c''
     (scope_of_request (rc_scope run_request)) ''r'' =
   Ret (Inr (AutoApprove run_scope ''p'' (build_constraints (pe_allow run_entry) (pe_delegation run_entry))))"
proof -
  have "pa_mode (pe_approval run_entry) = ''auto''" "pe_name run_entry = ''p''"
    by (simp_all add: run_entry_def sample_auto_entry_def sample_entry_def)
  then show ?thesis
    by (simp add: evaluate_with_approval_def engine_evaluate_def evaluate_def find_by_binary_hash_def
        run_engine_def evaluator_new_def run_hash build_decision_def run_intersect)
qed

lemma run_new_lease:
  "new_root_lease (sample_env 1) 0 [7] (registration_info run_registration) ''c'' run_scope
     (build_constraints (pe_allow run_entry) (pe_delegation run_entry)) ''p'' ''auto'' = Ret (Inr run_lease)"
  by (simp add: new_root_lease_def run_lease_def proxy_lease_def lease1_def sample_env_def registration_info_def
      run_registration_def run_scope_def sample_scope_def scope_default_def build_constraints_def run_entry_def
      sample_auto_entry_def sample_entry_def pin_dns_def unwrap_or_def or_option_def sample_ids sample_add
      sample_sint Let_def)

lemma run_creates:
  "create_lease (sample_env 1) 0 (manager_new [7] (Some run_tx)) (registration_info run_registration) ''c'' run_scope
     (build_constraints (pe_allow run_entry) (pe_delegation run_entry)) ''p'' ''auto'' = Ret (run_mgr, Inr run_lease)"
proof -
  have "emit_audit ev f run_mgr = run_mgr" for ev f
    by (simp add: emit_audit_def run_mgr_def index_lease_def insert_lease_def manager_new_def run_tx_def)
  moreover have "lm_gate_key (manager_new [7] (Some run_tx)) = [7]" by (simp add: manager_new_def)
  moreover have "ai_fingerprint_hash (registration_info run_registration) = replicate 32 2"
    "l_lease_id run_lease = ''01''"
    by (simp_all add: registration_info_def run_registration_def run_lease_def proxy_lease_def lease1_def)
  ultimately show ?thesis by (simp add: create_lease_def run_new_lease Let_def flip: run_mgr_def)
qed

lemma run_starts: "start_proxy (proxy_manager_new run_pconfig) ''01'' = (run_pool, Inr 19000)"
proof -
  have "port_range 19000 19000 = [19000]" by (simp add: port_range_def)
  then show ?thesis
    by (simp add: run_pool_def start_proxy_def find_free_port_def proxy_manager_new_def run_pconfig_def Let_def)
qed

definition run_grant :: request_credential_result where
  "run_grant =
     \<lparr>rcr_status = ''granted'', rcr_lease_id = ''01'', rcr_proxy_port = 19000,
      rcr_lease_token = l_lease_token run_lease,
      rcr_channel_binding_nonce = hex_encode (l_channel_binding_nonce run_lease), rcr_ttl_seconds = 100,
      rcr_granted_scope = granted_scope_info run_scope\<rparr>"

lemma run_lookup: "find_registration run_env gate1 run_peer [9] = Some run_registration"
  by (simp add: find_registration_def gate1_def run_env_def run_peer_def run_registration_def List.map_filter_def)

lemma run_session: "validate_session run_env gate1 (jr_params credential_request) run_peer [9] = Ret (Inr ())"
proof -
  have "verify_session_token sample_hmac [7] (replicate 32 2) [9] run_token = Ret True"
    by (simp add: run_token_def token_messages)
  moreover have "fp_fingerprint_hash (rg_fingerprint run_registration) = replicate 32 2"
    "rt_gate_key gate1 = [7]" "json_get (jr_params credential_request) ''session_token'' = Some (JString (''cdp_sess_'' @ run_token))"
    "env_hmac (gt_lease run_env) = sample_hmac"
    by (simp_all add: run_registration_def gate1_def gate0_def router_new_def credential_request_def run_env_def
        sample_env_def)
  ultimately show ?thesis using run_lookup by (simp add: validate_session_def)
qed

lemma run_credential:
  "handle_request_credential run_env 0 0 gate1 run_request run_peer [9] = (gate2, Ret (Inr (Granted run_grant)))"
proof -
  have "gt_gui run_env = sample_gui" "gt_lease run_env = sample_env 1" "rt_policy_engine gate1 = run_engine"
    "rc_nonce run_request = ''n2''" "rc_timestamp run_request = ''t''" "rt_nonce_cache gate1 = [''n1'']"
    "rc_credential_ref run_request = ''c''" "rc_reason run_request = ''r''"
    "rt_lease_manager gate1 = manager_new [7] (Some run_tx)"
    "rt_proxy_manager gate1 = proxy_manager_new run_pconfig" "l_lease_id run_lease = ''01''"
    by (simp_all add: run_env_def gate1_def gate0_def router_new_def run_request_def run_lease_def proxy_lease_def
        lease1_def)
  then show ?thesis
    by (simp add: handle_request_credential_def run_replay run_lookup run_decision grant_lease_def run_creates run_starts
        Let_def gate2_def run_grant_def)
      (simp add: run_lease_def proxy_lease_def lease1_def)
qed

lemma run_grants:
  "gate_handle_request run_env 0 0 gate1 [2] run_peer [9] = (gate2, Ret (rpc_success JNull (Granted run_grant)))"
proof -
  have "gt_from_slice run_env [2] = Inr credential_request"
    "gt_request_params run_env (jr_params credential_request) = Inr run_request"
    "jr_jsonrpc credential_request = ''2.0''" "jr_method credential_request = ''cdp.requestCredential''"
    "jr_id credential_request = JNull"
    by (simp_all add: run_env_def credential_request_def)
  then show ?thesis by (simp add: gate_handle_request_def run_session run_credential respond_def Let_def)
qed

section \<open>Reachability\<close>

lemma run_env_parts:
  "gt_lru run_env = list_lru" "env_hmac (gt_lease run_env) = sample_hmac"
  "env_chrono (gt_lease run_env) = sample_chrono" "lease_id_generate (env_id_random (gt_lease run_env)) = ''01''"
  by (simp_all add: run_env_def sample_env_def sample_ids)

lemma gate0_reach: "greach list_lru sample_hmac sample_chrono 0 gate0"
  unfolding greach_def using gate0_start by blast

lemma greach_step:
  assumes "greach ops hmac ch now self" "now \<le> now'" "gstep ops hmac ch now' self self'"
  shows "greach ops hmac ch now' self'"
  using assms unfolding greach_def by (meson rtranclp.rtrancl_into_rtrancl tstep.timed)

lemma gate1_reach: "greach list_lru sample_hmac sample_chrono 0 gate1"
  by (rule greach_step [OF gate0_reach order_refl gstep.request [OF run_registers]])
    (simp_all add: run_env_parts gate0_def router_new_def manager_new_def)

lemma gate2_step: "gstep list_lru sample_hmac sample_chrono 0 gate1 gate2"
  by (rule gstep.request [OF run_grants])
    (simp_all add: run_env_parts gate1_def gate0_def router_new_def manager_new_def)

lemma gate2_reach: "greach list_lru sample_hmac sample_chrono 0 gate2"
  by (rule greach_step [OF gate1_reach order_refl gate2_step])

lemma gate2_parts:
  "lm_leases (rt_lease_manager gate2) = [''01'' \<mapsto> run_lease]" "rt_gate_key gate2 = [7]"
  "rt_registry gate2 = [hex_encode (replicate 32 2) \<mapsto> run_registration]" "rt_monitors gate2 = [run_death]"
  "rt_lease_manager gate2 = run_mgr" "rt_proxy_manager gate2 = run_pool"
  by (simp_all add: gate2_def gate1_def gate0_def router_new_def run_mgr_def index_lease_def insert_lease_def
      manager_new_def)

lemma run_lease_parts:
  "l_status run_lease = Active" "l_parent_lease_id run_lease = None" "l_agent_fingerprint_hash run_lease = replicate 32 2"
  "l_expires_at run_lease = 100 * nanos"
  by (simp_all add: run_lease_def proxy_lease_def lease1_def)

definition run_server :: proxy_server where
  "run_server = \<lparr>ps_lease_id = ''01'', ps_bind_addr = \<lparr>sa_ip = V4 0x7F000001, sa_port = 19000\<rparr>, ps_shutdown = 0\<rparr>"

lemma run_running: "running run_pool run_server"
proof -
  have "port_range 19000 19000 = [19000]" by (simp add: port_range_def)
  then show ?thesis
    by (simp add: run_pool_def start_proxy_def find_free_port_def proxy_manager_new_def run_pconfig_def Let_def
        running_def insert_listener_def listener_addr_def run_server_def)
qed

lemma run_forwards:
  "\<exists>leases sent aud r. handle_request sample_proxy 0 run_mgr run_mgr sample_peer ''01'' [7] sample_request =
     Ret (leases, sent, aud, r) \<and> sent \<noteq> []"
proof -
  let ?l = "run_lease\<lparr>l_requests_used := 1\<rparr>"
  have leases: "lm_leases run_mgr = [''01'' \<mapsto> run_lease]" using gate2_parts(1,5) by simp
  have auth: "authenticated sample_proxy run_mgr sample_peer ''01'' [7] sample_request"
    unfolding authenticated_def leases
    by (simp add: sample_proxy_def sample_request_def sample_authenticate run_lease_def proxy_lease_def lease1_def)
  have "use_lease 0 run_mgr ''01'' = (insert_lease ''01'' ?l run_mgr, Inr ?l)"
  proof -
    have "emit_audit ev f (insert_lease ''01'' ?l run_mgr) = insert_lease ''01'' ?l run_mgr" for ev f
      by (simp add: emit_audit_def insert_lease_def run_mgr_def index_lease_def manager_new_def run_tx_def)
    moreover have "l_max_requests run_lease = Some 1" "l_requests_used run_lease = 0"
      by (simp_all add: run_lease_def proxy_lease_def lease1_def)
    ultimately show ?thesis
      by (simp add: use_lease_def leases Let_def run_lease_parts is_expired_def nanos_def)
  qed
  moreover have "validate_request exact_globs (\<lambda>_. None) ''GET'' ''h'' ''/a'' ct None (l_granted_scope ?l) = Inr ()" for ct
  proof -
    have parts: "scope_hosts (l_granted_scope ?l) = scope_hosts sample_scope"
      "scope_paths (l_granted_scope ?l) = scope_paths sample_scope"
      "scope_forbidden_paths (l_granted_scope ?l) = scope_forbidden_paths sample_scope"
      "scope_methods (l_granted_scope ?l) = scope_methods sample_scope"
      "scope_body_constraints (l_granted_scope ?l) = scope_body_constraints sample_scope"
      by (simp_all add: run_lease_def run_scope_def)
    show ?thesis using sample_validate [of ct] unfolding validate_request_def parts .
  qed
  moreover have "l_dns_pinned_ips ?l = [''h'' \<mapsto> [V4 1]]" by (simp add: run_lease_def proxy_lease_def)
  ultimately show ?thesis using sample_course [OF auth] by (simp add: handle_request_def)
qed

end
