(* ===== verification/Cdp_Gate_Props.thy ===== *)
theory Cdp_Gate_Props
  imports Cdp_Gate_Run
begin

text \<open>
  Properties of the gate as a whole: its invariant, what a grant went through, what the death of
  an agent ends, the replay window, and three states in which access or registrations outlive
  what they were given for.
\<close>

section \<open>Identity of a lease\<close>

text \<open>A lease never changes its scope, its pins, its credential or its agent.\<close>

definition same_grant :: "lease \<Rightarrow> lease \<Rightarrow> bool" where
  "same_grant l l' \<longleftrightarrow> l_granted_scope l' = l_granted_scope l \<and> l_dns_pinned_ips l' = l_dns_pinned_ips l \<and>
     l_credential_ref l' = l_credential_ref l \<and> l_agent_fingerprint_hash l' = l_agent_fingerprint_hash l \<and>
     l_agent_pid l' = l_agent_pid l \<and> l_agent_uid l' = l_agent_uid l \<and> l_lease_token l' = l_lease_token l \<and>
     l_channel_binding_nonce l' = l_channel_binding_nonce l"

lemma lstep_same_grant:
  assumes "lstep hmac ch w w'" "lease_tree (leases_of w)" "leases_of w i = Some l"
  shows "\<exists>l'. leases_of w' i = Some l' \<and> same_grant l l'"
  using assms(1,2) by (cases rule: lstep_effect) (use assms(3) in \<open>auto simp: same_grant_def with_status_def\<close>)

lemma lsteps_same_grant:
  assumes "(lstep hmac ch)\<^sup>*\<^sup>* w w'" "lease_tree (leases_of w)" "leases_of w i = Some l"
  shows "\<exists>l'. leases_of w' i = Some l' \<and> same_grant l l'"
  using assms
proof (induction rule: rtranclp_induct)
  case base
  then show ?case by (simp add: same_grant_def)
next
  case (step v v')
  then obtain l' where l': "leases_of v i = Some l'" "same_grant l l'" by blast
  have "lease_tree (leases_of v)" using lsteps_dom [OF step(1,4)] by blast
  from lstep_same_grant [OF step(2) this l'(1)] l'(2) show ?case by (auto simp: same_grant_def)
qed

lemma tsteps_same_grant:
  assumes "(tstep ops hmac ch)\<^sup>*\<^sup>* (t, self) (now, self')" "gate_ok hmac ch t self"
    and "lm_leases (rt_lease_manager self) i = Some l"
  shows "\<exists>l'. lm_leases (rt_lease_manager self') i = Some l' \<and> same_grant l l'"
  using assms
proof (induction "(now, self')" arbitrary: now self' rule: rtranclp_induct)
  case base
  then show ?case by (simp add: same_grant_def)
next
  case (step v)
  obtain t1 self1 where v: "v = (t1, self1)" by (cases v)
  with step obtain l1 where l1: "lm_leases (rt_lease_manager self1) i = Some l1" "same_grant l l1" by blast
  from tsteps_ok [of ops hmac ch t self t1 self1] step v have ok: "gate_ok hmac ch t1 self1" by simp
  then obtain t0 where "oreach hmac ch t0 (rt_lease_manager self1)" by (auto simp: gate_ok_def)
  then have tree: "lease_tree (lm_leases (rt_lease_manager self1))" using oreach_invariant by blast
  from step(2) v have "t1 \<le> now" "gstep ops hmac ch now self1 self'" by (auto elim: tstep.cases)
  with gstep_effect [OF _ ok] consider "rt_lease_manager self' = rt_lease_manager self1"
    | "ostep hmac ch now (rt_lease_manager self1) (rt_lease_manager self')" by blast
  then show ?case
  proof cases
    case 2
    from lsteps_same_grant [OF ostep_run [OF 2]] tree l1(1) obtain l' where
      "lm_leases (rt_lease_manager self') i = Some l'" "same_grant l1 l'" by auto
    with l1(2) show ?thesis by (auto simp: same_grant_def)
  qed (use l1 in auto)
qed

section \<open>The replay window\<close>

lemma task_step_cache:
  assumes "task_step env t now self task = (self', ts)"
  shows "rt_nonce_cache self' = rt_nonce_cache self \<or> (\<exists>n. \<not> lru_contains (gt_lru env) (rt_nonce_cache self) n \<and>
    rt_nonce_cache self' = lru_put (gt_lru env) n (rt_nonce_cache self))"
proof (cases task)
  case (Session_Checked params peer conn)
  obtain mid v where rep: "validate_replay env t self (rc_nonce params) (rc_timestamp params) = (mid, v)"
    by (cases "validate_replay env t self (rc_nonce params) (rc_timestamp params)")
  with assms Session_Checked have "self' = mid" by (cases v) auto
  with rep show ?thesis by (cases rule: validate_replay_cases) auto
next
  case (Releasing ids)
  with assms show ?thesis by (cases ids) auto
qed (use assms in \<open>auto split: sum.splits option.splits prod.splits outcome.splits policy_decision.splits\<close>)

lemma gstep_recent:
  assumes "gstep ops hmac ch now self self'" "lru_ok ops recent cap"
  shows "recent (rt_nonce_cache self') = recent (rt_nonce_cache self) \<or>
    (\<exists>n. recent (rt_nonce_cache self') = take cap (n # recent (rt_nonce_cache self)))"
  using assms(1)
proof cases
  case (request env t' raw peer conn r)
  have put: "recent (lru_put (gt_lru env) n c) = take cap (n # recent c)"
    if "\<not> lru_contains (gt_lru env) c n" for n c
    using that assms(2) request(2) by (simp add: lru_ok_def)
  from request(1) show ?thesis by (cases rule: gate_handle_request_cases) (auto simp: put)
next
  case (begun env t' raw peer conn self1 ts)
  from request_begin_effect [OF begun(2)] obtain c where c: "self1 = self\<lparr>rt_nonce_cache := c\<rparr>"
    "c = rt_nonce_cache self \<or> (\<exists>n. \<not> lru_contains (gt_lru env) (rt_nonce_cache self) n \<and> c = lru_put (gt_lru env) n (rt_nonce_cache self))"
    by blast
  with assms(2) begun(1,3) show ?thesis by (auto simp: lru_ok_def)
next
  case (resumed task env t' self1 ts)
  let ?self = "self\<lparr>rt_tasks := remove1 task (rt_tasks self)\<rparr>"
  from task_step_cache [OF resumed(3)] obtain c where c: "rt_nonce_cache self1 = c"
    "c = rt_nonce_cache self \<or> (\<exists>n. \<not> lru_contains (gt_lru env) (rt_nonce_cache self) n \<and> c = lru_put (gt_lru env) n (rt_nonce_cache self))"
    by auto
  with assms(2) resumed(1,4) show ?thesis by (auto simp: lru_ok_def)
next
  case (death nt)
  from death(2) show ?thesis by (auto simp: handle_death_def Let_def split: if_splits option.splits sum.splits)
qed (simp_all add: disconnect_def death_begin_def Let_def)

lemma tsteps_recent:
  assumes "(tstep ops hmac ch ^^ k) (t, self) (t', self')" "lru_ok ops recent cap" "k < cap"
    and "n \<in> set (take 1 (recent (rt_nonce_cache self)))"
  shows "n \<in> set (take (Suc k) (recent (rt_nonce_cache self')))"
  using assms(1,3)
proof (induction k arbitrary: t' self')
  case 0
  with assms(4) show ?case by simp
next
  case (Suc k)
  then obtain t1 self1 where run: "(tstep ops hmac ch ^^ k) (t, self) (t1, self1)"
    and last: "tstep ops hmac ch (t1, self1) (t', self')" by auto
  with Suc have "n \<in> set (take (Suc k) (recent (rt_nonce_cache self1)))" by simp
  moreover from last have "gstep ops hmac ch t' self1 self'" by (auto elim: tstep.cases)
  from gstep_recent [OF this assms(2)]
  have "set (take (Suc k) (recent (rt_nonce_cache self1))) \<subseteq> set (take (Suc (Suc k)) (recent (rt_nonce_cache self')))"
    using Suc.prems(2) set_take_subset_set_take [of "Suc k" "Suc (Suc k)" "recent (rt_nonce_cache self1)"]
    by (auto simp: take_Cons' min_def)
  ultimately show ?case by blast
qed

section \<open>Deaths\<close>

lemma revoked_unusable:
  assumes "revoked_at (lm_leases mgr) j"
  shows "use_lease t mgr j = (mgr, Inl NotActive)"
proof -
  from assms obtain l where "lm_leases mgr j = Some l" "is_revoked l" by (auto simp: revoked_at_def)
  moreover from this(2) have "l_status l \<noteq> Active" by (auto simp: is_revoked_def)
  ultimately show ?thesis by (simp add: use_lease_def)
qed

text \<open>The section of the handler that revokes: what it lists covers the agent's active root leases with all below them.\<close>

lemma death_revokes:
  assumes "gate_ok hmac ch now self"
  shows "\<exists>leases ids. revoke_agent_leases (rt_lease_manager self) fp ''agent process exited'' = Some (leases, Inr ids) \<and>
    (\<forall>i l j. lm_leases (rt_lease_manager self) i = Some l \<longrightarrow> l_status l = Active \<longrightarrow>
       l_parent_lease_id l = None \<longrightarrow> l_agent_fingerprint_hash l = fp \<longrightarrow>
       (i, j) \<in> (child_rel (lm_leases (rt_lease_manager self)))\<^sup>* \<longrightarrow> j \<in> set ids \<and> revoked_at (lm_leases leases) j)"
proof -
  let ?m = "lm_leases (rt_lease_manager self)"
  from assms(1) obtain t0 where reach: "oreach hmac ch t0 (rt_lease_manager self)" by (auto simp: gate_ok_def)
  obtain leases ids where
    rev: "revoke_agent_leases (rt_lease_manager self) fp ''agent process exited'' = Some (leases, Inr ids)"
    and eff: "\<forall>j. lm_leases leases j = (if j \<in> set ids
       then map_option (\<lambda>l. l\<lparr>l_status := Revoked ''agent process exited''\<rparr>) (?m j) else ?m j)"
    and cov: "\<forall>i l j. ?m i = Some l \<longrightarrow> l_status l = Active \<longrightarrow> l_parent_lease_id l = None \<longrightarrow>
       l_agent_fingerprint_hash l = fp \<longrightarrow> (i, j) \<in> (child_rel ?m)\<^sup>* \<longrightarrow> j \<in> set ids"
    using revoke_agent_leases_covers [OF reach, of fp "''agent process exited''"] by auto
  have "revoked_at (lm_leases leases) j" if "j \<in> set ids" "?m j \<noteq> None" for j
    using that eff by (auto simp: revoked_at_def is_revoked_def)
  moreover have "?m j \<noteq> None" if "?m i = Some l" "(i, j) \<in> (child_rel ?m)\<^sup>*" for i l j
    using that(2,1) lease_tree_dom [of ?m] oreach_invariant [OF reach] by (cases rule: rtrancl.cases) auto
  ultimately have "\<forall>i l j. ?m i = Some l \<longrightarrow> l_status l = Active \<longrightarrow> l_parent_lease_id l = None \<longrightarrow>
      l_agent_fingerprint_hash l = fp \<longrightarrow> (i, j) \<in> (child_rel ?m)\<^sup>* \<longrightarrow> j \<in> set ids \<and> revoked_at (lm_leases leases) j"
    using cov by blast
  with rev show ?thesis by blast
qed

section \<open>Properties\<close>

text \<open>
  C5. In every state the running gate can reach, with any number of handlers suspended between their
  sections, its parts fit together: the lease manager is in a reachable state of its own and shares
  the router's key, the listener pool is consistent and serves only leases that exist, every policy
  in use passed validation, every registration is stored under its fingerprint, and what suspended
  handlers have obtained is good: the limits of an approved request are valid, and the lease whose
  listener is to be started is stored.
\<close>

theorem gate_invariant:
  assumes "greach ops hmac ch now self"
  shows "(\<exists>t \<le> now. oreach hmac ch t (rt_lease_manager self)) \<and>
    lm_gate_key (rt_lease_manager self) = rt_gate_key self \<and> pm_ok (rt_proxy_manager self) \<and>
    fst ` set (pm_listeners (rt_proxy_manager self)) \<subseteq> dom (lm_leases (rt_lease_manager self)) \<and>
    (\<forall>e \<in> set (ev_policies (eng_evaluator (rt_policy_engine self))). validate_policy e = Inr ()) \<and>
    (\<forall>k reg. rt_registry self k = Some reg \<longrightarrow> k = hex_encode (fp_fingerprint_hash (rg_fingerprint reg))) \<and>
    (\<forall>agent cref granted pname pcons. Grant_Approved agent cref granted pname pcons \<in> set (rt_tasks self) \<longrightarrow>
       constraints_valid pcons) \<and>
    (\<forall>i. Lease_Created i \<in> set (rt_tasks self) \<longrightarrow> i \<in> dom (lm_leases (rt_lease_manager self)))"
  using greach_ok [OF assms] by (auto simp: gate_ok_defs engine_ok_def dest: bspec)



text \<open>
  C21. Replays are refused inside the window of the cache: once the gate accepted a nonce, it refuses
  the same nonce as long as fewer steps than the capacity of the cache have happened since,
  whatever those steps are and whatever timestamp comes with it. The capacity is at least 10000.
\<close>

theorem replayed_nonce_refused:
  assumes "lru_ok (gt_lru env) recent cap" "gt_lru env' = gt_lru env"
    and "validate_replay env now self n ts = (self1, Inr ())"
    and "(tstep (gt_lru env) hmac ch ^^ k) (t, self1) (t', self2)" "k < cap"
  shows "\<exists>e. validate_replay env' now' self2 n ts' = (self2, Inl (Replay e))"
proof -
  from assms(3) have "n \<in> set (take 1 (recent (rt_nonce_cache self1)))"
  proof (cases rule: validate_replay_cases)
    case (accepted ts)
    with assms(1,5) show ?thesis by (cases cap) (auto simp: lru_ok_def)
  qed simp
  from tsteps_recent [OF assms(4,1,5) this] have "n \<in> set (recent (rt_nonce_cache self2))"
    by (rule in_set_takeD)
  then have "lru_contains (gt_lru env') (rt_nonce_cache self2) n" using assms(1,2) by (simp add: lru_ok_def)
  then show ?thesis by (auto simp: validate_replay_def Let_def split: option.splits)
qed

text \<open>
  A death is only acted on while the registration exists, and closing the connection removes the
  registration. The gate reaches a state in which the process of an agent has ended, its
  notification changes nothing, and the agent's lease is still active and served by a listener.
\<close>

theorem death_after_disconnect_ignored:
  "\<exists>self nt l s. greach list_lru sample_hmac sample_chrono 0 self \<and> nt \<in> set (rt_monitors self) \<and>
     handle_death self nt = Some self \<and>
     lm_leases (rt_lease_manager self) (ps_lease_id s) = Some l \<and> is_active 0 l \<and>
     l_agent_fingerprint_hash l = dt_fingerprint_hash nt \<and> running (rt_proxy_manager self) s"
proof -
  let ?self = "disconnect gate2 [9]"
  have "greach list_lru sample_hmac sample_chrono 0 ?self"
    by (rule greach_step [OF gate2_reach order_refl gstep.disconnected])
  moreover have "run_death \<in> set (rt_monitors ?self)" by (simp add: disconnect_def gate2_parts)
  moreover have reg: "rt_registry ?self = Map.empty"
    by (auto simp: disconnect_def gate2_parts run_registration_def fun_eq_iff)
  then have "handle_death ?self run_death = Some ?self"
    by (simp add: handle_death_def Let_def)
  moreover have "lm_leases (rt_lease_manager ?self) (ps_lease_id run_server) = Some run_lease"
    using gate2_parts(1) by (simp add: disconnect_def run_server_def)
  moreover have "is_active 0 run_lease" by (simp add: is_active_def is_expired_def run_lease_parts nanos_def)
  moreover have "l_agent_fingerprint_hash run_lease = dt_fingerprint_hash run_death"
    by (simp add: run_lease_parts run_death_def)
  moreover have "running (rt_proxy_manager ?self) run_server"
    by (simp add: disconnect_def gate2_parts run_running)
  ultimately show ?thesis by blast
qed

text \<open>
  When no port is free the request is answered with an error, yet the lease stays: it has been
  stored, active and with a token, before the listener is asked for, and nothing removes it.
\<close>

theorem port_exhaustion_keeps_lease:
  assumes "create_lease (gt_lease env) later (rt_lease_manager self) agent cref granted pcons pname ''auto'' =
      Ret (leases, Inr l)"
    and "find_free_port (rt_proxy_manager self) = None"
  shows "grant_lease env later self agent cref granted pname pcons =
      (self\<lparr>rt_lease_manager := leases\<rparr>,
       Ret (Inl (GateError_Proxy (port_exhausted (rt_proxy_manager self))))) \<and>
    lm_leases leases (l_lease_id l) = Some l \<and> l_status l = Active"
  using create_lease_stored [OF assms(1)] assms by (simp add: grant_lease_def start_proxy_def Let_def)

text \<open>
  A session token with text outside ASCII at the wrong place ends the connection's task in the
  middle: the decoder panics, no response is written and the clean-up that removes the
  registrations of the connection does not run.
\<close>

theorem panicking_session_token_keeps_registrations:
  assumes "gt_from_slice env (as_bytes (trim_end line)) = Inr request" "jr_jsonrpc request = ''2.0''"
    and "jr_method request \<noteq> ''cdp.register''" "jr_method request \<noteq> ''cdp.requestCredential''"
    and "json_get (jr_params request) ''session_token'' = Some (JString (''cdp_sess_'' @ raw))"
    and "find_registration env self peer conn = Some reg" "hex_to_bytes raw = Panic"
  shows "handle_connection env self peer conn ((line, now, later, writable) # rest) = (self, [])"
proof -
  have "validate_session env self (jr_params request) peer conn = Panic"
    using assms(5-7) by (simp add: validate_session_def verify_session_token_def)
  with assms(1-4) show ?thesis by (simp add: gate_handle_request_def Let_def)
qed

section \<open>Witnesses\<close>

theorem gate_invariant_witness:
  "fst ` set (pm_listeners run_pool) \<subseteq> {''01''} \<and>
   hex_encode (replicate 32 2) = hex_encode (fp_fingerprint_hash (rg_fingerprint run_registration))"
  using gate_invariant [OF gate2_reach] gate2_parts(1,3,5,6) by simp



theorem replayed_nonce_refused_witness:
  "\<exists>e. validate_replay run_env 0 (disconnect (gate0\<lparr>rt_nonce_cache := [''n1'']\<rparr>) [9]) ''n1'' ''t'' =
     (disconnect (gate0\<lparr>rt_nonce_cache := [''n1'']\<rparr>) [9], Inl (Replay e))"
proof -
  let ?self = "gate0\<lparr>rt_nonce_cache := [''n1'']\<rparr>"
  have acc: "validate_replay run_env 0 gate0 ''n1'' ''t'' = (?self, Inr ())"
    by (simp add: run_replay gate0_def router_new_def)
  have step: "(tstep (gt_lru run_env) sample_hmac sample_chrono ^^ 1) (0, ?self) (0, disconnect ?self [9])"
    unfolding relpowp_1 by (rule tstep.timed [OF order_refl gstep.disconnected])
  have lru: "lru_ok (gt_lru run_env) (\<lambda>c. c) 10000" by (simp add: run_env_parts list_lru_ok)
  show ?thesis by (rule replayed_nonce_refused [OF lru refl acc step]) simp
qed

theorem port_exhaustion_keeps_lease_witness:
  "grant_lease run_env 0 (gate1\<lparr>rt_proxy_manager := run_pool\<rparr>) (registration_info run_registration) ''c'' run_scope ''p''
     (build_constraints (pe_allow run_entry) (pe_delegation run_entry)) =
   (gate1\<lparr>rt_proxy_manager := run_pool, rt_lease_manager := run_mgr\<rparr>,
    Ret (Inl (GateError_Proxy (port_exhausted run_pool)))) \<and> lm_leases run_mgr ''01'' = Some run_lease"
proof -
  have "port_range 19000 19000 = [19000]" by (simp add: port_range_def)
  then have free: "find_free_port (rt_proxy_manager (gate1\<lparr>rt_proxy_manager := run_pool\<rparr>)) = None"
    by (simp add: run_pool_def start_proxy_def find_free_port_def proxy_manager_new_def run_pconfig_def Let_def
        insert_listener_def)
  have made: "create_lease (gt_lease run_env) 0 (rt_lease_manager (gate1\<lparr>rt_proxy_manager := run_pool\<rparr>))
      (registration_info run_registration) ''c'' run_scope
      (build_constraints (pe_allow run_entry) (pe_delegation run_entry)) ''p'' ''auto'' = Ret (run_mgr, Inr run_lease)"
    using run_creates by (simp add: run_env_def gate1_def gate0_def router_new_def)
  have "l_lease_id run_lease = ''01''" by (simp add: run_lease_def proxy_lease_def lease1_def)
  with port_exhaustion_keeps_lease [OF made free] show ?thesis by simp
qed

definition bad_token :: string where
  "bad_token = [CHR ''0'', CHR 0xC3, CHR 0xA9, CHR ''0'']"

definition bad_request :: json_rpc_request where
  "bad_request = \<lparr>jr_jsonrpc = ''2.0'', jr_method = ''x'',
     jr_params = JObject [(''session_token'', JString (''cdp_sess_'' @ bad_token))], jr_id = JNull\<rparr>"

theorem panicking_session_token_keeps_registrations_witness:
  "handle_connection (run_env\<lparr>gt_from_slice := (\<lambda>_. Inr bad_request)\<rparr>) gate1 run_peer [9] [([], 0, 0, True)] =
     (gate1, [])"
proof -
  have panic: "hex_to_bytes bad_token = Panic" by code_simp
  have "find_registration (run_env\<lparr>gt_from_slice := f\<rparr>) gate1 run_peer [9] = Some run_registration" for f
    using run_lookup by (simp add: find_registration_def)
  then show ?thesis
    by (intro panicking_session_token_keeps_registrations [OF _ _ _ _ _ _ panic, of _ _ bad_request])
      (simp_all add: bad_request_def)
qed

end
