(* ===== verification/Cdp_Sdk.thy ===== *)
theory Cdp_Sdk
  imports Cdp_Gate_Props Cdp_Gate_Config Cdp_Token
begin

text \<open>
  The client library (\<open>crates/cdp-sdk\<close>): discovery of the gate, the JSON-RPC transport, sessions
  and leases, and the HTTP request a lease makes through the proxy. The other end of the socket is
  a function from the line written to the line read, so the gate of \<open>Cdp_Gate_Router\<close> can stand
  there; HTTP types and the HTTP client are arguments. The lemmas compose the library with the gate
  and the proxy.
\<close>

section \<open>Types\<close>

datatype cdp_error =
    GateNotFound string
  | IdentityVerification string
  | Connection string
  | Sdk_Serialization string
  | Sdk_Io string
  | GateError int string
  | MalformedResponse string
  | Sdk_LeaseExpired
  | ProxyRequest string
  | Sdk_Config string

text \<open>
  The library declares the scopes and the results of the gate a second time, with the same
  fields; the records of the gate are used for them. So is the record of the fingerprint file.
\<close>

type_synonym sdk_scope = requested_scope
type_synonym granted_scope = requested_scope
type_synonym gate_fingerprint = gate_fingerprint_file

record lease_request =
  lq_credential_ref :: string
  lq_scope :: sdk_scope
  lq_reason :: string

record sdk_request =
  sq_jsonrpc :: string
  sq_method :: string
  sq_params :: json
  sq_id :: u64

record sdk_response =
  sp_result :: "json option"
  sp_error :: "(int \<times> string) option"
  sp_id :: json

record renewal_info =
  ri_status :: string
  ri_new_expires_at :: string
  ri_renewals_remaining :: u32

text \<open>The codecs, the file system and the clock arithmetic the library calls.\<close>

record sdk_env =
  sd_vars :: env_vars
  sd_read :: "string \<Rightarrow> string + string"
  sd_fingerprint :: "string \<Rightarrow> string + gate_fingerprint"
  sd_show_json :: "json \<Rightarrow> string"
  sd_to_string :: "sdk_request \<Rightarrow> string + string"
  sd_from_str :: "string \<Rightarrow> string + sdk_response"
  sd_register_result :: "json \<Rightarrow> string + register_result"
  sd_credential_result :: "json \<Rightarrow> string + request_credential_result"
  sd_renewal_info :: "json \<Rightarrow> string + renewal_info"
  sd_parse_time :: "string \<Rightarrow> int option"
  sd_chrono :: chrono

section \<open>Discovery\<close>

definition default_fingerprint_path :: "env_vars \<Rightarrow> string" where
  "default_fingerprint_path vars =
     (case vars ''XDG_CONFIG_HOME'' of
        Some xdg \<Rightarrow> path_join (path_join xdg ''cdp'') ''gate.fingerprint''
      | None \<Rightarrow>
          (let home = (case vars ''HOME'' of Some h \<Rightarrow> h | None \<Rightarrow> ''/root'') in
           path_join (path_join (path_join home ''.config'') ''cdp'') ''gate.fingerprint''))"

definition bare_fingerprint :: "string \<Rightarrow> gate_fingerprint" where
  "bare_fingerprint socket_path =
     \<lparr>gf_gate_pid = 0, gf_gate_binary_hash = [], gf_public_key = [], gf_socket_path = socket_path,
      gf_started_at = []\<rparr>"

definition discover :: "sdk_env \<Rightarrow> cdp_error + gate_fingerprint" where
  "discover env =
     (case sd_vars env ''CDP_GATE_SOCKET'' of
        Some socket_path \<Rightarrow> Inr (bare_fingerprint socket_path)
      | None \<Rightarrow>
     (let path = default_fingerprint_path (sd_vars env) in
      case sd_read env path of
        Inl e \<Rightarrow> Inl (GateNotFound (''cannot read fingerprint file '' @ path @ '': '' @ e))
      | Inr contents \<Rightarrow>
          (case sd_fingerprint env contents of
             Inl e \<Rightarrow> Inl (MalformedResponse (''invalid fingerprint file '' @ path @ '': '' @ e))
           | Inr fp \<Rightarrow> Inr fp)))"

text \<open>\<open>cred\<close> is what the socket option reports: the number of the process at the other end.\<close>

definition verify_gate :: "string + int \<Rightarrow> gate_fingerprint \<Rightarrow> cdp_error + unit" where
  "verify_gate cred fp =
     (if gf_gate_pid fp = 0 then Inr ()
      else (case cred of
              Inl e \<Rightarrow> Inl (IdentityVerification (''getsockopt SO_PEERCRED failed: '' @ e))
            | Inr pid \<Rightarrow>
                (let peer_pid = (word_of_int pid :: u32) in
                 if peer_pid \<noteq> gf_gate_pid fp
                 then Inl (IdentityVerification (''peer PID '' @ show_nat (unat peer_pid)
                        @ '' does not match expected gate PID '' @ show_nat (unat (gf_gate_pid fp))))
                 else Inr ())))"

section \<open>Transport\<close>

text \<open>
  A transport is a connection; \<open>tp_peer_pid\<close> is the process at its other end, which the library does
  not look at. \<open>wire\<close> is the exchange of one line for one line; its error is that of the write or
  of the read, and an empty line is the end of the stream.
\<close>

record transport =
  tp_id_counter :: u64
  tp_peer_pid :: int

type_synonym wire = "string \<Rightarrow> string + string"

definition transport_connect :: "string \<Rightarrow> string + int \<Rightarrow> cdp_error + transport" where
  "transport_connect socket_path connected =
     (case connected of
        Inl e \<Rightarrow> Inl (Connection (socket_path @ '': '' @ e))
      | Inr pid \<Rightarrow> Inr \<lparr>tp_id_counter = 1, tp_peer_pid = pid\<rparr>)"

definition send_line :: "sdk_env \<Rightarrow> wire \<Rightarrow> sdk_request \<Rightarrow> cdp_error + json" where
  "send_line env wire request =
     (case sd_to_string env request of
        Inl e \<Rightarrow> Inl (Sdk_Serialization e)
      | Inr line \<Rightarrow>
     (case wire (line @ [CHR 0x0A]) of
        Inl e \<Rightarrow> Inl (Sdk_Io e)
      | Inr response_line \<Rightarrow>
          if response_line = [] then Inl (Connection ''gate closed the connection unexpectedly'')
          else (case sd_from_str env (trim response_line) of
                  Inl e \<Rightarrow> Inl (Sdk_Serialization e)
                | Inr response \<Rightarrow>
                    (case sp_error response of
                       Some (code, message) \<Rightarrow> Inl (GateError code message)
                     | None \<Rightarrow>
                         (case sp_result response of
                            None \<Rightarrow> Inl (MalformedResponse (''response missing '' @ [CHR 0x27] @ ''result''
                              @ [CHR 0x27] @ '' field''))
                          | Some v \<Rightarrow> Inr v)))))"

definition sent_request :: "string \<Rightarrow> string \<Rightarrow> u64 \<Rightarrow> string \<Rightarrow> json \<Rightarrow> sdk_request" where
  "sent_request nonce timestamp rid method params =
     \<lparr>sq_jsonrpc = ''2.0'', sq_method = method,
      sq_params = json_insert ''timestamp'' (JString timestamp) (json_insert ''nonce'' (JString nonce) params),
      sq_id = rid\<rparr>"

definition transport_send ::
  "sdk_env \<Rightarrow> wire \<Rightarrow> string \<Rightarrow> string \<Rightarrow> transport \<Rightarrow> string \<Rightarrow> json \<Rightarrow> transport \<times> (cdp_error + json)" where
  "transport_send env wire nonce timestamp self method params =
     (let rid = tp_id_counter self;
          self = self\<lparr>tp_id_counter := rid + 1\<rparr> in
      case params of
        JObject _ \<Rightarrow> (self, send_line env wire (sent_request nonce timestamp rid method params))
      | other \<Rightarrow> (self, Inl (MalformedResponse (''params must be an object, got: '' @ sd_show_json env other))))"

section \<open>Client and session\<close>

record cdp_client =
  cc_fingerprint :: gate_fingerprint
  cc_transport :: transport

record session =
  sn_transport :: transport
  sn_session_token :: string
  sn_agent_fingerprint :: string

record sdk_lease =
  sl_lease_id :: string
  sl_proxy_port :: u16
  sl_lease_token :: string
  sl_channel_binding_nonce :: string
  sl_ttl_seconds :: u64
  sl_granted_scope :: granted_scope
  sl_expires_at :: int
  sl_session_token :: string
  sl_transport :: "transport option"

text \<open>
  The identity check opens a connection of its own: \<open>checked\<close> is its outcome, with what the socket
  option reports on it, and \<open>connected\<close> the outcome of the connection that is then used.
\<close>

definition connect_with_fingerprint ::
  "string + (string + int) \<Rightarrow> string + int \<Rightarrow> gate_fingerprint \<Rightarrow> cdp_error + cdp_client" where
  "connect_with_fingerprint checked connected fp =
     (case (if gf_gate_pid fp \<noteq> 0
            then (case checked of
                    Inl e \<Rightarrow> Inl (Connection (gf_socket_path fp @ '': '' @ e))
                  | Inr cred \<Rightarrow> verify_gate cred fp)
            else Inr ()) of
        Inl e \<Rightarrow> Inl e
      | Inr _ \<Rightarrow>
     (case transport_connect (gf_socket_path fp) connected of
        Inl e \<Rightarrow> Inl e
      | Inr t \<Rightarrow> Inr \<lparr>cc_fingerprint = fp, cc_transport = t\<rparr>))"

definition client_discover :: "sdk_env \<Rightarrow> string + (string + int) \<Rightarrow> string + int \<Rightarrow> cdp_error + cdp_client" where
  "client_discover env checked connected =
     (case discover env of
        Inl e \<Rightarrow> Inl e
      | Inr fp \<Rightarrow> connect_with_fingerprint checked connected fp)"

definition client_connect :: "string \<Rightarrow> string + (string + int) \<Rightarrow> string + int \<Rightarrow> cdp_error + cdp_client" where
  "client_connect socket_path checked connected =
     connect_with_fingerprint checked connected (bare_fingerprint socket_path)"

definition register_json :: "string \<Rightarrow> string \<Rightarrow> string list \<Rightarrow> json" where
  "register_json agent_id agent_version capabilities =
     JObject [(''agent_id'', JString agent_id), (''agent_version'', JString agent_version),
       (''capabilities'', JArray (map JString capabilities))]"

definition client_register ::
  "sdk_env \<Rightarrow> wire \<Rightarrow> string \<Rightarrow> string \<Rightarrow> cdp_client \<Rightarrow> string \<Rightarrow> string \<Rightarrow> string list \<Rightarrow> cdp_error + session" where
  "client_register env wire nonce timestamp self agent_id agent_version capabilities =
     (case transport_send env wire nonce timestamp (cc_transport self) ''cdp.register''
             (register_json agent_id agent_version capabilities) of
        (t, Inl e) \<Rightarrow> Inl e
      | (t, Inr v) \<Rightarrow>
     (case sd_register_result env v of
        Inl e \<Rightarrow> Inl (MalformedResponse (''invalid register response: '' @ e))
      | Inr r \<Rightarrow>
          if rr_status r \<noteq> ''registered''
          then Inl (MalformedResponse (''unexpected register status: '' @ rr_status r))
          else Inr \<lparr>sn_transport = t, sn_session_token = rr_session_token r,
                    sn_agent_fingerprint = rr_agent_fingerprint r\<rparr>))"

definition number_json :: "u64 option \<Rightarrow> json" where
  "number_json n = (case n of None \<Rightarrow> JNull | Some k \<Rightarrow> JNumber (show_nat (unat k)))"

definition request_json :: "string \<Rightarrow> lease_request \<Rightarrow> json" where
  "request_json session_token params =
     JObject [(''session_token'', JString session_token),
       (''credential_ref'', JString (lq_credential_ref params)),
       (''scope'', JObject [(''hosts'', JArray (map JString (rsc_hosts (lq_scope params)))),
          (''methods'', JArray (map JString (rsc_methods (lq_scope params)))),
          (''paths'', JArray (map JString (rsc_paths (lq_scope params)))),
          (''ttl_seconds'', number_json (rsc_ttl_seconds (lq_scope params))),
          (''max_requests'', number_json (rsc_max_requests (lq_scope params)))]),
       (''reason'', JString (lq_reason params))]"

definition lease_new :: "request_credential_result \<Rightarrow> int \<Rightarrow> string \<Rightarrow> sdk_lease" where
  "lease_new r expires_at session_token =
     \<lparr>sl_lease_id = rcr_lease_id r, sl_proxy_port = rcr_proxy_port r, sl_lease_token = rcr_lease_token r,
      sl_channel_binding_nonce = rcr_channel_binding_nonce r, sl_ttl_seconds = rcr_ttl_seconds r,
      sl_granted_scope = rcr_granted_scope r, sl_expires_at = expires_at,
      sl_session_token = session_token, sl_transport = None\<rparr>"

definition with_transport :: "sdk_lease \<Rightarrow> transport \<Rightarrow> sdk_lease" where
  "with_transport self t = self\<lparr>sl_transport := Some t\<rparr>"

definition request_lease ::
  "sdk_env \<Rightarrow> wire \<Rightarrow> string \<Rightarrow> string \<Rightarrow> int \<Rightarrow> session \<Rightarrow> lease_request
   \<Rightarrow> session \<times> (cdp_error + sdk_lease) outcome" where
  "request_lease env wire nonce timestamp now self params =
     (case transport_send env wire nonce timestamp (sn_transport self) ''cdp.requestCredential''
             (request_json (sn_session_token self) params) of
        (t, r) \<Rightarrow>
     (let self = self\<lparr>sn_transport := t\<rparr> in
      case r of
        Inl e \<Rightarrow> (self, Ret (Inl e))
      | Inr v \<Rightarrow>
     (case sd_credential_result env v of
        Inl e \<Rightarrow> (self, Ret (Inl (MalformedResponse (''invalid requestCredential response: '' @ e))))
      | Inr g \<Rightarrow>
          if rcr_status g \<noteq> ''granted''
          then (self, Ret (Inl (MalformedResponse (''unexpected credential status: '' @ rcr_status g))))
          else (case ch_add_seconds (sd_chrono env) now (sint (rcr_ttl_seconds g)) of
                  Panic \<Rightarrow> (self, Panic)
                | Ret expires_at \<Rightarrow> (self, Ret (Inr (lease_new g expires_at (sn_session_token self))))))))"

section \<open>Requests through the proxy\<close>

record fetch_options =
  fo_method :: "string option"
  fo_headers :: "(string \<times> string) list"
  fo_body :: "bytes option"

record fetch_response =
  fr_status :: u16
  fr_headers :: "string \<rightharpoonup> string"
  fr_body :: bytes

text \<open>
  The HTTP types and the client the library uses. \<open>ht_from_parts\<close> puts a path and query onto a URI;
  \<open>ht_build\<close> is the error of the request builder, if it has one. The order of \<open>fo_headers\<close> is the
  order in which the hash map of headers is iterated.
\<close>

record http_env =
  ht_method :: "string \<Rightarrow> string + string"
  ht_parse_uri :: "string \<Rightarrow> string + uri"
  ht_path_and_query :: "uri \<Rightarrow> string option"
  ht_from_parts :: "uri \<Rightarrow> string option \<Rightarrow> string + uri"
  ht_header_name :: "string \<Rightarrow> string + string"
  ht_header_value :: "string \<Rightarrow> string + string"
  ht_build :: "headers \<Rightarrow> string option"
  ht_to_str :: "string \<Rightarrow> string option"
  ht_send :: "request \<Rightarrow> string + upstream_response"

definition lease_is_expired :: "int \<Rightarrow> sdk_lease \<Rightarrow> bool" where
  "lease_is_expired now self \<longleftrightarrow> sl_expires_at self \<le> now"

fun add_headers :: "http_env \<Rightarrow> headers \<Rightarrow> (string \<times> string) list \<Rightarrow> cdp_error + headers" where
  "add_headers env hs [] = Inr hs"
| "add_headers env hs ((name, v) # rest) =
     (case ht_header_name env name of
        Inl e \<Rightarrow> Inl (ProxyRequest (''invalid header name '' @ [CHR 0x27] @ name @ [CHR 0x27] @ '': '' @ e))
      | Inr n \<Rightarrow>
     (case ht_header_value env v of
        Inl e \<Rightarrow> Inl (ProxyRequest (''invalid header value for '' @ [CHR 0x27] @ name @ [CHR 0x27] @ '': '' @ e))
      | Inr val \<Rightarrow> add_headers env (hs @ [(n, val)]) rest))"

definition cdp_headers :: "sdk_lease \<Rightarrow> string \<Rightarrow> uri \<Rightarrow> string \<Rightarrow> headers" where
  "cdp_headers self host original url =
     [(''host'', case uri_port original of Some p \<Rightarrow> host @ '':'' @ show_nat (unat p) | None \<Rightarrow> host),
      (''x-cdp-lease-token'', sl_lease_token self), (''x-cdp-channel-binding'', sl_channel_binding_nonce self),
      (''x-cdp-original-url'', url)]"

definition send_via_proxy :: "http_env \<Rightarrow> request \<Rightarrow> uri \<Rightarrow> cdp_error + request" where
  "send_via_proxy env req proxy_uri =
     (case ht_from_parts env proxy_uri (ht_path_and_query env (rq_uri req)) of
        Inl e \<Rightarrow> Inl (ProxyRequest (''URI construction failed: '' @ e))
      | Inr final_uri \<Rightarrow> Inr (req\<lparr>rq_uri := final_uri\<rparr>))"

definition unwrap_path :: "string option \<Rightarrow> string" where
  "unwrap_path pq = (case pq of Some p \<Rightarrow> p | None \<Rightarrow> ''/'')"

text \<open>The request that is handed to the HTTP client.\<close>

definition fetch_request ::
  "http_env \<Rightarrow> int \<Rightarrow> sdk_lease \<Rightarrow> string \<Rightarrow> fetch_options \<Rightarrow> cdp_error + request" where
  "fetch_request env now self url options =
     (if lease_is_expired now self then Inl Sdk_LeaseExpired
      else
      case ht_method env (case fo_method options of Some m \<Rightarrow> m | None \<Rightarrow> ''GET'') of
        Inl e \<Rightarrow> Inl (ProxyRequest (''invalid method: '' @ e))
      | Inr method \<Rightarrow>
     (case ht_parse_uri env url of
        Inl e \<Rightarrow> Inl (ProxyRequest (''invalid URL '' @ [CHR 0x27] @ url @ [CHR 0x27] @ '': '' @ e))
      | Inr original \<Rightarrow>
     (case ht_parse_uri env (''http://127.0.0.1:'' @ show_nat (unat (sl_proxy_port self))) of
        Inl e \<Rightarrow> Inl (ProxyRequest (''invalid proxy URI: '' @ e))
      | Inr proxy_uri \<Rightarrow>
     (case uri_host original of
        None \<Rightarrow> Inl (ProxyRequest ''URL has no host'')
      | Some host \<Rightarrow>
     (case ht_parse_uri env (unwrap_path (ht_path_and_query env original)) of
        Inl e \<Rightarrow> Inl (ProxyRequest (''invalid path: '' @ e))
      | Inr request_uri \<Rightarrow>
     (case add_headers env (cdp_headers self host original url) (fo_headers options) of
        Inl e \<Rightarrow> Inl e
      | Inr hs \<Rightarrow>
     (case ht_build env hs of
        Some e \<Rightarrow> Inl (ProxyRequest (''failed to build request: '' @ e))
      | None \<Rightarrow>
          send_via_proxy env
            \<lparr>rq_method = method, rq_uri = request_uri, rq_headers = hs,
             rq_body = Inr (case fo_body options of Some b \<Rightarrow> b | None \<Rightarrow> [])\<rparr> proxy_uri)))))))"

definition text_headers :: "http_env \<Rightarrow> headers \<Rightarrow> string \<rightharpoonup> string" where
  "text_headers env hs =
     fold (\<lambda>(name, v) m. case ht_to_str env v of Some s \<Rightarrow> m(name \<mapsto> s) | None \<Rightarrow> m) hs Map.empty"

definition lease_fetch ::
  "http_env \<Rightarrow> int \<Rightarrow> sdk_lease \<Rightarrow> string \<Rightarrow> fetch_options \<Rightarrow> cdp_error + fetch_response" where
  "lease_fetch env now self url options =
     (case fetch_request env now self url options of
        Inl e \<Rightarrow> Inl e
      | Inr req \<Rightarrow>
     (case ht_send env req of
        Inl e \<Rightarrow> Inl (ProxyRequest (''HTTP request failed: '' @ e))
      | Inr resp \<Rightarrow>
     (case us_body resp of
        Inl e \<Rightarrow> Inl (ProxyRequest (''failed to read response body: '' @ e))
      | Inr body \<Rightarrow>
          Inr \<lparr>fr_status = us_status resp, fr_headers = text_headers env (us_headers resp), fr_body = body\<rparr>)))"

section \<open>Renewal and revocation\<close>

definition no_transport :: "string \<Rightarrow> cdp_error" where
  "no_transport what = Connection (''no transport available for '' @ what)"

definition lease_renew ::
  "sdk_env \<Rightarrow> wire \<Rightarrow> string \<Rightarrow> string \<Rightarrow> int \<Rightarrow> sdk_lease \<Rightarrow> u64
   \<Rightarrow> sdk_lease \<times> (cdp_error + renewal_info) outcome" where
  "lease_renew env wire nonce timestamp now self extend_seconds =
     (case sl_transport self of
        None \<Rightarrow> (self, Ret (Inl (no_transport
          ''renew (use Session::request_lease to obtain a Lease with transport)'')))
      | Some t \<Rightarrow>
     (case transport_send env wire nonce timestamp t ''cdp.renewLease''
             (JObject [(''session_token'', JString (sl_session_token self)),
                (''lease_id'', JString (sl_lease_id self)),
                (''extend_seconds'', JNumber (show_nat (unat extend_seconds)))]) of
        (t, r) \<Rightarrow>
     (let self = self\<lparr>sl_transport := Some t\<rparr> in
      case r of
        Inl e \<Rightarrow> (self, Ret (Inl e))
      | Inr v \<Rightarrow>
     (case sd_renewal_info env v of
        Inl e \<Rightarrow> (self, Ret (Inl (MalformedResponse (''invalid renewLease response: '' @ e))))
      | Inr info \<Rightarrow>
     (case sd_parse_time env (ri_new_expires_at info) of
        Some t \<Rightarrow> (self\<lparr>sl_expires_at := t\<rparr>, Ret (Inr info))
      | None \<Rightarrow>
     (case ch_add_seconds (sd_chrono env) now (sint extend_seconds) of
        Panic \<Rightarrow> (self, Panic)
      | Ret t \<Rightarrow> (self\<lparr>sl_expires_at := t\<rparr>, Ret (Inr info))))))))"

definition lease_revoke ::
  "sdk_env \<Rightarrow> wire \<Rightarrow> string \<Rightarrow> string \<Rightarrow> sdk_lease \<Rightarrow> string \<Rightarrow> cdp_error + unit" where
  "lease_revoke env wire nonce timestamp self reason =
     (case sl_transport self of
        None \<Rightarrow> Inl (no_transport ''revoke'')
      | Some t \<Rightarrow>
     (case transport_send env wire nonce timestamp t ''cdp.revokeLease''
             (JObject [(''session_token'', JString (sl_session_token self)),
                (''lease_id'', JString (sl_lease_id self)), (''reason'', JString reason)]) of
        (t, Inl e) \<Rightarrow> Inl e
      | (t, Inr v) \<Rightarrow>
          (let status = (case Option.bind (json_get v ''status'') json_as_str of Some s \<Rightarrow> s | None \<Rightarrow> []) in
           if status \<noteq> ''revoked''
           then Inl (MalformedResponse (''unexpected revoke status: '' @ status))
           else Inr ())))"

section \<open>The gate at the other end\<close>

definition gate_wire ::
  "'c gate_env \<Rightarrow> (json_rpc_response \<Rightarrow> string) \<Rightarrow> int \<Rightarrow> int \<Rightarrow> 'c router \<Rightarrow> peer_info \<Rightarrow> bytes \<Rightarrow> wire" where
  "gate_wire genv ser now later self peer conn line =
     (case gate_handle_request genv now later self (as_bytes (trim_end line)) peer conn of
        (_, Panic) \<Rightarrow> Inr []
      | (_, Ret resp) \<Rightarrow> Inr (ser resp @ [CHR 0x0A]))"

definition as_gate_request :: "sdk_request \<Rightarrow> json_rpc_request" where
  "as_gate_request q =
     \<lparr>jr_jsonrpc = sq_jsonrpc q, jr_method = sq_method q, jr_params = sq_params q,
      jr_id = JNumber (show_nat (unat (sq_id q)))\<rparr>"

text \<open>
  What is relied on in the JSON of both sides, for one exchange: the gate reads what the client
  wrote, and the client reads what the gate answered.
\<close>

definition exchanged ::
  "(sdk_request \<Rightarrow> string + string) \<Rightarrow> (string \<Rightarrow> string + sdk_response) \<Rightarrow> 'c gate_env \<Rightarrow> (json_rpc_response \<Rightarrow> string)
   \<Rightarrow> (rpc_result \<Rightarrow> json) \<Rightarrow> sdk_request \<Rightarrow> bytes \<Rightarrow> json_rpc_response outcome \<Rightarrow> bool" where
  "exchanged to_line from_line genv ser val req raw answer \<longleftrightarrow>
     (\<exists>line. to_line req = Inr line \<and> raw = as_bytes (trim_end (line @ [CHR 0x0A]))) \<and>
     gt_from_slice genv raw = Inr (as_gate_request req) \<and>
     (case answer of
        Panic \<Rightarrow> True
      | Ret resp \<Rightarrow>
          from_line (trim (ser resp @ [CHR 0x0A])) =
            Inr \<lparr>sp_result = map_option val (js_result resp), sp_error = js_error resp, sp_id = js_id resp\<rparr>)"

text \<open>
  A client that sends one line and reads one line. It tells an ended stream, an error object and
  an object with neither error nor result apart from a result.
\<close>

locale line_client =
  fixes send :: "wire \<Rightarrow> sdk_request \<Rightarrow> 'e + json"
    and to_line :: "sdk_request \<Rightarrow> string + string" and from_line :: "string \<Rightarrow> string + sdk_response"
    and closed :: 'e and refused :: "int \<Rightarrow> string \<Rightarrow> 'e" and no_result :: 'e
  assumes send_closed: "to_line req = Inr line \<Longrightarrow> w (line @ [CHR 0x0A]) = Inr [] \<Longrightarrow> send w req = Inl closed"
    and send_answered: "to_line req = Inr line \<Longrightarrow> w (line @ [CHR 0x0A]) = Inr r \<Longrightarrow> r \<noteq> [] \<Longrightarrow>
      from_line (trim r) = Inr resp \<Longrightarrow> send w req =
        (case sp_error resp of
           Some (code, message) \<Rightarrow> Inl (refused code message)
         | None \<Rightarrow> (case sp_result resp of Some v \<Rightarrow> Inr v | None \<Rightarrow> Inl no_result))"
begin

lemma send_gate:
  assumes "exchanged to_line from_line genv ser val req raw answer"
    and "gate_handle_request genv now later self raw peer conn = (self', answer)"
  shows "send (gate_wire genv ser now later self peer conn) req =
    (case answer of
       Panic \<Rightarrow> Inl closed
     | Ret resp \<Rightarrow>
         (case js_error resp of
            Some (code, message) \<Rightarrow> Inl (refused code message)
          | None \<Rightarrow> (case js_result resp of Some v \<Rightarrow> Inr (val v) | None \<Rightarrow> Inl no_result)))"
proof -
  from assms(1) obtain line where line: "to_line req = Inr line" "raw = as_bytes (trim_end (line @ [CHR 0x0A]))"
    by (auto simp: exchanged_def)
  show ?thesis
  proof (cases answer)
    case Panic
    with assms(2) line have "gate_wire genv ser now later self peer conn (line @ [CHR 0x0A]) = Inr []"
      by (simp add: gate_wire_def)
    from send_closed [where w = "gate_wire genv ser now later self peer conn", OF line(1) this] Panic show ?thesis by simp
  next
    case (Ret resp)
    with assms(2) line have "gate_wire genv ser now later self peer conn (line @ [CHR 0x0A]) = Inr (ser resp @ [CHR 0x0A])"
      by (simp add: gate_wire_def)
    from send_answered [where w = "gate_wire genv ser now later self peer conn", OF line(1) this] assms(1) Ret show ?thesis
      by (simp add: exchanged_def split: option.splits)
  qed
qed

end

definition missing_result :: cdp_error where
  "missing_result = MalformedResponse (''response missing '' @ [CHR 0x27] @ ''result'' @ [CHR 0x27] @ '' field'')"

interpretation sdk_line: line_client "send_line env" "sd_to_string env" "sd_from_str env"
  "Connection ''gate closed the connection unexpectedly''" GateError missing_result for env
  by unfold_locales (auto simp: send_line_def missing_result_def split: option.splits)

text \<open>The result of the gate reads as the record it was written from.\<close>

definition carries ::
  "sdk_env \<Rightarrow> 'c gate_env \<Rightarrow> (json_rpc_response \<Rightarrow> string) \<Rightarrow> (rpc_result \<Rightarrow> json) \<Rightarrow> sdk_request \<Rightarrow> bytes
   \<Rightarrow> json_rpc_response outcome \<Rightarrow> bool" where
  "carries env genv ser val req raw answer \<longleftrightarrow>
     exchanged (sd_to_string env) (sd_from_str env) genv ser val req raw answer \<and>
     (\<forall>resp g. answer = Ret resp \<longrightarrow> js_result resp = Some (Granted g) \<longrightarrow> sd_credential_result env (val (Granted g)) = Inr g) \<and>
     (\<forall>resp r. answer = Ret resp \<longrightarrow> js_result resp = Some (Registered r) \<longrightarrow> sd_register_result env (val (Registered r)) = Inr r)"

lemma respond_parts:
  "js_error (respond env rid r) = (case r of Inl e \<Rightarrow> js_error (gate_error_to_response env rid e) | Inr v \<Rightarrow> None)"
  "js_result (respond env rid r) = (case r of Inl e \<Rightarrow> None | Inr v \<Rightarrow> Some v)"
  "js_error (gate_error_to_response env rid e) \<noteq> None"
  by (auto simp: respond_def gate_error_to_response_def rpc_success_def rpc_error_def split: sum.splits)

lemma credential_answer:
  assumes "gt_from_slice genv raw = Inr request" "jr_jsonrpc request = ''2.0''" "jr_method request = ''cdp.requestCredential''"
    and "gate_handle_request genv now later self raw peer conn = (self', Ret resp)"
  shows "(\<exists>c m. js_error resp = Some (c, m)) \<or>
    (\<exists>g. js_error resp = None \<and> js_result resp = Some (Granted g) \<and> rcr_status g = ''granted'')"
proof -
  have granted: "\<exists>g. v = Granted g \<and> rcr_status g = ''granted''"
    if "handle_request_credential genv now later self params peer conn = (mid, Ret (Inr v))" for params mid v
    using that
    by (auto simp: handle_request_credential_def grant_lease_def Let_def
        split: prod.splits sum.splits outcome.splits option.splits policy_decision.splits)
  from assms show ?thesis
    by (auto simp: gate_handle_request_def Let_def respond_parts(1,2) rpc_error_def
        split: sum.splits outcome.splits prod.splits dest!: granted)
      (use respond_parts(3) in fastforce)+
qed

lemma register_answer:
  assumes "gt_from_slice genv raw = Inr request" "jr_jsonrpc request = ''2.0''" "jr_method request = ''cdp.register''"
    and "gate_handle_request genv now later self raw peer conn = (self', Ret resp)"
  shows "(\<exists>c m. js_error resp = Some (c, m)) \<or>
    (\<exists>r. js_error resp = None \<and> js_result resp = Some (Registered r) \<and> rr_status r = ''registered'')"
proof -
  have registered: "\<exists>r. v = Registered r \<and> rr_status r = ''registered''"
    if "handle_register genv now later self params peer conn = (mid, Inr v)" for params mid v
    using that by (auto simp: handle_register_def Let_def split: prod.splits sum.splits option.splits)
  from assms show ?thesis
    by (auto simp: gate_handle_request_def Let_def respond_parts(1,2) rpc_error_def
        split: sum.splits prod.splits dest!: registered)
      (use respond_parts(3) in fastforce)+
qed

section \<open>From the client to the proxy\<close>

text \<open>
  What the HTTP/1.1 connection to the listener preserves: the request arrives in origin form, and
  for every header that was set the first value is the one that was set first.
\<close>

definition delivered :: "request \<Rightarrow> request \<Rightarrow> bool" where
  "delivered sent req \<longleftrightarrow>
     rq_method req = rq_method sent \<and> rq_body req = rq_body sent \<and>
     rq_uri req = (rq_uri sent)\<lparr>uri_scheme := None, uri_host := None, uri_port := None\<rparr> \<and>
     (\<forall>n v. header_get (rq_headers sent) n = Some v \<longrightarrow> header_get (rq_headers req) n = Some v)"

definition visible :: "string \<Rightarrow> bool" where
  "visible s \<longleftrightarrow> list_all (\<lambda>c. 32 \<le> (of_char c :: nat) \<and> (of_char c :: nat) < 127) s"

text \<open>A header value of visible characters is read as itself.\<close>

definition reads_visible :: "(string \<Rightarrow> string option) \<Rightarrow> bool" where
  "reads_visible to_str \<longleftrightarrow> (\<forall>v. visible v \<longrightarrow> to_str v = Some v)"

lemma digit_char_visible: "d < 16 \<Longrightarrow> 32 \<le> (of_char (digit_char d) :: nat) \<and> (of_char (digit_char d) :: nat) < 127"
  by (auto simp: digit_char_def of_char_char_of_small)

lemma hex_encode_visible: "visible (hex_encode bs)"
proof (induction bs)
  case (Cons b bs)
  have "unat b div 16 < 16" "unat b mod 16 < 16" using unat_u8_less [of b] by auto
  with Cons show ?case
    by (simp add: visible_def hex_encode_Cons hex_byte_def digit_char_visible)
qed (simp add: visible_def)

lemma show_nat_visible: "visible (show_nat n)"
  using show_nat_plain [of _ n] by (fastforce simp: visible_def list_all_iff)

lemma add_headers_Inr: "add_headers env hs extra = Inr hs' \<Longrightarrow> \<exists>more. hs' = hs @ more"
  by (induction env hs extra rule: add_headers.induct) (auto split: sum.splits)

lemma fetch_request_Inr:
  assumes "fetch_request env now self url options = Inr sent"
  obtains original host more where "ht_parse_uri env url = Inr original" "uri_host original = Some host"
    "rq_headers sent = cdp_headers self host original url @ more" "\<not> lease_is_expired now self"
proof -
  from assms obtain original host hs where "ht_parse_uri env url = Inr original" "uri_host original = Some host"
    "add_headers env (cdp_headers self host original url) (fo_headers options) = Inr hs" "rq_headers sent = hs"
    "\<not> lease_is_expired now self"
    by (auto simp: fetch_request_def send_via_proxy_def split: if_splits sum.splits option.splits)
  with add_headers_Inr [OF this(3)] that show thesis by blast
qed

lemma delivered_headers:
  assumes "fetch_request env now self url options = Inr sent" "delivered sent req"
  shows "header_get (rq_headers req) HEADER_LEASE_TOKEN = Some (sl_lease_token self)"
    "header_get (rq_headers req) HEADER_CHANNEL_BINDING = Some (sl_channel_binding_nonce self)"
    "header_get (rq_headers req) ''x-cdp-original-url'' = Some url"
    "ht_parse_uri env url = Inr original \<Longrightarrow> uri_host original = Some host \<Longrightarrow>
       header_get (rq_headers req) ''host'' =
         Some (case uri_port original of Some p \<Rightarrow> host @ '':'' @ show_nat (unat p) | None \<Rightarrow> host)"
proof -
  obtain original' host' more where sent: "ht_parse_uri env url = Inr original'" "uri_host original' = Some host'"
    "rq_headers sent = cdp_headers self host' original' url @ more"
    using assms(1) by (rule fetch_request_Inr)
  have kept: "header_get (rq_headers sent) n = Some v \<Longrightarrow> header_get (rq_headers req) n = Some v" for n v
    using assms(2) by (simp add: delivered_def)
  show "header_get (rq_headers req) HEADER_LEASE_TOKEN = Some (sl_lease_token self)"
    "header_get (rq_headers req) HEADER_CHANNEL_BINDING = Some (sl_channel_binding_nonce self)"
    "header_get (rq_headers req) ''x-cdp-original-url'' = Some url"
    by (rule kept, simp add: sent cdp_headers_def header_get_def HEADER_LEASE_TOKEN_def HEADER_CHANNEL_BINDING_def)+
  assume "ht_parse_uri env url = Inr original" "uri_host original = Some host"
  with sent show "header_get (rq_headers req) ''host'' =
      Some (case uri_port original of Some p \<Rightarrow> host @ '':'' @ show_nat (unat p) | None \<Rightarrow> host)"
    by (intro kept) (auto simp: cdp_headers_def header_get_def)
qed

lemma hd_split_on_sep: "hd (split_on d (a @ d # b)) = hd (split_on d a)"
  by (induction a) (auto split: list.splits)

text \<open>What is left of a literal such as that of the loopback address is its opening bracket.\<close>

lemma hd_split_on_ipv6: "hd (split_on (CHR '':'') (CHR ''['' # CHR '':'' # rest)) = ''[''"
  by simp

lemma stored_token_valid:
  assumes "gate_ok hmac ch now self" "chrono_ok ch" "lm_leases (rt_lease_manager self) i = Some l"
  shows "verify_lease_token hmac (rt_gate_key self) i (l_agent_fingerprint_hash l) (l_channel_binding_nonce l)
    (l_lease_token l) = Ret True"
proof -
  from assms(1) obtain t where reach: "oreach hmac ch t (rt_lease_manager self)"
    and key: "lm_gate_key (rt_lease_manager self) = rt_gate_key self" by (auto simp: gate_ok_def)
  note run = oreach_reachable [OF reach]
  from reachable_all_ok [OF run assms(2)] assms(3) key have "lease_ok hmac (rt_gate_key self) l"
    by (simp add: all_ok_def)
  moreover from reachable_tree [OF run] assms(3) have "l_lease_id l = i" by (simp add: lease_tree_def)
  ultimately show ?thesis by (simp add: lease_ok_def)
qed

section \<open>Properties\<close>

text \<open>
  C30. The client reports what the gate decided. Over a connection to the gate, a lease request
  returns the lease of the grant when the gate grants it and the code and text of the error when it
  refuses; only when the handler of the gate panics does the client see a closed connection. Each
  request takes the next number.
\<close>

theorem client_mirrors_gate:
  assumes "carries env genv ser val (sent_request nonce ts (tp_id_counter (sn_transport s)) ''cdp.requestCredential''
      (request_json (sn_session_token s) params)) raw answer"
    and "gate_handle_request genv now later self raw peer conn = (self', answer)"
  shows "\<exists>r. request_lease env (gate_wire genv ser now later self peer conn) nonce ts t s params =
      (s\<lparr>sn_transport := (sn_transport s)\<lparr>tp_id_counter := tp_id_counter (sn_transport s) + 1\<rparr>\<rparr>, r) \<and>
    (case answer of
       Panic \<Rightarrow> r = Ret (Inl (Connection ''gate closed the connection unexpectedly''))
     | Ret resp \<Rightarrow>
         (\<exists>code message. js_error resp = Some (code, message) \<and> r = Ret (Inl (GateError code message))) \<or>
         (\<exists>g. js_error resp = None \<and> js_result resp = Some (Granted g) \<and>
            r = (case ch_add_seconds (sd_chrono env) t (sint (rcr_ttl_seconds g)) of
                   Panic \<Rightarrow> Panic
                 | Ret expires_at \<Rightarrow> Ret (Inr (lease_new g expires_at (sn_session_token s))))))"
proof -
  let ?q = "sent_request nonce ts (tp_id_counter (sn_transport s)) ''cdp.requestCredential''
    (request_json (sn_session_token s) params)"
  from assms(1) have ex: "exchanged (sd_to_string env) (sd_from_str env) genv ser val ?q raw answer" by (simp add: carries_def)
  then have slice: "gt_from_slice genv raw = Inr (as_gate_request ?q)" by (simp add: exchanged_def)
  note line = sdk_line.send_gate [OF ex assms(2)]
  show ?thesis
  proof (cases answer)
    case Panic
    with line show ?thesis by (simp add: request_lease_def transport_send_def request_json_def Let_def)
  next
    case (Ret resp)
    have "(\<exists>c m. js_error resp = Some (c, m)) \<or>
        (\<exists>g. js_error resp = None \<and> js_result resp = Some (Granted g) \<and> rcr_status g = ''granted'')"
      by (rule credential_answer [OF slice _ _ assms(2) [unfolded Ret]]) (simp_all add: as_gate_request_def sent_request_def)
    then consider (error) c m where "js_error resp = Some (c, m)"
    | (grant) g where "js_error resp = None" "js_result resp = Some (Granted g)" "rcr_status g = ''granted''"
      by blast
    then show ?thesis
    proof cases
      case error
      with line Ret show ?thesis by (simp add: request_lease_def transport_send_def request_json_def Let_def)
    next
      case grant
      moreover from assms(1) Ret grant(2) have "sd_credential_result env (val (Granted g)) = Inr g" by (simp add: carries_def)
      ultimately show ?thesis
        using line Ret by (simp add: request_lease_def transport_send_def request_json_def Let_def split: outcome.splits)
    qed
  qed
qed

text \<open>
  C14. A granted lease opens the proxy, for the process that registered. Whatever headers the caller adds,
  the request that the client makes for a lease of a reachable gate, for a URL with a host of visible
  characters, is authenticated by the proxy, now and in every later state of the gate that still stores
  the lease, when the proxy resolves the sender to the process of the registration and its user. The
  host the proxy goes on to check is what the host of the URL has before its first colon: the whole
  host, unless it is an IPv6 literal.
\<close>

theorem fetch_authenticates:
  assumes "greach ops hmac ch now self" "chrono_ok ch"
    and "gate_handle_request genv t now self raw peer conn = (self1, Ret resp)" "js_result resp = Some (Granted g)"
    and "gstep ops hmac ch now self self1" "(tstep ops hmac ch)\<^sup>*\<^sup>* (now, self1) (now2, self2)"
    and "fetch_request henv t2 (lease_new g expires_at token) url options = Inr sent" "delivered sent req"
    and "ht_parse_uri henv url = Inr original" "uri_host original = Some host" "visible host"
    and "reads_visible to_str" "length (rcr_channel_binding_nonce g) = 64"
    and "lm_leases (rt_lease_manager self2) (rcr_lease_id g) = Some l"
    and "resolve_tcp_peer fs ra = Inr (peer_pid peer, l_agent_uid l)"
  shows "authenticate hmac to_str fs ra (rq_headers req) (rcr_lease_id g) l (rt_gate_key self2) = Ret (Inr ()) \<and>
    extract_host to_str (rq_headers req) (rq_uri req) = Some (hd (split_on (CHR '':'') host))"
proof -
  have ok1: "gate_ok hmac ch now self1" using gstep_ok [OF assms(5) greach_ok [OF assms(1)] order_refl] .
  have ok2: "gate_ok hmac ch now2 self2" using tsteps_ok [OF assms(6) ok1] by blast
  obtain request params where "gt_from_slice genv raw = Inr request" "grant_ok genv t self self1 peer conn request params g"
    using gate_handle_request_Granted [OF assms(3,4)] by metis
  then obtain l1 where l1: "lm_leases (rt_lease_manager self1) (rcr_lease_id g) = Some l1" "l_agent_pid l1 = peer_pid peer"
    "l_lease_token l1 \<in> range hex_encode" "rcr_lease_token g = l_lease_token l1"
    "rcr_channel_binding_nonce g = hex_encode (l_channel_binding_nonce l1)"
    unfolding grant_ok_def by blast
  from tsteps_same_grant [OF assms(6) ok1 l1(1)] assms(14) have same: "same_grant l1 l" by auto
  note hs = delivered_headers [OF assms(7,8)]
  have tok: "extract_header to_str (rq_headers req) HEADER_LEASE_TOKEN = Some (l_lease_token l)"
    using hs(1) l1 same assms(12) hex_encode_visible
    by (auto simp: extract_header_def lease_new_def same_grant_def reads_visible_def)
  have cb: "extract_header to_str (rq_headers req) HEADER_CHANNEL_BINDING = Some (hex_encode (l_channel_binding_nonce l))"
    using hs(2) l1 same assms(12) hex_encode_visible
    by (auto simp: extract_header_def lease_new_def same_grant_def reads_visible_def)
  have "length (l_channel_binding_nonce l) = 32" using assms(13) l1(5) same by (simp add: same_grant_def length_hex_encode)
  then have "authenticate hmac to_str fs ra (rq_headers req) (rcr_lease_id g) l (rt_gate_key self2) = Ret (Inr ())"
    unfolding authenticate_Inr
    using tok cb auth_hex.dec_encode stored_token_valid [OF ok2 assms(2,14)] binding_eq.eq_iff assms(15) l1(2) same
    by (auto simp: same_grant_def)
  moreover have "visible (case uri_port original of Some p \<Rightarrow> host @ '':'' @ show_nat (unat p) | None \<Rightarrow> host)"
    using assms(11) show_nat_visible by (auto simp: visible_def split: option.splits)
  then have "extract_header to_str (rq_headers req) ''host'' =
      Some (case uri_port original of Some p \<Rightarrow> host @ '':'' @ show_nat (unat p) | None \<Rightarrow> host)"
    using hs(4) [OF assms(9,10)] assms(12) by (simp add: extract_header_def reads_visible_def)
  then have "extract_host to_str (rq_headers req) (rq_uri req) = Some (hd (split_on (CHR '':'') host))"
    by (auto simp: extract_host_def hd_split_on_sep split: option.splits)
  ultimately show ?thesis ..
qed

text \<open>
  The client loses scheme and port. Whatever the URL says, the first request the proxy sends
  upstream for it goes to port 80, without encryption on the part of the proxy, and carries the URL
  in a header of its own.
\<close>

theorem fetch_forwarded_to_port_80:
  assumes "fetch_request henv t self url options = Inr sent" "delivered sent req"
    and "handle_request px now mgr0 mgr ra i key req = Ret (leases, ob # obs, aud, resp)"
  shows "ob_port ob = 80 \<and> header_get (ob_headers ob) ''x-cdp-original-url'' = Some url"
proof -
  from handle_request_Ret [OF assms(3)] obtain r where
    "handle_request_inner px now mgr0 mgr ra i key req = Ret (leases, ob # obs, aud, r)" by blast
  then obtain body creds host ips where "build_outbound px req body creds (rq_uri req) host ips = Inr ob"
    by (cases rule: handle_request_inner_cases) (auto elim: execute_cases)
  then obtain v where port: "ob_port ob = port_for_uri (rq_uri req)"
    and hs: "inject_headers px (header_insert ''host'' v (strip_proxy_internal_headers (rq_headers req))) creds =
      Inr (ob_headers ob)"
    by (auto simp: build_outbound_def Let_def split: option.splits sum.splits list.splits)
  from inject_headers_appends [OF hs] obtain injected where
    "ob_headers ob = filter (\<lambda>(n, _). n \<notin> {HEADER_LEASE_TOKEN, HEADER_CHANNEL_BINDING, ''host''}) (rq_headers req)
       @ [(''host'', v)] @ injected" unfolding outbound_base by auto
  moreover have "map_of (filter (\<lambda>(n, _). P n) xs) k = (if P k then map_of xs k else None)" for P k and xs :: headers
    by (induction xs) auto
  ultimately have "header_get (ob_headers ob) ''x-cdp-original-url'' = Some url"
    using delivered_headers(3) [OF assms(1,2)]
    by (simp add: header_get_def map_add_Some_iff HEADER_LEASE_TOKEN_def HEADER_CHANNEL_BINDING_def)
  with port assms(2) show ?thesis by (simp add: delivered_def port_for_uri_def)
qed

text \<open>
  Leases cannot be renewed or revoked through the library. A lease that a session returns has no
  transport, so both operations fail before anything is sent, whatever the gate would answer.
\<close>

theorem lease_has_no_way_back:
  assumes "request_lease env wire nonce ts t s params = (s', Ret (Inr l))"
  shows "lease_renew env' wire' nonce' ts' t' l extend_seconds =
      (l, Ret (Inl (no_transport ''renew (use Session::request_lease to obtain a Lease with transport)''))) \<and>
    lease_revoke env' wire' nonce' ts' l reason = Inl (no_transport ''revoke'')"
proof -
  from assms have "sl_transport l = None"
    by (auto simp: request_lease_def lease_new_def Let_def split: prod.splits sum.splits if_splits outcome.splits)
  then show ?thesis by (simp add: lease_renew_def lease_revoke_def)
qed

text \<open>
  The identity of the gate is checked on another connection than the one that is used: any process
  may be at the other end of the latter.
\<close>

lemma identity_checked_elsewhere:
  "gf_gate_pid fp = word_of_int pid \<Longrightarrow> connect_with_fingerprint (Inr (Inr pid)) (Inr rogue) fp =
     Inr \<lparr>cc_fingerprint = fp, cc_transport = \<lparr>tp_id_counter = 1, tp_peer_pid = rogue\<rparr>\<rparr>"
  by (simp add: connect_with_fingerprint_def verify_gate_def transport_connect_def)

text \<open>The gate writes its fingerprint below the home directory, the client looks below another one when it is set.\<close>

lemma discovery_misses_gate:
  assumes "vars ''HOME'' = Some ''/h''" "vars ''XDG_CONFIG_HOME'' = Some ''/x''"
  shows "expand_tilde vars ''~/.config/cdp/gate.fingerprint'' = ''/h/.config/cdp/gate.fingerprint'' \<and>
    default_fingerprint_path vars = ''/x/cdp/gate.fingerprint''"
  using assms by (simp add: expand_tilde_def default_fingerprint_path_def path_join_def)

section \<open>Witnesses\<close>

definition sample_session :: session where
  "sample_session = \<lparr>sn_transport = \<lparr>tp_id_counter = 1, tp_peer_pid = 5\<rparr>,
     sn_session_token = ''cdp_sess_'' @ run_token, sn_agent_fingerprint = []\<rparr>"

definition sample_ask :: lease_request where
  "sample_ask = \<lparr>lq_credential_ref = ''c'', lq_scope = rc_scope run_request, lq_reason = ''r''\<rparr>"

definition sample_sent :: sdk_request where
  "sample_sent = sent_request ''n2'' ''t'' (tp_id_counter (sn_transport sample_session)) ''cdp.requestCredential''
     (request_json (sn_session_token sample_session) sample_ask)"

text \<open>The gate of the run, reading a given request.\<close>

definition asked_env :: "sdk_request \<Rightarrow> string list gate_env" where
  "asked_env q = run_env\<lparr>gt_from_slice := (\<lambda>_. Inr (as_gate_request q))\<rparr>"

definition sample_answer :: "sdk_request \<Rightarrow> json_rpc_response" where
  "sample_answer q = rpc_success (JNumber (show_nat (unat (sq_id q)))) (Granted run_grant)"

definition sample_sdk :: sdk_env where
  "sample_sdk =
     \<lparr>sd_vars = Map.empty, sd_read = (\<lambda>_. Inl []), sd_fingerprint = (\<lambda>_. Inl []), sd_show_json = (\<lambda>_. []),
      sd_to_string = (\<lambda>_. Inr ''q''),
      sd_from_str = (\<lambda>_. Inr \<lparr>sp_result = Some JNull, sp_error = None, sp_id = js_id (sample_answer sample_sent)\<rparr>),
      sd_register_result = (\<lambda>_. Inl []), sd_credential_result = (\<lambda>_. Inr run_grant), sd_renewal_info = (\<lambda>_. Inl []),
      sd_parse_time = (\<lambda>_. None), sd_chrono = sample_chrono\<rparr>"

lemma asked_answer:
  assumes "sq_jsonrpc q = ''2.0''" "sq_method q = ''cdp.requestCredential''"
    and "json_get (sq_params q) ''session_token'' = Some (JString (''cdp_sess_'' @ run_token))"
  shows "gate_handle_request (asked_env q) 0 0 gate1 raw run_peer [9] = (gate2, Ret (sample_answer q))"
proof -
  have params: "gt_request_params (asked_env q) p = Inr run_request" for p by (simp add: asked_env_def run_env_def)
  have slice: "gt_from_slice (asked_env q) raw = Inr (as_gate_request q)" by (simp add: asked_env_def)
  have same: "gt_lru (asked_env q) = gt_lru run_env" "gt_uuid_version (asked_env q) = gt_uuid_version run_env"
    "gt_rfc3339 (asked_env q) = gt_rfc3339 run_env" "gt_lease (asked_env q) = gt_lease run_env"
    "gt_gui (asked_env q) = gt_gui run_env" "gt_order (asked_env q) = gt_order run_env" by (simp_all add: asked_env_def)
  have "handle_request_credential (asked_env q) 0 0 gate1 run_request run_peer [9] =
      handle_request_credential run_env 0 0 gate1 run_request run_peer [9]"
    unfolding handle_request_credential_def validate_replay_def find_registration_def grant_lease_def same ..
  moreover have "validate_session (asked_env q) gate1 (sq_params q) run_peer [9] =
      validate_session run_env gate1 (jr_params credential_request) run_peer [9]"
    unfolding validate_session_def find_registration_def same by (simp add: assms(3) credential_request_def)
  ultimately show ?thesis
    by (simp add: gate_handle_request_def slice params run_session run_credential respond_def Let_def sample_answer_def
        assms(1,2) as_gate_request_def)
qed

theorem client_mirrors_gate_witness:
  "\<exists>s'. request_lease sample_sdk (gate_wire (asked_env sample_sent) (\<lambda>_. ''r'') 0 0 gate1 run_peer [9]) ''n2'' ''t'' 0
     sample_session sample_ask = (s', Ret (Inr (lease_new run_grant (100 * nanos) (sn_session_token sample_session))))"
proof -
  have "carries sample_sdk (asked_env sample_sent) (\<lambda>_. ''r'') (\<lambda>_. JNull) sample_sent
      (as_bytes (trim_end (''q'' @ [CHR 0x0A]))) (Ret (sample_answer sample_sent))"
    by (simp add: carries_def exchanged_def sample_sdk_def asked_env_def sample_answer_def rpc_success_def)
  moreover have "gate_handle_request (asked_env sample_sent) 0 0 gate1 raw run_peer [9] = (gate2, Ret (sample_answer sample_sent))"
    for raw
    by (rule asked_answer) (simp_all add: sample_sent_def sent_request_def request_json_def sample_session_def)
  ultimately show ?thesis
    using client_mirrors_gate [of sample_sdk "asked_env sample_sent" "\<lambda>_. ''r''" "\<lambda>_. JNull" "''n2''" "''t''" sample_session
        sample_ask, folded sample_sent_def, of _ "Ret (sample_answer sample_sent)" 0 0 gate1 run_peer "[9]" gate2 0]
    by (fastforce simp: sample_answer_def rpc_success_def sample_sdk_def run_grant_def sample_add sample_sint)
qed

definition https_uri :: uri where
  "https_uri = \<lparr>uri_scheme = Some ''https'', uri_host = Some ''h'', uri_port = Some 8443, uri_path = ''/a'', uri_query = None\<rparr>"

definition sample_http :: http_env where
  "sample_http =
     \<lparr>ht_method = Inr, ht_parse_uri = (\<lambda>s. Inr (if s = ''https://h:8443/a'' then https_uri else sample_uri)),
      ht_path_and_query = (\<lambda>u. Some (uri_path u)), ht_from_parts = (\<lambda>_ _. Inr sample_uri), ht_header_name = Inr,
      ht_header_value = Inr, ht_build = (\<lambda>_. None), ht_to_str = ascii_to_str, ht_send = (\<lambda>_. Inl [])\<rparr>"

definition no_options :: fetch_options where
  "no_options = \<lparr>fo_method = None, fo_headers = [], fo_body = None\<rparr>"

definition sample_fetched :: request where
  "sample_fetched = \<lparr>rq_method = ''GET'', rq_uri = sample_uri,
     rq_headers = cdp_headers (lease_new run_grant 1 []) ''h'' https_uri ''https://h:8443/a'', rq_body = Inr []\<rparr>"

lemma sample_fetch: "fetch_request sample_http 0 (lease_new run_grant 1 []) ''https://h:8443/a'' no_options = Inr sample_fetched"
  by (simp add: fetch_request_def lease_is_expired_def sample_http_def no_options_def sample_fetched_def
      send_via_proxy_def lease_new_def https_uri_def)

lemma sample_delivered: "delivered sample_fetched sample_fetched"
  by (simp add: delivered_def sample_fetched_def sample_uri_def)

lemma visible_ascii: "visible s \<Longrightarrow> is_ascii s"
  by (auto simp: visible_def is_ascii_def list_all_iff)

lemma ascii_reads_visible: "reads_visible ascii_to_str"
  using visible_ascii by (auto simp: reads_visible_def ascii_to_str_def)

theorem fetch_authenticates_witness:
  "authenticate sample_hmac ascii_to_str sample_proc sample_peer (rq_headers sample_fetched) ''01'' run_lease [7] = Ret (Inr ()) \<and>
   extract_host ascii_to_str (rq_headers sample_fetched) (rq_uri sample_fetched) = Some ''h''"
proof -
  have uri: "ht_parse_uri sample_http ''https://h:8443/a'' = Inr https_uri" "uri_host https_uri = Some ''h''"
    "visible ''h''" by (simp_all add: sample_http_def https_uri_def visible_def)
  have "length (rcr_channel_binding_nonce run_grant) = 64" "rcr_lease_id run_grant = ''01''" "l_agent_uid run_lease = 1000"
    "peer_pid run_peer = 7" "js_result (rpc_success JNull (Granted run_grant)) = Some (Granted run_grant)"
    by (simp_all add: run_grant_def run_lease_def proxy_lease_def lease1_def run_peer_def rpc_success_def)
  then show ?thesis
    using fetch_authenticates [OF gate1_reach sample_chrono_ok run_grants _ gate2_step rtranclp.rtrancl_refl sample_fetch
        sample_delivered uri ascii_reads_visible, of run_lease sample_proc sample_peer] sample_resolve gate2_parts(1)
    by (simp add: gate2_parts(2))
qed

lemma sample_fetched_auth:
  "authenticate sample_hmac ascii_to_str sample_proc sample_peer (rq_headers sample_fetched) ''01'' proxy_lease [7] = Ret (Inr ())"
proof -
  note hs = delivered_headers [OF sample_fetch sample_delivered]
  have lease: "l_channel_binding_nonce proxy_lease = replicate 32 1" "l_agent_fingerprint_hash proxy_lease = replicate 32 2"
    "l_agent_pid proxy_lease = 7" "l_agent_uid proxy_lease = 1000"
    "sl_lease_token (lease_new run_grant 1 []) = generate_lease_token sample_hmac [7] ''01'' (replicate 32 2) (replicate 32 1)"
    "sl_channel_binding_nonce (lease_new run_grant 1 []) = hex_encode (replicate 32 1)"
    by (simp_all add: proxy_lease_def lease1_def lease_new_def run_grant_def run_lease_def)
  have "verify_binding (replicate 32 1) (replicate 32 1)" by (subst binding_eq.eq_iff) simp_all
  then show ?thesis
    unfolding authenticate_Inr extract_header_def hs(1,2) lease
    by (simp add: ascii_to_str_def hex_encode_ascii generate_lease_token_def auth_hex.dec_encode sample_resolve)
      (simp add: verify_lease_token_generated flip: generate_lease_token_def)
qed

lemma sample_fetched_run:
  "\<exists>leases ob aud resp. handle_request sample_proxy 0 proxy_mgr proxy_mgr sample_peer ''01'' [7] sample_fetched =
     Ret (leases, [ob], aud, resp)"
proof -
  let ?l = "proxy_lease\<lparr>l_requests_used := 1\<rparr>"
  have parts: "rq_uri sample_fetched = sample_uri" "rq_method sample_fetched = ''GET''" "rq_body sample_fetched = Inr []"
    by (simp_all add: sample_fetched_def)
  obtain ob where build: "build_outbound sample_proxy sample_fetched [] [(''authorization'', [1])] sample_uri ''h'' [V4 1] = Inr ob"
    by (simp add: build_outbound_def sample_proxy_def Let_def)
  have exec: "execute_with_redirects sample_proxy sample_fetched [] [(''authorization'', [1])] ?l ''01''
      MAX_REDIRECT_HOPS sample_uri ''h'' [V4 1] =
    ([ob], [], Inr (sanitize_response \<lparr>rs_status = 200, rs_headers = [(''set-cookie'', ''x'')], rs_body = []\<rparr>))"
    by (subst execute_with_redirects.simps) (simp add: build sample_proxy_simps evaluate_redirect_def)
  have "resolve_and_verify (\<lambda>_. Inr [V4 1]) ?l ''h'' = Inr [V4 1]" "l_granted_scope ?l = sample_scope"
    by (simp_all add: resolve_and_verify_def verify_pinned_ip_def proxy_lease_def lease1_def)
  moreover have "extract_host ascii_to_str (rq_headers sample_fetched) sample_uri = Some ''h''"
  proof -
    have "split_on (CHR '':'') (''h'' @ '':'' @ show_nat (unat (8443 :: u16))) = ''h'' # split_on (CHR '':'') (show_nat (unat (8443 :: u16)))"
      by (simp add: split_on_append_sep)
    moreover have "is_ascii (show_nat n)" for n using show_nat_visible visible_ascii by blast
    ultimately show ?thesis
      by (simp add: extract_host_def extract_header_def sample_fetched_def cdp_headers_def header_get_def https_uri_def ascii_to_str_def)
  qed
  ultimately show ?thesis
    by (simp add: handle_request_def handle_request_inner_def get_lease_def proxy_mgr_leases parts sample_fetched_auth
        sample_use sample_validate exec collect_body_def sample_proxy_simps)
qed

theorem fetch_forwarded_to_port_80_witness:
  "\<exists>leases ob aud resp. handle_request sample_proxy 0 proxy_mgr proxy_mgr sample_peer ''01'' [7] sample_fetched =
     Ret (leases, [ob], aud, resp) \<and> ob_port ob = 80 \<and> header_get (ob_headers ob) ''x-cdp-original-url'' = Some ''https://h:8443/a''"
  using sample_fetched_run fetch_forwarded_to_port_80 [OF sample_fetch sample_delivered] by blast

lemma sample_leased: "\<exists>s'. request_lease sample_sdk (\<lambda>_. Inr ''r'') ''n2'' ''t'' 0 sample_session sample_ask =
    (s', Ret (Inr (lease_new run_grant (100 * nanos) (sn_session_token sample_session))))"
  by (simp add: request_lease_def transport_send_def request_json_def send_line_def sample_sdk_def run_grant_def
      sample_add sample_sint Let_def)

theorem lease_has_no_way_back_witness:
  "lease_revoke sample_sdk (\<lambda>_. Inr ''r'') ''n3'' ''t'' (lease_new run_grant (100 * nanos) (sn_session_token sample_session)) ''r'' =
     Inl (no_transport ''revoke'')"
  using lease_has_no_way_back sample_leased by blast

end
