(* ===== verification/Cdp_Wrap.thy ===== *)
theory Cdp_Wrap
  imports Cdp_Sdk
begin

text \<open>
  The command wrapper (\<open>crates/cdp-cli-wrap\<close>): arguments, the client of the gate, the command line
  and environment of the wrapped command, the sanitised output, and the helper that answers password
  prompts. Regular expressions, processes and the socket are arguments. The lemmas follow a lease
  from the gate to the wrapped command and say what the command can do with it.
\<close>

section \<open>Errors and methods\<close>

datatype wrap_error =
    Wrap_Gate string
  | Wrap_Io string
  | Child string
  | CredentialDelivery string
  | Sanitize string
  | Namespace string
  | Wrap_Config string
  | Wrap_Json string
  | Signal string
  | ChildExitStatus int

definition show_int :: "int \<Rightarrow> string" where
  "show_int i = (if i < 0 then CHR ''-'' # show_nat (nat (- i)) else show_nat (nat i))"

fun wrap_error_text :: "wrap_error \<Rightarrow> string" where
  "wrap_error_text (Wrap_Gate e) = ''gate error: '' @ e"
| "wrap_error_text (Wrap_Io e) = ''I/O error: '' @ e"
| "wrap_error_text (Child e) = ''child process error: '' @ e"
| "wrap_error_text (CredentialDelivery e) = ''credential delivery error: '' @ e"
| "wrap_error_text (Sanitize e) = ''sanitization error: '' @ e"
| "wrap_error_text (Namespace e) = ''namespace error: '' @ e"
| "wrap_error_text (Wrap_Config e) = ''configuration error: '' @ e"
| "wrap_error_text (Wrap_Json e) = ''JSON error: '' @ e"
| "wrap_error_text (Signal e) = ''signal error: '' @ e"
| "wrap_error_text (ChildExitStatus n) = ''child exited with status '' @ show_int n"

datatype injection_method = GitAskpass | SshAskpass | CurlPipe | GenericAskpass

definition base_name :: "string \<Rightarrow> string" where
  "base_name path = (case file_name path of Some n \<Rightarrow> n | None \<Rightarrow> path)"

definition from_command :: "string \<Rightarrow> injection_method" where
  "from_command command =
     (let name = base_name command in
      if name = ''git'' then GitAskpass
      else if name \<in> {''ssh'', ''scp'', ''sftp''} then SshAskpass
      else if name = ''curl'' then CurlPipe
      else GenericAskpass)"

section \<open>Output sanitiser\<close>

definition REDACTED_MARKER :: string where
  "REDACTED_MARKER = ''[CDP:REDACTED]''"

record 'r regex_env =
  rx_new :: "string \<Rightarrow> string + 'r"
  rx_is_match :: "'r \<Rightarrow> string \<Rightarrow> bool"
  rx_replace_all :: "'r \<Rightarrow> string \<Rightarrow> string \<Rightarrow> string"

fun compile_patterns :: "'r regex_env \<Rightarrow> string list \<Rightarrow> string + 'r list" where
  "compile_patterns rx [] = Inr []"
| "compile_patterns rx (p # ps) =
     (case rx_new rx p of
        Inl e \<Rightarrow> Inl e
      | Inr r \<Rightarrow> (case compile_patterns rx ps of Inl e \<Rightarrow> Inl e | Inr rs \<Rightarrow> Inr (r # rs)))"

definition with_patterns :: "'r regex_env \<Rightarrow> string list \<Rightarrow> wrap_error + 'r list" where
  "with_patterns rx patterns =
     (case compile_patterns rx patterns of
        Inl e \<Rightarrow> Inl (Sanitize (''compile pattern: '' @ e))
      | Inr rs \<Rightarrow> Inr rs)"

definition default_patterns :: "string list" where
  "default_patterns =
     [''ghp_[A-Za-z0-9]{36,}'', ''gho_[A-Za-z0-9]{36,}'', ''github_pat_[A-Za-z0-9_]{36,}'',
      ''xoxb-[A-Za-z0-9'' @ [CHR 0x5C] @ ''-]{20,}'', ''xoxp-[A-Za-z0-9'' @ [CHR 0x5C] @ ''-]{20,}'',
      ''xoxa-[A-Za-z0-9'' @ [CHR 0x5C] @ ''-]{20,}'', ''sk-[A-Za-z0-9'' @ [CHR 0x5C] @ ''-_]{20,}'',
      ''AKIA[A-Z0-9]{16}'',
      ''(?i)(Authorization:'' @ [CHR 0x5C] @ ''s*Bearer'' @ [CHR 0x5C] @ ''s+)[A-Za-z0-9'' @ [CHR 0x5C] @ ''-_=+/]{16,}'',
      ''(?:=|:'' @ [CHR 0x5C] @ ''s*)[A-Za-z0-9+/]{32,}={0,2}'']"

definition sanitizer_new :: "'r regex_env \<Rightarrow> wrap_error + 'r list" where
  "sanitizer_new rx = with_patterns rx default_patterns"

definition sanitize_line :: "'r regex_env \<Rightarrow> 'r list \<Rightarrow> string \<Rightarrow> string" where
  "sanitize_line rx patterns line =
     fold (\<lambda>r result. if rx_is_match rx r result then rx_replace_all rx r result REDACTED_MARKER else result)
       patterns line"

definition sanitize_buffer :: "'r regex_env \<Rightarrow> 'r list \<Rightarrow> string \<Rightarrow> string" where
  "sanitize_buffer rx patterns buf = join [CHR 0x0A] (map (sanitize_line rx patterns) (lines buf))"

text \<open>\<open>lossy\<close> is \<open>String::from_utf8_lossy\<close>.\<close>

definition sanitize_bytes :: "(bytes \<Rightarrow> string) \<Rightarrow> 'r regex_env \<Rightarrow> 'r list \<Rightarrow> bytes \<Rightarrow> bytes" where
  "sanitize_bytes lossy rx patterns bs = as_bytes (sanitize_buffer rx patterns (lossy bs))"

section \<open>Password prompts\<close>

definition CDP_PIPE_FD_ENV :: string where
  "CDP_PIPE_FD_ENV = ''CDP_PIPE_FD''"

text \<open>\<open>str::parse\<close> for \<open>i32\<close>.\<close>

definition parse_i32 :: "string \<Rightarrow> int option" where
  "parse_i32 s =
     (case s of
        [] \<Rightarrow> None
      | c # cs \<Rightarrow>
          if c = CHR ''-''
          then (if cs = [] then None
                else (case dec_value 0 cs of
                        None \<Rightarrow> None
                      | Some n \<Rightarrow> if n \<le> 2 ^ 31 then Some (- int n) else None))
          else map_option int (parse_uint (2 ^ 31 - 1) s))"

text \<open>
  \<open>read\<close> gives the content of a descriptor up to its end, \<open>put\<close> the error of a write to the standard
  output; the value is what was written there.
\<close>

definition run_askpass ::
  "crypto_error + unit \<Rightarrow> (crypto_error \<Rightarrow> string) \<Rightarrow> env_vars \<Rightarrow> (int \<Rightarrow> string + bytes) \<Rightarrow> (bytes \<Rightarrow> string option)
   \<Rightarrow> string option \<Rightarrow> wrap_error + bytes" where
  "run_askpass dumps show_crypto vars read put flushed =
     (case dumps of
        Inl e \<Rightarrow> Inl (CredentialDelivery (''disable_core_dumps: '' @ show_crypto e))
      | Inr _ \<Rightarrow>
     (case vars CDP_PIPE_FD_ENV of
        None \<Rightarrow> Inl (CredentialDelivery (''ASKPASS helper: '' @ CDP_PIPE_FD_ENV @ '' environment variable not set''))
      | Some fd_str \<Rightarrow>
     (case parse_i32 fd_str of
        None \<Rightarrow> Inl (CredentialDelivery (''ASKPASS helper: '' @ CDP_PIPE_FD_ENV @ '' is not a valid integer: '' @ fd_str))
      | Some fd \<Rightarrow>
          if fd < 0
          then Inl (CredentialDelivery (''ASKPASS helper: '' @ CDP_PIPE_FD_ENV @ '' is negative: '' @ show_int fd))
          else
     (case read fd of
        Inl e \<Rightarrow> Inl (CredentialDelivery (''read from pipe fd '' @ show_int fd @ '': '' @ e))
      | Inr credential \<Rightarrow>
          if credential = [] then Inl (CredentialDelivery ''ASKPASS helper: received empty credential'')
          else
     (case put credential of
        Some e \<Rightarrow> Inl (CredentialDelivery (''write credential to stdout: '' @ e))
      | None \<Rightarrow>
     (case (if last credential \<noteq> 10 then put [10] else None) of
        Some e \<Rightarrow> Inl (CredentialDelivery (''write newline to stdout: '' @ e))
      | None \<Rightarrow>
     (case flushed of
        Some e \<Rightarrow> Inl (CredentialDelivery (''flush stdout: '' @ e))
      | None \<Rightarrow> Inr (if last credential \<noteq> 10 then credential @ [10] else credential))))))))"

definition is_askpass_mode :: "string \<Rightarrow> string list \<Rightarrow> bool" where
  "is_askpass_mode argv0 args \<longleftrightarrow>
     str_contains (base_name argv0) ''cdp-askpass'' \<or> str_contains (base_name argv0) ''askpass'' \<or>
     (case args of [] \<Rightarrow> False | a # _ \<Rightarrow> a = ''--askpass'')"

section \<open>The client of the gate\<close>

record lease_info =
  li_proxy_port :: u16
  li_lease_token :: string
  li_channel_binding_nonce :: string
  li_ttl_seconds :: u64

record wrap_fingerprint =
  wf_socket_path :: string
  wf_version :: "string option"

record gate_client =
  gcl_session_token :: "string option"

text \<open>
  What the wrapper meets: variables and files, the outcomes of the four calls that set up the
  connection, and JSON. The other end of the socket may fail on the write or on the read.
\<close>

record wrap_env =
  wr_vars :: env_vars
  wr_read :: "string \<Rightarrow> string + string"
  wr_fingerprint :: "string \<Rightarrow> string + wrap_fingerprint"
  wr_connect :: "string \<Rightarrow> string option"
  wr_set_read_timeout :: "string option"
  wr_set_write_timeout :: "string option"
  wr_try_clone :: "string option"
  wr_to_vec :: "sdk_request \<Rightarrow> string + string"
  wr_from_str :: "string \<Rightarrow> string + sdk_response"
  wr_pkg_version :: string

type_synonym duplex = "string \<Rightarrow> string + (string + string)"

definition wrap_default_path :: "env_vars \<Rightarrow> wrap_error + string" where
  "wrap_default_path vars =
     (case vars ''HOME'' of
        None \<Rightarrow> Inl (Wrap_Config ''HOME environment variable not set'')
      | Some home \<Rightarrow> Inr (path_join home ''.config/cdp/gate.fingerprint''))"

definition load_fingerprint :: "wrap_env \<Rightarrow> wrap_error + wrap_fingerprint" where
  "load_fingerprint env =
     (case wrap_default_path (wr_vars env) of
        Inl e \<Rightarrow> Inl e
      | Inr path \<Rightarrow>
     (case wr_read env path of
        Inl e \<Rightarrow> Inl (Wrap_Config (''cannot read gate fingerprint at '' @ path @ '': '' @ e))
      | Inr contents \<Rightarrow>
     (case wr_fingerprint env contents of
        Inl e \<Rightarrow> Inl (Wrap_Config (''malformed gate fingerprint: '' @ e))
      | Inr fp \<Rightarrow> Inr fp)))"

definition wrap_connect :: "wrap_env \<Rightarrow> string \<Rightarrow> wrap_error + gate_client" where
  "wrap_connect env socket_path =
     (case wr_connect env socket_path of
        Some e \<Rightarrow> Inl (Wrap_Gate (''cannot connect to Gate at '' @ socket_path @ '': '' @ e))
      | None \<Rightarrow>
     (case wr_set_read_timeout env of
        Some e \<Rightarrow> Inl (Wrap_Gate (''set_read_timeout: '' @ e))
      | None \<Rightarrow>
     (case wr_set_write_timeout env of
        Some e \<Rightarrow> Inl (Wrap_Gate (''set_write_timeout: '' @ e))
      | None \<Rightarrow>
     (case wr_try_clone env of
        Some e \<Rightarrow> Inl (Wrap_Gate (''clone stream: '' @ e))
      | None \<Rightarrow> Inr \<lparr>gcl_session_token = None\<rparr>))))"

definition send_request :: "wrap_env \<Rightarrow> duplex \<Rightarrow> sdk_request \<Rightarrow> wrap_error + json" where
  "send_request env wire request =
     (case wr_to_vec env request of
        Inl e \<Rightarrow> Inl (Wrap_Json e)
      | Inr payload \<Rightarrow>
     (case wire (payload @ [CHR 0x0A]) of
        Inl e \<Rightarrow> Inl (Wrap_Gate (''write request: '' @ e))
      | Inr (Inl e) \<Rightarrow> Inl (Wrap_Gate (''read response: '' @ e))
      | Inr (Inr line) \<Rightarrow>
          if line = [] then Inl (Wrap_Gate ''Gate closed connection unexpectedly'')
          else
     (case wr_from_str env (trim line) of
        Inl e \<Rightarrow> Inl (Wrap_Gate (''deserialize response: '' @ e))
      | Inr rpc \<Rightarrow>
     (case sp_error rpc of
        Some (code, message) \<Rightarrow> Inl (Wrap_Gate (''Gate returned error '' @ show_int code @ '': '' @ message))
      | None \<Rightarrow>
     (case sp_result rpc of
        None \<Rightarrow> Inl (Wrap_Gate ''Gate response missing both result and error'')
      | Some v \<Rightarrow> Inr v)))))"

text \<open>\<open>response[key]\<close>, which is null when the key is missing, and its conversions.\<close>

definition json_index :: "json \<Rightarrow> string \<Rightarrow> json" where
  "json_index v key = (case json_get v key of Some w \<Rightarrow> w | None \<Rightarrow> JNull)"

fun json_as_u64 :: "json \<Rightarrow> u64 option" where
  "json_as_u64 (JNumber s) = map_option of_nat (parse_uint (2 ^ 64 - 1) s)"
| "json_as_u64 _ = None"

definition wrap_register_request :: "wrap_env \<Rightarrow> string \<Rightarrow> string \<Rightarrow> sdk_request" where
  "wrap_register_request env nonce timestamp =
     \<lparr>sq_jsonrpc = ''2.0'', sq_method = ''cdp.register'',
      sq_params = JObject [(''agent_id'', JString ''cdp-wrap''), (''agent_version'', JString (wr_pkg_version env)),
        (''capabilities'', JArray [JString ''cli'']), (''nonce'', JString nonce), (''timestamp'', JString timestamp)],
      sq_id = 1\<rparr>"

definition wrap_register ::
  "wrap_env \<Rightarrow> duplex \<Rightarrow> string \<Rightarrow> string \<Rightarrow> gate_client \<Rightarrow> gate_client \<times> (wrap_error + unit)" where
  "wrap_register env wire nonce timestamp self =
     (case send_request env wire (wrap_register_request env nonce timestamp) of
        Inl e \<Rightarrow> (self, Inl e)
      | Inr response \<Rightarrow>
     (case json_as_str (json_index response ''session_token'') of
        None \<Rightarrow> (self, Inl (Wrap_Gate ''register: missing session_token in response''))
      | Some token \<Rightarrow> (self\<lparr>gcl_session_token := Some token\<rparr>, Inr ())))"

definition wrap_credential_request :: "string \<Rightarrow> string \<Rightarrow> string \<Rightarrow> string \<Rightarrow> string \<Rightarrow> sdk_request" where
  "wrap_credential_request token nonce timestamp cref command =
     \<lparr>sq_jsonrpc = ''2.0'', sq_method = ''cdp.requestCredential'',
      sq_params = JObject [(''session_token'', JString token), (''credential_ref'', JString cref),
        (''scope'', JObject [(''hosts'', JArray []), (''methods'', JArray []), (''paths'', JArray [])]),
        (''reason'', JString (''CLI wrapper for '' @ command)), (''nonce'', JString nonce),
        (''timestamp'', JString timestamp)],
      sq_id = 2\<rparr>"

definition read_lease_info :: "json \<Rightarrow> wrap_error + lease_info" where
  "read_lease_info response =
     (case json_as_u64 (json_index response ''proxy_port'') of
        None \<Rightarrow> Inl (Wrap_Gate ''missing proxy_port in response'')
      | Some port \<Rightarrow>
     (case json_as_str (json_index response ''lease_token'') of
        None \<Rightarrow> Inl (Wrap_Gate ''missing lease_token in response'')
      | Some lease_token \<Rightarrow>
     (case json_as_str (json_index response ''channel_binding_nonce'') of
        None \<Rightarrow> Inl (Wrap_Gate ''missing channel_binding_nonce in response'')
      | Some nonce \<Rightarrow>
          Inr \<lparr>li_proxy_port = ucast port, li_lease_token = lease_token, li_channel_binding_nonce = nonce,
               li_ttl_seconds = (case json_as_u64 (json_index response ''ttl_seconds'') of Some n \<Rightarrow> n | None \<Rightarrow> 3600)\<rparr>)))"

definition wrap_request_credential ::
  "wrap_env \<Rightarrow> duplex \<Rightarrow> string \<Rightarrow> string \<Rightarrow> gate_client \<Rightarrow> string \<Rightarrow> string \<Rightarrow> wrap_error + lease_info" where
  "wrap_request_credential env wire nonce timestamp self cref command =
     (case gcl_session_token self of
        None \<Rightarrow> Inl (Wrap_Gate ''must call register() before request_credential()'')
      | Some token \<Rightarrow>
     (case send_request env wire (wrap_credential_request token nonce timestamp cref command) of
        Inl e \<Rightarrow> Inl e
      | Inr response \<Rightarrow> read_lease_info response))"

section \<open>Running the command\<close>

text \<open>Command line, arguments and the variables set for the command.\<close>

definition build_proxy_command ::
  "string \<Rightarrow> string list \<Rightarrow> injection_method \<Rightarrow> lease_info \<Rightarrow> string \<times> string list \<times> env_vars" where
  "build_proxy_command command args injection lease =
     (let proxy_url = ''http://127.0.0.1:'' @ show_nat (unat (li_proxy_port lease)) in
      case injection of
        CurlPipe \<Rightarrow>
          (command,
           [''--proxy'', proxy_url, ''-H'', ''X-CDP-Lease-Token: '' @ li_lease_token lease,
            ''-H'', ''X-CDP-Channel-Binding: '' @ li_channel_binding_nonce lease] @ args, Map.empty)
      | GitAskpass \<Rightarrow>
          (command, args,
           [''http_proxy'' \<mapsto> proxy_url, ''https_proxy'' \<mapsto> proxy_url, ''GIT_TERMINAL_PROMPT'' \<mapsto> ''0''])
      | SshAskpass \<Rightarrow> (command, args, [''DISPLAY'' \<mapsto> '':0''])
      | GenericAskpass \<Rightarrow> (command, args, [''http_proxy'' \<mapsto> proxy_url, ''https_proxy'' \<mapsto> proxy_url]))"

definition INHERITED_VARS :: "string list" where
  "INHERITED_VARS = [''PATH'', ''HOME'', ''USER'', ''LOGNAME'', ''TERM'', ''LANG'', ''LC_ALL'']"

definition child_env :: "env_vars \<Rightarrow> env_vars \<Rightarrow> env_vars" where
  "child_env vars env =
     fold (\<lambda>var m. case vars var of Some v \<Rightarrow> m(var \<mapsto> v) | None \<Rightarrow> m) INHERITED_VARS env"

text \<open>
  A spawned command: its process number, what reading its two outputs line by line gives, an error
  ending the loop, and what waiting for it gives: its exit code, if it has one.
\<close>

record child =
  cd_pid :: u32
  cd_stdout :: "(string + string) list"
  cd_stderr :: "(string + string) list"
  cd_wait :: "string + int option"

fun print_lines :: "'r regex_env \<Rightarrow> 'r list \<Rightarrow> (string + string) list \<Rightarrow> string" where
  "print_lines rx patterns [] = []"
| "print_lines rx patterns (Inl _ # ls) = []"
| "print_lines rx patterns (Inr l # ls) = sanitize_line rx patterns l @ [CHR 0x0A] @ print_lines rx patterns ls"

definition harden_current_process :: "string option \<Rightarrow> wrap_error + unit" where
  "harden_current_process limited =
     (case limited of Some e \<Rightarrow> Inl (Namespace (''setrlimit RLIMIT_CORE: '' @ e)) | None \<Rightarrow> Inr ())"

text \<open>\<open>spawn\<close> starts a command with arguments and environment; the result is the output and the exit code.\<close>

definition run_command ::
  "'r regex_env \<Rightarrow> env_vars \<Rightarrow> string option \<Rightarrow> (string \<Rightarrow> string list \<Rightarrow> env_vars \<Rightarrow> string + child)
   \<Rightarrow> string \<Rightarrow> string list \<Rightarrow> injection_method \<Rightarrow> lease_info \<Rightarrow> string \<times> string \<times> (wrap_error + int)" where
  "run_command rx vars limited spawn command args injection lease =
     (case harden_current_process limited of
        Inl e \<Rightarrow> ([], [], Inl e)
      | Inr _ \<Rightarrow>
     (case build_proxy_command command args injection lease of
        (final_command, final_args, env) \<Rightarrow>
     (case spawn final_command final_args (child_env vars env) of
        Inl e \<Rightarrow> ([], [], Inl (Child (''spawn '' @ final_command @ '': '' @ e)))
      | Inr c \<Rightarrow>
     (case sanitizer_new rx of
        Inl e \<Rightarrow> ([], [], Inl e)
      | Inr patterns \<Rightarrow>
          (print_lines rx patterns (cd_stdout c), print_lines rx patterns (cd_stderr c),
           case cd_wait c of
             Inl e \<Rightarrow> Inl (Child (''wait: '' @ e))
           | Inr code \<Rightarrow> Inr (case code of Some n \<Rightarrow> n | None \<Rightarrow> 1))))))"

section \<open>The program\<close>

record wrap_args =
  wa_command :: string
  wa_args :: "string list"
  wa_credential_ref :: string

text \<open>The outer \<open>Inl\<close> is an exit of the process with its code.\<close>

definition parse_wrap_args :: "string list \<Rightarrow> int + (wrap_error + wrap_args)" where
  "parse_wrap_args argv =
     (let rest = drop 1 argv in
      if rest = [] then Inl 2
      else Inr
     (case (if hd rest = ''--credential-ref''
            then (case tl rest of
                    [] \<Rightarrow> Inl (Wrap_Config ''--credential-ref requires a value'')
                  | v # others \<Rightarrow> Inr (v, others))
            else Inr ([], rest)) of
        Inl e \<Rightarrow> Inl e
      | Inr (cref, []) \<Rightarrow> Inl (Wrap_Config ''command is required'')
      | Inr (cref, command # args) \<Rightarrow>
          Inr \<lparr>wa_command = command, wa_args = args,
               wa_credential_ref = (if cref = [] then ''cli/'' @ base_name command else cref)\<rparr>))"

text \<open>
  \<open>register\<close> and \<open>request\<close> are the two exchanges with the gate. The value holds what was printed
  and the exit code of the process; an error is printed to the standard error.
\<close>

definition run_wrap ::
  "'r regex_env \<Rightarrow> wrap_env \<Rightarrow> duplex \<Rightarrow> duplex \<Rightarrow> (string \<times> string) \<Rightarrow> (string \<times> string) \<Rightarrow> string option
   \<Rightarrow> (string \<Rightarrow> string list \<Rightarrow> env_vars \<Rightarrow> string + child) \<Rightarrow> wrap_args \<Rightarrow> string \<times> string \<times> (wrap_error + int)" where
  "run_wrap rx env register request stamp1 stamp2 limited spawn wargs =
     (case load_fingerprint env of
        Inl e \<Rightarrow> ([], [], Inl e)
      | Inr fp \<Rightarrow>
     (case wrap_connect env (wf_socket_path fp) of
        Inl e \<Rightarrow> ([], [], Inl e)
      | Inr gate \<Rightarrow>
     (case wrap_register env register (fst stamp1) (snd stamp1) gate of
        (gate, Inl e) \<Rightarrow> ([], [], Inl e)
      | (gate, Inr _) \<Rightarrow>
     (case wrap_request_credential env request (fst stamp2) (snd stamp2) gate (wa_credential_ref wargs) (wa_command wargs) of
        Inl e \<Rightarrow> ([], [], Inl e)
      | Inr lease \<Rightarrow>
     (case sanitizer_new rx of
        Inl e \<Rightarrow> ([], [], Inl e)
      | Inr _ \<Rightarrow>
          run_command rx (wr_vars env) limited spawn (wa_command wargs) (wa_args wargs)
            (from_command (wa_command wargs)) lease)))))"

definition wrap_main ::
  "string list \<Rightarrow> wrap_error + bytes \<Rightarrow> (wrap_args \<Rightarrow> string \<times> string \<times> (wrap_error + int)) \<Rightarrow> int" where
  "wrap_main argv askpass wrap =
     (if is_askpass_mode (case argv of [] \<Rightarrow> ''cdp-wrap'' | a # _ \<Rightarrow> a) (drop 1 argv)
      then (case askpass of Inl _ \<Rightarrow> 1 | Inr _ \<Rightarrow> 0)
      else (case parse_wrap_args argv of
              Inl code \<Rightarrow> code
            | Inr (Inl e) \<Rightarrow> 1
            | Inr (Inr wargs) \<Rightarrow> (case wrap wargs of (_, _, Inl e) \<Rightarrow> 1 | (_, _, Inr code) \<Rightarrow> code)))"

section \<open>Lemmas\<close>

interpretation wrap_line: line_client "\<lambda>w. send_request env (\<lambda>l. Inr (w l))" "wr_to_vec env" "wr_from_str env"
  "Wrap_Gate ''Gate closed connection unexpectedly''"
  "\<lambda>code message. Wrap_Gate (''Gate returned error '' @ show_int code @ '': '' @ message)"
  "Wrap_Gate ''Gate response missing both result and error''" for env
  by unfold_locales (auto simp: send_request_def split: option.splits)

text \<open>The environment of the command is built from nothing: what is set for it, and seven variables.\<close>

lemma child_env_eq:
  "child_env vars env k = (if k \<in> set INHERITED_VARS \<and> vars k \<noteq> None then vars k else env k)"
proof -
  have "fold (\<lambda>var m. case vars var of Some v \<Rightarrow> m(var \<mapsto> v) | None \<Rightarrow> m) names m k =
      (if k \<in> set names \<and> vars k \<noteq> None then vars k else m k)" for names m
    by (induction names arbitrary: m) (auto split: option.splits)
  then show ?thesis unfolding child_env_def .
qed

lemma environment_filtered:
  assumes "build_proxy_command command args injection lease = (cmd, args', env)" "child_env vars env k = Some v"
  shows "k \<in> set INHERITED_VARS \<and> vars k = Some v \<or>
    k \<in> {''http_proxy'', ''https_proxy'', ''GIT_TERMINAL_PROMPT'', ''DISPLAY''} \<and> env k = Some v"
  using assms
  by (cases injection) (auto simp: child_env_eq build_proxy_command_def Let_def split: if_splits)

lemma token_hidden_from_command:
  "injection \<noteq> CurlPipe \<Longrightarrow> li_proxy_port l1 = li_proxy_port l2 \<Longrightarrow>
     build_proxy_command command args injection l1 = build_proxy_command command args injection l2"
  by (cases injection) (simp_all add: build_proxy_command_def)

lemma token_on_curl_command_line:
  "''X-CDP-Lease-Token: '' @ li_lease_token lease \<in> set (fst (snd (build_proxy_command command args CurlPipe lease)))"
  by (simp add: build_proxy_command_def)

lemma askpass_output:
  assumes "run_askpass dumps show_crypto vars rd put flushed = Inr out"
  shows "\<exists>fd cred. rd fd = Inr cred \<and> 0 \<le> fd \<and> cred \<noteq> [] \<and> last out = 10 \<and> (out = cred \<or> out = cred @ [10])"
  using assms
  by (auto simp: run_askpass_def not_less split: sum.splits option.splits if_splits) blast+

text \<open>The final line end and carriage returns are lost, although the comment says they are preserved.\<close>

lemma sanitize_buffer_drops_line_ends:
  "sanitize_buffer rx [] [CHR ''a'', CHR 0x0D, CHR 0x0A, CHR ''b'', CHR 0x0A] = [CHR ''a'', CHR 0x0A, CHR ''b'']"
proof -
  have "lines [CHR ''a'', CHR 0x0D, CHR 0x0A, CHR ''b'', CHR 0x0A] = [''a'', ''b'']" by code_simp
  then show ?thesis by (simp add: sanitize_buffer_def sanitize_line_def)
qed

section \<open>Properties\<close>

text \<open>The members of the result of a grant that the wrapper reads.\<close>

definition grant_json :: "request_credential_result \<Rightarrow> json \<Rightarrow> bool" where
  "grant_json g v \<longleftrightarrow>
     json_get v ''proxy_port'' = Some (JNumber (show_nat (unat (rcr_proxy_port g)))) \<and>
     json_get v ''lease_token'' = Some (JString (rcr_lease_token g)) \<and>
     json_get v ''channel_binding_nonce'' = Some (JString (rcr_channel_binding_nonce g)) \<and>
     json_get v ''ttl_seconds'' = Some (JNumber (show_nat (unat (rcr_ttl_seconds g))))"

lemma as_u64_show: "json_as_u64 (JNumber (show_nat (unat (n :: u64)))) = Some n"
proof -
  have "unat n < 2 ^ 64" using unsigned_less [of n, where ?'a = nat] by simp
  then show ?thesis by (simp add: parse_uint_show_nat)
qed

lemma as_u64_show_u16: "json_as_u64 (JNumber (show_nat (unat (n :: u16)))) = Some (ucast n)"
proof -
  have "unat (ucast n :: u64) = unat n"
    using unsigned_less [of n, where ?'a = nat] by (simp add: unsigned_ucast_eq take_bit_nat_eq_self)
  with as_u64_show [of "ucast n"] show ?thesis by simp
qed

lemma ucast_u16_u64: "(ucast (ucast (n :: u16) :: u64) :: u16) = n"
  by (rule bit_word_eqI) (simp add: bit_ucast_iff)

text \<open>
  The wrapper gets the lease the gate granted: port, token, binding and lifetime arrive
  unchanged, the port through a 64 bit number and a truncation to 16 bits.
\<close>

theorem wrapper_gets_granted_lease:
  assumes "exchanged (wr_to_vec env) (wr_from_str env) genv ser val
      (wrap_credential_request token nonce ts cref command) raw (Ret resp)"
    and "gate_handle_request genv now later self raw peer conn = (self', Ret resp)"
    and "js_error resp = None" "js_result resp = Some (Granted g)" "grant_json g (val (Granted g))"
    and "gcl_session_token client = Some token"
  shows "wrap_request_credential env (\<lambda>l. Inr (gate_wire genv ser now later self peer conn l)) nonce ts client cref command =
    Inr \<lparr>li_proxy_port = rcr_proxy_port g, li_lease_token = rcr_lease_token g,
         li_channel_binding_nonce = rcr_channel_binding_nonce g, li_ttl_seconds = rcr_ttl_seconds g\<rparr>"
  using wrap_line.send_gate [OF assms(1,2)] assms(3-6)
  by (simp add: wrap_request_credential_def read_lease_info_def json_index_def grant_json_def as_u64_show as_u64_show_u16 ucast_u16_u64
      del: json_as_u64.simps)

text \<open>
  A wrapped command cannot use the lease. The gate binds the lease to the process that asked for
  it, which is the wrapper; whatever the command sends to the proxy, from its own process, is
  refused, in this and every later state of the gate, and no use of the lease is counted.
\<close>

theorem wrapped_command_refused:
  assumes "greach ops hmac ch now self"
    and "gate_handle_request genv t now self raw peer conn = (self1, Ret resp)" "js_result resp = Some (Granted g)"
    and "gstep ops hmac ch now self self1" "(tstep ops hmac ch)\<^sup>*\<^sup>* (now, self1) (now2, self2)"
    and "build_proxy_command command args injection lease = (cmd, args', env)" "spawn cmd args' (child_env vars env) = Inr c"
    and "cd_pid c \<noteq> peer_pid peer" "resolve_tcp_peer (px_proc px) ra = Inr (cd_pid c, uid)"
    and "handle_request px now2 (rt_lease_manager self2) (rt_lease_manager self2) ra (rcr_lease_id g) key req =
      Ret (leases, sent, aud, r)"
  shows "sent = [] \<and> leases = rt_lease_manager self2"
proof -
  have ok1: "gate_ok hmac ch now self1" using gstep_ok [OF assms(4) greach_ok [OF assms(1)] order_refl] .
  obtain request params where "gt_from_slice genv raw = Inr request" "grant_ok genv t self self1 peer conn request params g"
    using gate_handle_request_Granted [OF assms(2,3)] by metis
  then obtain l1 where l1: "lm_leases (rt_lease_manager self1) (rcr_lease_id g) = Some l1" "l_agent_pid l1 = peer_pid peer"
    unfolding grant_ok_def by blast
  from tsteps_same_grant [OF assms(5) ok1 l1(1)] obtain l where
    l: "lm_leases (rt_lease_manager self2) (rcr_lease_id g) = Some l" "l_agent_pid l = peer_pid peer"
    using l1(2) by (auto simp: same_grant_def)
  have "\<not> authenticated px (rt_lease_manager self2) ra (rcr_lease_id g) key req"
    using assms(8,9) l by (auto simp: authenticated_def authenticate_Inr)
  with handle_request_Ret [OF assms(10)] show ?thesis
    by (auto elim: handle_request_inner_cases)
qed

section \<open>Witnesses\<close>

definition sample_wrap_request :: sdk_request where
  "sample_wrap_request = wrap_credential_request (''cdp_sess_'' @ run_token) ''n2'' ''t'' ''c'' ''curl''"

definition sample_grant_json :: json where
  "sample_grant_json =
     JObject [(''proxy_port'', JNumber (show_nat (unat (rcr_proxy_port run_grant)))),
       (''lease_token'', JString (rcr_lease_token run_grant)),
       (''channel_binding_nonce'', JString (rcr_channel_binding_nonce run_grant)),
       (''ttl_seconds'', JNumber (show_nat (unat (rcr_ttl_seconds run_grant))))]"

definition sample_wrap :: wrap_env where
  "sample_wrap =
     \<lparr>wr_vars = Map.empty, wr_read = (\<lambda>_. Inl []), wr_fingerprint = (\<lambda>_. Inl []), wr_connect = (\<lambda>_. None),
      wr_set_read_timeout = None, wr_set_write_timeout = None, wr_try_clone = None, wr_to_vec = (\<lambda>_. Inr ''q''),
      wr_from_str = (\<lambda>_. Inr \<lparr>sp_result = Some sample_grant_json, sp_error = None, sp_id = js_id (sample_answer sample_wrap_request)\<rparr>),
      wr_pkg_version = ''1''\<rparr>"

theorem wrapper_gets_granted_lease_witness:
  "\<exists>li. wrap_request_credential sample_wrap
      (\<lambda>l. Inr (gate_wire (asked_env sample_wrap_request) (\<lambda>_. ''r'') 0 0 gate1 run_peer [9] l)) ''n2'' ''t''
      \<lparr>gcl_session_token = Some (''cdp_sess_'' @ run_token)\<rparr> ''c'' ''curl'' = Inr li \<and> li_proxy_port li = 19000"
proof -
  let ?raw = "as_bytes (trim_end (''q'' @ [CHR 0x0A]))"
  have ex: "exchanged (wr_to_vec sample_wrap) (wr_from_str sample_wrap) (asked_env sample_wrap_request) (\<lambda>_. ''r'')
      (\<lambda>_. sample_grant_json) sample_wrap_request ?raw (Ret (sample_answer sample_wrap_request))"
    by (simp add: exchanged_def sample_wrap_def asked_env_def sample_answer_def rpc_success_def)
  have answer: "gate_handle_request (asked_env sample_wrap_request) 0 0 gate1 ?raw run_peer [9] =
      (gate2, Ret (sample_answer sample_wrap_request))"
    by (rule asked_answer) (simp_all add: sample_wrap_request_def wrap_credential_request_def)
  have "js_error (sample_answer sample_wrap_request) = None" "js_result (sample_answer sample_wrap_request) = Some (Granted run_grant)"
    "grant_json run_grant sample_grant_json"
    by (simp_all add: sample_answer_def rpc_success_def grant_json_def sample_grant_json_def)
  from wrapper_gets_granted_lease [OF ex [unfolded sample_wrap_request_def] answer [unfolded sample_wrap_request_def]
      this [unfolded sample_wrap_request_def], of "\<lparr>gcl_session_token = Some (''cdp_sess_'' @ run_token)\<rparr>"]
  show ?thesis by (simp add: sample_wrap_request_def run_grant_def)
qed

text \<open>The command runs as process 1000, the wrapper as process 7.\<close>

definition child_proc :: proc_fs where
  "child_proc = sample_proc\<lparr>pf_read_proc := Inr [''1000''],
     pf_read_to_string := (\<lambda>p. if p = ''/proc/1000/status'' then Inr ''Uid: 1 1000'' else pf_read_to_string sample_proc p)\<rparr>"

lemma child_resolve: "resolve_tcp_peer child_proc sample_peer = Inr (1000, 1000)"
proof -
  have "find_socket_inode child_proc sample_peer = find_socket_inode sample_proc sample_peer"
    by (simp add: find_socket_inode_def child_proc_def Let_def sample_peer_def)
  moreover from sample_resolve obtain inode where "find_socket_inode sample_proc sample_peer = Inr inode"
    "find_pid_for_inode sample_proc inode = Inr 7"
    by (auto simp: resolve_tcp_peer_def split: sum.splits)
  moreover from this(2) have "show_nat (unat inode) = ''5''"
    by (auto simp: find_pid_for_inode_def sample_proc_def sample_parse split: if_splits)
  then have "find_pid_for_inode child_proc inode = Inr 1000"
    by (simp add: find_pid_for_inode_def child_proc_def sample_proc_def sample_parse)
  moreover have "read_uid_for_pid child_proc 1000 = Inr 1000"
    by (simp add: read_uid_for_pid_def child_proc_def sample_numbers sample_lines sample_parse)
  ultimately show ?thesis by (simp add: resolve_tcp_peer_def)
qed

definition sample_lease_info :: lease_info where
  "sample_lease_info = \<lparr>li_proxy_port = 19000, li_lease_token = rcr_lease_token run_grant,
     li_channel_binding_nonce = rcr_channel_binding_nonce run_grant, li_ttl_seconds = 100\<rparr>"

definition sample_child :: child where
  "sample_child = \<lparr>cd_pid = 1000, cd_stdout = [], cd_stderr = [], cd_wait = Inr (Some 0)\<rparr>"

theorem wrapped_command_refused_witness:
  "\<exists>leases aud r. handle_request (sample_proxy\<lparr>px_proc := child_proc\<rparr>) 0 run_mgr run_mgr sample_peer ''01'' [7] sample_request =
     Ret (leases, [], aud, r) \<and> leases = run_mgr"
proof -
  let ?px = "sample_proxy\<lparr>px_proc := child_proc\<rparr>"
  have id: "rcr_lease_id run_grant = ''01''" by (simp add: run_grant_def)
  have "to_str_ok (px_to_str ?px)" by (simp add: sample_proxy_simps ascii_to_str_ok)
  from handle_request_inner_no_panic [OF this, of 0 run_mgr run_mgr sample_peer "''01''" "[7]" sample_request] obtain a where
    "handle_request_inner ?px 0 run_mgr run_mgr sample_peer ''01'' [7] sample_request = Ret a"
    by (meson outcome.exhaust)
  then obtain leases sent aud r where run: "handle_request ?px 0 (rt_lease_manager gate2) (rt_lease_manager gate2) sample_peer
      (rcr_lease_id run_grant) [7] sample_request = Ret (leases, sent, aud, r)"
    unfolding gate2_parts(5) id by (cases a; cases "snd (snd (snd a))") (auto simp: handle_request_def)
  obtain cmd args env where built: "build_proxy_command ''curl'' [] CurlPipe sample_lease_info = (cmd, args, env)"
    by (cases "build_proxy_command ''curl'' [] CurlPipe sample_lease_info") auto
  have "js_result (rpc_success JNull (Granted run_grant)) = Some (Granted run_grant)" by (simp add: rpc_success_def)
  from wrapped_command_refused [OF gate1_reach run_grants this gate2_step rtranclp.rtrancl_refl built,
      where spawn = "\<lambda>_ _ _. Inr sample_child"
      and c = sample_child and uid = 1000, OF _ _ _ run]
  have "sent = [] \<and> leases = rt_lease_manager gate2"
    by (simp add: sample_child_def run_peer_def child_resolve)
  with run show ?thesis unfolding gate2_parts(5) id by blast
qed

end
