(* ===== verification/Cdp_Sandbox.thy ===== *)
theory Cdp_Sandbox
  imports Cdp_Vault Cdp_Wrap
begin

text \<open>
  Confinement of processes (\<open>crates/cdp-vault/src/sandbox.rs\<close>, \<open>crates/cdp-cli-wrap/src/namespace.rs\<close>,
  \<open>crates/cdp-crypto/src/zeroize_utils.rs\<close>): what their functions do to the attributes of a process, and what is left of it when the process
  executes a program. The kernel's answers and the compiler of system call filters are arguments. The
  lemmas say which system calls remain, which descriptors stay open, and which attributes last.
\<close>

section \<open>Attributes of a process\<close>

datatype verdict = Allow_Call | Errno_Call nat

text \<open>
  A process may have a core file written when it is dumpable and its limit is not zero; its filters all
  judge each system call, and only a call that all of them allow is made.
\<close>

record process_attrs =
  pa_dumpable :: bool
  pa_core_limit :: "nat option"
  pa_children_in_new_namespace :: bool
  pa_filters :: "(string \<Rightarrow> verdict) list"
  pa_open :: "int set"
  pa_close_on_exec :: "int set"

definition call_permitted :: "process_attrs \<Rightarrow> string \<Rightarrow> bool" where
  "call_permitted p call \<longleftrightarrow> list_all (\<lambda>f. f call = Allow_Call) (pa_filters p)"

text \<open>
  Executing a program: limits and filters stay, the process becomes dumpable again, and the marked
  descriptors are closed.
\<close>

definition exec_program :: "process_attrs \<Rightarrow> process_attrs" where
  "exec_program p = p\<lparr>pa_dumpable := True, pa_open := pa_open p - pa_close_on_exec p, pa_close_on_exec := {}\<rparr>"

section \<open>The vault worker\<close>

definition ALLOWED_SYSCALLS :: "string list" where
  "ALLOWED_SYSCALLS =
     [''read'', ''write'', ''close'', ''openat'', ''fstat'', ''newfstatat'', ''lseek'', ''mmap'',
      ''mprotect'', ''munmap'', ''brk'', ''mremap'', ''execve'', ''exit_group'', ''exit'', ''wait4'',
      ''clone3'', ''clone'', ''getpid'', ''getppid'', ''arch_prctl'', ''set_tid_address'',
      ''set_robust_list'', ''fork'', ''vfork'', ''socket'', ''connect'', ''sendto'', ''recvfrom'',
      ''setsockopt'', ''getsockopt'', ''bind'', ''getpeername'', ''getsockname'', ''sendmsg'',
      ''recvmsg'', ''access'', ''getcwd'', ''readlink'', ''readlinkat'', ''ioctl'', ''fcntl'', ''dup'',
      ''dup2'', ''dup3'', ''pipe2'', ''stat'', ''lstat'', ''getdents64'', ''unlink'', ''rename'',
      ''mkdir'', ''fchmod'', ''fchown'', ''utimensat'', ''fallocate'', ''ftruncate'', ''pread64'',
      ''pwrite64'', ''writev'', ''readv'', ''rt_sigaction'', ''rt_sigprocmask'', ''rt_sigreturn'',
      ''sigaltstack'', ''futex'', ''clock_gettime'', ''clock_getres'', ''gettimeofday'', ''getrandom'',
      ''prlimit64'', ''prctl'', ''poll'', ''ppoll'', ''select'', ''pselect6'', ''epoll_create1'',
      ''epoll_ctl'', ''epoll_wait'', ''epoll_pwait'', ''eventfd2'', ''nanosleep'', ''sched_yield'',
      ''sched_getaffinity'', ''getuid'', ''geteuid'', ''getgid'', ''getegid'', ''gettid'', ''uname'',
      ''madvise'', ''statx'', ''rseq'', ''membarrier'']"

definition EPERM :: nat where
  "EPERM = 1"

text \<open>The rules of a filter: the calls it matches on any arguments, and the verdicts on the others and on these.\<close>

record seccomp_filter =
  scf_rules :: "string set"
  scf_mismatch_action :: verdict
  scf_match_action :: verdict

record ('arch, 'bpf) kernel =
  k_set_dumpable :: "string option"
  k_setrlimit :: "string option"
  k_unshare :: "string option"
  k_target_arch :: "string + 'arch"
  k_filter_new :: "seccomp_filter \<Rightarrow> 'arch \<Rightarrow> string option"
  k_compile :: "seccomp_filter \<Rightarrow> 'arch \<Rightarrow> string + 'bpf"
  k_apply_filter :: "'bpf \<Rightarrow> string option"
  k_run_filter :: "'bpf \<Rightarrow> string \<Rightarrow> verdict"

definition worker_filter :: seccomp_filter where
  "worker_filter =
     \<lparr>scf_rules = set ALLOWED_SYSCALLS, scf_mismatch_action = Errno_Call EPERM, scf_match_action = Allow_Call\<rparr>"

definition build_seccomp_filter :: "('arch, 'bpf) kernel \<Rightarrow> vault_error + 'bpf" where
  "build_seccomp_filter k =
     (case k_target_arch k of
        Inl e \<Rightarrow> Inl (Vault_Sandbox (''unsupported architecture: '' @ e))
      | Inr arch \<Rightarrow>
     (case k_filter_new k worker_filter arch of
        Some e \<Rightarrow> Inl (Vault_Sandbox (''SeccompFilter::new: '' @ e))
      | None \<Rightarrow>
     (case k_compile k worker_filter arch of
        Inl e \<Rightarrow> Inl (Vault_Sandbox (''SeccompFilter compile: '' @ e))
      | Inr bpf \<Rightarrow> Inr bpf)))"

definition apply_sandbox ::
  "('arch, 'bpf) kernel \<Rightarrow> bool \<Rightarrow> process_attrs \<Rightarrow> process_attrs \<times> (vault_error + unit)" where
  "apply_sandbox k sandbox_enabled p =
     (case k_set_dumpable k of
        Some e \<Rightarrow> (p, Inl (Vault_Sandbox (''prctl PR_SET_DUMPABLE: '' @ e)))
      | None \<Rightarrow>
     (let p = p\<lparr>pa_dumpable := False\<rparr> in
      case k_setrlimit k of
        Some e \<Rightarrow> (p, Inl (Vault_Sandbox (''setrlimit RLIMIT_CORE: '' @ e)))
      | None \<Rightarrow>
     (let p = p\<lparr>pa_core_limit := Some 0\<rparr> in
      if \<not> sandbox_enabled then (p, Inr ())
      else
     (let p = (if k_unshare k = None then p\<lparr>pa_children_in_new_namespace := True\<rparr> else p) in
      case build_seccomp_filter k of
        Inl e \<Rightarrow> (p, Inl e)
      | Inr bpf \<Rightarrow>
     (case k_apply_filter k bpf of
        Some e \<Rightarrow> (p, Inl (Vault_Sandbox (''seccomp apply_filter: '' @ e)))
      | None \<Rightarrow> (p\<lparr>pa_filters := k_run_filter k bpf # pa_filters p\<rparr>, Inr ()))))))"

definition protected_fds :: "int \<Rightarrow> int list" where
  "protected_fds keep_fd = [0, 1, 2, keep_fd]"

text \<open>\<open>listing\<close> has the readable names in \<open>/proc/self/fd\<close>, or \<open>None\<close>; closing a descriptor that is not open does nothing.\<close>

definition close_extra_fds :: "string list option \<Rightarrow> int \<Rightarrow> process_attrs \<Rightarrow> process_attrs" where
  "close_extra_fds listing keep_fd p =
     (let fds = (case listing of
          Some names \<Rightarrow> filter (\<lambda>fd. fd \<notin> set (protected_fds keep_fd)) (List.map_filter parse_i32 names)
        | None \<Rightarrow> filter (\<lambda>fd. fd \<notin> set (protected_fds keep_fd)) [3..1023]) in
      p\<lparr>pa_open := fold (\<lambda>fd open_fds. open_fds - {fd}) fds (pa_open p)\<rparr>)"

text \<open>
  The start of the worker: confine, then close, then duplicate the socket and serve the vault, reading from
  the duplicate and writing to the socket itself. \<open>cloned\<close> is the descriptor that duplication gives, which is
  marked to be closed when a program is executed, or \<open>None\<close> when it fails; then the worker panics, which
  closes the socket and ends the process with code 101.
\<close>

definition worker_start ::
  "('arch, 'bpf) kernel \<Rightarrow> bool \<Rightarrow> string list option \<Rightarrow> int option \<Rightarrow> int \<Rightarrow> vault_env list \<Rightarrow> string \<Rightarrow> bytes
   \<Rightarrow> process_attrs \<Rightarrow> process_attrs \<times> bytes \<times> (nat + bitwarden_backend \<times> bytes)" where
  "worker_start k sandbox_enabled listing cloned socket_fd envs bw_cli_path input p =
     (case apply_sandbox k sandbox_enabled p of
        (p, Inl e) \<Rightarrow> (p, vault_worker_main (Inl e) envs bw_cli_path input)
      | (p, Inr _) \<Rightarrow>
     (let p = close_extra_fds listing socket_fd p in
      case cloned of
        None \<Rightarrow> (p\<lparr>pa_open := pa_open p - {socket_fd}\<rparr>, [], Inl 101)
      | Some fd \<Rightarrow>
          (p\<lparr>pa_open := insert fd (pa_open p), pa_close_on_exec := insert fd (pa_close_on_exec p)\<rparr>,
           vault_worker_main (Inr ()) envs bw_cli_path input)))"

section \<open>Core files\<close>

text \<open>What every process of the program does first (\<open>crates/cdp-crypto/src/zeroize_utils.rs\<close>).\<close>

definition disable_core_dumps :: "('arch, 'bpf) kernel \<Rightarrow> process_attrs \<Rightarrow> process_attrs \<times> (crypto_error + unit)" where
  "disable_core_dumps k p =
     (case k_set_dumpable k of
        Some e \<Rightarrow> (p, Inl (SystemCall (''prctl set_dumpable: '' @ e)))
      | None \<Rightarrow>
     (let p = p\<lparr>pa_dumpable := False\<rparr> in
      case k_setrlimit k of
        Some e \<Rightarrow> (p, Inl (SystemCall (''setrlimit CORE: '' @ e)))
      | None \<Rightarrow> (p\<lparr>pa_core_limit := Some 0\<rparr>, Inr ())))"

section \<open>The wrapper's isolated child\<close>

text \<open>
  The changes between \<open>fork\<close> and \<open>exec\<close>; each may fail without consequence. \<open>flags\<close> says whether the
  flags of the descriptor can be read.
\<close>

record isolation =
  is_unshare :: bool
  is_prctl :: bool
  is_setrlimit :: bool
  is_getfd :: "int \<Rightarrow> bool"

definition pre_exec :: "isolation \<Rightarrow> int option \<Rightarrow> process_attrs \<Rightarrow> process_attrs" where
  "pre_exec isolate pipe_fd p =
     (let p = (if is_unshare isolate then p\<lparr>pa_children_in_new_namespace := True\<rparr> else p);
          p = (if is_prctl isolate then p\<lparr>pa_dumpable := False\<rparr> else p);
          p = (if is_setrlimit isolate then p\<lparr>pa_core_limit := Some 0\<rparr> else p) in
      case pipe_fd of
        Some fd \<Rightarrow> if is_getfd isolate fd then p\<lparr>pa_close_on_exec := pa_close_on_exec p - {fd}\<rparr> else p
      | None \<Rightarrow> p)"

definition isolated_env :: "env_vars \<Rightarrow> env_vars \<Rightarrow> env_vars" where
  "isolated_env vars env =
     (\<lambda>name. if name \<in> set [''PATH'', ''HOME'', ''USER'', ''LOGNAME'', ''TERM'', ''LANG'', ''LC_ALL''] \<and> vars name \<noteq> None
             then vars name else env name)"

text \<open>\<open>spawn\<close> starts a program with arguments and environment and gives its process id.\<close>

definition spawn_isolated ::
  "isolation \<Rightarrow> (string \<Rightarrow> string list \<Rightarrow> env_vars \<Rightarrow> string + nat) \<Rightarrow> env_vars \<Rightarrow> string \<Rightarrow> string list \<Rightarrow> env_vars \<Rightarrow> int option
   \<Rightarrow> process_attrs \<Rightarrow> wrap_error + nat \<times> process_attrs" where
  "spawn_isolated isolate spawn vars command args env pipe_fd p =
     (case spawn command args (isolated_env vars env) of
        Inl e \<Rightarrow> Inl (Child (''spawn '' @ command @ '': '' @ e))
      | Inr pid \<Rightarrow> Inr (pid, exec_program (pre_exec isolate pipe_fd p)))"

text \<open>\<open>show\<close> is the text of the error for the position of the zero byte.\<close>

definition to_cstring :: "(nat \<Rightarrow> string) \<Rightarrow> string \<Rightarrow> wrap_error + string" where
  "to_cstring show s =
     (if CHR 0x00 \<in> set s then Inl (Namespace (''invalid command string: '' @ show (length (takeWhile (\<lambda>c. c \<noteq> CHR 0x00) s))))
      else Inr s)"

section \<open>Lemmas\<close>

text \<open>What is documented of the filter compiler: a compiled filter gives the verdicts of its rules.\<close>

definition compiler_ok :: "('arch, 'bpf) kernel \<Rightarrow> bool" where
  "compiler_ok k \<longleftrightarrow> (\<forall>f arch bpf call. k_compile k f arch = Inr bpf \<longrightarrow>
     k_run_filter k bpf call = (if call \<in> scf_rules f then scf_match_action f else scf_mismatch_action f))"

lemma build_seccomp_filter_Inr:
  assumes "compiler_ok k" "build_seccomp_filter k = Inr bpf"
  shows "k_run_filter k bpf call = Allow_Call \<longleftrightarrow> call \<in> set ALLOWED_SYSCALLS"
proof -
  from assms(2) obtain arch where "k_compile k worker_filter arch = Inr bpf"
    by (auto simp: build_seccomp_filter_def split: sum.splits option.splits)
  with assms(1) have "k_run_filter k bpf call =
      (if call \<in> scf_rules worker_filter then scf_match_action worker_filter else scf_mismatch_action worker_filter)"
    unfolding compiler_ok_def by blast
  then show ?thesis by (simp add: worker_filter_def)
qed

lemma apply_sandbox_Inr:
  assumes "apply_sandbox k True p = (q, Inr ())"
  obtains bpf where "build_seccomp_filter k = Inr bpf" "pa_filters q = k_run_filter k bpf # pa_filters p"
    "\<not> pa_dumpable q" "pa_core_limit q = Some 0" "pa_open q = pa_open p"
proof -
  from assms have "\<exists>bpf. build_seccomp_filter k = Inr bpf \<and> pa_filters q = k_run_filter k bpf # pa_filters p \<and>
    \<not> pa_dumpable q \<and> pa_core_limit q = Some 0 \<and> pa_open q = pa_open p"
    by (auto simp: apply_sandbox_def Let_def split: option.splits sum.splits if_splits)
  then show thesis using that by blast
qed

lemma worker_confined:
  assumes "compiler_ok k" "apply_sandbox k True p = (q, Inr ())"
  shows "call_permitted q call \<longleftrightarrow> call \<in> set ALLOWED_SYSCALLS \<and> call_permitted p call"
proof -
  from assms(2) obtain bpf where "build_seccomp_filter k = Inr bpf" "pa_filters q = k_run_filter k bpf # pa_filters p"
    by (rule apply_sandbox_Inr)
  with build_seccomp_filter_Inr [OF assms(1), of bpf call] show ?thesis by (simp add: call_permitted_def)
qed

text \<open>Without the sandbox the worker does what every process does.\<close>

lemma sandbox_disabled_only_core:
  "fst (apply_sandbox k False p) = fst (disable_core_dumps k p)"
  "isl (snd (apply_sandbox k False p)) \<longleftrightarrow> isl (snd (disable_core_dumps k p))"
  by (simp_all add: apply_sandbox_def disable_core_dumps_def Let_def split: option.splits)

lemma no_tracing_allowed:
  "set [''ptrace'', ''process_vm_readv'', ''process_vm_writev'', ''kill'', ''mount'', ''bpf'', ''keyctl''] \<inter> set ALLOWED_SYSCALLS = {}"
  by (simp add: ALLOWED_SYSCALLS_def)

lemma fold_remove: "fold (\<lambda>fd open_fds. open_fds - {fd}) fds S = S - set fds"
  by (induction fds arbitrary: S) auto

lemma close_extra_fds_listed:
  assumes "\<forall>fd \<in> pa_open p. \<exists>name \<in> set names. parse_i32 name = Some fd"
  shows "pa_open (close_extra_fds (Some names) keep_fd p) = pa_open p \<inter> {0, 1, 2, keep_fd}"
proof -
  have "fd \<in> set (List.map_filter parse_i32 names)" if "fd \<in> pa_open p" for fd
    using assms that by (force simp: List.map_filter_def)
  then show ?thesis by (auto simp: close_extra_fds_def fold_remove protected_fds_def)
qed

lemma parse_i32_show_nat:
  assumes "n < 2 ^ 31"
  shows "parse_i32 (show_nat n) = Some (int n)"
proof -
  obtain c cs where s: "show_nat n = c # cs" by (cases "show_nat n") auto
  moreover have "c \<noteq> CHR ''-''" using s show_nat_plain [of c n] by auto
  moreover have "parse_uint (2 ^ 31 - 1) (show_nat n) = Some n" using assms by (simp add: parse_uint_show_nat)
  ultimately show ?thesis by (simp add: parse_i32_def)
qed

text \<open>Without the listing only descriptors below 1024 are closed.\<close>

lemma close_extra_fds_unlisted:
  "pa_open (close_extra_fds None keep_fd p) = {fd \<in> pa_open p. fd \<in> {0, 1, 2, keep_fd} \<or> fd < 3 \<or> 1024 \<le> fd}"
  by (auto simp: close_extra_fds_def fold_remove protected_fds_def simp del: upto_rec_numeral)

text \<open>Execution of a program undoes the protection against core files and tracing, but not limit and filter.\<close>

lemma exec_keeps:
  "call_permitted (exec_program p) = call_permitted p" "pa_core_limit (exec_program p) = pa_core_limit p"
  "pa_dumpable (exec_program p)"
  by (simp_all add: exec_program_def call_permitted_def fun_eq_iff)

lemma isolated_child_dumpable:
  assumes "spawn_isolated isolate spawn vars command args env pipe_fd p = Inr (pid, q)"
  shows "pa_dumpable q"
  using assms by (auto simp: spawn_isolated_def exec_keeps split: sum.splits)

lemma isolated_child_has_pipe:
  assumes "spawn_isolated isolate spawn vars command args env (Some fd) p = Inr (pid, q)" "fd \<in> pa_open p" "is_getfd isolate fd"
  shows "fd \<in> pa_open q"
  using assms by (auto simp: spawn_isolated_def exec_program_def pre_exec_def Let_def split: sum.splits)

section \<open>Properties\<close>

text \<open>
  A sandboxed worker that reaches its loop can make only the listed system calls, tracing not
  among them, has no core file written and keeps only the standard descriptors, its socket and the
  duplicate of it, provided the listing of its descriptors is complete; the programs it executes
  stay confined and do not get the duplicate. A worker whose sandbox or duplication fails ends before it
  reads anything.
\<close>

theorem worker_start_confined:
  assumes "compiler_ok k" "\<forall>fd \<in> pa_open p. \<exists>name \<in> set names. parse_i32 name = Some fd"
    and "worker_start k True (Some names) cloned socket_fd envs bw_cli_path input p = (q, sent, result)"
  shows "(sent, result) = ([], Inl 1) \<or> (sent, result) = ([], Inl 101) \<or>
    (\<exists>c. cloned = Some c \<and> (sent, result) = worker_loop envs (bitwarden_new bw_cli_path) input \<and>
       pa_open q = insert c (pa_open p \<inter> {0, 1, 2, socket_fd}) \<and> c \<in> pa_close_on_exec q \<and>
       \<not> pa_dumpable q \<and> pa_core_limit q = Some 0 \<and>
       (\<forall>call. call_permitted q call \<longrightarrow> call \<in> set ALLOWED_SYSCALLS) \<and>
       (\<forall>call. call_permitted (exec_program q) call \<longrightarrow> call \<in> set ALLOWED_SYSCALLS))"
proof -
  obtain p1 r where run: "apply_sandbox k True p = (p1, r)" by (cases "apply_sandbox k True p")
  consider e where "r = Inl e" | "r = Inr ()" "cloned = None" | c where "r = Inr ()" "cloned = Some c"
    by (cases r; cases cloned) auto
  then show ?thesis
  proof cases
    case (3 c)
    then have ok: "apply_sandbox k True p = (p1, Inr ())" using run by simp
    then obtain "\<not> pa_dumpable p1" "pa_core_limit p1 = Some 0" and fds: "pa_open p1 = pa_open p" by (rule apply_sandbox_Inr)
    moreover let ?p2 = "close_extra_fds (Some names) socket_fd p1"
    from assms(3) run 3 have q: "q = ?p2\<lparr>pa_open := insert c (pa_open ?p2), pa_close_on_exec := insert c (pa_close_on_exec ?p2)\<rparr>"
      "(sent, result) = worker_loop envs (bitwarden_new bw_cli_path) input"
      by (simp_all add: worker_start_def vault_worker_main_def Let_def)
    moreover have "pa_open q = insert c (pa_open p \<inter> {0, 1, 2, socket_fd})"
      using close_extra_fds_listed [of p1 names] assms(2) by (simp add: q fds)
    moreover have "call_permitted q = call_permitted p1" by (simp add: q call_permitted_def close_extra_fds_def fun_eq_iff)
    ultimately show ?thesis
      using worker_confined [OF assms(1) ok] 3 by (simp add: exec_keeps close_extra_fds_def)
  qed (use assms(3) run in \<open>auto simp: worker_start_def vault_worker_main_def Let_def\<close>)
qed

text \<open>A kernel that allows everything the worker asks of it, with filters that are their own programs.\<close>

definition example_kernel :: "(unit, seccomp_filter) kernel" where
  "example_kernel =
     \<lparr>k_set_dumpable = None, k_setrlimit = None, k_unshare = Some ''EPERM'', k_target_arch = Inr (),
      k_filter_new = (\<lambda>_ _. None), k_compile = (\<lambda>f _. Inr f), k_apply_filter = (\<lambda>_. None),
      k_run_filter = (\<lambda>f call. if call \<in> scf_rules f then scf_match_action f else scf_mismatch_action f)\<rparr>"

definition example_worker :: process_attrs where
  "example_worker = \<lparr>pa_dumpable = True, pa_core_limit = None, pa_children_in_new_namespace = False, pa_filters = [],
     pa_open = {0, 1, 2, 5, 17}, pa_close_on_exec = {}\<rparr>"

theorem worker_start_confined_witness:
  "\<exists>q. worker_start example_kernel True (Some [''0'', ''1'', ''2'', ''5'', ''17'']) (Some 3) 5 [] ''bw'' [] example_worker =
       (q, [], Inr (bitwarden_new ''bw'', [])) \<and> pa_open q = {0, 1, 2, 3, 5} \<and> \<not> pa_dumpable q"
proof -
  let ?names = "[''0'', ''1'', ''2'', ''5'', ''17'']"
  obtain q sent result where
    q: "worker_start example_kernel True (Some ?names) (Some 3) 5 [] ''bw'' [] example_worker = (q, sent, result)"
    by (cases "worker_start example_kernel True (Some ?names) (Some 3) 5 [] ''bw'' [] example_worker") auto
  have k: "compiler_ok example_kernel" by (simp add: compiler_ok_def example_kernel_def)
  have listed: "\<forall>fd \<in> pa_open example_worker. \<exists>name \<in> set ?names. parse_i32 name = Some fd"
    by (simp add: example_worker_def parse_i32_def parse_uint_def dec_digit_def)
  have "(sent, result) \<noteq> ([], Inl 1)" "(sent, result) \<noteq> ([], Inl 101)"
    using q by (auto simp: worker_start_def apply_sandbox_def example_kernel_def build_seccomp_filter_def Let_def
        vault_worker_main_def)
  with worker_start_confined [OF k listed q] q show ?thesis
    by (auto simp: example_worker_def)
qed

end
