(* ===== verification/Cdp_Gate_Entry.thy ===== *)
theory Cdp_Gate_Entry
  imports Cdp_Gate_Main Cdp_Sandbox
begin

text \<open>
  The entry of the program (\<open>main\<close> of \<open>crates/cdp-gate/src/main.rs\<close>): one binary that is the gate or, when the
  gate starts it again with the arguments of \<open>SubprocessManager::spawn\<close> (\<open>crates/cdp-vault/src/subprocess.rs\<close>), the
  vault worker; and the life of the gate from its start to the signal that ends it.
\<close>

section \<open>Starting the worker\<close>

text \<open>The answers of the system: the socket pair, the descriptor flags, the start, and the setup of the stream.\<close>

record spawn_calls =
  sk_socketpair :: "string + int \<times> int"
  sk_getfd_ok :: bool
  sk_start :: "string list \<Rightarrow> string option"
  sk_set_nonblocking :: "string option"
  sk_from_std :: "string option"

definition worker_args :: "int \<Rightarrow> string \<Rightarrow> bool \<Rightarrow> string list" where
  "worker_args child_fd bw_cli_path sandbox_enabled =
     [''--vault-worker'', show_int child_fd, bw_cli_path, if sandbox_enabled then ''1'' else ''0'']"

definition close_fd :: "int \<Rightarrow> process_attrs \<Rightarrow> process_attrs" where
  "close_fd fd p = p\<lparr>pa_open := pa_open p - {fd}, pa_close_on_exec := pa_close_on_exec p - {fd}\<rparr>"

text \<open>
  What \<open>spawn\<close> does before the handshake: the gate afterwards, the worker with its arguments if it was started,
  and the result. Both descriptors have left the values that own them before the start; the stream that
  is made of the first closes it when it is dropped.
\<close>

definition worker_setup ::
  "spawn_calls \<Rightarrow> string \<Rightarrow> bool \<Rightarrow> process_attrs
   \<Rightarrow> process_attrs \<times> (string list \<times> process_attrs) option \<times> (string + unit)" where
  "worker_setup sk bw_cli_path sandbox_enabled p =
     (case sk_socketpair sk of
        Inl e \<Rightarrow> (p, None, Inl (''socketpair: '' @ e))
      | Inr (parent_fd, child_fd) \<Rightarrow>
     (let p = p\<lparr>pa_open := pa_open p \<union> {parent_fd, child_fd},
                pa_close_on_exec := pa_close_on_exec p \<union> {parent_fd, child_fd}\<rparr>;
          p = (if sk_getfd_ok sk then p\<lparr>pa_close_on_exec := pa_close_on_exec p - {child_fd}\<rparr> else p);
          args = worker_args child_fd bw_cli_path sandbox_enabled in
      case sk_start sk args of
        Some e \<Rightarrow> (p, None, Inl (''spawn vault worker: '' @ e))
      | None \<Rightarrow>
     (let child = Some (args, exec_program p); p = close_fd child_fd p in
      case sk_set_nonblocking sk of
        Some e \<Rightarrow> (close_fd parent_fd p, child, Inl (''set_nonblocking: '' @ e))
      | None \<Rightarrow>
     (case sk_from_std sk of
        Some e \<Rightarrow> (close_fd parent_fd p, child, Inl (''UnixStream::from_std: '' @ e))
      | None \<Rightarrow> (p, child, Inr ())))))"

text \<open>The manager is made over the outcome.\<close>

definition spawn_manager ::
  "spawn_calls \<Rightarrow> vault_env \<Rightarrow> peer \<Rightarrow> bytes \<Rightarrow> string \<Rightarrow> bool \<Rightarrow> process_attrs
   \<Rightarrow> process_attrs \<times> (string list \<times> process_attrs) option \<times> (vault_error + subprocess_manager)" where
  "spawn_manager sk env peer ipc_key bw_cli_path sandbox_enabled p =
     (case worker_setup sk bw_cli_path sandbox_enabled p of
        (p, child, setup) \<Rightarrow> (p, child, sm_spawn env peer setup ipc_key))"

section \<open>The two modes\<close>

datatype main_mode = Worker_Mode int string bool | Gate_Mode

definition select_mode :: "string list \<Rightarrow> main_mode outcome" where
  "select_mode args =
     (if 4 \<le> length args \<and> args ! 1 = ''--vault-worker''
      then (case parse_i32 (args ! 2) of
              None \<Rightarrow> Panic
            | Some socket_fd \<Rightarrow>
                Ret (Worker_Mode socket_fd (args ! 3) (length args \<le> 4 \<or> args ! 4 = ''1'')))
      else Ret Gate_Mode)"

section \<open>The life of the gate\<close>

datatype gate_event = Incoming "string + (string + int \<times> u32 \<times> u32)" | Sigterm | Sigint

text \<open>The loop that accepts: the peers whose connections get a task, and whether a signal has ended it.\<close>

fun gate_accept_loop :: "gate_event list \<Rightarrow> peer_info list \<times> bool" where
  "gate_accept_loop [] = ([], False)"
| "gate_accept_loop (Sigterm # events) = ([], True)"
| "gate_accept_loop (Sigint # events) = ([], True)"
| "gate_accept_loop (Incoming accepted # events) =
     (case listener_accept accepted of
        Inl _ \<Rightarrow> gate_accept_loop events
      | Inr peer \<Rightarrow> apfst (Cons peer) (gate_accept_loop events))"

definition bound_path :: "'c start_env \<Rightarrow> string" where
  "bound_path env =
     (case load_config (st_vars env) (st_exists env) (st_read env) (st_toml env) of
        Inl _ \<Rightarrow> [] | Inr config \<Rightarrow> gs_socket_path (gc_gate config))"

text \<open>
  From start to end: \<open>sigterm\<close> and \<open>sigint\<close> are the failures to install the handlers, \<open>served\<close> what the tasks of
  the connections have made of the router when the signal comes. A process that is still running has no
  result yet. An early return drops the listener, which removes the socket.
\<close>

definition gate_process ::
  "'c start_env \<Rightarrow> string option \<Rightarrow> string option \<Rightarrow> gate_event list \<Rightarrow> ('c router \<Rightarrow> 'c router) \<Rightarrow> disk
   \<Rightarrow> disk \<times> peer_info list \<times> 'c router option \<times> (start_error + unit) option" where
  "gate_process env sigterm sigint events served dk =
     (case gate_main env dk of
        (dk, Inl e) \<Rightarrow> (dk, [], None, Some (Inl e))
      | (dk, Inr (identity, prov, router)) \<Rightarrow>
     (case (case sigterm of None \<Rightarrow> sigint | Some e \<Rightarrow> Some e) of
        Some e \<Rightarrow> (listener_drop (st_ops env) dk (bound_path env), [], Some router, Some (Inl (Start_Io e)))
      | None \<Rightarrow>
     (case gate_accept_loop events of
        (peers, False) \<Rightarrow> (dk, peers, Some (served router), None)
      | (peers, True) \<Rightarrow>
          (case gate_shutdown (st_ops env) dk identity (bound_path env) (served router) of
             (dk, router, Inl e) \<Rightarrow> (dk, peers, Some router, Some (Inl (Start_Gate e)))
           | (dk, router, Inr _) \<Rightarrow> (dk, peers, Some router, Some (Inr ()))))))"

section \<open>Lemmas\<close>

lemma parse_i32_show_int:
  assumes "0 \<le> fd" "fd < 2 ^ 31"
  shows "parse_i32 (show_int fd) = Some fd"
proof -
  from assms have "nat fd < 2 ^ 31" by (simp add: nat_less_iff)
  with assms(1) show ?thesis by (simp add: show_int_def parse_i32_show_nat)
qed

text \<open>The binary reads from its arguments what the gate has put there.\<close>

lemma worker_args_roundtrip:
  assumes "0 \<le> child_fd" "child_fd < 2 ^ 31"
  shows "select_mode (program # worker_args child_fd bw_cli_path sandbox_enabled) =
    Ret (Worker_Mode child_fd bw_cli_path sandbox_enabled)"
  using parse_i32_show_int [OF assms] by (simp add: select_mode_def worker_args_def)

text \<open>A descriptor that is not a number ends the process with a panic; too few arguments start a gate.\<close>

lemma select_mode_panics: "select_mode args = Panic \<longleftrightarrow>
    4 \<le> length args \<and> args ! 1 = ''--vault-worker'' \<and> parse_i32 (args ! 2) = None"
  by (auto simp: select_mode_def split: option.splits)

lemma gate_accept_loop_ends: "snd (gate_accept_loop events) \<longleftrightarrow> Sigterm \<in> set events \<or> Sigint \<in> set events"
  by (induction events rule: gate_accept_loop.induct) (auto split: sum.splits)

lemma worker_setup_started:
  assumes "worker_setup sk bw_cli_path sandbox_enabled p = (p', Some (args, child), r)"
  obtains parent_fd child_fd where "sk_socketpair sk = Inr (parent_fd, child_fd)"
    "args = worker_args child_fd bw_cli_path sandbox_enabled"
    "pa_open child = (pa_open p \<union> {parent_fd, child_fd}) - (if sk_getfd_ok sk
      then (pa_close_on_exec p \<union> {parent_fd, child_fd}) - {child_fd} else pa_close_on_exec p \<union> {parent_fd, child_fd})"
    "pa_filters child = pa_filters p" "r = Inr () \<Longrightarrow> pa_open p' = pa_open p \<union> {parent_fd, child_fd} - {child_fd}"
proof -
  from assms obtain parent_fd child_fd where fds: "sk_socketpair sk = Inr (parent_fd, child_fd)"
    by (auto simp: worker_setup_def split: sum.splits)
  with assms that show thesis
    by (auto simp: worker_setup_def Let_def exec_program_def close_fd_def split: option.splits if_splits)
qed

text \<open>When the start fails, both descriptors stay open in the gate; when a later step fails, the worker is left running.\<close>

lemma failed_worker_leaks_descriptors:
  assumes "sk_socketpair sk = Inr (parent_fd, child_fd)" "\<And>args. sk_start sk args = Some e"
  shows "\<exists>p'. worker_setup sk bw_cli_path sandbox_enabled p = (p', None, Inl (''spawn vault worker: '' @ e)) \<and>
    {parent_fd, child_fd} \<subseteq> pa_open p'"
  using assms by (simp add: worker_setup_def Let_def)

lemma failed_stream_leaves_worker:
  assumes "sk_socketpair sk = Inr fds" "\<And>args. sk_start sk args = None" "sk_set_nonblocking sk = Some e"
  shows "\<exists>p' child. worker_setup sk bw_cli_path sandbox_enabled p = (p', Some child, Inl (''set_nonblocking: '' @ e))"
  using assms by (cases fds) (simp add: worker_setup_def Let_def)

lemma identity_create_path:
  assumes "identity_create ops env dk key fingerprint_path socket_path = (dk', Inr identity)"
  shows "gi_fingerprint_path identity = fingerprint_path"
  using assms by (auto simp: identity_create_def Let_def split: sum.splits prod.splits)

lemma gate_main_identity:
  assumes "gate_main env dk = (dk', Inr (identity, prov, router))"
    and "load_config (st_vars env) (st_exists env) (st_read env) (st_toml env) = Inr config"
  shows "gi_fingerprint_path identity = gs_fingerprint_path (gc_gate config)"
proof -
  from assms obtain dk1 where "identity_create (st_ops env) (st_self env) dk (st_key_bytes env)
      (gs_fingerprint_path (gc_gate config)) (gs_socket_path (gc_gate config)) = (dk1, Inr identity)"
    by (auto simp: gate_main_def split: sum.splits prod.splits if_splits)
  then show ?thesis by (rule identity_create_path)
qed

lemma gate_shutdown_removes:
  assumes "gate_shutdown ops dk identity socket_path self = (dk', self', Inr ())"
  shows "dk' (gi_fingerprint_path identity) = None" "self' = self\<lparr>rt_proxy_manager := stop_all (rt_proxy_manager self)\<rparr>"
    "(\<forall>e. fo_remove ops socket_path \<noteq> Remove_Failed e) \<longrightarrow> dk' socket_path = None"
  using assms
  by (auto simp: gate_shutdown_def identity_cleanup_def listener_drop_def Let_def split: removal.splits prod.splits sum.splits)

section \<open>Properties\<close>

text \<open>
  C35. From the gate to a confined worker, for a gate whose sandbox is on and a worker that can list all its
  descriptors. The process that the gate starts reads from its arguments the descriptor of its socket, the
  path of the client and the sandbox, and either ends before it reads anything or serves the vault on that
  socket with only the standard descriptors, the socket and the duplicate that it reads from open, and
  only the listed system calls allowed.
\<close>

theorem spawned_worker_confined:
  assumes "compiler_ok k" "sk_socketpair sk = Inr (parent_fd, child_fd)" "sk_getfd_ok sk"
    and "2 < child_fd" "child_fd < 2 ^ 31"
    and "worker_setup sk bw_cli_path True p = (p', Some (args, child), r)"
    and "select_mode (program # args) = Ret (Worker_Mode fd path sandboxed)"
    and "\<forall>fd \<in> pa_open child. \<exists>name \<in> set names. parse_i32 name = Some fd"
    and "worker_start k sandboxed (Some names) cloned fd envs path input child = (q, sent, result)"
  shows "(sent, result) = ([], Inl 1) \<or> (sent, result) = ([], Inl 101) \<or>
    (\<exists>c. cloned = Some c \<and> (sent, result) = worker_loop envs (bitwarden_new bw_cli_path) input \<and>
       child_fd \<in> pa_open q \<and> pa_open q \<subseteq> {0, 1, 2, child_fd, c} \<and>
       \<not> pa_dumpable q \<and> (\<forall>call. call_permitted q call \<longrightarrow> call \<in> set ALLOWED_SYSCALLS))"
proof -
  from assms(6) obtain parent' child' where fds: "sk_socketpair sk = Inr (parent', child')"
    and args: "args = worker_args child' bw_cli_path True"
    and inherited: "pa_open child = (pa_open p \<union> {parent', child'}) - (if sk_getfd_ok sk
      then (pa_close_on_exec p \<union> {parent', child'}) - {child'} else pa_close_on_exec p \<union> {parent', child'})"
    by (rule worker_setup_started)
  with assms(2,3) have child: "child_fd \<in> pa_open child" by simp
  have "select_mode (program # args) = Ret (Worker_Mode child_fd bw_cli_path True)"
    using args fds assms(2,4,5) by (simp add: worker_args_roundtrip)
  with assms(7) have mode: "fd = child_fd" "path = bw_cli_path" sandboxed by simp_all
  from assms(9) mode have "worker_start k True (Some names) cloned child_fd envs bw_cli_path input child = (q, sent, result)" by simp
  from worker_start_confined [OF assms(1,8) this] child show ?thesis by auto
qed

text \<open>
  An orderly end leaves nothing behind: when a signal ends the gate and it reports success, its fingerprint file
  is gone, its socket too unless the removal failed, and no listener of the proxy is running.
\<close>

theorem orderly_end_leaves_nothing:
  assumes "gate_process env sigterm sigint events served dk = (dk', peers, Some router, Some (Inr ()))"
    and "load_config (st_vars env) (st_exists env) (st_read env) (st_toml env) = Inr config"
    and "\<And>self. pm_ok (rt_proxy_manager (served self))"
  shows "(Sigterm \<in> set events \<or> Sigint \<in> set events) \<and> dk' (gs_fingerprint_path (gc_gate config)) = None \<and>
    ((\<forall>e. fo_remove (st_ops env) (gs_socket_path (gc_gate config)) \<noteq> Remove_Failed e) \<longrightarrow>
      dk' (gs_socket_path (gc_gate config)) = None) \<and>
    (\<forall>s. \<not> running (rt_proxy_manager router) s)"
proof -
  have path: "bound_path env = gs_socket_path (gc_gate config)" by (simp add: bound_path_def assms(2))
  from assms(1) obtain dk1 identity prov self where start: "gate_main env dk = (dk1, Inr (identity, prov, self))"
    and ended: "snd (gate_accept_loop events)"
    and stopped: "gate_shutdown (st_ops env) dk1 identity (bound_path env) (served self) = (dk', router, Inr ())"
    by (auto simp: gate_process_def split: prod.splits sum.splits option.splits bool.splits)
  from ended gate_accept_loop_ends have "Sigterm \<in> set events \<or> Sigint \<in> set events" by blast
  moreover have "\<not> running (rt_proxy_manager router) s" for s
    using stop_all_running [OF assms(3)] gate_shutdown_removes(2) [OF stopped] by simp
  ultimately show ?thesis
    using gate_shutdown_removes [OF stopped] gate_main_identity [OF start assms(2)] path by simp
qed

text \<open>
  A gate whose signal handlers cannot be installed ends with an error and leaves the fingerprint file as the start
  has written it.
\<close>

lemma failed_handler_keeps_fingerprint:
  assumes "gate_main env dk = (dk1, Inr (identity, prov, router))"
    and "load_config (st_vars env) (st_exists env) (st_read env) (st_toml env) = Inr config"
    and "gs_fingerprint_path (gc_gate config) \<noteq> gs_socket_path (gc_gate config)"
    and "gate_process env (Some e) sigint events served dk = (dk', peers, rt, r)"
  shows "r = Some (Inl (Start_Io e)) \<and> dk' (gs_fingerprint_path (gc_gate config)) = dk1 (gs_fingerprint_path (gc_gate config))"
  using assms by (auto simp: gate_process_def listener_drop_def bound_path_def split: removal.splits)

section \<open>Witnesses\<close>

definition example_calls :: spawn_calls where
  "example_calls = \<lparr>sk_socketpair = Inr (4, 5), sk_getfd_ok = True, sk_start = (\<lambda>_. None),
     sk_set_nonblocking = None, sk_from_std = None\<rparr>"

definition example_gate :: process_attrs where
  "example_gate = \<lparr>pa_dumpable = False, pa_core_limit = Some 0, pa_children_in_new_namespace = False, pa_filters = [],
     pa_open = {0, 1, 2, 17}, pa_close_on_exec = {}\<rparr>"

lemma example_setup: "worker_setup example_calls ''bw'' True example_gate =
    (example_gate\<lparr>pa_open := {0, 1, 2, 4, 17}, pa_close_on_exec := {4}\<rparr>,
     Some (worker_args 5 ''bw'' True, example_worker\<lparr>pa_core_limit := Some 0\<rparr>), Inr ())"
  by (auto simp: worker_setup_def example_calls_def example_gate_def example_worker_def exec_program_def close_fd_def Let_def)

theorem spawned_worker_confined_witness:
  "\<exists>p' args child q. worker_setup example_calls ''bw'' True example_gate = (p', Some (args, child), Inr ()) \<and>
     select_mode (''/proc/self/exe'' # args) = Ret (Worker_Mode 5 ''bw'' True) \<and>
     worker_start example_kernel True (Some [''0'', ''1'', ''2'', ''5'', ''17'']) (Some 3) 5 [] ''bw'' [] child =
       (q, [], Inr (bitwarden_new ''bw'', [])) \<and> 5 \<in> pa_open q \<and> pa_open q \<subseteq> {0, 1, 2, 3, 5}"
proof -
  let ?names = "[''0'', ''1'', ''2'', ''5'', ''17'']" and ?child = "example_worker\<lparr>pa_core_limit := Some 0\<rparr>"
  obtain q sent result where
    q: "worker_start example_kernel True (Some ?names) (Some 3) 5 [] ''bw'' [] ?child = (q, sent, result)"
    by (cases "worker_start example_kernel True (Some ?names) (Some 3) 5 [] ''bw'' [] ?child") auto
  have k: "compiler_ok example_kernel" by (simp add: compiler_ok_def example_kernel_def)
  have listed: "\<forall>fd \<in> pa_open ?child. \<exists>name \<in> set ?names. parse_i32 name = Some fd"
    by (simp add: example_worker_def parse_i32_def parse_uint_def dec_digit_def)
  have mode: "select_mode (''/proc/self/exe'' # worker_args 5 ''bw'' True) = Ret (Worker_Mode 5 ''bw'' True)"
    by (simp add: worker_args_roundtrip)
  have served: "(sent, result) \<noteq> ([], Inl 1)" "(sent, result) \<noteq> ([], Inl 101)"
    using q by (auto simp: worker_start_def apply_sandbox_def example_kernel_def build_seccomp_filter_def Let_def
        vault_worker_main_def)
  have calls: "sk_socketpair example_calls = Inr (4, 5)" "sk_getfd_ok example_calls" by (simp_all add: example_calls_def)
  from spawned_worker_confined [OF k calls _ _ example_setup mode listed q] served
  have "(sent, result) = worker_loop [] (bitwarden_new ''bw'') []" "5 \<in> pa_open q" "pa_open q \<subseteq> {0, 1, 2, 3, 5}" by auto
  with q example_setup mode show ?thesis by auto
qed

end
