(* ===== verification/Cdp_Proxy_Credential.thy ===== *)
theory Cdp_Proxy_Credential
  imports Cdp_Gate_Main
begin

text \<open>
  The interface through which the proxy obtains credentials (\<open>CredentialProvider\<close> of
  \<open>crates/cdp-proxy/src/credential.rs\<close>) and the provider with a fixed table. A locale states what the request
  pipeline relies on; it is interpreted on every provider of the program.
\<close>

section \<open>The provider with a table\<close>

record mock_provider =
  mk_credentials :: "string \<rightharpoonup> string"

definition mock_new :: mock_provider where
  "mock_new = \<lparr>mk_credentials = Map.empty\<rparr>"

definition mock_add :: "mock_provider \<Rightarrow> string \<Rightarrow> string \<Rightarrow> mock_provider" where
  "mock_add self credential_ref val = self\<lparr>mk_credentials := (mk_credentials self)(credential_ref \<mapsto> val)\<rparr>"

definition mock_fetch_credential :: "mock_provider \<Rightarrow> string \<Rightarrow> string \<Rightarrow> proxy_error + (string \<times> bytes) list" where
  "mock_fetch_credential self credential_ref lease_id =
     (case mk_credentials self credential_ref of
        Some val \<Rightarrow> Inr [(''Authorization'', as_bytes val)]
      | None \<Rightarrow> Inl (CredentialInjection (''credential not found: '' @ credential_ref)))"

section \<open>What the proxy relies on\<close>

locale credential_provider =
  fixes fetch :: "string \<Rightarrow> string \<Rightarrow> proxy_error + (string \<times> bytes) list"
  assumes fetched: "fetch r i = Inr creds \<Longrightarrow> \<exists>v. creds = [(''Authorization'', v)]"
    and failed: "fetch r i = Inl e \<Longrightarrow> \<exists>t. e = CredentialInjection t"
    and lease_irrelevant: "fetch r i = fetch r j"
begin

text \<open>Requests of different leases on one credential carry the same value.\<close>

lemma same_credential:
  assumes "fetch r i = Inr creds" "fetch r j = Inr creds'"
  shows "creds = creds'"
  using assms lease_irrelevant [of r i j] by simp

lemma sent_with_authorization:
  assumes "px_fetch_credential px = fetch" "lm_leases mgr i = Some l"
    and "handle_request px now mgr0 mgr ra i key req = Ret (leases, sent, aud, resp)" "ob \<in> set sent"
  shows "\<exists>v n x. fetch (l_credential_ref l) i = Inr [(''Authorization'', v)] \<and> px_header_name px ''Authorization'' = Some n \<and>
    px_header_value px v = Some x \<and> x \<in> set (header_values (ob_headers ob) n)"
proof -
  from handle_request_fetched [OF assms(3,4,2)] assms(1) obtain creds hs where
    creds: "fetch (l_credential_ref l) i = Inr creds" "inject_headers px hs creds = Inr (ob_headers ob)" by auto
  with fetched obtain v where "creds = [(''Authorization'', v)]" by blast
  with creds show ?thesis using inject_one by (fastforce simp: header_values_snoc)
qed

end

interpretation noop_provider: credential_provider "\<lambda>r i. noop_fetch_credential debug r" for debug
  by unfold_locales (simp_all add: noop_fetch_credential_def)

interpretation vault_provider: credential_provider "\<lambda>r i. vault_fetch_credential unseal (fetch r)" for unseal fetch
  by unfold_locales (auto simp: vault_fetch_credential_def split: sum.splits option.splits)

interpretation mock: credential_provider "mock_fetch_credential self" for self
  by unfold_locales (auto simp: mock_fetch_credential_def split: option.splits)

interpretation gate_provider: credential_provider "fetch_credential debug unseal fb sm prov" for debug unseal fb sm prov
proof
  fix r i j creds e
  show "\<exists>v. creds = [(''Authorization'', v)]" if "fetch_credential debug unseal fb sm prov r i = Inr creds"
    using that noop_provider.fetched vault_provider.fetched by (cases prov) auto
  show "\<exists>t. e = CredentialInjection t" if "fetch_credential debug unseal fb sm prov r i = Inl e"
    using that noop_provider.failed vault_provider.failed by (cases prov) auto
  show "fetch_credential debug unseal fb sm prov r i = fetch_credential debug unseal fb sm prov r j" by (cases prov) auto
qed

section \<open>Properties\<close>

text \<open>Adding and fetching: a fetch finds the value added last under its reference, and other references are not affected.\<close>

lemma mock_add_fetch:
  "mock_fetch_credential (mock_add self r val) r i = Inr [(''Authorization'', as_bytes val)]"
  "r' \<noteq> r \<Longrightarrow> mock_fetch_credential (mock_add self r val) r' i = mock_fetch_credential self r' i"
  "\<exists>e. mock_fetch_credential mock_new r i = Inl e"
  by (simp_all add: mock_fetch_credential_def mock_add_def mock_new_def)

text \<open>
  Whatever vault the gate uses, a request it forwards carries, under the name of the authorization header, the
  value its provider gave for the reference of the lease.
\<close>

theorem sent_with_authorization_of_provider:
  assumes "px_fetch_credential px = fetch_credential debug unseal fb sm prov" "lm_leases mgr i = Some l"
    and "handle_request px now mgr0 mgr ra i key req = Ret (leases, sent, aud, resp)" "ob \<in> set sent"
  shows "prov \<noteq> No_Op \<and> (\<exists>v n x. fetch_credential debug unseal fb sm prov (l_credential_ref l) i = Inr [(''Authorization'', v)] \<and>
    px_header_name px ''Authorization'' = Some n \<and> px_header_value px v = Some x \<and>
    x \<in> set (header_values (ob_headers ob) n))"
  using gate_provider.sent_with_authorization [OF assms] by (auto simp: noop_fetch_credential_def)

end
