(* ===== verification/Cdp_Tasks.thy ===== *)
theory Cdp_Tasks
  imports Cdp_Lease_Ops Cdp_Token
begin

text \<open>
  The periodic tasks: \<open>start_expiry_sweep\<close> of the lease manager (\<open>crates/cdp-lease/src/manager.rs\<close>) and
  \<open>start_cleanup_task\<close> of the revocation list (\<open>crates/cdp-token/src/revocation.rs\<close>). Both tick at fixed
  distances; time passes between ticks, and other tasks work in between. A locale shows once what
  both rely on: what is overdue is settled one period later.
\<close>

section \<open>Ticking\<close>

text \<open>
  A state is the time, the time of the next tick and the shared state. A tick may be late by \<open>late\<close>;
  the one after it is not shifted (the default behaviour of the interval for missed ticks).
\<close>

inductive ticking ::
  "(int \<Rightarrow> 's \<Rightarrow> 's \<Rightarrow> bool) \<Rightarrow> (int \<Rightarrow> 's \<Rightarrow> 's \<Rightarrow> bool) \<Rightarrow> int \<Rightarrow> int \<Rightarrow> int \<times> int \<times> 's \<Rightarrow> int \<times> int \<times> 's \<Rightarrow> bool"
  for other work period late where
  wait: "now \<le> t \<Longrightarrow> t \<le> due + late \<Longrightarrow> ticking other work period late (now, due, s) (t, due, s)"
| tick: "due \<le> now \<Longrightarrow> work now s s' \<Longrightarrow> ticking other work period late (now, due, s) (now, due + period, s')"
| other: "other now s s' \<Longrightarrow> ticking other work period late (now, due, s) (now, due, s')"

inductive_cases ticking_cases: "ticking other work period late (now, due, s) (now', due', s')"

section \<open>The two tasks\<close>

definition SWEEP_PERIOD :: int where
  "SWEEP_PERIOD = 5 * nanos"

definition sweep_work :: "int \<Rightarrow> lease_manager \<Rightarrow> lease_manager \<Rightarrow> bool" where
  "sweep_work now self self' \<longleftrightarrow> (\<exists>order. set order = dom (lm_leases self) \<and> self' = sweep_expired order now self)"

definition start_expiry_sweep ::
  "hmac_fun \<Rightarrow> chrono \<Rightarrow> int \<Rightarrow> int \<times> int \<times> lease_manager \<Rightarrow> int \<times> int \<times> lease_manager \<Rightarrow> bool" where
  "start_expiry_sweep hmac ch late = ticking (ostep hmac ch) sweep_work SWEEP_PERIOD late"

definition CLEANUP_PERIOD :: int where
  "CLEANUP_PERIOD = 60 * 10 ^ 9"

definition cleanup_work :: "int \<Rightarrow> revocation_list \<Rightarrow> revocation_list \<Rightarrow> bool" where
  "cleanup_work now self self' \<longleftrightarrow> self' = cleanup now self"

text \<open>The task runs as long as the list is alive. What other tasks do to the list: mark, revoke and prune identifiers, of tokens that have not expired.\<close>

definition token_work :: "int \<Rightarrow> revocation_list \<Rightarrow> revocation_list \<Rightarrow> bool" where
  "token_work now self self' \<longleftrightarrow>
     (\<exists>ev. self' = fst (list_step now self ev) \<and> (\<forall>jti e. entered jti ev = Some e \<longrightarrow> now < e))"

definition start_cleanup_task ::
  "int \<Rightarrow> int \<times> int \<times> revocation_list \<Rightarrow> int \<times> int \<times> revocation_list \<Rightarrow> bool" where
  "start_cleanup_task late = ticking token_work cleanup_work CLEANUP_PERIOD late"

section \<open>What is overdue is settled\<close>

locale periodic_task =
  fixes other :: "int \<Rightarrow> 's \<Rightarrow> 's \<Rightarrow> bool" and work :: "int \<Rightarrow> 's \<Rightarrow> 's \<Rightarrow> bool" and period :: int
    and overdue :: "int \<Rightarrow> 's \<Rightarrow> bool" and settled :: "int \<Rightarrow> 's \<Rightarrow> bool"
  assumes period: "0 < period"
    and overdue_later: "overdue t s \<Longrightarrow> t \<le> t' \<Longrightarrow> overdue t' s"
    and settled_later: "settled t s \<Longrightarrow> t \<le> t' \<Longrightarrow> settled t' s"
    and overdue_other: "overdue t s \<Longrightarrow> other t s s' \<Longrightarrow> overdue t s' \<or> settled t s'"
    and settled_other: "settled t s \<Longrightarrow> other t s s' \<Longrightarrow> settled t s'"
    and overdue_work: "overdue t s \<Longrightarrow> work t s s' \<Longrightarrow> settled t s'"
    and settled_work: "settled t s \<Longrightarrow> work t s s' \<Longrightarrow> settled t s'"
begin

lemma step_overdue:
  assumes "ticking other work period late (now, due, s) (now', due', s')" "overdue now s"
  shows "settled now' s' \<or> overdue now' s' \<and> due' = due"
  using assms(1)
proof cases
  case wait
  then show ?thesis using overdue_later [OF assms(2)] by simp
next
  case tick
  then show ?thesis using overdue_work [OF assms(2)] by simp
next
  case other
  then show ?thesis using overdue_other [OF assms(2)] by auto
qed

lemma step_settled:
  assumes "ticking other work period late (now, due, s) (now', due', s')" "settled now s"
  shows "settled now' s'"
  using assms(1)
proof cases
  case wait
  then show ?thesis using settled_later [OF assms(2)] by simp
next
  case tick
  then show ?thesis using settled_work [OF assms(2)] by simp
next
  case other
  then show ?thesis using settled_other [OF assms(2)] by simp
qed

lemma step_in_time:
  assumes "ticking other work period late (now, due, s) (now', due', s')" "now \<le> due + late" "0 \<le> period"
  shows "now \<le> now' \<and> now' \<le> due' + late"
  using assms(1) by (elim ticking_cases) (use assms(2-) in auto)

lemma overdue_run:
  assumes "(ticking other work period late)\<^sup>*\<^sup>* (now, due, s) (now', due', s')" "overdue now s" "now \<le> due + late"
  shows "now' \<le> due' + late \<and> (settled now' s' \<or> overdue now' s' \<and> due' = due)"
  using assms(1)
proof (induction "(now', due', s')" arbitrary: now' due' s' rule: rtranclp_induct)
  case base
  then show ?case using assms(2,3) by simp
next
  case (step y)
  obtain now1 due1 s1 where y: "y = (now1, due1, s1)" by (cases y)
  with step.hyps(3) have IH: "now1 \<le> due1 + late" "settled now1 s1 \<or> overdue now1 s1 \<and> due1 = due" by auto
  from step.hyps(2) y have one: "ticking other work period late (now1, due1, s1) (now', due', s')" by simp
  from step_in_time [OF one IH(1)] period have "now' \<le> due' + late" by simp
  with IH(2) step_overdue [OF one] step_settled [OF one] show ?case by auto
qed

lemma settled_in_time:
  assumes "(ticking other work period late)\<^sup>*\<^sup>* (now, due, s) (now', due', s')" "overdue now s"
    and "now \<le> due + late" "due \<le> now + period" "now + period + late < now'"
  shows "settled now' s'"
  using overdue_run [OF assms(1-3)] assms(4,5) by auto

end

subsection \<open>Leases\<close>

text \<open>
  A lease is overdue when the store is reachable and the lease is stored and has expired; it is settled
  when it is stored and is not active any more.
\<close>

definition lease_overdue :: "hmac_fun \<Rightarrow> chrono \<Rightarrow> string \<Rightarrow> int \<Rightarrow> lease_manager \<Rightarrow> bool" where
  "lease_overdue hmac ch i t self \<longleftrightarrow> reachable hmac ch (quiet self t) \<and>
     (\<exists>l. lm_leases self i = Some l \<and> is_expired t l)"

definition lease_settled :: "hmac_fun \<Rightarrow> chrono \<Rightarrow> string \<Rightarrow> int \<Rightarrow> lease_manager \<Rightarrow> bool" where
  "lease_settled hmac ch i t self \<longleftrightarrow> reachable hmac ch (quiet self t) \<and>
     (\<exists>l. lm_leases self i = Some l \<and> l_status l \<noteq> Active)"

lemma reachable_later: "reachable hmac ch (quiet self t) \<Longrightarrow> t \<le> t' \<Longrightarrow> reachable hmac ch (quiet self t')"
  using lstep.tick [of "quiet self t" t' hmac ch] reachable_step by fastforce

lemma reachable_ostep: "reachable hmac ch (quiet self t) \<Longrightarrow> ostep hmac ch t self self' \<Longrightarrow> reachable hmac ch (quiet self' t)"
  using ostep_run by (meson reachable_def rtranclp_trans)

lemma sweep_work_ostep: "sweep_work t self self' \<Longrightarrow> ostep hmac ch t self self'"
  unfolding sweep_work_def by (blast intro: ostep.sweep)

text \<open>Steps at a time keep a lease that is not active as it is, and do not prolong one that has expired.\<close>

definition stays_over :: "int \<Rightarrow> lease \<Rightarrow> lease \<Rightarrow> bool" where
  "stays_over t l l' \<longleftrightarrow> (l_status l \<noteq> Active \<longrightarrow> l_status l' \<noteq> Active) \<and> (is_expired t l \<longrightarrow> is_expired t l')"

lemma stays_over_trans: "stays_over t l l' \<Longrightarrow> stays_over t l' l'' \<Longrightarrow> stays_over t l l''"
  by (auto simp: stays_over_def)

lemma lstep_stays_over:
  assumes "lstep hmac ch w w'" "lease_tree (leases_of w)" "leases_of w i = Some l" "w_now w = t"
  obtains l' where "leases_of w' i = Some l'" "stays_over t l l'"
proof -
  from assms(1,2) have "\<exists>l'. leases_of w' i = Some l' \<and> stays_over t l l'"
  proof (cases rule: lstep_effect)
    case (created env t agent cred granted pcons pname am new)
    with assms(3) have "l_lease_id new \<noteq> i" by auto
    with created assms(3) show ?thesis by (auto simp: stays_over_def)
  next
    case (delegated env t x now now' dns pid p target sc ttl c)
    with assms(3) have "l_lease_id c \<noteq> i" by auto
    with delegated(1,17) assms(3) show ?thesis by (cases "pid = i") (auto simp: stays_over_def is_expired_def)
  next
    case (renewed j m ext x)
    with assms(3,4) show ?thesis by (cases "j = i") (auto simp: stays_over_def)
  next
    case (used j m)
    with assms(3) show ?thesis by (cases "j = i") (auto simp: stays_over_def is_expired_def)
  next
    case (revoked j reason)
    with assms(3) show ?thesis by (auto simp: stays_over_def is_expired_def with_status_def)
  next
    case (expired S)
    with assms(3) show ?thesis by (auto simp: stays_over_def is_expired_def with_status_def)
  qed (use assms(3) in \<open>auto simp: stays_over_def\<close>)
  then show thesis using that by blast
qed

lemma lsteps_stay_over:
  assumes "(lstep hmac ch)\<^sup>*\<^sup>* w w'" "reachable hmac ch w" "leases_of w i = Some l" "w_now w = w_now w'"
  obtains l' where "leases_of w' i = Some l'" "stays_over (w_now w) l l'"
proof -
  have mono: "w_now v \<le> w_now v'" if "lstep hmac ch v v'" for v v' using that by cases auto
  have "\<exists>l'. leases_of w' i = Some l' \<and> (w_now w' = w_now w \<longrightarrow> stays_over (w_now w) l l') \<and> w_now w \<le> w_now w' \<and> reachable hmac ch w'"
    using assms(1)
  proof (induction rule: rtranclp_induct)
    case base
    then show ?case using assms(2,3) by (auto simp: stays_over_def)
  next
    case (step v v')
    then obtain m where m: "leases_of v i = Some m" "w_now v = w_now w \<longrightarrow> stays_over (w_now w) l m" "w_now w \<le> w_now v"
      and reach: "reachable hmac ch v" by blast
    obtain m' where m': "leases_of v' i = Some m'" "stays_over (w_now v) m m'"
      using lstep_stays_over [OF step.hyps(2) reachable_tree [OF reach] m(1) refl] .
    have "w_now v = w_now w" if "w_now v' = w_now w" using mono [OF step.hyps(2)] m(3) that by simp
    with m(2) m'(2) have "w_now v' = w_now w \<longrightarrow> stays_over (w_now w) l m'" using stays_over_trans [of "w_now w" l m m'] by auto
    moreover have "w_now w \<le> w_now v'" using m(3) mono [OF step.hyps(2)] by simp
    ultimately show ?case using m'(1) reachable_step [OF reach step.hyps(2)] by simp
  qed
  with assms(4) that show thesis by auto
qed

lemma ostep_stays_over:
  assumes "ostep hmac ch t self self'" "reachable hmac ch (quiet self t)" "lm_leases self i = Some l"
  obtains l' where "lm_leases self' i = Some l'" "stays_over t l l'"
  using lsteps_stay_over [OF ostep_run [OF assms(1)] assms(2)] assms(3) by auto

interpretation lease_sweep: periodic_task "ostep hmac ch" sweep_work SWEEP_PERIOD
  "lease_overdue hmac ch i" "lease_settled hmac ch i" for hmac ch i
proof
  show "0 < SWEEP_PERIOD" by (simp add: SWEEP_PERIOD_def nanos_def)
  show "lease_overdue hmac ch i t' s" if "lease_overdue hmac ch i t s" "t \<le> t'" for t t' s
    using that reachable_later by (auto simp: lease_overdue_def is_expired_def)
  show "lease_settled hmac ch i t' s" if "lease_settled hmac ch i t s" "t \<le> t'" for t t' s
    using that reachable_later by (auto simp: lease_settled_def)
  show overdue: "lease_overdue hmac ch i t s' \<or> lease_settled hmac ch i t s'"
    if "lease_overdue hmac ch i t s" "ostep hmac ch t s s'" for t s s'
  proof -
    from that(1) obtain l where r: "reachable hmac ch (quiet s t)" and l: "lm_leases s i = Some l" "is_expired t l"
      by (auto simp: lease_overdue_def)
    from ostep_stays_over [OF that(2) r l(1)] obtain l' where "lm_leases s' i = Some l'" "stays_over t l l'" .
    with l(2) reachable_ostep [OF r that(2)] show ?thesis by (simp add: lease_overdue_def stays_over_def)
  qed
  show settled: "lease_settled hmac ch i t s'" if "lease_settled hmac ch i t s" "ostep hmac ch t s s'" for t s s'
  proof -
    from that(1) obtain l where r: "reachable hmac ch (quiet s t)" and l: "lm_leases s i = Some l" "l_status l \<noteq> Active"
      by (auto simp: lease_settled_def)
    from ostep_stays_over [OF that(2) r l(1)] obtain l' where "lm_leases s' i = Some l'" "stays_over t l l'" .
    with l(2) reachable_ostep [OF r that(2)] show ?thesis by (simp add: lease_settled_def stays_over_def)
  qed
  show "lease_settled hmac ch i t s'" if "lease_settled hmac ch i t s" "sweep_work t s s'" for t s s'
    using settled [OF that(1) sweep_work_ostep [OF that(2)]] .
  show "lease_settled hmac ch i t s'" if "lease_overdue hmac ch i t s" "sweep_work t s s'" for t s s'
    using that reachable_ostep [OF _ sweep_work_ostep [OF that(2)]]
    by (auto simp: lease_overdue_def lease_settled_def sweep_work_def sweep_leases is_expired_def)
qed

subsection \<open>Tokens\<close>

text \<open>
  For a time limit in the past the work is overdue; it is settled when no entry for the identifier has a
  time up to the limit.
\<close>

definition entry_overdue :: "int \<Rightarrow> int \<Rightarrow> revocation_list \<Rightarrow> bool" where
  "entry_overdue limit t self \<longleftrightarrow> limit \<le> t"

definition entry_settled :: "string \<Rightarrow> int \<Rightarrow> int \<Rightarrow> revocation_list \<Rightarrow> bool" where
  "entry_settled jti limit t self \<longleftrightarrow> limit \<le> t \<and> (\<forall>e. self jti = Some e \<longrightarrow> limit < e)"

lemma token_work_entry:
  assumes "token_work t self self'" "self' jti = Some e"
  shows "self jti = Some e \<or> t < e"
proof -
  from assms(1) obtain ev where ev: "self' = fst (list_step t self ev)" "\<forall>i e. entered i ev = Some e \<longrightarrow> t < e"
    by (auto simp: token_work_def)
  with assms(2) show ?thesis
    by (cases ev) (auto simp: list_step_Mark revoke_token_def cleanup_def simp del: list_step.simps(1) split: if_splits option.splits)
qed

interpretation token_cleanup: periodic_task token_work cleanup_work CLEANUP_PERIOD
  "entry_overdue limit" "entry_settled jti limit" for jti limit
proof
  show "0 < CLEANUP_PERIOD" by (simp add: CLEANUP_PERIOD_def)
  show "entry_settled jti limit t s'" if "entry_settled jti limit t s" "token_work t s s'" for t s s'
    using that token_work_entry [OF that(2)] unfolding entry_settled_def by (meson le_less_trans)
qed (auto simp: entry_overdue_def entry_settled_def cleanup_work_def cleanup_def split: option.splits if_splits)

section \<open>Properties\<close>

text \<open>
  C33. The sweep marks expired leases in time: a lease that is stored and has expired is no longer active
  five seconds later, plus the lateness of a tick, whatever other tasks do with the leases in
  between; in particular nothing renews it.
\<close>

theorem expired_lease_marked:
  assumes "reachable hmac ch \<lparr>w_mgr = self, w_pending = [], w_now = now\<rparr>"
    and "lm_leases self i = Some l" "is_expired now l"
    and "(start_expiry_sweep hmac ch late)\<^sup>*\<^sup>* (now, due, self) (now', due', self')"
    and "now \<le> due + late" "due \<le> now + SWEEP_PERIOD" "now + SWEEP_PERIOD + late < now'"
  shows "\<exists>l'. lm_leases self' i = Some l' \<and> l_status l' \<noteq> Active"
proof -
  have "lease_overdue hmac ch i now self" using assms(1-3) by (auto simp: lease_overdue_def)
  from lease_sweep.settled_in_time [OF assms(4) [unfolded start_expiry_sweep_def] this assms(5-7)]
  show ?thesis by (simp add: lease_settled_def)
qed

lemma sweep_dom:
  assumes "set order = dom (lm_leases self)"
  shows "dom (lm_leases (sweep_expired order now self)) = dom (lm_leases self)"
  using sweep_leases [OF assms] by (simp add: dom_def split: option.splits)

lemma sweep_tick: "set order = dom (lm_leases self) \<Longrightarrow>
  start_expiry_sweep hmac ch late (now, now, self) (now, now + SWEEP_PERIOD, sweep_expired order now self)"
  unfolding start_expiry_sweep_def by (rule ticking.tick) (auto simp: sweep_work_def)

lemma sweep_wait: "0 \<le> late \<Longrightarrow>
  start_expiry_sweep hmac ch late (now, now + SWEEP_PERIOD, self) (now + SWEEP_PERIOD, now + SWEEP_PERIOD, self)"
  unfolding start_expiry_sweep_def by (rule ticking.wait) (auto simp: SWEEP_PERIOD_def nanos_def)

theorem expired_lease_marked_witness:
  "\<exists>self l. (start_expiry_sweep sample_hmac sample_chrono 0)\<^sup>*\<^sup>* (101 * nanos, 101 * nanos, mgr1) (111 * nanos, 111 * nanos, self) \<and>
     lm_leases self ''01'' = Some l \<and> l_status l \<noteq> Active"
proof -
  let ?s1 = "sweep_expired [''01''] (101 * nanos) mgr1"
  let ?s2 = "sweep_expired [''01''] (106 * nanos) ?s1"
  let ?R = "start_expiry_sweep sample_hmac sample_chrono 0"
  have d: "set [''01''] = dom (lm_leases mgr1)" by (simp add: mgr1_leases)
  have d1: "set [''01''] = dom (lm_leases ?s1)" using sweep_dom [OF d] d by simp
  have n: "101 * nanos + SWEEP_PERIOD = 106 * nanos" "106 * nanos + SWEEP_PERIOD = 111 * nanos" by (simp_all add: SWEEP_PERIOD_def)
  have "?R (101 * nanos, 101 * nanos, mgr1) (101 * nanos, 106 * nanos, ?s1)" using sweep_tick [OF d, of sample_hmac sample_chrono 0 "101 * nanos"] by (simp only: n)
  moreover have "?R (101 * nanos, 106 * nanos, ?s1) (106 * nanos, 106 * nanos, ?s1)"
    using sweep_wait [of 0 sample_hmac sample_chrono "101 * nanos" ?s1] by (simp only: n order_refl)
  moreover have "?R (106 * nanos, 106 * nanos, ?s1) (106 * nanos, 111 * nanos, ?s2)" using sweep_tick [OF d1, of sample_hmac sample_chrono 0 "106 * nanos"] by (simp only: n)
  moreover have "?R (106 * nanos, 111 * nanos, ?s2) (111 * nanos, 111 * nanos, ?s2)"
    using sweep_wait [of 0 sample_hmac sample_chrono "106 * nanos" ?s2] by (simp only: n order_refl)
  ultimately have run: "?R\<^sup>*\<^sup>* (101 * nanos, 101 * nanos, mgr1) (111 * nanos, 111 * nanos, ?s2)"
    by (iprover intro: converse_rtranclp_into_rtranclp rtranclp.rtrancl_refl)
  have "\<exists>l'. lm_leases ?s2 ''01'' = Some l' \<and> l_status l' \<noteq> Active"
  proof (rule expired_lease_marked [OF _ _ _ run])
    show "reachable sample_hmac sample_chrono (quiet mgr1 (101 * nanos))"
      using reachable_later [OF oreach_reachable [OF mgr1_reach]] by (simp add: nanos_def)
    show "lm_leases mgr1 ''01'' = Some lease1" by (simp add: mgr1_leases)
  qed (simp_all add: lease1_def is_expired_def SWEEP_PERIOD_def nanos_def)
  with run show ?thesis by blast
qed

text \<open>
  The list of revoked and used tokens stays small: a minute after a point in time, plus the lateness of
  a tick, it holds no entry that had expired by then.
\<close>

theorem expired_entry_removed:
  assumes "(start_cleanup_task late)\<^sup>*\<^sup>* (now, due, self) (now', due', self')"
    and "now \<le> due + late" "due \<le> now + CLEANUP_PERIOD" "now + CLEANUP_PERIOD + late < now'" "self' jti = Some e"
  shows "now < e"
proof -
  have "entry_overdue now now self" by (simp add: entry_overdue_def)
  from token_cleanup.settled_in_time [OF assms(1) [unfolded start_cleanup_task_def] this assms(2-4), of jti] assms(5)
  show ?thesis by (simp add: entry_settled_def)
qed

end
