(* ===== verification/Cdp_Secure_Memory.thy ===== *)
theory Cdp_Secure_Memory
  imports Cdp_Crypto
begin

text \<open>
  Buffers for secrets (\<open>SecureBuffer\<close> of \<open>crates/cdp-crypto/src/mempool.rs\<close>): locked into main memory when they
  are made, erased and unlocked when they are dropped. Memory is a map from addresses to bytes with the
  set of locked pages. The lemmas say where secrets are left, and which buffers stay locked.
\<close>

section \<open>Memory\<close>

record memory =
  mm_byte :: "nat \<Rightarrow> u8"
  mm_locked :: "nat set"

text \<open>The vector behind a buffer: an allocation of \<open>vc_cap\<close> bytes, of which the first \<open>vc_len\<close> are in use.\<close>

record vec =
  vc_ptr :: nat
  vc_len :: nat
  vc_cap :: nat

definition vec_area :: "vec \<Rightarrow> nat set" where
  "vec_area v = {vc_ptr v ..< vc_ptr v + vc_cap v}"

text \<open>
  \<open>mlock\<close> and \<open>munlock\<close> act on all pages that contain a byte of the range; a call that fails changes no lock.
  Locks do not nest: one \<open>munlock\<close> undoes any number of calls of \<open>mlock\<close>.
\<close>

definition page_range :: "nat \<Rightarrow> nat \<Rightarrow> nat \<Rightarrow> nat set" where
  "page_range page ptr len = {ptr div page .. (ptr + len - 1) div page}"

definition mlock :: "nat \<Rightarrow> string option \<Rightarrow> nat \<Rightarrow> nat \<Rightarrow> memory \<Rightarrow> memory" where
  "mlock page failure ptr len mem =
     (if failure = None then mem\<lparr>mm_locked := mm_locked mem \<union> page_range page ptr len\<rparr> else mem)"

definition munlock :: "nat \<Rightarrow> string option \<Rightarrow> nat \<Rightarrow> nat \<Rightarrow> memory \<Rightarrow> memory" where
  "munlock page failure ptr len mem =
     (if failure = None then mem\<lparr>mm_locked := mm_locked mem - page_range page ptr len\<rparr> else mem)"

section \<open>Buffers\<close>

text \<open>\<open>SecureBuffer::new\<close>: a failed lock is only reported.\<close>

definition secure_buffer_new :: "nat \<Rightarrow> string option \<Rightarrow> vec \<Rightarrow> memory \<Rightarrow> memory \<times> string list" where
  "secure_buffer_new page failure data mem =
     (if 0 < vc_len data \<and> vc_ptr data \<noteq> 0
      then (mlock page failure (vc_ptr data) (vc_len data) mem,
            case failure of None \<Rightarrow> [] | Some e \<Rightarrow> [''cdp-crypto: mlock warning: '' @ e])
      else (mem, []))"

text \<open>
  \<open>drop\<close>: pointer and length are taken before the vector is erased, since erasing truncates it.
  \<open>zeroize\<close> is the operation of the \<open>zeroize\<close> crate on vectors.
\<close>

definition secure_buffer_drop ::
  "(vec \<Rightarrow> memory \<Rightarrow> memory \<times> vec) \<Rightarrow> nat \<Rightarrow> string option \<Rightarrow> vec \<Rightarrow> memory \<Rightarrow> memory" where
  "secure_buffer_drop zeroize page failure self mem =
     (let ptr = vc_ptr self; len = vc_len self in
      case zeroize self mem of
        (mem, self) \<Rightarrow> if 0 < len \<and> ptr \<noteq> 0 then munlock page failure ptr len mem else mem)"

text \<open>\<open>deref\<close> and \<open>as_ref\<close> give the bytes in use.\<close>

definition secure_buffer_deref :: "vec \<Rightarrow> memory \<Rightarrow> bytes" where
  "secure_buffer_deref self mem = map (mm_byte mem) [vc_ptr self ..< vc_ptr self + vc_len self]"

text \<open>What the crate documents: the whole allocation is overwritten with zeros, the vector becomes empty.\<close>

definition zeroize_ok :: "(vec \<Rightarrow> memory \<Rightarrow> memory \<times> vec) \<Rightarrow> bool" where
  "zeroize_ok zeroize \<longleftrightarrow> (\<forall>v mem.
     mm_byte (fst (zeroize v mem)) = (\<lambda>a. if a \<in> vec_area v then 0 else mm_byte mem a) \<and>
     mm_locked (fst (zeroize v mem)) = mm_locked mem \<and> vc_len (snd (zeroize v mem)) = 0)"

section \<open>Buffers in use\<close>

text \<open>A live buffer with the secret it was made from, and whether its lock was granted.\<close>

record live_buffer =
  lb_vec :: vec
  lb_secret :: bytes
  lb_locked :: bool

definition write_bytes :: "nat \<Rightarrow> bytes \<Rightarrow> memory \<Rightarrow> memory" where
  "write_bytes ptr data mem =
     mem\<lparr>mm_byte := (\<lambda>a. if a \<in> {ptr ..< ptr + length data} then data ! (a - ptr) else mm_byte mem a)\<rparr>"

text \<open>
  The allocator gives a vector a place apart from those in use; the secret is written there and the
  vector becomes a buffer. Buffers are dropped in any order.
\<close>

inductive buffer_step ::
  "(vec \<Rightarrow> memory \<Rightarrow> memory \<times> vec) \<Rightarrow> nat \<Rightarrow> memory \<times> live_buffer list \<Rightarrow> memory \<times> live_buffer list \<Rightarrow> bool"
  for zeroize page where
  made: "vc_ptr v \<noteq> 0 \<Longrightarrow> vc_len v = length secret \<Longrightarrow> vc_len v \<le> vc_cap v \<Longrightarrow>
    \<forall>b \<in> set bs. vec_area v \<inter> vec_area (lb_vec b) = {} \<Longrightarrow>
    secure_buffer_new page failure v (write_bytes (vc_ptr v) secret mem) = (mem', warnings) \<Longrightarrow>
    buffer_step zeroize page (mem, bs) (mem', \<lparr>lb_vec = v, lb_secret = secret, lb_locked = (failure = None)\<rparr> # bs)"
| dropped: "secure_buffer_drop zeroize page failure (lb_vec b) mem = mem' \<Longrightarrow>
    buffer_step zeroize page (mem, bs1 @ b # bs2) (mem', bs1 @ bs2)"

definition buffer_pages :: "nat \<Rightarrow> live_buffer \<Rightarrow> nat set" where
  "buffer_pages page b =
     (if vc_len (lb_vec b) = 0 then {} else page_range page (vc_ptr (lb_vec b)) (vc_len (lb_vec b)))"

section \<open>Lemmas\<close>

lemma mlock_byte [simp]: "mm_byte (mlock page failure ptr len mem) = mm_byte mem"
  by (simp add: mlock_def)

lemma munlock_byte [simp]: "mm_byte (munlock page failure ptr len mem) = mm_byte mem"
  by (simp add: munlock_def)

lemma new_byte: "secure_buffer_new page failure v mem = (mem', w) \<Longrightarrow> mm_byte mem' = mm_byte mem"
  by (auto simp: secure_buffer_new_def split: if_splits)

lemma drop_byte:
  assumes "zeroize_ok zeroize"
  shows "mm_byte (secure_buffer_drop zeroize page failure v mem) a = (if a \<in> vec_area v then 0 else mm_byte mem a)"
  using assms by (simp add: secure_buffer_drop_def zeroize_ok_def case_prod_beta Let_def)

lemma deref_cong:
  assumes "\<forall>a \<in> vec_area v. mm_byte mem' a = mm_byte mem a" "vc_len v \<le> vc_cap v"
  shows "secure_buffer_deref v mem' = secure_buffer_deref v mem"
  using assms by (simp add: secure_buffer_deref_def vec_area_def)

lemma deref_write: "vc_len v = length secret \<Longrightarrow> secure_buffer_deref v (write_bytes (vc_ptr v) secret mem) = secret"
  by (rule nth_equalityI) (simp_all add: secure_buffer_deref_def write_bytes_def)

text \<open>Live buffers are apart from each other and hold their secrets.\<close>

fun areas_apart :: "live_buffer list \<Rightarrow> bool" where
  "areas_apart [] \<longleftrightarrow> True"
| "areas_apart (b # bs) \<longleftrightarrow> (\<forall>c \<in> set bs. vec_area (lb_vec b) \<inter> vec_area (lb_vec c) = {}) \<and> areas_apart bs"

lemma areas_apart_append: "areas_apart (bs @ cs) \<longleftrightarrow> areas_apart bs \<and> areas_apart cs \<and>
  (\<forall>b \<in> set bs. \<forall>c \<in> set cs. vec_area (lb_vec b) \<inter> vec_area (lb_vec c) = {})"
  by (induction bs) auto

definition holds_secret :: "memory \<Rightarrow> live_buffer \<Rightarrow> bool" where
  "holds_secret mem b \<longleftrightarrow> vc_ptr (lb_vec b) \<noteq> 0 \<and> vc_len (lb_vec b) \<le> vc_cap (lb_vec b) \<and>
     secure_buffer_deref (lb_vec b) mem = lb_secret b"

definition live_ok :: "memory \<Rightarrow> memory \<times> live_buffer list \<Rightarrow> bool" where
  "live_ok mem0 s \<longleftrightarrow> areas_apart (snd s) \<and> (\<forall>b \<in> set (snd s). holds_secret (fst s) b) \<and>
     (\<forall>a. (\<forall>b \<in> set (snd s). a \<notin> vec_area (lb_vec b)) \<longrightarrow>
        mm_byte (fst s) a = mm_byte mem0 a \<or> mm_byte (fst s) a = 0)"

lemma holds_secret_cong:
  assumes "holds_secret mem b" "\<forall>a \<in> vec_area (lb_vec b). mm_byte mem' a = mm_byte mem a"
  shows "holds_secret mem' b"
  using assms deref_cong [of "lb_vec b" mem' mem] by (simp add: holds_secret_def)

lemma buffer_step_ok:
  assumes "buffer_step zeroize page s s'" "zeroize_ok zeroize" "live_ok mem0 s"
  shows "live_ok mem0 s'"
  using assms(1)
proof cases
  case (made v secret bs failure mem mem' warnings)
  have bytes: "mm_byte mem' = mm_byte (write_bytes (vc_ptr v) secret mem)" using made(7) by (rule new_byte)
  have area: "a \<in> vec_area v" if "mm_byte mem' a \<noteq> mm_byte mem a" for a
    using that made(4,5) by (auto simp: bytes write_bytes_def vec_area_def split: if_splits)
  have outside: "mm_byte mem' a = mm_byte mem a" if "a \<notin> vec_area v" for a using area that by blast
  have "holds_secret mem' b" if "b \<in> set bs" for b
  proof (rule holds_secret_cong [of mem])
    show "holds_secret mem b" using assms(3) made(1) that by (simp add: live_ok_def)
    show "\<forall>a \<in> vec_area (lb_vec b). mm_byte mem' a = mm_byte mem a" using area made(6) that by blast
  qed
  moreover have "secure_buffer_deref v mem' = secret"
    using deref_write [OF made(4)] by (simp add: secure_buffer_deref_def bytes)
  then have "holds_secret mem' \<lparr>lb_vec = v, lb_secret = secret, lb_locked = (failure = None)\<rparr>"
    using made(3-5) by (simp add: holds_secret_def)
  ultimately show ?thesis using assms(3) made(1,2,6) outside by (simp add: live_ok_def)
next
  case (dropped failure b mem mem' bs1 bs2)
  have bytes: "mm_byte mem' a = (if a \<in> vec_area (lb_vec b) then 0 else mm_byte mem a)" for a
    using drop_byte [OF assms(2)] dropped(3) by blast
  have apart: "vec_area (lb_vec c) \<inter> vec_area (lb_vec b) = {}" if "c \<in> set (bs1 @ bs2)" for c
    using assms(3) that dropped(1) by (auto simp: live_ok_def areas_apart_append)
  have "holds_secret mem' c" if "c \<in> set (bs1 @ bs2)" for c
  proof (rule holds_secret_cong [of mem])
    show "holds_secret mem c" using assms(3) that dropped(1) by (auto simp: live_ok_def)
    show "\<forall>a \<in> vec_area (lb_vec c). mm_byte mem' a = mm_byte mem a" using apart [OF that] bytes by auto
  qed
  then show ?thesis using assms(3) dropped(1,2) bytes by (auto simp: live_ok_def areas_apart_append)
qed

lemma buffer_run_ok:
  assumes "(buffer_step zeroize page)\<^sup>*\<^sup>* (mem0, []) s" "zeroize_ok zeroize"
  shows "live_ok mem0 s"
  using assms(1)
proof (induction rule: rtranclp_induct)
  case base
  show ?case by (simp add: live_ok_def)
next
  case (step s s')
  show ?case using buffer_step_ok [OF step.hyps(2) assms(2) step.IH] .
qed

section \<open>Locks\<close>

lemma new_locked:
  assumes "secure_buffer_new page failure v mem = (mem', w)"
  shows "mm_locked mem' = mm_locked mem \<union>
    (if 0 < vc_len v \<and> vc_ptr v \<noteq> 0 \<and> failure = None then page_range page (vc_ptr v) (vc_len v) else {})"
  using assms by (auto simp: secure_buffer_new_def mlock_def split: if_splits)

lemma drop_locked:
  assumes "zeroize_ok zeroize"
  shows "mm_locked (secure_buffer_drop zeroize page failure v mem) = mm_locked mem -
    (if 0 < vc_len v \<and> vc_ptr v \<noteq> 0 \<and> failure = None then page_range page (vc_ptr v) (vc_len v) else {})"
  using assms by (auto simp: secure_buffer_drop_def zeroize_ok_def case_prod_beta Let_def munlock_def)

text \<open>Buffers that do not share a page, as a condition on the allocator.\<close>

fun pages_apart :: "nat \<Rightarrow> live_buffer list \<Rightarrow> bool" where
  "pages_apart page [] \<longleftrightarrow> True"
| "pages_apart page (b # bs) \<longleftrightarrow> (\<forall>c \<in> set bs. buffer_pages page b \<inter> buffer_pages page c = {}) \<and> pages_apart page bs"

lemma pages_apart_append: "pages_apart page (bs @ cs) \<longleftrightarrow> pages_apart page bs \<and> pages_apart page cs \<and>
  (\<forall>b \<in> set bs. \<forall>c \<in> set cs. buffer_pages page b \<inter> buffer_pages page c = {})"
  by (induction bs) auto

definition apart_step ::
  "(vec \<Rightarrow> memory \<Rightarrow> memory \<times> vec) \<Rightarrow> nat \<Rightarrow> memory \<times> live_buffer list \<Rightarrow> memory \<times> live_buffer list \<Rightarrow> bool" where
  "apart_step zeroize page s s' \<longleftrightarrow> buffer_step zeroize page s s' \<and> pages_apart page (snd s')"

definition locks_kept :: "nat \<Rightarrow> memory \<times> live_buffer list \<Rightarrow> bool" where
  "locks_kept page s \<longleftrightarrow> pages_apart page (snd s) \<and>
     (\<forall>b \<in> set (snd s). lb_locked b \<longrightarrow> buffer_pages page b \<subseteq> mm_locked (fst s))"

lemma apart_step_locks:
  assumes "apart_step zeroize page s s'" "zeroize_ok zeroize" "locks_kept page s"
  shows "locks_kept page s'"
proof -
  from assms(1) have step: "buffer_step zeroize page s s'" and apart: "pages_apart page (snd s')"
    by (simp_all add: apart_step_def)
  from step show ?thesis
  proof cases
    case (made v secret bs failure mem mem' warnings)
    let ?b = "\<lparr>lb_vec = v, lb_secret = secret, lb_locked = (failure = None)\<rparr>"
    have locked: "mm_locked mem' = mm_locked mem \<union> (if failure = None then buffer_pages page ?b else {})"
      using new_locked [OF made(7)] made(3) by (simp add: write_bytes_def buffer_pages_def)
    moreover from locked assms(3) made(1) have "\<forall>c \<in> set bs. lb_locked c \<longrightarrow> buffer_pages page c \<subseteq> mm_locked mem'"
      by (fastforce simp: locks_kept_def)
    ultimately show ?thesis using made(2) apart by (simp add: locks_kept_def)
  next
    case (dropped failure b mem mem' bs1 bs2)
    have "mm_locked mem - buffer_pages page b \<subseteq> mm_locked mem'"
      using drop_locked [OF assms(2)] dropped(3) by (auto simp: buffer_pages_def)
    moreover have "buffer_pages page c \<inter> buffer_pages page b = {}" if "c \<in> set (bs1 @ bs2)" for c
      using assms(3) that dropped(1) by (auto simp: locks_kept_def pages_apart_append)
    ultimately show ?thesis using assms(3) dropped(1,2) apart by (fastforce simp: locks_kept_def)
  qed
qed

section \<open>Two buffers in one page\<close>

definition clear :: "vec \<Rightarrow> memory \<Rightarrow> memory \<times> vec" where
  "clear v mem = (mem\<lparr>mm_byte := (\<lambda>a. if a \<in> vec_area v then 0 else mm_byte mem a)\<rparr>, v\<lparr>vc_len := 0\<rparr>)"

definition mem_start :: memory where
  "mem_start = \<lparr>mm_byte = \<lambda>_. 0, mm_locked = {}\<rparr>"

definition small_buffer :: "nat \<Rightarrow> u8 \<Rightarrow> live_buffer" where
  "small_buffer ptr secret =
     \<lparr>lb_vec = \<lparr>vc_ptr = ptr, vc_len = 1, vc_cap = 1\<rparr>, lb_secret = [secret], lb_locked = True\<rparr>"

definition mem_end :: memory where
  "mem_end = secure_buffer_drop clear 4096 None (lb_vec (small_buffer 4096 7))
     (mlock 4096 None 4128 1 (write_bytes 4128 [9] (mlock 4096 None 4096 1 (write_bytes 4096 [7] mem_start))))"

lemma clear_ok: "zeroize_ok clear"
  by (simp add: zeroize_ok_def clear_def)

lemma small_buffer_made:
  assumes "0 < ptr" "\<forall>b \<in> set bs. ptr \<notin> vec_area (lb_vec b)"
  shows "buffer_step clear page (mem, bs) (mlock page None ptr 1 (write_bytes ptr [x] mem), small_buffer ptr x # bs)"
  using buffer_step.made [of "\<lparr>vc_ptr = ptr, vc_len = 1, vc_cap = 1\<rparr>" "[x]" bs page None mem _ "[]" clear] assms
  by (simp add: secure_buffer_new_def small_buffer_def vec_area_def)

lemma two_buffers_run: "(buffer_step clear 4096)\<^sup>*\<^sup>* (mem_start, []) (mem_end, [small_buffer 4128 9])"
proof -
  let ?b1 = "small_buffer 4096 7" and ?b2 = "small_buffer 4128 9"
  let ?m1 = "mlock 4096 None 4096 1 (write_bytes 4096 [7] mem_start)"
  let ?m2 = "mlock 4096 None 4128 1 (write_bytes 4128 [9] ?m1)"
  have "buffer_step clear 4096 (mem_start, []) (?m1, [?b1])" by (rule small_buffer_made) simp_all
  moreover have "buffer_step clear 4096 (?m1, [?b1]) (?m2, [?b2, ?b1])"
    by (rule small_buffer_made) (simp_all add: small_buffer_def vec_area_def)
  moreover have "buffer_step clear 4096 (?m2, [?b2] @ ?b1 # []) (mem_end, [?b2] @ [])"
    by (rule buffer_step.dropped) (simp add: mem_end_def)
  ultimately show ?thesis by (auto intro: converse_rtranclp_into_rtranclp)
qed

section \<open>Properties\<close>

text \<open>
  C40. Secrets do not outlive their buffers: however buffers are made and dropped, each live one reads as the
  secret it was made from, and an address that belongs to none of them holds zero or what it held before
  the first buffer was made.
\<close>

theorem secrets_end_with_buffers:
  assumes "zeroize_ok zeroize" "(buffer_step zeroize page)\<^sup>*\<^sup>* (mem0, []) (mem, bs)"
  shows "(\<forall>b \<in> set bs. secure_buffer_deref (lb_vec b) mem = lb_secret b) \<and>
    (\<forall>a. (\<forall>b \<in> set bs. a \<notin> vec_area (lb_vec b)) \<longrightarrow> mm_byte mem a = mm_byte mem0 a \<or> mm_byte mem a = 0)"
  using buffer_run_ok [OF assms(2,1)] by (simp add: live_ok_def holds_secret_def)

text \<open>As long as no two buffers share a page, a live buffer whose lock was granted stays locked.\<close>

theorem unshared_buffers_stay_locked:
  assumes "zeroize_ok zeroize" "(apart_step zeroize page)\<^sup>*\<^sup>* (mem0, []) (mem, bs)" "b \<in> set bs" "lb_locked b"
  shows "buffer_pages page b \<subseteq> mm_locked mem"
proof -
  have "locks_kept page (mem0, [])" by (simp add: locks_kept_def)
  with assms(2) have "locks_kept page (mem, bs)"
    by (induction rule: rtranclp_induct) (auto intro: apart_step_locks [OF _ assms(1)])
  with assms(3,4) show ?thesis by (simp add: locks_kept_def)
qed

text \<open>
  When one of two buffers in a page is dropped, the page is unlocked, and the other, which is live and
  whose lock was granted, can be written to swap.
\<close>

theorem shared_page_unlocked:
  "\<exists>mem b. (buffer_step clear 4096)\<^sup>*\<^sup>* (mem_start, []) (mem, [b]) \<and> lb_locked b \<and>
     buffer_pages 4096 b \<noteq> {} \<and> buffer_pages 4096 b \<inter> mm_locked mem = {}"
proof -
  have "buffer_pages 4096 (small_buffer 4128 9) = {1}" by (simp add: buffer_pages_def page_range_def small_buffer_def)
  moreover have "1 \<notin> mm_locked mem_end" by (simp add: mem_end_def drop_locked [OF clear_ok] page_range_def small_buffer_def)
  ultimately show ?thesis using two_buffers_run by (intro exI [of _ mem_end] exI [of _ "small_buffer 4128 9"]) (simp add: small_buffer_def)
qed

theorem secrets_end_with_buffers_witness:
  "secure_buffer_deref \<lparr>vc_ptr = 4128, vc_len = 1, vc_cap = 1\<rparr> mem_end = [9] \<and> mm_byte mem_end 4096 = 0"
  using secrets_end_with_buffers [OF clear_ok two_buffers_run]
  by (auto simp: small_buffer_def vec_area_def mem_start_def)

end
