(* ===== verification/Spec2Isabelle.thy ===== *)
theory Spec2Isabelle
  imports Cdp_Gate_Main Cdp_Gate_Tls Cdp_Proxy_Ca Cdp_Proxy_Server Cdp_Browser_Login Cdp_Policy_Watcher
    Cdp_Gate_Entry Cdp_Proxy_Credential Cdp_Tasks Cdp_Secure_Memory
begin

text \<open>
  A verification development for the credential delivery gate: a daemon that hands agents
  short-lived leases on credentials and injects the credentials itself, in a local HTTP proxy,
  so that an agent never holds them.

  \<^bold>\<open>The program.\<close> An agent connects to the gate's Unix socket (\<open>crates/cdp-gate\<close>), registers and is
  fingerprinted through \<open>/proc\<close>, and asks for a credential. The policy engine
  (\<open>crates/cdp-policy\<close>) matches the agent against the policy files, intersects the requested scope
  with the policy and may ask the user. An approved request becomes a lease of the lease manager
  (\<open>crates/cdp-lease\<close>) with a token, a channel-binding nonce and pinned addresses
  (\<open>crates/cdp-crypto\<close>), and a listener of the proxy (\<open>crates/cdp-proxy\<close>) is bound to it. Each
  request to that listener is authenticated, counted, checked against the scope, resolved to a
  pinned address, given the credential and forwarded, redirects included. Everything is recorded
  in a hash-chained audit log (\<open>crates/cdp-audit\<close>). When the agent's process ends, the root leases
  the agent holds are revoked with all below them, and their listeners stopped. The credentials come from a vault (\<open>crates/cdp-vault\<close>): an
  encrypted file, or a worker process that runs the command line client of Bitwarden.

  \<^bold>\<open>Theories, in the order of their imports.\<close>

  \<^item> \<open>Cdp_Prelude\<close>: strings as UTF-8 bytes, Rust's text functions, hexadecimal codecs, the type
    \<open>outcome\<close> whose value \<open>Panic\<close> is a panic, and the collections of shared lemmas.
  \<^item> \<open>Cdp_Glob\<close> (\<open>glob.rs\<close>): the stack-based path matcher, shown to end and to decide the
    declarative meaning of a pattern.
  \<^item> \<open>Cdp_Policy_Types\<close>, \<open>Cdp_Policy_Parser\<close>, \<open>Cdp_Policy_Eval\<close>, \<open>Cdp_Policy_Approval\<close>
    (\<open>types.rs\<close>, \<open>parser.rs\<close>, \<open>evaluator.rs\<close>, \<open>approval.rs\<close>, \<open>lib.rs\<close>): data, validation and
    loading of policy files, the three matching passes, scope intersection, decisions, the dialog
    programs and the engine. The lemmas say which entry decides, what is granted, and what an
    approval rests on.
  \<^item> \<open>Cdp_Crypto\<close> (\<open>hmac_ops.rs\<close>, \<open>hkdf_ops.rs\<close>, \<open>cipher.rs\<close>, \<open>mempool.rs\<close>): tokens and derivations over
    an abstract keyed hash; messages of different tokens never coincide.
  \<^item> \<open>Cdp_Audit\<close> (\<open>logger.rs\<close>, \<open>integrity.rs\<close>): writing and verifying the chain.
  \<^item> \<open>Cdp_Lease_Types\<close>, \<open>Cdp_Lease_Manager\<close>, \<open>Cdp_Lease_Delegation\<close>, \<open>Cdp_Lease_Steps\<close>,
    \<open>Cdp_Lease_Ops\<close> (\<open>types.rs\<close>, \<open>channel_bind.rs\<close>, \<open>dns_pin.rs\<close>, \<open>manager.rs\<close>, \<open>delegation.rs\<close>,
    \<open>liveness.rs\<close>): leases and every operation on them. \<open>lstep\<close> interleaves the sections between
    two acquisitions of a lock; \<open>ostep\<close> runs whole operations, and each is shown to be a run of
    sections. Invariants: the delegation tree, closure of revocation, limits, tokens and pins, and,
    for whole operations, that the agent index covers every active root lease.
  \<^item> \<open>Cdp_Proxy_Scope\<close>, \<open>Cdp_Proxy_Auth\<close>, \<open>Cdp_Proxy_Http\<close>, \<open>Cdp_Proxy_Manager\<close> (\<open>scope.rs\<close>,
    \<open>redirect.rs\<close>, \<open>sanitizer.rs\<close>, \<open>dns.rs\<close>, \<open>lib.rs\<close>, \<open>auth.rs\<close>, \<open>http.rs\<close>, \<open>manager.rs\<close>): the request
    pipeline and the pool of listeners. What is sent upstream is a list of \<open>outbound\<close> values; the
    redirect loop is bounded by the hop limit of the code, which is its recursion argument.
  \<^item> \<open>Cdp_Proxy_Server\<close> (\<open>http.rs\<close>): the accept loop of a listener and the tasks of its connections,
    interleaved with operations on leases; after the revocation of a lease only requests that are in
    flight are still sent.
  \<^item> \<open>Cdp_Gate_Verify\<close>, \<open>Cdp_Gate_Router\<close> (\<open>types.rs\<close>, \<open>error.rs\<close>, \<open>agent_verify.rs\<close>, \<open>router.rs\<close>):
    fingerprints, sessions, replay protection, the handlers of the router and the loop of a
    connection.
  \<^item> \<open>Cdp_Gate_System\<close>, \<open>Cdp_Gate_Run\<close>, \<open>Cdp_Gate_Props\<close> (\<open>main.rs\<close>, \<open>router.rs\<close>): the running gate as an
    interleaving of the sections of its handlers, its invariant, a concrete run, and what the whole
    guarantees.
  \<^item> \<open>Cdp_Vault\<close>, \<open>Cdp_Vault_File\<close> (\<open>protocol.rs\<close>, \<open>bitwarden.rs\<close>, \<open>child_main.rs\<close>, \<open>subprocess.rs\<close>,
    \<open>file.rs\<close>): framed messages, the backend over the client, the worker and its manager, and the
    file vault. The byte loop of the worker refines the backend, the manager refines it through the
    worker, and what a vault hands out decrypts to what it holds.
  \<^item> \<open>Cdp_Gate_Config\<close>, \<open>Cdp_Gate_Main\<close> (\<open>config.rs\<close>, \<open>listener.rs\<close>, \<open>fingerprint.rs\<close>, \<open>main.rs\<close>): settings,
    socket and fingerprint file over a map from paths to modes and contents, the start with every
    early return, the credential providers, the audit task and the orderly end. A started gate is
    an initial state of the interleaving above, and requests carry the credential of the vault.
  \<^item> \<open>Cdp_Token\<close> (\<open>issuer.rs\<close>, \<open>revocation.rs\<close>, \<open>validator.rs\<close>): tokens between agents, the
    single acceptance of an identifier up to its expiry, and attestation by certificate or OpenID token.
  \<^item> \<open>Cdp_Gate_Tls\<close> (\<open>tls_listener.rs\<close>): the listener for remote clients and the identity it reads
    from a certificate.
  \<^item> \<open>Cdp_Browser_Cookies\<close>, \<open>Cdp_Browser_Login\<close> (\<open>cookies.rs\<close>, \<open>sandbox.rs\<close>, \<open>snapshot.rs\<close>): the store of session
    cookies, and the login with a sandboxed browser that fills it. The commands sent to the browser
    are a beginning of the login script, and the login over the stream of frames refines a
    conversation that reads answers by number.
  \<^item> \<open>Cdp_Proxy_Mitm\<close>, \<open>Cdp_Proxy_Ca\<close> (\<open>mitm.rs\<close>, \<open>mitm_ca.rs\<close>): the interception of TLS that injects the
    cookies, with the exact effect of the two functions that rewrite the head of a message, and its
    certificate authority, whose certificates stay within its name constraints.
  \<^item> \<open>Cdp_Policy_Watcher\<close> (\<open>watcher.rs\<close>): the loop that reloads policies, the search for the process that
    changed a file, and which changes of the directory are noticed and followed.
  \<^item> \<open>Cdp_Sdk\<close>, \<open>Cdp_Wrap\<close> (\<open>crates/cdp-sdk\<close>, \<open>crates/cdp-cli-wrap\<close>): the client library and the command
    wrapper, with the gate at the other end of their socket. A request of the client is shown to be
    authenticated by the proxy; a wrapped command is shown to be refused.
  \<^item> \<open>Cdp_Sandbox\<close> (\<open>sandbox.rs\<close> of \<open>cdp-vault\<close>, \<open>namespace.rs\<close>, \<open>zeroize_utils.rs\<close>): what confinement does to the
    attributes of the vault worker and of an isolated child, and what of it survives the execution
    of a program.
  \<^item> \<open>Cdp_Gate_Entry\<close> (\<open>main.rs\<close>, \<open>subprocess.rs\<close>): the entry of the binary, which is the gate or the vault worker; the
    descriptors and arguments with which the gate starts the worker, read back and confined; and the
    life of the gate up to the signal that ends it.
  \<^item> \<open>Cdp_Proxy_Credential\<close> (\<open>credential.rs\<close>): the interface of credential providers and the one with a table.
  \<^item> \<open>Cdp_Tasks\<close> (\<open>manager.rs\<close>, \<open>revocation.rs\<close>): the tasks that mark expired leases and prune expired tokens; what
    is overdue is settled one period later.
  \<^item> \<open>Cdp_Secure_Memory\<close> (\<open>mempool.rs\<close>): buffers that lock and erase their memory, over a map from addresses to
    bytes and a set of locked pages; secrets end with their buffers.
  \<^item> This theory: the property that spans policy, gate, leases and proxy.

  \<^bold>\<open>Conventions.\<close> Structures are records, enumerations datatypes, results sums with the error on the
  left, maps functions to options; 16, 32 and 64 bit integers are words and wrap. A handler takes
  the state and returns the new state with its result. Times are nanoseconds in \<open>int\<close>, and
  \<open>chrono\<close>'s conversions are an argument with the law \<open>chrono_ok\<close>. Third-party code, the operating
  system, clocks and randomness are arguments: hash functions, TOML, JSON and URI parsers,
  resolver, glob compiler, dialogs, \<open>/proc\<close>, the LRU cache of nonces. A property that relies on
  one of them names what it needs (\<open>chrono_ok\<close>, \<open>globset_ok\<close>, \<open>to_str_ok\<close>, \<open>lru_ok\<close>) and has a
  witness with a concrete function.

  \<^bold>\<open>Interfaces.\<close> Locales state what one part relies on in another: hexadecimal decoders, framed
  messages, limits and body constraints, scope preorders, comparison of bindings, the lease store
  as the proxy sees it, the port pool, the registry of used tokens, streams of messages,
  credential vaults and providers, periodic tasks, and clients that exchange lines; each is
  interpreted on the model's definitions.

  \<^bold>\<open>Loops.\<close> The collection of descendants is a \<open>partial_function\<close>, since on a cyclic store it would
  not end; on every reachable store it is shown to return. All other recursions are structural or
  have a termination proof, so the functions are total.

  \<^bold>\<open>Atomicity.\<close> In the lease crate the sections between locks interleave. In the gate's system the
  handlers interleave at their awaits: a request or a death that has been begun and not finished is a
  value of \<open>gate_task\<close>, which \<open>task_step\<close> resumes for one section; a whole handler is also a step, and is
  shown to be a run of its sections. There an operation of the lease manager is one section, and so
  is the search for the registration with the evaluation that follows it. Requests of one listener
  read the lease for authentication from a state that may be older than the one in which the use is
  counted; the pipeline has both as arguments. In the server loop a request whose use has been
  counted is in flight, and what it sends is sent step by step.

  \<^bold>\<open>Not modelled.\<close> Sockets, TLS, files and processes as such: what an operation of theirs answers is an
  argument. Logging, which has no effect on the state, the text forms of values for debugging, and
  accessors that return a field. The erasure of keys and passwords that are not held in a buffer.
\<close>

section \<open>From a grant to the wire\<close>

lemma forwarded_within_lease:
  assumes "handle_request px now mgr mgr ra i key req = Ret (leases, sent, aud, resp)" "ob \<in> set sent"
    and "lm_leases mgr i = Some l"
  obtains body where "outbound_ok px req body l ob" "scope_methods (l_granted_scope l) = [] \<or>
    (\<exists>m \<in> set (scope_methods (l_granted_scope l)). eq_ignore_ascii_case m (ob_method ob))"
proof -
  from assms(1) obtain r where run: "handle_request_inner px now mgr mgr ra i key req = Ret (leases, sent, aud, r)"
    by (auto simp: handle_request_def split: outcome.splits sum.splits)
  have "sent \<noteq> [] \<or> r = Inr resp'" for resp' using assms(2) by auto
  from run this show thesis
  proof (rule forwarded_course)
    fix body l' host
    assume use: "use_lease now mgr i = (leases, Inr l')"
      and valid: "validate_request (px_globs px) (px_from_slice px) (rq_method req) host (uri_path (rq_uri req))
         (extract_header (px_to_str px) (rq_headers req) ''content-type'')
         (if body = [] then None else Some body) (l_granted_scope l') = Inr ()"
      and sent: "\<forall>ob \<in> set sent. outbound_ok px req body l' ob"
    from store.use_granted [OF use] assms(3) have l': "l' = l\<lparr>l_requests_used := l_requests_used l + 1\<rparr>" by auto
    from valid have "validate_method (rq_method req) (scope_methods (l_granted_scope l')) = Inr ()"
      by (auto simp: validate_request_def split: sum.splits)
    with l' sent assms(2) show thesis
      by (intro that [of body])
        (auto simp: outbound_ok_def validate_method_def list_ex_iff split: if_splits)
  qed
qed

lemma pinned_host_granted:
  assumes "gate_ok hmac ch now self" "chrono_ok ch" "lm_leases (rt_lease_manager self) i = Some l"
    and "verify_dns (l_dns_pinned_ips l) host ip"
  shows "host \<in> set (scope_hosts (l_granted_scope l))"
proof -
  from assms(1) obtain t where "oreach hmac ch t (rt_lease_manager self)" by (auto simp: gate_ok_def)
  from reachable_all_ok [OF oreach_reachable [OF this] assms(2)] assms(3)
  have "dom (l_dns_pinned_ips l) = set (scope_hosts (l_granted_scope l))"
    by (auto simp: all_ok_def lease_ok_def)
  with assms(4) show ?thesis by (auto simp: verify_dns_def split: option.splits)
qed

text \<open>
  C1. From the grant to the wire. When a reachable gate grants a credential request, then in every
  later state every request the proxy sends for that lease goes to an address pinned for a host
  that is on the granted list, that the agent asked for and that a validated policy of the gate
  allows, each list admitting everything when it is empty, with a method that is on the granted
  list.
\<close>

theorem forwarded_only_as_granted:
  assumes "greach ops hmac ch now self" "chrono_ok ch"
    and "gate_handle_request env t now self raw peer conn = (self1, Ret resp)" "js_result resp = Some (Granted g)"
    and "gstep ops hmac ch now self self1" "(tstep ops hmac ch)\<^sup>*\<^sup>* (now, self1) (now2, self2)"
    and "handle_request px now2 (rt_lease_manager self2) (rt_lease_manager self2) ra (rcr_lease_id g)
      (rt_gate_key self2) req = Ret (leases, sent, aud, r)" "ob \<in> set sent"
  shows "\<exists>request params e l host. gt_from_slice env raw = Inr request \<and>
    gt_request_params env (jr_params request) = Inr params \<and>
    e \<in> set (ev_policies (eng_evaluator (rt_policy_engine self))) \<and> validate_policy e = Inr () \<and>
    lm_leases (rt_lease_manager self2) (rcr_lease_id g) = Some l \<and>
    verify_dns (l_dns_pinned_ips l) host (ob_ip ob) \<and> host \<in> set (rsc_hosts (rcr_granted_scope g)) \<and>
    open_list (rsc_hosts (rc_scope params)) host \<and> open_list (al_hosts (pe_allow e)) host \<and>
    (rsc_methods (rcr_granted_scope g) = [] \<or>
      (\<exists>m \<in> set (rsc_methods (rcr_granted_scope g)). eq_ignore_ascii_case m (ob_method ob)))"
proof -
  note ok = greach_ok [OF assms(1)]
  obtain request params where req: "gt_from_slice env raw = Inr request"
    "gt_request_params env (jr_params request) = Inr params" and grant: "grant_ok env t self self1 peer conn request params g"
    using assms(3,4) by (rule gate_handle_request_Granted)
  from grant obtain reg granted pname pcons l1 where
    dec: "evaluate_with_approval (gt_gui env) (rt_policy_engine self) (registration_info reg) (rc_credential_ref params)
      (scope_of_request (rc_scope params)) (rc_reason params) = Ret (Inr (AutoApprove granted pname pcons))"
    and l1: "lm_leases (rt_lease_manager self1) (rcr_lease_id g) = Some l1" "l_granted_scope l1 = granted"
      "rcr_granted_scope g = granted_scope_info granted"
    unfolding grant_ok_def by blast
  have "engine_ok (rt_policy_engine self)" using ok by (simp add: gate_ok_def)
  then obtain e where e: "e \<in> set (ev_policies (eng_evaluator (rt_policy_engine self)))" "validate_policy e = Inr ()"
    and meet: "intersect_scope (scope_of_request (rc_scope params)) (pe_allow e) = Some granted"
    using dec by (rule approved_scope)
  have ok1: "gate_ok hmac ch now self1" using gstep_ok [OF assms(5) ok order_refl] .
  from tsteps_same_grant [OF assms(6) ok1 l1(1)] l1(2) obtain l where
    l: "lm_leases (rt_lease_manager self2) (rcr_lease_id g) = Some l" "l_granted_scope l = granted"
    by (auto simp: same_grant_def)
  obtain body where out: "outbound_ok px req body l ob" and meth: "scope_methods (l_granted_scope l) = [] \<or>
      (\<exists>m \<in> set (scope_methods (l_granted_scope l)). eq_ignore_ascii_case m (ob_method ob))"
    using assms(7,8) l(1) by (rule forwarded_within_lease)
  from out obtain host where host: "verify_dns (l_dns_pinned_ips l) host (ob_ip ob)" by (auto simp: outbound_ok_def)
  have "host \<in> set (scope_hosts granted)"
    using pinned_host_granted [OF _ assms(2) l(1) host] tsteps_ok [OF assms(6) ok1] l(2) by blast
  moreover from this have "open_list (scope_hosts granted) host" by (simp add: open_list_def)
  then have "open_list (rsc_hosts (rc_scope params)) host" "open_list (al_hosts (pe_allow e)) host"
    using narrow_list_Some [OF intersect_scope_parts(1) [OF meet], of host] by (simp_all add: scope_of_request_def)
  ultimately show ?thesis
    using req e l(1) host meth l(2) l1(3)
    by (intro exI [of _ request] exI [of _ params] exI [of _ e] exI [of _ l] exI [of _ host])
      (simp add: granted_scope_info_def)
qed

theorem forwarded_only_as_granted_witness:
  "\<exists>leases sent aud r. handle_request sample_proxy 0 run_mgr run_mgr sample_peer ''01'' [7] sample_request =
     Ret (leases, sent, aud, r) \<and> sent \<noteq> [] \<and>
   (\<forall>ob \<in> set sent. \<exists>host l. lm_leases run_mgr ''01'' = Some l \<and>
      verify_dns (l_dns_pinned_ips l) host (ob_ip ob) \<and> host \<in> {''h''})"
proof -
  obtain leases sent aud r where run: "handle_request sample_proxy 0 run_mgr run_mgr sample_peer ''01'' [7]
      sample_request = Ret (leases, sent, aud, r)" and sent: "sent \<noteq> []"
    using run_forwards by blast
  have "\<exists>host l. lm_leases run_mgr ''01'' = Some l \<and>
      verify_dns (l_dns_pinned_ips l) host (ob_ip ob) \<and> host \<in> {''h''}" if ob: "ob \<in> set sent" for ob
  proof -
    have id: "rcr_lease_id run_grant = ''01''" and hosts: "set (rsc_hosts (rcr_granted_scope run_grant)) = {''h''}"
      by (simp_all add: run_grant_def granted_scope_info_def run_scope_def sample_scope_def scope_default_def)
    have res: "js_result (rpc_success JNull (Granted run_grant)) = Some (Granted run_grant)"
      by (simp add: rpc_success_def)
    from run have "handle_request sample_proxy 0 (rt_lease_manager gate2) (rt_lease_manager gate2) sample_peer
        (rcr_lease_id run_grant) (rt_gate_key gate2) sample_request = Ret (leases, sent, aud, r)"
      by (simp only: gate2_parts(2,5) id)
    from forwarded_only_as_granted [OF gate1_reach sample_chrono_ok run_grants res gate2_step rtranclp.rtrancl_refl this ob]
    show ?thesis unfolding gate2_parts(5) id hosts by blast
  qed
  with run sent show ?thesis by blast
qed

end
